(* ===== verification/Prelude.thy ===== *)
theory Prelude
  imports
    Complex_Main
    "HOL-Library.Word"
    "HOL-Library.Multiset"
    "HOL-Library.List_Lexorder"
    "HOL-Library.Char_ord"
begin

text \<open>
  Shared vocabulary of the development: the C++ types and library pieces that several components
  use, the transition systems in which the concurrent components are stated, and the generic
  lemmas their proofs share.

  \<^item> A C++ \<^verbatim>\<open>double\<close> is a \<^typ>\<open>real\<close>: the arithmetic is exact, rounding and NaN are not modelled.
  \<^item> A C++ \<^verbatim>\<open>size_t\<close> that the code decrements or adds up is a 64-bit word, so that wrap-around is
    part of the model; sizes of containers are \<^typ>\<open>nat\<close>.
  \<^item> A C++ exception is a value of \<open>cpp_exception\<close>, and a call that may throw returns a sum.
  \<^item> A \<^verbatim>\<open>std::map\<close> is an association list sorted by key, which is the order in which the code
    iterates over it; \<^verbatim>\<open>std::string\<close> keys are compared byte-wise, as \<open>List_Lexorder\<close> and
    \<open>Char_ord\<close> do.
\<close>

section \<open>Proof collections\<close>

named_theorems inv_defs \<open>definitions of component invariants\<close>
named_theorems op_defs \<open>definitions of component operations\<close>

section \<open>C++ values\<close>

type_synonym size_t = "64 word"

datatype cpp_exception =
    Runtime_error string
  | Invalid_argument string
  | Out_of_range string
  | Json_parse_error string
  | Json_out_of_range string
  | Json_type_error string
  | Broken_connection string
  | Sql_error string

type_synonym 'a cpp = "cpp_exception + 'a"

fun what :: "cpp_exception \<Rightarrow> string" where
  "what (Runtime_error m) = m"
| "what (Invalid_argument m) = m"
| "what (Out_of_range m) = m"
| "what (Json_parse_error m) = m"
| "what (Json_out_of_range m) = m"
| "what (Json_type_error m) = m"
| "what (Broken_connection m) = m"
| "what (Sql_error m) = m"

definition cbind :: "'a cpp \<Rightarrow> ('a \<Rightarrow> 'b cpp) \<Rightarrow> 'b cpp" where
  "cbind m f = (case m of Inl e \<Rightarrow> Inl e | Inr x \<Rightarrow> f x)"

lemma cbind_simps [simp]: "cbind (Inl e) f = Inl e" "cbind (Inr x) f = f x"
  by (simp_all add: cbind_def)

lemma cbind_Inr_iff: "cbind m f = Inr y \<longleftrightarrow> (\<exists>x. m = Inr x \<and> f x = Inr y)"
  by (cases m) simp_all

text \<open>The loop that fills a container, stopping at the first exception.\<close>

primrec cmap :: "('a \<Rightarrow> 'b cpp) \<Rightarrow> 'a list \<Rightarrow> 'b list cpp" where
  "cmap f [] = Inr []"
| "cmap f (x # xs) = cbind (f x) (\<lambda>y. cbind (cmap f xs) (\<lambda>ys. Inr (y # ys)))"

lemma cmap_Inr [simp]: "(\<And>x. x \<in> set xs \<Longrightarrow> f x = Inr (g x)) \<Longrightarrow> cmap f xs = Inr (map g xs)"
  by (induction xs) simp_all

lemma cmap_length: "cmap f xs = Inr ys \<Longrightarrow> length ys = length xs"
  by (induction xs arbitrary: ys) (auto simp: cbind_Inr_iff)

lemma cmap_map: "cmap f (map g xs) = cmap (\<lambda>x. f (g x)) xs"
  by (induction xs) simp_all

text \<open>
  A call that returns, throws, ends the process through \<^verbatim>\<open>std::terminate\<close> or a fatal signal, or
  reads outside a container, which leaves the C++ program without a defined behaviour.
\<close>

datatype 'a outcome = Returned 'a | Threw cpp_exception | Terminated | Undefined

text \<open>Go on with the result of a call, or leave with its exception in the state reached so far.\<close>

definition or_throw :: "'a cpp \<Rightarrow> 's \<Rightarrow> ('a \<Rightarrow> 'b outcome \<times> 's) \<Rightarrow> 'b outcome \<times> 's" where
  "or_throw m s k = (case m of Inl e \<Rightarrow> (Threw e, s) | Inr x \<Rightarrow> k x)"

lemma or_throw_simps [simp]: "or_throw (Inl e) s k = (Threw e, s)" "or_throw (Inr x) s k = k x"
  by (simp_all add: or_throw_def)

lemma or_throw_rule: "(\<And>e. m = Inl e \<Longrightarrow> P (Threw e, s)) \<Longrightarrow> (\<And>x. m = Inr x \<Longrightarrow> P (k x)) \<Longrightarrow> P (or_throw m s k)"
  by (cases m) simp_all

lemma or_throw_Returned: "or_throw m s k = (Returned y, t) \<longleftrightarrow> (\<exists>x. m = Inr x \<and> k x = (Returned y, t))"
  by (cases m) simp_all

section \<open>std::map as a key-sorted association list\<close>

type_synonym ('k, 'v) std_map = "('k \<times> 'v) list"

abbreviation map_get :: "('k, 'v) std_map \<Rightarrow> 'k \<Rightarrow> 'v option" where
  "map_get \<equiv> map_of"

primrec map_put :: "'k::linorder \<Rightarrow> 'v \<Rightarrow> ('k, 'v) std_map \<Rightarrow> ('k, 'v) std_map" where
  "map_put k v [] = [(k, v)]"
| "map_put k v (e # m) =
     (if k < fst e then (k, v) # e # m
      else if k = fst e then (k, v) # m
      else e # map_put k v m)"

definition map_erase :: "'k \<Rightarrow> ('k, 'v) std_map \<Rightarrow> ('k, 'v) std_map" where
  "map_erase k m = filter (\<lambda>e. fst e \<noteq> k) m"

text \<open>Iteration visits the keys in increasing order, each once.\<close>

definition map_wf :: "('k::linorder, 'v) std_map \<Rightarrow> bool" where
  "map_wf m \<longleftrightarrow> sorted_wrt (<) (map fst m)"

lemma map_get_put [simp]: "map_get (map_put k v m) = (map_get m)(k \<mapsto> v)"
  by (induction m) auto

lemma map_get_erase [simp]: "map_get (map_erase k m) = (map_get m)(k := None)"
  by (induction m) (auto simp: map_erase_def)

lemma set_map_put_subset: "set (map_put k v m) \<subseteq> insert (k, v) (set m)"
  by (induction m) auto

lemma keys_map_put [simp]: "fst ` set (map_put k v m) = insert k (fst ` set m)"
  by (induction m) auto

lemma keys_map_erase [simp]: "fst ` set (map_erase k m) = fst ` set m - {k}"
  by (auto simp: map_erase_def)

lemma map_wf_Nil [simp]: "map_wf []"
  by (simp add: map_wf_def)

lemma map_wf_put [intro]: "map_wf m \<Longrightarrow> map_wf (map_put k v m)"
  by (induction m) (auto simp: map_wf_def dest: keys_map_put [THEN equalityD1, THEN subsetD, OF imageI])

lemma map_wf_erase [intro]: "map_wf m \<Longrightarrow> map_wf (map_erase k m)"
  unfolding map_wf_def map_erase_def by (induction m) auto

lemma map_wf_distinct: "map_wf m \<Longrightarrow> distinct (map fst m)"
  by (simp add: map_wf_def strict_sorted_iff)

section \<open>Lists\<close>

lemma length_filter_mono:
  "(\<And>x. x \<in> set xs \<Longrightarrow> P x \<Longrightarrow> Q x) \<Longrightarrow> length (filter P xs) \<le> length (filter Q xs)"
  by (induction xs) (auto simp: le_SucI)

text \<open>A scan that keeps the smallest element seen, by a key.\<close>

lemma fold_keep_min:
  fixes f :: "'a \<Rightarrow> 'b::linorder"
  shows "fold (\<lambda>x m. if f x < f m then x else m) xs m0 \<in> insert m0 (set xs)
    \<and> (\<forall>x \<in> insert m0 (set xs). f (fold (\<lambda>x m. if f x < f m then x else m) xs m0) \<le> f x)"
proof (induction xs arbitrary: m0)
  case (Cons x xs)
  have "f (if f x < f m0 then x else m0) \<le> f x" "f (if f x < f m0 then x else m0) \<le> f m0"
    by auto
  then show ?case
    using Cons.IH [of "if f x < f m0 then x else m0"] by (auto dest: order_trans split: if_splits)
qed simp

section \<open>Order statistics\<close>

text \<open>
  \<^verbatim>\<open>std::nth_element\<close> at position \<open>k\<close> leaves there the element that a sorted copy has at \<open>k\<close>,
  which is all the code reads of it.
\<close>

definition nth_element :: "'a::linorder list \<Rightarrow> nat \<Rightarrow> 'a" where
  "nth_element xs k = sort xs ! k"

lemma nth_element_in: "k < length xs \<Longrightarrow> nth_element xs k \<in> set xs"
  by (metis nth_element_def length_sort nth_mem set_sort)

lemma nth_element_rank:
  assumes "k < length xs"
  shows "k + 1 \<le> length (filter (\<lambda>x. x \<le> nth_element xs k) xs)"
    and "length xs - k \<le> length (filter (\<lambda>x. nth_element xs k \<le> x) xs)"
proof -
  let ?s = "sort xs" and ?m = "nth_element xs k"
  have len: "k < length ?s" and srt: "sorted ?s"
    using assms by simp_all
  have perm: "length (filter P xs) = length (filter P ?s)" for P
    by (metis mset_filter mset_sort size_mset)
  have low: "filter (\<lambda>x. x \<le> ?m) (take (Suc k) ?s) = take (Suc k) ?s"
    using sorted_nth_mono [OF srt] len
    by (intro filter_True) (auto simp: nth_element_def in_set_conv_nth)
  have high: "filter (\<lambda>x. ?m \<le> x) (drop k ?s) = drop k ?s"
    using sorted_nth_mono [OF srt] len
    by (intro filter_True) (auto simp: nth_element_def in_set_conv_nth)
  have "length (filter (\<lambda>x. x \<le> ?m) ?s) =
      length (filter (\<lambda>x. x \<le> ?m) (take (Suc k) ?s)) + length (filter (\<lambda>x. x \<le> ?m) (drop (Suc k) ?s))"
    by (metis append_take_drop_id filter_append length_append)
  then show "k + 1 \<le> length (filter (\<lambda>x. x \<le> ?m) xs)"
    using low assms by (simp add: perm)
  have "length (filter (\<lambda>x. ?m \<le> x) ?s) =
      length (filter (\<lambda>x. ?m \<le> x) (take k ?s)) + length (filter (\<lambda>x. ?m \<le> x) (drop k ?s))"
    by (metis append_take_drop_id filter_append length_append)
  then show "length xs - k \<le> length (filter (\<lambda>x. ?m \<le> x) xs)"
    using high assms by (simp add: perm)
qed

section \<open>Transition systems\<close>

text \<open>
  A component shared between threads is a set of initial states and a step relation whose steps
  are the critical sections of the code, interleaved in any order.
\<close>

inductive reachable :: "('s \<Rightarrow> bool) \<Rightarrow> ('s \<Rightarrow> 's \<Rightarrow> bool) \<Rightarrow> 's \<Rightarrow> bool"
  for init :: "'s \<Rightarrow> bool" and step :: "'s \<Rightarrow> 's \<Rightarrow> bool" where
  reachable_init: "init s \<Longrightarrow> reachable init step s"
| reachable_step: "reachable init step s \<Longrightarrow> step s t \<Longrightarrow> reachable init step t"

locale inductive_invariant =
  fixes init :: "'s \<Rightarrow> bool"
    and step :: "'s \<Rightarrow> 's \<Rightarrow> bool"
    and inv :: "'s \<Rightarrow> bool"
  assumes init_inv: "init s \<Longrightarrow> inv s"
    and step_inv: "inv s \<Longrightarrow> step s t \<Longrightarrow> inv t"
begin

lemma reachable_inv: "reachable init step s \<Longrightarrow> inv s"
  by (induction rule: reachable.induct) (auto intro: init_inv step_inv)

lemma steps_inv: "step\<^sup>*\<^sup>* s t \<Longrightarrow> inv s \<Longrightarrow> inv t"
  by (induction rule: rtranclp_induct) (auto intro: step_inv)

end

section \<open>Decimal numbers\<close>

definition digit_char :: "nat \<Rightarrow> char" where
  "digit_char d = char_of (48 + d)"

fun string_of_nat :: "nat \<Rightarrow> string" where
  "string_of_nat n =
     (if n < 10 then [digit_char n] else string_of_nat (n div 10) @ [digit_char (n mod 10)])"

declare string_of_nat.simps [simp del]

text \<open>\<^verbatim>\<open>std::to_string\<close> on the integer types.\<close>

definition to_string :: "int \<Rightarrow> string" where
  "to_string i = (if i < 0 then CHR ''-'' # string_of_nat (nat (- i)) else string_of_nat (nat i))"

section \<open>Words\<close>

lemma unat_size_t_bound: "unat (w :: size_t) < 2 ^ 64"
  using unsigned_less [of w] by simp

lemma unat_size_t_Suc:
  fixes w v :: size_t
  assumes "unat w < unat v"
  shows "unat (w + 1) = Suc (unat w)"
proof -
  have "unat w + 1 < 2 ^ 64"
    using assms unat_size_t_bound [of v] by linarith
  then show ?thesis
    by (simp add: unat_word_ariths)
qed

lemma unat_size_t_add:
  fixes w v :: size_t
  assumes "unat w + unat v < 2 ^ 64"
  shows "unat (w + v) = unat w + unat v"
  using assms by (simp add: unat_word_ariths)

lemma unat_size_t_pred:
  fixes w :: size_t
  assumes "0 < unat w"
  shows "unat (w - 1) = unat w - 1"
  using assms by (simp add: unat_sub word_le_nat_alt)

lemma unat_size_t_sub:
  fixes w v :: size_t
  assumes "unat v \<le> unat w"
  shows "unat (w - v) = unat w - unat v"
  using assms by (simp add: unat_sub word_le_nat_alt)

end
