(* ===== verification/Metrics_Registry.thy ===== *)
theory Metrics_Registry
  imports Prelude
begin

text \<open>
  The process-wide metrics registry, \<^verbatim>\<open>src/src/metrics.h\<close>: counters, gauges and latency
  histograms under serialized keys. Every operation of the class is one critical section, so it
  is one function on the registry state. The text rendering of a \<^verbatim>\<open>double\<close> is a parameter.
\<close>

section \<open>State\<close>

type_synonym labels = "(string, string) std_map"

record HistogramStats =
  h_count :: int
  h_sum :: real
  h_min :: real
  h_max :: real

definition fresh_histogram :: HistogramStats where
  "fresh_histogram = \<lparr>h_count = 0, h_sum = 0, h_min = 10 ^ 9, h_max = 0\<rparr>"

record MetricsRegistry =
  m_counters :: "(string, int) std_map"
  m_gauges :: "(string, real) std_map"
  m_histograms :: "(string, HistogramStats) std_map"

definition empty_registry :: MetricsRegistry where
  "empty_registry = \<lparr>m_counters = [], m_gauges = [], m_histograms = []\<rparr>"

section \<open>Operations\<close>

fun serialize_labels :: "bool \<Rightarrow> labels \<Rightarrow> string" where
  "serialize_labels first [] = ''''"
| "serialize_labels first ((k, v) # ls) =
     (if first then '''' else '','') @ k @ ''='' @ [CHR 0x22] @ v @ [CHR 0x22] @ serialize_labels False ls"

definition SerializeKey :: "string \<Rightarrow> labels \<Rightarrow> string" where
  "SerializeKey name ls =
     (if ls = [] then name else name @ ''{'' @ serialize_labels True ls @ ''}'')"

definition counter :: "MetricsRegistry \<Rightarrow> string \<Rightarrow> int" where
  "counter r key = (case map_get (m_counters r) key of None \<Rightarrow> 0 | Some c \<Rightarrow> c)"

definition Increment :: "string \<Rightarrow> labels \<Rightarrow> int \<Rightarrow> MetricsRegistry \<Rightarrow> MetricsRegistry" where
  "Increment name ls value r =
     (let key = SerializeKey name ls
      in r\<lparr>m_counters := map_put key (counter r key + value) (m_counters r)\<rparr>)"

definition SetGauge :: "string \<Rightarrow> real \<Rightarrow> MetricsRegistry \<Rightarrow> MetricsRegistry" where
  "SetGauge name value r = r\<lparr>m_gauges := map_put name value (m_gauges r)\<rparr>"

definition histogram :: "MetricsRegistry \<Rightarrow> string \<Rightarrow> HistogramStats" where
  "histogram r key =
     (case map_get (m_histograms r) key of None \<Rightarrow> fresh_histogram | Some h \<Rightarrow> h)"

definition record_sample :: "real \<Rightarrow> HistogramStats \<Rightarrow> HistogramStats" where
  "record_sample ms h =
     (let h1 = h\<lparr>h_count := h_count h + 1, h_sum := h_sum h + ms\<rparr>;
          h2 = (if ms < h_min h1 then h1\<lparr>h_min := ms\<rparr> else h1)
      in (if ms > h_max h2 then h2\<lparr>h_max := ms\<rparr> else h2))"

definition RecordLatency :: "string \<Rightarrow> labels \<Rightarrow> real \<Rightarrow> MetricsRegistry \<Rightarrow> MetricsRegistry" where
  "RecordLatency name ls ms r =
     (let key = SerializeKey name ls
      in r\<lparr>m_histograms := map_put key (record_sample ms (histogram r key)) (m_histograms r)\<rparr>)"

definition ToPrometheus :: "(real \<Rightarrow> string) \<Rightarrow> MetricsRegistry \<Rightarrow> string" where
  "ToPrometheus dtos r =
     concat (map (\<lambda>(k, c). k @ '' '' @ to_string c @ [CHR 0x0A]) (m_counters r)) @
     concat (map (\<lambda>(k, g). k @ '' '' @ dtos g @ [CHR 0x0A]) (m_gauges r)) @
     concat (map (\<lambda>(k, h). k @ ''_count '' @ to_string (h_count h) @ [CHR 0x0A] @
                           k @ ''_sum '' @ dtos (h_sum h) @ [CHR 0x0A]) (m_histograms r))"

section \<open>Lemmas\<close>

lemma counter_Increment [simp]:
  "counter (Increment name ls v r) key =
     counter r key + (if key = SerializeKey name ls then v else 0)"
  by (auto simp: counter_def Increment_def Let_def)

lemma counter_SetGauge [simp]: "counter (SetGauge name v r) key = counter r key"
  by (simp add: counter_def SetGauge_def)

lemma gauge_SetGauge [simp]:
  "map_get (m_gauges (SetGauge name v r)) = (map_get (m_gauges r))(name \<mapsto> v)"
  by (simp add: SetGauge_def)

lemma gauge_Increment [simp]: "m_gauges (Increment name ls v r) = m_gauges r"
  by (simp add: Increment_def Let_def)

lemma SerializeKey_no_labels [simp]: "SerializeKey name [] = name"
  by (simp add: SerializeKey_def)

text \<open>The running minimum and maximum of a histogram start at the sentinels 1e9 and 0.\<close>

lemma fold_record_sample:
  "fold record_sample xs h =
     \<lparr>h_count = h_count h + int (length xs), h_sum = h_sum h + sum_list xs,
      h_min = fold min xs (h_min h), h_max = fold max xs (h_max h)\<rparr>"
proof (induction xs arbitrary: h)
  case Nil
  show ?case by (cases h) simp
next
  case (Cons x xs)
  have step: "record_sample x h =
      \<lparr>h_count = h_count h + 1, h_sum = h_sum h + x, h_min = min x (h_min h), h_max = max x (h_max h)\<rparr>"
    by (cases h) (simp add: record_sample_def Let_def)
  show ?case
    by (simp add: Cons.IH step)
qed

lemma histogram_RecordLatency:
  "histogram (RecordLatency name ls ms r) key =
     (if key = SerializeKey name ls then record_sample ms (histogram r key) else histogram r key)"
  by (simp add: histogram_def RecordLatency_def Let_def)

lemma histogram_fold_RecordLatency:
  "histogram (fold (RecordLatency name ls) xs r) (SerializeKey name ls) =
     fold record_sample xs (histogram r (SerializeKey name ls))"
  by (induction xs arbitrary: r) (simp_all add: histogram_RecordLatency)

lemma fold_min_eq_Min: "fold min xs (a::real) = Min (insert a (set xs))"
proof -
  have "Min (insert a (set xs)) = Min (set (a # xs))" by simp
  also have "\<dots> = fold min xs a" by (rule Min.set_eq_fold)
  finally show ?thesis ..
qed

lemma fold_max_eq_Max: "fold max xs (a::real) = Max (insert a (set xs))"
proof -
  have "Max (insert a (set xs)) = Max (set (a # xs))" by simp
  also have "\<dots> = fold max xs a" by (rule Max.set_eq_fold)
  finally show ?thesis ..
qed

section \<open>The observability wrappers\<close>

text \<open>
  \<^verbatim>\<open>src/src/obs/metrics.h\<close> updates the registry and writes a structured log line; the log line is
  output only and is left out.
\<close>

definition EmitCounter :: "string \<Rightarrow> int \<Rightarrow> labels \<Rightarrow> MetricsRegistry \<Rightarrow> MetricsRegistry" where
  "EmitCounter name value ls r = Increment name ls value r"

definition EmitHistogram :: "string \<Rightarrow> real \<Rightarrow> labels \<Rightarrow> MetricsRegistry \<Rightarrow> MetricsRegistry" where
  "EmitHistogram name value ls r = RecordLatency name ls value r"

definition EmitGauge :: "string \<Rightarrow> real \<Rightarrow> MetricsRegistry \<Rightarrow> MetricsRegistry" where
  "EmitGauge name value r = SetGauge name value r"

lemma counter_RecordLatency [simp]: "counter (RecordLatency name ls ms r) key = counter r key"
  by (simp add: counter_def RecordLatency_def Let_def)

lemma gauges_RecordLatency [simp]: "m_gauges (RecordLatency name ls ms r) = m_gauges r"
  by (simp add: RecordLatency_def Let_def)

lemma emit_counter_simps [simp]:
  "counter (EmitCounter name v ls r) key = counter r key + (if key = SerializeKey name ls then v else 0)"
  "counter (EmitHistogram name ms ls r) key = counter r key"
  "counter (EmitGauge name g r) key = counter r key"
  by (simp_all add: EmitCounter_def EmitHistogram_def EmitGauge_def)

lemma emit_gauge_simps [simp]:
  "m_gauges (EmitCounter name v ls r) = m_gauges r"
  "m_gauges (EmitHistogram name ms ls r) = m_gauges r"
  "map_get (m_gauges (EmitGauge name g r)) = (map_get (m_gauges r))(name \<mapsto> g)"
  by (simp_all add: EmitCounter_def EmitHistogram_def EmitGauge_def)

section \<open>Properties\<close>

text \<open>
  What a scrape reads: after any sequence of latencies recorded under one key of a fresh
  registry, the histogram holds their number, their sum, their minimum capped at the sentinel 1e9 and
  their maximum floored at 0; and recording under one key changes no other key.
\<close>

theorem RecordLatency_statistics:
  "histogram (fold (RecordLatency name ls) xs empty_registry) (SerializeKey name ls) =
     \<lparr>h_count = int (length xs), h_sum = sum_list xs,
      h_min = Min (insert (10 ^ 9) (set xs)), h_max = Max (insert 0 (set xs))\<rparr>
   \<and> (key \<noteq> SerializeKey name ls \<longrightarrow>
        histogram (fold (RecordLatency name ls) xs r) key = histogram r key)"
proof
  have h: "histogram empty_registry k = fresh_histogram" for k
    by (simp add: histogram_def empty_registry_def)
  have "fold record_sample xs fresh_histogram =
      \<lparr>h_count = int (length xs), h_sum = sum_list xs,
       h_min = Min (insert (10 ^ 9) (set xs)), h_max = Max (insert 0 (set xs))\<rparr>"
    unfolding fold_record_sample by (simp add: fresh_histogram_def fold_min_eq_Min fold_max_eq_Max)
  then show "histogram (fold (RecordLatency name ls) xs empty_registry) (SerializeKey name ls) =
     \<lparr>h_count = int (length xs), h_sum = sum_list xs,
      h_min = Min (insert (10 ^ 9) (set xs)), h_max = Max (insert 0 (set xs))\<rparr>"
    unfolding histogram_fold_RecordLatency h .
  show "key \<noteq> SerializeKey name ls \<longrightarrow>
      histogram (fold (RecordLatency name ls) xs r) key = histogram r key"
    by (induction xs arbitrary: r) (simp_all add: histogram_RecordLatency)
qed

theorem RecordLatency_statistics_witness:
  "histogram (fold (RecordLatency ''db_ms'' []) [3, 7] empty_registry) ''db_ms'' =
     \<lparr>h_count = 2, h_sum = 10, h_min = 3, h_max = 7\<rparr>
   \<and> histogram (fold (RecordLatency ''db_ms'' []) [3, 7] empty_registry) ''other'' = fresh_histogram"
  using RecordLatency_statistics [of "''db_ms''" "[]" "[3, 7]" "''other''" empty_registry]
  by (simp add: histogram_def empty_registry_def)

end
