(* ===== verification/Job_State_Machine.thy ===== *)
theory Job_State_Machine
  imports Prelude
begin

text \<open>
  The job life cycle, \<^verbatim>\<open>src/src/job_state_machine.{h,cpp}\<close>: the states, their names, and the
  transitions that \<^verbatim>\<open>JobStateMachine\<close> allows.
\<close>

datatype JobState = PENDING | RUNNING | COMPLETED | FAILED | CANCELLED

fun StateToString :: "JobState \<Rightarrow> string" where
  "StateToString PENDING = ''PENDING''"
| "StateToString RUNNING = ''RUNNING''"
| "StateToString COMPLETED = ''COMPLETED''"
| "StateToString FAILED = ''FAILED''"
| "StateToString CANCELLED = ''CANCELLED''"

definition StringToState :: "string \<Rightarrow> JobState cpp" where
  "StringToState state_str =
     (if state_str = ''PENDING'' then Inr PENDING
      else if state_str = ''RUNNING'' then Inr RUNNING
      else if state_str = ''COMPLETED'' then Inr COMPLETED
      else if state_str = ''FAILED'' then Inr FAILED
      else if state_str = ''CANCELLED'' then Inr CANCELLED
      else Inl (Runtime_error (''Invalid job state string: '' @ state_str)))"

definition IsTransitionAllowed :: "JobState \<Rightarrow> JobState \<Rightarrow> bool" where
  "IsTransitionAllowed current next =
     (if current = next then True
      else (case current of
              PENDING \<Rightarrow> next = RUNNING \<or> next = CANCELLED \<or> next = FAILED
            | RUNNING \<Rightarrow> next = COMPLETED \<or> next = FAILED \<or> next = CANCELLED
            | _ \<Rightarrow> False))"

text \<open>The cast of the loop counter to the enumeration, in declaration order.\<close>

definition state_of_index :: "nat \<Rightarrow> JobState" where
  "state_of_index i = [PENDING, RUNNING, COMPLETED, FAILED, CANCELLED] ! i"

definition GetValidNextStates :: "JobState \<Rightarrow> JobState set" where
  "GetValidNextStates current =
     fold (\<lambda>i next. if IsTransitionAllowed current (state_of_index i)
                    then insert (state_of_index i) next else next)
       [0..<5] {current}"

definition IsTerminal :: "JobState \<Rightarrow> bool" where
  "IsTerminal state \<longleftrightarrow> state = COMPLETED \<or> state = FAILED \<or> state = CANCELLED"

section \<open>Lemmas\<close>

lemma JobState_UNIV: "(UNIV :: JobState set) = {PENDING, RUNNING, COMPLETED, FAILED, CANCELLED}"
  using JobState.exhaust by blast

lemma transition_simps [simp]:
  "IsTransitionAllowed s s"
  "IsTransitionAllowed PENDING t \<longleftrightarrow> t \<noteq> COMPLETED"
  "IsTransitionAllowed RUNNING t \<longleftrightarrow> t \<noteq> PENDING"
  "IsTransitionAllowed COMPLETED t \<longleftrightarrow> t = COMPLETED"
  "IsTransitionAllowed FAILED t \<longleftrightarrow> t = FAILED"
  "IsTransitionAllowed CANCELLED t \<longleftrightarrow> t = CANCELLED"
  by (cases t; simp add: IsTransitionAllowed_def)+

lemma IsTerminal_simps [simp]:
  "\<not> IsTerminal PENDING" "\<not> IsTerminal RUNNING"
  "IsTerminal COMPLETED" "IsTerminal FAILED" "IsTerminal CANCELLED"
  by (simp_all add: IsTerminal_def)

text \<open>A proper step along the allowed transitions, and a rank that every such step increases.\<close>

definition proper_transition :: "JobState \<Rightarrow> JobState \<Rightarrow> bool" where
  "proper_transition s t \<longleftrightarrow> IsTransitionAllowed s t \<and> s \<noteq> t"

fun state_rank :: "JobState \<Rightarrow> nat" where
  "state_rank PENDING = 0"
| "state_rank RUNNING = 1"
| "state_rank _ = 2"

lemma proper_transition_rank: "proper_transition s t \<Longrightarrow> state_rank s < state_rank t"
  by (cases s; cases t) (auto simp: proper_transition_def)

lemma proper_relpow_rank: "(proper_transition ^^ n) s t \<Longrightarrow> state_rank s + n \<le> state_rank t"
proof (induction n arbitrary: t)
  case (Suc n)
  then obtain u where "(proper_transition ^^ n) s u" "proper_transition u t"
    by auto
  then show ?case
    using Suc.IH proper_transition_rank by fastforce
qed simp

lemma state_rank_le: "state_rank s \<le> 2"
  by (cases s) auto

lemma GetValidNextStates_eq: "GetValidNextStates s = {t. IsTransitionAllowed s t}"
proof -
  have "{t. IsTransitionAllowed s t} =
      {t \<in> {PENDING, RUNNING, COMPLETED, FAILED, CANCELLED}. IsTransitionAllowed s t}"
    using JobState_UNIV by blast
  then show ?thesis
    by (cases s) (auto simp: GetValidNextStates_def state_of_index_def upt_rec numeral_eq_Suc)
qed

section \<open>Properties\<close>

text \<open>
  The names round-trip: parsing the name of a state gives the state back, a string that
  parses is exactly the name of its state, and every other string is rejected with the
  \<^verbatim>\<open>runtime_error\<close> of the source.
\<close>

theorem state_string_roundtrip:
  "StringToState (StateToString s) = Inr s
   \<and> (StringToState str = Inr s \<longleftrightarrow> str = StateToString s)
   \<and> (str \<notin> range StateToString \<longleftrightarrow>
        StringToState str = Inl (Runtime_error (''Invalid job state string: '' @ str)))"
proof -
  have 1: "StringToState (StateToString s) = Inr s"
    by (cases s) (simp_all add: StringToState_def)
  have 2: "StringToState str = Inr s \<longleftrightarrow> str = StateToString s"
    by (cases s) (auto simp: StringToState_def)
  have 3: "str \<notin> range StateToString \<longleftrightarrow>
      StringToState str = Inl (Runtime_error (''Invalid job state string: '' @ str))"
    unfolding JobState_UNIV by (auto simp: StringToState_def)
  from 1 2 3 show ?thesis by blast
qed

text \<open>
  The life cycle: the states \<^verbatim>\<open>GetValidNextStates\<close> returns are exactly the targets
  \<^verbatim>\<open>IsTransitionAllowed\<close> accepts; the terminal states are exactly those without a proper
  successor, so nothing leaves them along any number of transitions; a job changes its state at
  most twice; and it can complete only from \<^verbatim>\<open>RUNNING\<close>.
\<close>

theorem job_life_cycle:
  "GetValidNextStates s = {t. IsTransitionAllowed s t}
   \<and> (IsTerminal s \<longleftrightarrow> (\<nexists>t. proper_transition s t))
   \<and> ((proper_transition ^^ n) s t \<longrightarrow> n \<le> 2)
   \<and> (IsTransitionAllowed\<^sup>*\<^sup>* s t \<longrightarrow> IsTerminal s \<longrightarrow> t = s)
   \<and> (proper_transition s COMPLETED \<longleftrightarrow> s = RUNNING)"
proof (intro conjI impI)
  show "GetValidNextStates s = {t. IsTransitionAllowed s t}"
    by (rule GetValidNextStates_eq)
  show "IsTerminal s \<longleftrightarrow> (\<nexists>t. proper_transition s t)"
    by (cases s) (auto simp: proper_transition_def)
  show "n \<le> 2" if "(proper_transition ^^ n) s t"
    using proper_relpow_rank [OF that] state_rank_le [of t] by linarith
  show "t = s" if "IsTransitionAllowed\<^sup>*\<^sup>* s t" "IsTerminal s"
    using that by (induction rule: rtranclp_induct) (auto simp: IsTerminal_def)
  show "proper_transition s COMPLETED \<longleftrightarrow> s = RUNNING"
    by (cases s) (auto simp: proper_transition_def)
qed

theorem job_life_cycle_witness:
  "(proper_transition ^^ 2) PENDING COMPLETED \<and> (2::nat) \<le> 2"
proof -
  have p: "proper_transition PENDING RUNNING" "proper_transition RUNNING COMPLETED"
    by (simp_all add: proper_transition_def)
  have "(proper_transition ^^ Suc (Suc 0)) PENDING COMPLETED"
    using p by (intro relpowp_Suc_I [where y = RUNNING] relpowp_Suc_I [where y = PENDING]) auto
  then have "(proper_transition ^^ 2) PENDING COMPLETED"
    by (simp add: numeral_2_eq_2)
  with job_life_cycle [of PENDING 2 COMPLETED] show ?thesis by blast
qed

end
