(* ===== verification/Job_Manager.thy ===== *)
theory Job_Manager
  imports Metrics_Registry Job_State_Machine
begin

text \<open>
  The background job manager, \<^verbatim>\<open>src/src/job_manager.{h,cpp}\<close>. The state is the private data of
  the class together with what its threads share with it: the \<^verbatim>\<open>std::atomic<bool>\<close> cells the stop
  flags point to (\<open>flag_cells\<close>, addressed by position), the threads created so far (\<open>workers\<close>,
  a thread handle is a position), and the metrics registry. Every method body under \<^verbatim>\<open>mutex_\<close> is
  one function; \<open>jm_step\<close> interleaves them with the completion blocks of the worker threads.
\<close>

section \<open>State\<close>

datatype JobStatus = PENDING | RUNNING | COMPLETED | FAILED | CANCELLED

record JobInfo =
  ji_job_id :: string
  ji_request_id :: string
  ji_status :: JobStatus
  ji_error :: string

text \<open>How the work function of a job ends.\<close>

datatype work_result = Work_returns | Work_throws string | Work_throws_unknown

record worker =
  wk_job :: string
  wk_flag :: nat
  wk_done :: bool

record JobManager =
  jobs :: "(string, JobInfo) std_map"
  stop_flags :: "(string, nat) std_map"
  threads :: "(string, nat) std_map"
  stopping :: bool
  max_jobs :: size_t
  current_jobs :: size_t
  stop_pc :: bool
  flag_cells :: "bool list"
  workers :: "worker list"
  registry :: MetricsRegistry

definition new_JobManager :: JobManager where
  "new_JobManager =
     \<lparr>jobs = [], stop_flags = [], threads = [], stopping = False, max_jobs = 4, current_jobs = 0,
      stop_pc = False, flag_cells = [], workers = [], registry = empty_registry\<rparr>"

section \<open>Operations\<close>

definition SetMaxConcurrentJobs :: "size_t \<Rightarrow> JobManager \<Rightarrow> JobManager" where
  "SetMaxConcurrentJobs m s = s\<lparr>max_jobs := m\<rparr>"

definition finished :: "JobManager \<Rightarrow> string \<Rightarrow> bool" where
  "finished s jid = (case map_get (jobs s) jid of None \<Rightarrow> False | Some info \<Rightarrow> ji_status info \<noteq> RUNNING)"

definition cleanup_entry :: "string \<times> nat \<Rightarrow> JobManager \<Rightarrow> JobManager" where
  "cleanup_entry e s =
     (if finished s (fst e)
      then s\<lparr>stop_flags := map_erase (fst e) (stop_flags s), threads := map_erase (fst e) (threads s)\<rparr>
      else s)"

definition CleanupFinishedThreads :: "JobManager \<Rightarrow> JobManager" where
  "CleanupFinishedThreads s = fold cleanup_entry (threads s) s"

text \<open>The threads that \<^verbatim>\<open>CleanupFinishedThreads\<close> joins, while it holds the mutex.\<close>

definition cleanup_joins :: "JobManager \<Rightarrow> nat list" where
  "cleanup_joins s = map snd (filter (\<lambda>e. finished s (fst e)) (threads s))"

definition StartJob :: "string \<Rightarrow> string \<Rightarrow> JobManager \<Rightarrow> unit outcome \<times> JobManager" where
  "StartJob job_id request_id s =
     (if stopping s then (Threw (Runtime_error ''JobManager is stopping''), s)
      else
        let s1 = CleanupFinishedThreads s in
        if max_jobs s1 \<le> current_jobs s1 then
          (Threw (Runtime_error ''Job queue full: max concurrent jobs reached''),
           s1\<lparr>registry := Increment ''job_rejected_total'' [(''reason'', ''resource_exhausted'')] 1 (registry s1)\<rparr>)
        else
          let flag = length (flag_cells s1);
              info = \<lparr>ji_job_id = job_id, ji_request_id = request_id, ji_status = RUNNING, ji_error = ''''\<rparr>;
              tid = length (workers s1);
              s2 = s1\<lparr>flag_cells := flag_cells s1 @ [False],
                      stop_flags := map_put job_id flag (stop_flags s1),
                      jobs := map_put job_id info (jobs s1),
                      current_jobs := current_jobs s1 + 1,
                      registry := SetGauge ''job_active_count'' (real (unat (current_jobs s1 + 1))) (registry s1),
                      workers := workers s1 @ [\<lparr>wk_job = job_id, wk_flag = flag, wk_done = False\<rparr>]\<rparr>
          in if map_get (threads s2) job_id \<noteq> None then (Terminated, s2)
             else (Returned (), s2\<lparr>threads := map_put job_id tid (threads s2)\<rparr>))"

definition set_job :: "string \<Rightarrow> JobStatus \<Rightarrow> string option \<Rightarrow> JobManager \<Rightarrow> JobManager" where
  "set_job jid st err s =
     (case map_get (jobs s) jid of
        None \<Rightarrow> s
      | Some info \<Rightarrow>
          s\<lparr>jobs := map_put jid
              (info\<lparr>ji_status := st, ji_error := (case err of None \<Rightarrow> ji_error info | Some e \<Rightarrow> e)\<rparr>)
              (jobs s)\<rparr>)"

definition finish_metrics :: "string \<Rightarrow> labels \<Rightarrow> JobManager \<Rightarrow> JobManager" where
  "finish_metrics name ls s =
     s\<lparr>current_jobs := current_jobs s - 1,
       registry := Increment name ls 1
         (SetGauge ''job_active_count'' (real (unat (current_jobs s - 1))) (registry s))\<rparr>"

text \<open>The completion block of the thread's lambda, one case per way the work function ends.\<close>

definition worker_finish :: "nat \<Rightarrow> work_result \<Rightarrow> JobManager \<Rightarrow> JobManager" where
  "worker_finish tid res s =
     (let w = workers s ! tid;
          s1 = (case res of
                  Work_returns \<Rightarrow>
                    finish_metrics ''job_completed_total'' []
                      (set_job (wk_job w) (if flag_cells s ! wk_flag w then CANCELLED else COMPLETED) None s)
                | Work_throws msg \<Rightarrow>
                    finish_metrics ''job_failed_total'' [(''error'', ''exception'')]
                      (set_job (wk_job w) FAILED (Some msg) s)
                | Work_throws_unknown \<Rightarrow>
                    finish_metrics ''job_failed_total'' [(''error'', ''unknown'')]
                      (set_job (wk_job w) FAILED (Some ''Unknown exception'') s))
      in s1\<lparr>workers := (workers s1)[tid := w\<lparr>wk_done := True\<rparr>]\<rparr>)"

definition CancelJob :: "string \<Rightarrow> JobManager \<Rightarrow> JobManager" where
  "CancelJob jid s =
     (case map_get (stop_flags s) jid of
        None \<Rightarrow> s
      | Some a \<Rightarrow> s\<lparr>flag_cells := (flag_cells s)[a := True]\<rparr>)"

definition GetStatus :: "string \<Rightarrow> JobManager \<Rightarrow> JobStatus" where
  "GetStatus jid s = (case map_get (jobs s) jid of None \<Rightarrow> CANCELLED | Some info \<Rightarrow> ji_status info)"

definition ListJobs :: "JobManager \<Rightarrow> JobInfo list" where
  "ListJobs s = map snd (jobs s)"

text \<open>
  \<^verbatim>\<open>Stop\<close> first exchanges the atomic \<^verbatim>\<open>stopping_\<close> outside the mutex (\<open>stop_pc\<close> records the call
  that won the exchange and has not entered its critical section), then collects the threads
  under the mutex, and joins what it collected outside it.
\<close>

definition Stop_exchange :: "JobManager \<Rightarrow> bool \<times> JobManager" where
  "Stop_exchange s = (if stopping s then (True, s) else (False, s\<lparr>stopping := True, stop_pc := True\<rparr>))"

definition Stop_collect :: "JobManager \<Rightarrow> nat list \<times> JobManager" where
  "Stop_collect s =
     (map snd (threads s),
      s\<lparr>flag_cells := fold (\<lambda>e cells. cells[snd e := True]) (stop_flags s) (flag_cells s),
        threads := [], stop_flags := [], stop_pc := False\<rparr>)"

section \<open>The interleaving\<close>

definition live_set :: "JobManager \<Rightarrow> nat set" where
  "live_set s = {i. i < length (workers s) \<and> \<not> wk_done (workers s ! i)}"

inductive jm_step :: "JobManager \<Rightarrow> JobManager \<Rightarrow> bool" where
  set_max: "jm_step s (SetMaxConcurrentJobs m s)"
| start: "StartJob jid rid s = (out, t) \<Longrightarrow> out \<noteq> Terminated \<Longrightarrow> jm_step s t"
| finish: "i \<in> live_set s \<Longrightarrow> jm_step s (worker_finish i res s)"
| cancel: "jm_step s (CancelJob jid s)"
| stop_exchange: "jm_step s (snd (Stop_exchange s))"
| stop_collect: "stop_pc s \<Longrightarrow> jm_step s (snd (Stop_collect s))"

abbreviation jm_reachable :: "JobManager \<Rightarrow> bool" where
  "jm_reachable \<equiv> reachable (\<lambda>s. s = new_JobManager) jm_step"

section \<open>Invariant\<close>

definition collected :: "JobManager \<Rightarrow> bool" where
  "collected s \<longleftrightarrow> stopping s \<and> \<not> stop_pc s"

definition running :: "JobManager \<Rightarrow> string \<Rightarrow> bool" where
  "running s jid \<longleftrightarrow> (\<exists>info. map_get (jobs s) jid = Some info \<and> ji_status info = RUNNING)"

text \<open>Unfinished workers and the jobs in state \<^verbatim>\<open>RUNNING\<close> are in bijection, counted by \<^verbatim>\<open>current_jobs_\<close>.\<close>

definition inv_live :: "JobManager \<Rightarrow> bool" where
  "inv_live s \<longleftrightarrow>
     bij_betw (\<lambda>i. wk_job (workers s ! i)) (live_set s) {jid. running s jid}
     \<and> unat (current_jobs s) = card (live_set s)"

text \<open>Every handle in \<^verbatim>\<open>threads_\<close> belongs to the job it is filed under and shares that job's stop flag.\<close>

definition inv_threads :: "JobManager \<Rightarrow> bool" where
  "inv_threads s \<longleftrightarrow>
     (\<forall>jid i. map_get (threads s) jid = Some i \<longrightarrow>
        i < length (workers s) \<and> wk_job (workers s ! i) = jid
        \<and> map_get (stop_flags s) jid = Some (wk_flag (workers s ! i))
        \<and> map_get (jobs s) jid \<noteq> None
        \<and> (running s jid \<longleftrightarrow> i \<in> live_set s))
     \<and> (\<forall>jid. map_get (stop_flags s) jid \<noteq> None \<longrightarrow> map_get (threads s) jid \<noteq> None)
     \<and> (\<not> collected s \<longrightarrow> (\<forall>i \<in> live_set s. map_get (threads s) (wk_job (workers s ! i)) = Some i))
     \<and> (collected s \<longrightarrow> threads s = [])"

definition inv_flags :: "JobManager \<Rightarrow> bool" where
  "inv_flags s \<longleftrightarrow>
     (\<forall>w \<in> set (workers s). wk_flag w < length (flag_cells s))
     \<and> (collected s \<longrightarrow> (\<forall>i \<in> live_set s. flag_cells s ! wk_flag (workers s ! i)))
     \<and> (stop_pc s \<longrightarrow> stopping s)"

definition inv_maps :: "JobManager \<Rightarrow> bool" where
  "inv_maps s \<longleftrightarrow> map_wf (jobs s) \<and> map_wf (stop_flags s) \<and> map_wf (threads s)
     \<and> (\<forall>jid info. map_get (jobs s) jid = Some info \<longrightarrow> ji_job_id info = jid \<and> ji_status info \<noteq> PENDING)"

definition finished_total :: "MetricsRegistry \<Rightarrow> int" where
  "finished_total r =
     counter r (SerializeKey ''job_completed_total'' [])
     + counter r (SerializeKey ''job_failed_total'' [(''error'', ''exception'')])
     + counter r (SerializeKey ''job_failed_total'' [(''error'', ''unknown'')])"

definition inv_metrics :: "JobManager \<Rightarrow> bool" where
  "inv_metrics s \<longleftrightarrow>
     int (length (workers s)) = int (card (live_set s)) + finished_total (registry s)
     \<and> (workers s \<noteq> [] \<longrightarrow>
          map_get (m_gauges (registry s)) ''job_active_count'' = Some (real (card (live_set s))))"

definition jm_inv :: "JobManager \<Rightarrow> bool" where
  "jm_inv s \<longleftrightarrow> inv_live s \<and> inv_threads s \<and> inv_flags s \<and> inv_maps s \<and> inv_metrics s"

lemmas jm_inv_defs = inv_live_def inv_threads_def inv_flags_def inv_maps_def inv_metrics_def

section \<open>Cleanup\<close>

lemma finished_not_running: "finished s jid \<longleftrightarrow> map_get (jobs s) jid \<noteq> None \<and> \<not> running s jid"
  by (auto simp: finished_def running_def split: option.splits)

lemma fold_cleanup:
  "fold cleanup_entry es s =
     s\<lparr>stop_flags := filter (\<lambda>e. \<not> (finished s (fst e) \<and> fst e \<in> fst ` set es)) (stop_flags s),
       threads := filter (\<lambda>e. \<not> (finished s (fst e) \<and> fst e \<in> fst ` set es)) (threads s)\<rparr>"
proof (induction es arbitrary: s)
  case Nil
  show ?case by simp
next
  case (Cons e es)
  have fin: "finished (cleanup_entry e s) = finished s"
    by (auto simp: cleanup_entry_def finished_def)
  show ?case
    by (simp add: Cons.IH fin)
      (auto simp: cleanup_entry_def map_erase_def intro!: JobManager.equality filter_cong)
qed

lemma cleanup_simps [simp]:
  "jobs (CleanupFinishedThreads s) = jobs s"
  "stopping (CleanupFinishedThreads s) = stopping s"
  "max_jobs (CleanupFinishedThreads s) = max_jobs s"
  "current_jobs (CleanupFinishedThreads s) = current_jobs s"
  "stop_pc (CleanupFinishedThreads s) = stop_pc s"
  "flag_cells (CleanupFinishedThreads s) = flag_cells s"
  "workers (CleanupFinishedThreads s) = workers s"
  "registry (CleanupFinishedThreads s) = registry s"
  by (simp_all add: CleanupFinishedThreads_def fold_cleanup)

lemma map_of_filter_key: "map_of (filter (\<lambda>e. P (fst e)) m) k = (if P k then map_of m k else None)"
  by (induction m) auto

lemma cleanup_threads:
  "map_get (threads (CleanupFinishedThreads s)) jid =
     (if finished s jid then None else map_get (threads s) jid)"
proof -
  have "map_get (threads (CleanupFinishedThreads s)) jid =
     (if finished s jid \<and> jid \<in> fst ` set (threads s) then None else map_get (threads s) jid)"
    using map_of_filter_key [of "\<lambda>k. \<not> (finished s k \<and> k \<in> fst ` set (threads s))" "threads s" jid]
    by (simp add: CleanupFinishedThreads_def fold_cleanup)
  then show ?thesis
    by (auto simp: map_of_eq_None_iff)
qed

lemma cleanup_stop_flags:
  "map_get (stop_flags (CleanupFinishedThreads s)) jid =
     (if finished s jid \<and> map_get (threads s) jid \<noteq> None then None else map_get (stop_flags s) jid)"
  using map_of_filter_key [of "\<lambda>k. \<not> (finished s k \<and> k \<in> fst ` set (threads s))" "stop_flags s" jid]
  by (auto simp: CleanupFinishedThreads_def fold_cleanup map_of_eq_None_iff)

lemma filter_map_wf: "map_wf m \<Longrightarrow> map_wf (filter P m)"
  unfolding map_wf_def by (induction m) auto

lemma live_set_cleanup [simp]: "live_set (CleanupFinishedThreads s) = live_set s"
  by (simp add: live_set_def)

lemma running_cleanup [simp]: "running (CleanupFinishedThreads s) = running s"
  by (simp add: running_def fun_eq_iff)

lemma jm_inv_cleanup: "jm_inv s \<Longrightarrow> jm_inv (CleanupFinishedThreads s)"
proof -
  assume inv: "jm_inv s"
  have coll: "collected (CleanupFinishedThreads s) = collected s"
    by (simp add: collected_def)
  have "inv_threads (CleanupFinishedThreads s)"
  proof -
    have t: "inv_threads s" and l: "inv_live s"
      using inv by (auto simp: jm_inv_def)
    have live_run: "running s (wk_job (workers s ! i))" if "i \<in> live_set s" for i
      using l that by (auto simp: inv_live_def bij_betw_def)
    have empty: "threads s = [] \<Longrightarrow> threads (CleanupFinishedThreads s) = []"
      by (simp add: CleanupFinishedThreads_def)
    show ?thesis
      using t live_run empty
      unfolding inv_threads_def coll
      by (auto simp: cleanup_threads cleanup_stop_flags finished_not_running split: if_splits) fastforce
  qed
  moreover have "map_wf (threads (CleanupFinishedThreads s))" "map_wf (stop_flags (CleanupFinishedThreads s))"
    using inv by (auto simp: jm_inv_def inv_maps_def CleanupFinishedThreads_def fold_cleanup intro: filter_map_wf)
  ultimately show ?thesis
    using inv by (simp add: jm_inv_def inv_live_def inv_flags_def inv_maps_def inv_metrics_def coll)
qed

section \<open>Every step keeps the invariant\<close>

lemma finite_live_set [simp]: "finite (live_set s)"
  by (simp add: live_set_def)

lemma jm_inv_new: "jm_inv new_JobManager"
  by (simp add: jm_inv_def jm_inv_defs new_JobManager_def live_set_def running_def collected_def
      bij_betw_def empty_registry_def counter_def finished_total_def)

lemma jm_inv_SetMax: "jm_inv s \<Longrightarrow> jm_inv (SetMaxConcurrentJobs m s)"
  by (simp add: SetMaxConcurrentJobs_def jm_inv_def jm_inv_defs live_set_def running_def collected_def)

lemma jm_inv_registry:
  assumes "jm_inv s" and "finished_total r = finished_total (registry s)"
    and "m_gauges r = m_gauges (registry s)"
  shows "jm_inv (s\<lparr>registry := r\<rparr>)"
  using assms by (simp add: jm_inv_def jm_inv_defs live_set_def running_def collected_def)

text \<open>The state after a successful start, from a state that the cleanup has already swept.\<close>

definition started :: "string \<Rightarrow> string \<Rightarrow> JobManager \<Rightarrow> JobManager" where
  "started jid rid s =
     s\<lparr>flag_cells := flag_cells s @ [False],
       stop_flags := map_put jid (length (flag_cells s)) (stop_flags s),
       jobs := map_put jid \<lparr>ji_job_id = jid, ji_request_id = rid, ji_status = RUNNING, ji_error = ''''\<rparr> (jobs s),
       current_jobs := current_jobs s + 1,
       registry := SetGauge ''job_active_count'' (real (unat (current_jobs s + 1))) (registry s),
       workers := workers s @ [\<lparr>wk_job = jid, wk_flag = length (flag_cells s), wk_done = False\<rparr>],
       threads := map_put jid (length (workers s)) (threads s)\<rparr>"

lemma live_set_started: "live_set (started jid rid s) = insert (length (workers s)) (live_set s)"
  by (auto simp: live_set_def started_def nth_append)

lemma live_set_less: "i \<in> live_set s \<Longrightarrow> i < length (workers s)"
  by (simp add: live_set_def)

lemma running_started: "running (started jid rid s) j \<longleftrightarrow> j = jid \<or> running s j"
  by (auto simp: running_def started_def)

lemma workers_started: "i < length (workers s) \<Longrightarrow> workers (started jid rid s) ! i = workers s ! i"
  by (simp add: started_def nth_append)

lemma workers_started_new:
  "workers (started jid rid s) ! length (workers s) =
     \<lparr>wk_job = jid, wk_flag = length (flag_cells s), wk_done = False\<rparr>"
  by (simp add: started_def)

lemma card_live_started: "card (live_set (started jid rid s)) = Suc (card (live_set s))"
proof -
  have "length (workers s) \<notin> live_set s" by (simp add: live_set_def)
  then show ?thesis by (simp add: live_set_started)
qed

lemma current_jobs_started [simp]: "current_jobs (started jid rid s) = current_jobs s + 1"
  by (simp add: started_def)

lemma running_iff_live:
  "inv_live s \<Longrightarrow> running s jid \<longleftrightarrow> (\<exists>i \<in> live_set s. wk_job (workers s ! i) = jid)"
proof -
  assume "inv_live s"
  then have "(\<lambda>i. wk_job (workers s ! i)) ` live_set s = {j. running s j}"
    by (simp add: inv_live_def bij_betw_def)
  then show ?thesis by (simp add: set_eq_iff image_iff) metis
qed

lemma live_thread:
  "inv_threads s \<Longrightarrow> \<not> collected s \<Longrightarrow> i \<in> live_set s \<Longrightarrow> map_get (threads s) (wk_job (workers s ! i)) = Some i"
  unfolding inv_threads_def by blast

lemma thread_entry:
  assumes "inv_threads s" and "map_get (threads s) jid = Some i"
  shows "i < length (workers s)" and "wk_job (workers s ! i) = jid"
    and "map_get (stop_flags s) jid = Some (wk_flag (workers s ! i))"
    and "map_get (jobs s) jid \<noteq> None" and "running s jid \<longleftrightarrow> i \<in> live_set s"
  using assms unfolding inv_threads_def by blast+

lemma flag_has_thread: "inv_threads s \<Longrightarrow> map_get (stop_flags s) jid \<noteq> None \<Longrightarrow> map_get (threads s) jid \<noteq> None"
  unfolding inv_threads_def by blast

lemma inv_live_started:
  assumes inv: "inv_live s" and new: "\<not> running s jid" and room: "current_jobs s < max_jobs s"
  shows "inv_live (started jid rid s)"
proof -
  let ?n = "length (workers s)"
  have "bij_betw (\<lambda>i. wk_job (workers (started jid rid s) ! i)) (live_set s) {j. running s j}"
    using inv unfolding inv_live_def
    by (auto simp: workers_started live_set_less cong: bij_betw_cong)
  then have "bij_betw (\<lambda>i. wk_job (workers (started jid rid s) ! i)) (live_set s \<union> {?n}) ({j. running s j} \<union> {jid})"
    using new by (intro bij_betw_combine) (auto simp: bij_betw_def workers_started_new)
  moreover have "live_set s \<union> {?n} = live_set (started jid rid s)"
    by (simp add: live_set_started)
  moreover have "{j. running s j} \<union> {jid} = {j. running (started jid rid s) j}"
    by (auto simp: running_started)
  moreover have "unat (current_jobs (started jid rid s)) = card (live_set (started jid rid s))"
    using inv room by (simp add: card_live_started inv_live_def unat_size_t_Suc word_less_nat_alt)
  ultimately show ?thesis
    unfolding inv_live_def by metis
qed

lemma inv_threads_started:
  assumes inv: "jm_inv s" and nst: "\<not> stopping s" and new: "map_get (threads s) jid = None"
  shows "inv_threads (started jid rid s)"
proof -
  let ?n = "length (workers s)" and ?s = "started jid rid s"
  have t: "inv_threads s" using inv by (simp add: jm_inv_def)
  have nc: "\<not> collected s" "\<not> collected ?s" using nst by (simp_all add: collected_def started_def)
  have th: "map_get (threads ?s) = (map_get (threads s))(jid \<mapsto> ?n)"
    and fl: "map_get (stop_flags ?s) = (map_get (stop_flags s))(jid \<mapsto> length (flag_cells s))"
    and jb: "\<And>j. map_get (jobs ?s) j = None \<longleftrightarrow> j \<noteq> jid \<and> map_get (jobs s) j = None"
    and len: "length (workers ?s) = Suc ?n"
    by (simp_all add: started_def)
  have notlive: "wk_job (workers s ! i) \<noteq> jid" if "i \<in> live_set s" for i
    using live_thread [OF t nc(1) that] new by auto
  note old = thread_entry [OF t]
  show ?thesis
    unfolding inv_threads_def
  proof (intro conjI allI impI ballI)
    fix j i assume j: "map_get (threads ?s) j = Some i"
    show "i < length (workers ?s)"
      using j old(1) by (auto simp: th len less_Suc_eq split: if_splits)
    show "wk_job (workers ?s ! i) = j"
      using j old(1,2) by (auto simp: th workers_started_new workers_started split: if_splits)
    show "map_get (stop_flags ?s) j = Some (wk_flag (workers ?s ! i))"
      using j old(1,3) by (auto simp: th fl workers_started_new workers_started split: if_splits)
    show "map_get (jobs ?s) j \<noteq> None"
      using j old(4) by (auto simp: th jb split: if_splits)
    show "running ?s j \<longleftrightarrow> i \<in> live_set ?s"
    proof (cases "j = jid")
      case True
      with j show ?thesis by (simp add: th running_started live_set_started)
    next
      case False
      with j have ji: "map_get (threads s) j = Some i" by (simp add: th)
      show ?thesis using False old(1,5) [OF ji] by (simp add: running_started live_set_started)
    qed
  next
    fix j assume "map_get (stop_flags ?s) j \<noteq> None"
    then show "map_get (threads ?s) j \<noteq> None"
      using flag_has_thread [OF t, of j] by (auto simp: th fl split: if_splits)
  next
    fix i assume "i \<in> live_set ?s"
    then show "map_get (threads ?s) (wk_job (workers ?s ! i)) = Some i"
      using live_thread [OF t nc(1), of i] notlive [of i]
      by (auto simp: live_set_started th workers_started workers_started_new live_set_less)
  next
    assume "collected ?s" with nc show "threads ?s = []" by simp
  qed
qed

lemma jm_inv_started:
  assumes inv: "jm_inv s" and nst: "\<not> stopping s" and new: "map_get (threads s) jid = None"
    and room: "current_jobs s < max_jobs s"
  shows "jm_inv (started jid rid s)"
proof -
  let ?s = "started jid rid s"
  have nc: "\<not> collected ?s" using nst by (simp add: collected_def started_def)
  have nr: "\<not> running s jid"
  proof
    assume "running s jid"
    then obtain i where i: "i \<in> live_set s" "wk_job (workers s ! i) = jid"
      using inv running_iff_live by (auto simp: jm_inv_def)
    have "map_get (threads s) jid = Some i"
      using live_thread [of s i] i inv nst by (simp add: jm_inv_def collected_def)
    with new show False by simp
  qed
  have "inv_live ?s" using inv nr room by (simp add: jm_inv_def inv_live_started)
  moreover have "inv_threads ?s" by (rule inv_threads_started [OF inv nst new])
  moreover have "inv_flags ?s"
    using inv nc by (auto simp: jm_inv_def inv_flags_def started_def less_Suc_eq)
  moreover have "inv_maps ?s"
    using inv by (auto simp: jm_inv_def inv_maps_def started_def)
  moreover have "inv_metrics ?s"
    using inv room
    by (simp add: jm_inv_def inv_metrics_def inv_live_def card_live_started)
      (simp add: started_def unat_size_t_Suc word_less_nat_alt finished_total_def)
  ultimately show ?thesis by (simp add: jm_inv_def)
qed

text \<open>What \<^verbatim>\<open>StartJob\<close> does in each of its branches, and that a start never waits for a live worker.\<close>

lemma StartJob_cases:
  "StartJob jid rid s =
     (if stopping s then (Threw (Runtime_error ''JobManager is stopping''), s)
      else if max_jobs s \<le> current_jobs s then
        (Threw (Runtime_error ''Job queue full: max concurrent jobs reached''),
         (CleanupFinishedThreads s)\<lparr>registry :=
            Increment ''job_rejected_total'' [(''reason'', ''resource_exhausted'')] 1 (registry s)\<rparr>)
      else if map_get (threads (CleanupFinishedThreads s)) jid \<noteq> None then
        (Terminated, (started jid rid (CleanupFinishedThreads s))
           \<lparr>threads := threads (CleanupFinishedThreads s)\<rparr>)
      else (Returned (), started jid rid (CleanupFinishedThreads s)))"
  by (simp add: StartJob_def started_def Let_def)

lemma cleaned_thread_iff_running:
  assumes "jm_inv s" and "\<not> stopping s"
  shows "map_get (threads (CleanupFinishedThreads s)) jid \<noteq> None \<longleftrightarrow> running s jid"
proof -
  have t: "inv_threads s" and l: "inv_live s" and nc: "\<not> collected s"
    using assms by (simp_all add: jm_inv_def collected_def)
  show ?thesis
  proof
    assume a: "map_get (threads (CleanupFinishedThreads s)) jid \<noteq> None"
    then obtain i where "map_get (threads s) jid = Some i" "\<not> finished s jid"
      by (auto simp: cleanup_threads split: if_splits)
    then show "running s jid"
      using thread_entry(4) [OF t] by (auto simp: finished_not_running)
  next
    assume r: "running s jid"
    then obtain i where "i \<in> live_set s" "wk_job (workers s ! i) = jid"
      using running_iff_live [OF l] by blast
    then show "map_get (threads (CleanupFinishedThreads s)) jid \<noteq> None"
      using live_thread [OF t nc] r by (auto simp: cleanup_threads finished_not_running)
  qed
qed

lemma cleanup_joins_done:
  assumes "jm_inv s" and "i \<in> set (cleanup_joins s)"
  shows "i < length (workers s) \<and> wk_done (workers s ! i)"
proof -
  have t: "inv_threads s" and m: "map_wf (threads s)"
    using assms by (simp_all add: jm_inv_def inv_maps_def)
  obtain jid where "(jid, i) \<in> set (threads s)" and f: "finished s jid"
    using assms(2) by (auto simp: cleanup_joins_def)
  then have "map_get (threads s) jid = Some i"
    using m by (simp add: map_wf_distinct)
  from thread_entry [OF t this] f show ?thesis
    by (auto simp: finished_not_running live_set_def)
qed

lemma jm_inv_StartJob:
  assumes inv: "jm_inv s" and st: "StartJob jid rid s = (out, t)" and "out \<noteq> Terminated"
  shows "jm_inv t"
proof -
  let ?c = "CleanupFinishedThreads s"
  have c: "jm_inv ?c" by (rule jm_inv_cleanup [OF inv])
  consider (stopping) "stopping s" "t = s"
    | (full) "t = ?c\<lparr>registry := Increment ''job_rejected_total'' [(''reason'', ''resource_exhausted'')] 1 (registry s)\<rparr>"
    | (ok) "\<not> stopping ?c" "current_jobs ?c < max_jobs ?c" "map_get (threads ?c) jid = None" "t = started jid rid ?c"
    using st assms(3) by (auto simp: StartJob_cases split: if_splits)
  then show ?thesis
  proof cases
    case stopping
    with inv show ?thesis by simp
  next
    case full
    show ?thesis unfolding full
      by (rule jm_inv_registry [OF c]) (simp_all add: SerializeKey_def finished_total_def)
  next
    case ok
    then show ?thesis using jm_inv_started [OF c] by simp
  qed
qed

lemma jm_inv_CancelJob: "jm_inv s \<Longrightarrow> jm_inv (CancelJob jid s)"
  by (auto simp: CancelJob_def jm_inv_def jm_inv_defs live_set_def running_def collected_def
      nth_list_update split: option.splits)

lemma jm_inv_Stop_exchange: "jm_inv s \<Longrightarrow> jm_inv (snd (Stop_exchange s))"
  by (auto simp: Stop_exchange_def jm_inv_def jm_inv_defs live_set_def running_def collected_def)

lemma set_cell: "a < length cells \<Longrightarrow> cells[b := True] ! a \<longleftrightarrow> a = b \<or> cells ! a"
  by (cases "a = b") auto

lemma fold_set_cells:
  "length (fold (\<lambda>e cells. cells[snd e := True]) es cells) = length cells"
  "a < length cells \<Longrightarrow> fold (\<lambda>e cells. cells[snd e := True]) es cells ! a \<longleftrightarrow> a \<in> snd ` set es \<or> cells ! a"
  by (induction es arbitrary: cells) (auto simp: set_cell)

lemma Stop_collect_flags:
  assumes inv: "jm_inv s" and pc: "stop_pc s" and i: "i \<in> live_set s"
  shows "flag_cells (snd (Stop_collect s)) ! wk_flag (workers s ! i)"
proof -
  have t: "inv_threads s" and f: "inv_flags s"
    using inv by (simp_all add: jm_inv_def)
  have nc: "\<not> collected s" using pc by (simp add: collected_def)
  have "map_get (stop_flags s) (wk_job (workers s ! i)) = Some (wk_flag (workers s ! i))"
    using live_thread [OF t nc i] thread_entry(3) [OF t] by blast
  then have "wk_flag (workers s ! i) \<in> snd ` set (stop_flags s)"
    by (force dest: map_of_SomeD)
  moreover have "wk_flag (workers s ! i) < length (flag_cells s)"
    using f live_set_less [OF i] by (auto simp: inv_flags_def)
  ultimately show ?thesis
    by (simp add: Stop_collect_def fold_set_cells)
qed

lemma jm_inv_Stop_collect:
  assumes inv: "jm_inv s" and pc: "stop_pc s"
  shows "jm_inv (snd (Stop_collect s))"
proof -
  let ?t = "snd (Stop_collect s)"
  have same: "live_set ?t = live_set s" "running ?t = running s" "workers ?t = workers s"
    "jobs ?t = jobs s" "registry ?t = registry s" "current_jobs ?t = current_jobs s"
    "threads ?t = []" "stop_flags ?t = []" "stop_pc ?t = False" "stopping ?t = stopping s"
    "length (flag_cells ?t) = length (flag_cells s)"
    by (simp_all add: Stop_collect_def live_set_def running_def fun_eq_iff fold_set_cells)
  have coll: "collected ?t"
    using inv pc by (simp add: collected_def same jm_inv_def inv_flags_def)
  have "inv_flags ?t"
    using inv Stop_collect_flags [OF inv pc] by (simp add: jm_inv_def inv_flags_def same)
  with inv coll show ?thesis
    by (simp add: jm_inv_def inv_live_def inv_threads_def inv_maps_def inv_metrics_def same)
qed

section \<open>The completion block\<close>

text \<open>The status a job ends in, as the completion block chooses it.\<close>

definition final_status :: "JobManager \<Rightarrow> nat \<Rightarrow> work_result \<Rightarrow> JobStatus" where
  "final_status s i res =
     (case res of Work_returns \<Rightarrow> if flag_cells s ! wk_flag (workers s ! i) then CANCELLED else COMPLETED
      | _ \<Rightarrow> FAILED)"

lemma finish_simps [simp]:
  "stop_flags (worker_finish i res s) = stop_flags s"
  "threads (worker_finish i res s) = threads s"
  "stopping (worker_finish i res s) = stopping s"
  "stop_pc (worker_finish i res s) = stop_pc s"
  "flag_cells (worker_finish i res s) = flag_cells s"
  "max_jobs (worker_finish i res s) = max_jobs s"
  "current_jobs (worker_finish i res s) = current_jobs s - 1"
  "workers (worker_finish i res s) = (workers s)[i := (workers s ! i)\<lparr>wk_done := True\<rparr>]"
  "length (workers (worker_finish i res s)) = length (workers s)"
  by (simp_all add: worker_finish_def Let_def finish_metrics_def set_job_def
      split: work_result.splits option.splits)

lemma finish_jobs:
  "map_get (jobs (worker_finish i res s)) jid =
     (case map_get (jobs s) jid of
        None \<Rightarrow> None
      | Some info \<Rightarrow>
          if jid = wk_job (workers s ! i)
          then Some (info\<lparr>ji_status := final_status s i res,
                          ji_error := (case res of Work_returns \<Rightarrow> ji_error info
                             | Work_throws m \<Rightarrow> m | Work_throws_unknown \<Rightarrow> ''Unknown exception'')\<rparr>)
          else Some info)"
  by (auto simp: worker_finish_def Let_def finish_metrics_def set_job_def final_status_def
      split: work_result.splits option.splits)

lemma final_status_terminal [simp]:
  "final_status s i res \<noteq> RUNNING" "final_status s i res \<noteq> PENDING"
  by (auto simp: final_status_def split: work_result.splits)

lemma live_set_finish:
  "i < length (workers s) \<Longrightarrow> live_set (worker_finish i res s) = live_set s - {i}"
  by (auto simp: live_set_def nth_list_update)

lemma running_finish:
  "running (worker_finish i res s) jid \<longleftrightarrow> running s jid \<and> jid \<noteq> wk_job (workers s ! i)"
  by (auto simp: running_def finish_jobs split: option.splits)

lemma wk_job_finish [simp]:
  "wk_job (workers (worker_finish i res s) ! k) = wk_job (workers s ! k)"
  "wk_flag (workers (worker_finish i res s) ! k) = wk_flag (workers s ! k)"
  by (cases "i < length (workers s)"; simp add: nth_list_update list_update_beyond)+

lemma finished_total_finish: "finished_total (registry (worker_finish i res s)) = finished_total (registry s) + 1"
  by (cases res; cases "map_get (jobs s) (wk_job (workers s ! i))")
    (simp_all add: worker_finish_def Let_def finish_metrics_def set_job_def SerializeKey_def finished_total_def)

lemma gauge_finish:
  "map_get (m_gauges (registry (worker_finish i res s))) ''job_active_count'' =
     Some (real (unat (current_jobs s - 1)))"
  by (cases res; cases "map_get (jobs s) (wk_job (workers s ! i))")
    (simp_all add: worker_finish_def Let_def finish_metrics_def set_job_def)

lemma map_wf_finish: "map_wf (jobs s) \<Longrightarrow> map_wf (jobs (worker_finish i res s))"
  by (cases res; cases "map_get (jobs s) (wk_job (workers s ! i))")
    (auto simp: worker_finish_def Let_def finish_metrics_def set_job_def)

lemma inv_live_finish:
  assumes l: "inv_live s" and i: "i \<in> live_set s"
  shows "inv_live (worker_finish i res s)"
proof -
  let ?t = "worker_finish i res s"
  have live: "live_set ?t = live_set s - {i}"
    using i by (simp add: live_set_finish live_set_less)
  have "bij_betw (\<lambda>k. wk_job (workers s ! k)) (live_set s - {i}) ({j. running s j} - {wk_job (workers s ! i)})"
    using l i unfolding inv_live_def by (auto simp: bij_betw_def inj_on_def)
  moreover have "{j. running s j} - {wk_job (workers s ! i)} = {j. running ?t j}"
    by (auto simp: running_finish)
  moreover have "0 < card (live_set s)"
    using i by (auto simp: card_gt_0_iff)
  then have "unat (current_jobs ?t) = card (live_set ?t)"
    using l i by (simp add: live inv_live_def unat_size_t_pred)
  ultimately show ?thesis
    unfolding inv_live_def by (simp add: live del: finish_simps(8))
qed

lemma jm_inv_finish:
  assumes inv: "jm_inv s" and i: "i \<in> live_set s"
  shows "jm_inv (worker_finish i res s)"
proof -
  let ?t = "worker_finish i res s"
  have l: "inv_live s" and t: "inv_threads s" and f: "inv_flags s" and m: "inv_maps s" and x: "inv_metrics s"
    using inv by (simp_all add: jm_inv_def)
  have live: "live_set ?t = live_set s - {i}"
    using i by (simp add: live_set_finish live_set_less)
  have coll: "collected ?t = collected s" by (simp add: collected_def)
  have same: "j = i" if "map_get (threads s) (wk_job (workers s ! i)) = Some j" for j
  proof (cases "collected s")
    case True
    then have "threads s = []" using t by (simp add: inv_threads_def)
    with that show ?thesis by simp
  next
    case False
    from live_thread [OF t this i] that show ?thesis by simp
  qed
  have "inv_live ?t" by (rule inv_live_finish [OF l i])
  moreover have "inv_threads ?t"
    unfolding inv_threads_def coll
  proof (intro conjI allI impI ballI)
    fix jid j assume "map_get (threads ?t) jid = Some j"
    then have j: "map_get (threads s) jid = Some j" by simp
    note e = thread_entry [OF t j]
    show "j < length (workers ?t)" "wk_job (workers ?t ! j) = jid"
      "map_get (stop_flags ?t) jid = Some (wk_flag (workers ?t ! j))"
      using e by (simp_all del: finish_simps(8))
    show "map_get (jobs ?t) jid \<noteq> None"
      using e by (auto simp: finish_jobs split: option.splits)
    show "running ?t jid \<longleftrightarrow> j \<in> live_set ?t"
      using e same j by (auto simp: running_finish live)
  next
    fix jid assume "map_get (stop_flags ?t) jid \<noteq> None"
    then show "map_get (threads ?t) jid \<noteq> None" using flag_has_thread [OF t] by simp
  next
    fix j assume "\<not> collected s" "j \<in> live_set ?t"
    then show "map_get (threads ?t) (wk_job (workers ?t ! j)) = Some j"
      using live_thread [OF t, of j] by (simp add: live del: finish_simps(8))
  next
    assume "collected s" then show "threads ?t = []" using t by (simp add: inv_threads_def)
  qed
  moreover have "inv_flags ?t"
  proof -
    have "\<forall>w \<in> set (workers ?t). wk_flag w < length (flag_cells ?t)"
      using f i live_set_less [OF i] by (auto simp: inv_flags_def dest!: set_update_subset_insert [THEN subsetD])
    then show ?thesis using f unfolding inv_flags_def coll by (simp add: live del: finish_simps(8))
  qed
  moreover have "inv_maps ?t"
    using m by (auto simp: inv_maps_def map_wf_finish finish_jobs split: option.splits if_splits)
  moreover have "inv_metrics ?t"
  proof -
    have c: "card (live_set ?t) = card (live_set s) - 1" "0 < card (live_set s)"
      using i by (auto simp: live card_gt_0_iff)
    have u: "unat (current_jobs s - 1) = card (live_set s) - 1"
      using l c by (simp add: inv_live_def unat_size_t_pred)
    show ?thesis
      using x c(2) unfolding inv_metrics_def
      by (simp add: gauge_finish finished_total_finish u c(1) Suc_leI)
  qed
  ultimately show ?thesis by (simp add: jm_inv_def)
qed

lemma jm_step_inv: "jm_inv s \<Longrightarrow> jm_step s t \<Longrightarrow> jm_inv t"
  by (erule jm_step.cases)
    (auto intro: jm_inv_SetMax jm_inv_StartJob jm_inv_finish jm_inv_CancelJob jm_inv_Stop_exchange jm_inv_Stop_collect)

interpretation jm: inductive_invariant "\<lambda>s. s = new_JobManager" jm_step jm_inv
  by unfold_locales (auto intro: jm_inv_new jm_step_inv)

section \<open>Runs\<close>

text \<open>What every step preserves of a worker and of the stop-flag cells: flags are never cleared.\<close>

definition extends :: "JobManager \<Rightarrow> JobManager \<Rightarrow> bool" where
  "extends s t \<longleftrightarrow>
     length (workers s) \<le> length (workers t)
     \<and> (\<forall>i < length (workers s). wk_job (workers t ! i) = wk_job (workers s ! i)
            \<and> wk_flag (workers t ! i) = wk_flag (workers s ! i))
     \<and> length (flag_cells s) \<le> length (flag_cells t)
     \<and> (\<forall>a < length (flag_cells s). flag_cells s ! a \<longrightarrow> flag_cells t ! a)
     \<and> (stopping s \<longrightarrow> stopping t \<and> length (workers t) = length (workers s))"

lemma extends_refl [simp]: "extends s s"
  by (simp add: extends_def)

lemma extends_trans: "extends s t \<Longrightarrow> extends t u \<Longrightarrow> extends s u"
proof -
  assume st: "extends s t" and tu: "extends t u"
  have le: "length (workers s) \<le> length (workers t)" "length (flag_cells s) \<le> length (flag_cells t)"
    using st by (simp_all add: extends_def)
  have "length (workers s) \<le> length (workers u)" "length (flag_cells s) \<le> length (flag_cells u)"
    using le tu by (auto simp: extends_def)
  moreover have "wk_job (workers u ! i) = wk_job (workers s ! i) \<and> wk_flag (workers u ! i) = wk_flag (workers s ! i)"
    if "i < length (workers s)" for i
    using that le st tu by (simp add: extends_def)
  moreover have "flag_cells u ! a" if "a < length (flag_cells s)" "flag_cells s ! a" for a
    using that le st tu by (simp add: extends_def)
  ultimately show ?thesis
    using st tu by (simp add: extends_def)
qed

lemma extends_StartJob: "StartJob jid rid s = (out, t) \<Longrightarrow> extends s t"
  by (auto simp: StartJob_cases extends_def started_def nth_append split: if_splits)

lemma jm_step_extends: "jm_step s t \<Longrightarrow> extends s t"
proof (induction rule: jm_step.induct)
  case (start jid rid s out t)
  then show ?case by (blast intro: extends_StartJob)
next
  case (finish i s res)
  then show ?case by (auto simp: extends_def simp del: finish_simps(8))
qed (auto simp: extends_def SetMaxConcurrentJobs_def CancelJob_def Stop_exchange_def Stop_collect_def
       set_cell fold_set_cells split: option.splits)

lemma jm_steps_extends: "jm_step\<^sup>*\<^sup>* s t \<Longrightarrow> extends s t"
  by (induction rule: rtranclp_induct) (auto intro: extends_trans jm_step_extends)

lemma reachable_steps: "jm_step\<^sup>*\<^sup>* s t \<Longrightarrow> jm_reachable s \<Longrightarrow> jm_reachable t"
  by (induction rule: rtranclp_induct) (auto intro: reachable_step)

lemma CancelJob_flag:
  assumes inv: "jm_inv s" and i: "i \<in> live_set s"
  shows "flag_cells (CancelJob (wk_job (workers s ! i)) s) ! wk_flag (workers s ! i)"
proof (cases "collected s")
  case True
  then have "threads s = []" using inv by (simp add: jm_inv_def inv_threads_def)
  then have "map_get (stop_flags s) jid = None" for jid
    using flag_has_thread [of s jid] inv by (cases "map_get (stop_flags s) jid") (auto simp: jm_inv_def)
  then show ?thesis
    using inv i True by (simp add: CancelJob_def jm_inv_def inv_flags_def)
next
  case False
  have "map_get (stop_flags s) (wk_job (workers s ! i)) = Some (wk_flag (workers s ! i))"
    using live_thread [OF _ False i] thread_entry(3) [of s] inv by (auto simp: jm_inv_def)
  moreover have "wk_flag (workers s ! i) < length (flag_cells s)"
    using inv live_set_less [OF i] by (auto simp: jm_inv_def inv_flags_def)
  ultimately show ?thesis by (simp add: CancelJob_def)
qed

section \<open>Properties\<close>

text \<open>
  C4. Accounting, in every state that any interleaving of starts, completions, cancellations and
  stops can reach: \<^verbatim>\<open>current_jobs_\<close> is the number of unfinished worker threads and never wraps;
  the unfinished workers are in bijection with the jobs recorded as \<^verbatim>\<open>RUNNING\<close>; every worker ever
  started is either unfinished or counted by exactly one of the completed and failed counters;
  and the \<^verbatim>\<open>job_active_count\<close> gauge shows the number of unfinished workers.
\<close>

theorem job_manager_accounting:
  assumes "jm_reachable s"
  shows "unat (current_jobs s) = card (live_set s)
    \<and> bij_betw (\<lambda>i. wk_job (workers s ! i)) (live_set s) {jid. running s jid}
    \<and> int (length (workers s)) = int (unat (current_jobs s)) + finished_total (registry s)
    \<and> (workers s \<noteq> [] \<longrightarrow>
         map_get (m_gauges (registry s)) ''job_active_count'' = Some (real (unat (current_jobs s))))"
  using jm.reachable_inv [OF assms]
  by (simp add: jm_inv_def inv_live_def inv_metrics_def)

lemma reachable_new: "jm_reachable new_JobManager"
  by (rule reachable_init) simp

definition one_job :: JobManager where
  "one_job = started ''gen-1'' ''r1'' new_JobManager"

lemma StartJob_one: "StartJob ''gen-1'' ''r1'' new_JobManager = (Returned (), one_job)"
  by (simp add: StartJob_cases one_job_def new_JobManager_def CleanupFinishedThreads_def)

lemma reachable_one_job: "jm_reachable one_job"
  by (rule reachable_step [OF reachable_new start [OF StartJob_one]]) simp

lemma one_job_simps [simp]:
  "current_jobs one_job = 1" "workers one_job = [\<lparr>wk_job = ''gen-1'', wk_flag = 0, wk_done = False\<rparr>]"
  "stopping one_job = False" "max_jobs one_job = 4"
  by (simp_all add: one_job_def started_def new_JobManager_def)

lemma live_set_one_job [simp]: "live_set one_job = {0}"
  by (auto simp: live_set_def)

lemma running_one_job [simp]: "running one_job jid \<longleftrightarrow> jid = ''gen-1''"
  by (auto simp: one_job_def running_started) (simp add: running_def new_JobManager_def)

theorem job_manager_accounting_witness:
  "jm_reachable one_job \<and> unat (current_jobs one_job) = 1 \<and> card (live_set one_job) = 1
   \<and> finished_total (registry one_job) = 0"
  using job_manager_accounting [OF reachable_one_job] reachable_one_job by simp

text \<open>
  C1. The outcome of \<^verbatim>\<open>StartJob\<close> from any reachable state. A stopping manager and a full one throw
  their two errors and start nothing; otherwise the call starts a worker whose job is
  \<^verbatim>\<open>RUNNING\<close> with a fresh, unset stop flag and the number of active jobs stays within
  \<^verbatim>\<open>max_jobs_\<close>, unless the identifier belongs to a job that is still running, in which case
  assigning over its joinable \<^verbatim>\<open>std::thread\<close> terminates the process. In no case does the join inside
  \<^verbatim>\<open>CleanupFinishedThreads\<close>, made under the mutex, wait for a worker that still needs the mutex.
\<close>

theorem StartJob_outcome:
  assumes "jm_reachable s" and "StartJob jid rid s = (out, t)"
  shows "(stopping s \<longrightarrow> out = Threw (Runtime_error ''JobManager is stopping'') \<and> t = s)
    \<and> (\<not> stopping s \<longrightarrow> max_jobs s \<le> current_jobs s \<longrightarrow>
         out = Threw (Runtime_error ''Job queue full: max concurrent jobs reached'')
         \<and> workers t = workers s \<and> jobs t = jobs s)
    \<and> (\<not> stopping s \<longrightarrow> current_jobs s < max_jobs s \<longrightarrow>
         (if running s jid then out = Terminated
          else out = Returned () \<and> GetStatus jid t = RUNNING
               \<and> live_set t = insert (length (workers s)) (live_set s)
               \<and> \<not> flag_cells t ! wk_flag (workers t ! length (workers s))
               \<and> unat (current_jobs t) = Suc (unat (current_jobs s))
               \<and> unat (current_jobs t) \<le> unat (max_jobs t)))
    \<and> (\<forall>i \<in> set (cleanup_joins s). wk_done (workers s ! i))"
proof -
  have inv: "jm_inv s" by (rule jm.reachable_inv [OF assms(1)])
  have joins: "\<forall>i \<in> set (cleanup_joins s). wk_done (workers s ! i)"
    using cleanup_joins_done [OF inv] by blast
  have ok: "if running s jid then out = Terminated
      else out = Returned () \<and> GetStatus jid t = RUNNING
           \<and> live_set t = insert (length (workers s)) (live_set s)
           \<and> \<not> flag_cells t ! wk_flag (workers t ! length (workers s))
           \<and> unat (current_jobs t) = Suc (unat (current_jobs s))
           \<and> unat (current_jobs t) \<le> unat (max_jobs t)"
    if ns: "\<not> stopping s" and room: "current_jobs s < max_jobs s"
  proof (cases "running s jid")
    case True
    have nf: "\<not> max_jobs s \<le> current_jobs s" using room by simp
    from True show ?thesis
      using assms(2) ns nf cleaned_thread_iff_running [OF inv ns, of jid]
      by (simp add: StartJob_cases)
  next
    case False
    have nf: "\<not> max_jobs s \<le> current_jobs s" using room by simp
    from False have t: "out = Returned ()" "t = started jid rid (CleanupFinishedThreads s)"
      using assms(2) ns nf cleaned_thread_iff_running [OF inv ns, of jid]
      by (simp_all add: StartJob_cases)
    have "unat (current_jobs s + 1) = Suc (unat (current_jobs s))"
      using room by (simp add: unat_size_t_Suc word_less_nat_alt)
    with False t room show ?thesis
      by (simp add: live_set_started)
        (simp add: started_def GetStatus_def word_less_nat_alt)
  qed
  have st: "out = Threw (Runtime_error ''JobManager is stopping'') \<and> t = s" if "stopping s"
    using assms(2) that by (simp add: StartJob_cases)
  have full: "out = Threw (Runtime_error ''Job queue full: max concurrent jobs reached'')
      \<and> workers t = workers s \<and> jobs t = jobs s" if "\<not> stopping s" "max_jobs s \<le> current_jobs s"
    using assms(2) that by (auto simp: StartJob_cases)
  from st full ok joins show ?thesis by blast
qed

theorem StartJob_outcome_witness:
  "jm_reachable one_job \<and> fst (StartJob ''gen-1'' ''r2'' one_job) = Terminated
   \<and> fst (StartJob ''gen-2'' ''r2'' one_job) = Returned ()"
proof -
  obtain o1 t1 o2 t2 where r: "StartJob ''gen-1'' ''r2'' one_job = (o1, t1)"
    "StartJob ''gen-2'' ''r2'' one_job = (o2, t2)"
    by fastforce
  have "(1::size_t) < 4" by simp
  then show ?thesis
    using StartJob_outcome [OF reachable_one_job r(1)] StartJob_outcome [OF reachable_one_job r(2)]
      reachable_one_job by (simp add: r)
qed

text \<open>
  C6. Cancellation is not lost: once \<^verbatim>\<open>CancelJob\<close> is called for a running job, then after any
  further interleaving in which its worker has not finished yet, the worker reads its stop flag as
  set, and if its work function returns the job ends as \<^verbatim>\<open>CANCELLED\<close>; if the work function throws, the
  job ends as \<^verbatim>\<open>FAILED\<close> with the message recorded.
\<close>

theorem CancelJob_reaches_worker:
  assumes "jm_reachable s" and "i \<in> live_set s"
    and "jm_step\<^sup>*\<^sup>* (CancelJob (wk_job (workers s ! i)) s) t" and "i \<in> live_set t"
  shows "flag_cells t ! wk_flag (workers t ! i)
    \<and> GetStatus (wk_job (workers s ! i)) (worker_finish i Work_returns t) = CANCELLED
    \<and> GetStatus (wk_job (workers s ! i)) (worker_finish i (Work_throws msg) t) = FAILED"
proof -
  let ?j = "wk_job (workers s ! i)" and ?c = "CancelJob (wk_job (workers s ! i)) s"
  have inv: "jm_inv s" by (rule jm.reachable_inv [OF assms(1)])
  have rc: "jm_reachable ?c" by (rule reachable_step [OF assms(1) cancel])
  have invt: "jm_inv t" by (rule jm.reachable_inv [OF reachable_steps [OF assms(3) rc]])
  have w: "workers ?c = workers s" "length (flag_cells ?c) = length (flag_cells s)"
    by (simp_all add: CancelJob_def split: option.splits)
  have i: "i < length (workers s)" by (rule live_set_less [OF assms(2)])
  have ext: "extends ?c t" by (rule jm_steps_extends [OF assms(3)])
  then have same: "wk_job (workers t ! i) = ?j" "wk_flag (workers t ! i) = wk_flag (workers s ! i)"
    using i w by (simp_all add: extends_def)
  have "wk_flag (workers s ! i) < length (flag_cells s)"
    using inv i by (auto simp: jm_inv_def inv_flags_def)
  then have flag: "flag_cells t ! wk_flag (workers t ! i)"
    using ext CancelJob_flag [OF inv assms(2)] w same by (simp add: extends_def)
  have "running t ?j"
    using running_iff_live [of t ?j] invt assms(4) same by (auto simp: jm_inv_def)
  then obtain info where "map_get (jobs t) ?j = Some info"
    by (auto simp: running_def)
  with flag same show ?thesis
    by (simp add: GetStatus_def finish_jobs final_status_def)
qed

theorem CancelJob_reaches_worker_witness:
  "0 \<in> live_set (CancelJob ''gen-1'' one_job)
   \<and> GetStatus ''gen-1'' (worker_finish 0 Work_returns (CancelJob ''gen-1'' one_job)) = CANCELLED"
proof -
  have w: "workers (CancelJob ''gen-1'' one_job) = workers one_job"
    by (simp add: CancelJob_def split: option.splits)
  have l: "0 \<in> live_set (CancelJob ''gen-1'' one_job)"
    unfolding live_set_def w by simp
  have j: "wk_job (workers one_job ! 0) = ''gen-1''" by simp
  have "0 \<in> live_set one_job" by simp
  from CancelJob_reaches_worker [OF reachable_one_job this, unfolded j, OF rtranclp.rtrancl_refl l, of "''x''"] l
  show ?thesis by blast
qed

text \<open>
  C9. Shutdown: the critical section of \<^verbatim>\<open>Stop\<close> hands every unfinished worker to the join loop and
  sets the stop flag of every one of them; from then on, in every later state, no worker has been
  added, every unfinished worker still sees its flag set, and every \<^verbatim>\<open>StartJob\<close> throws.
\<close>

theorem Stop_stops_everything:
  assumes "jm_reachable s" and "stop_pc s" and "Stop_collect s = (to_join, t)" and "jm_step\<^sup>*\<^sup>* t u"
  shows "live_set s \<subseteq> set to_join
    \<and> length (workers u) = length (workers s)
    \<and> (\<forall>i \<in> live_set u. flag_cells u ! wk_flag (workers u ! i))
    \<and> fst (StartJob jid rid u) = Threw (Runtime_error ''JobManager is stopping'')"
proof -
  have inv: "jm_inv s" by (rule jm.reachable_inv [OF assms(1)])
  have t: "t = snd (Stop_collect s)" "to_join = map snd (threads s)"
    using assms(3) by (auto simp: Stop_collect_def)
  have rt: "jm_reachable t"
    using reachable_step [OF assms(1) stop_collect [OF assms(2)]] t by simp
  have st: "stopping t" "\<not> stop_pc t" "workers t = workers s"
    using inv assms(2) t by (simp_all add: Stop_collect_def jm_inv_def inv_flags_def)
  have ext: "extends t u" by (rule jm_steps_extends [OF assms(4)])
  have invu: "jm_inv u" by (rule jm.reachable_inv [OF reachable_steps [OF assms(4) rt]])
  have pc: "\<not> stop_pc u \<and> stopping u"
    using assms(4) st
  proof (induction rule: rtranclp_induct)
    case (step a b)
    then show ?case
      by (auto elim!: jm_step.cases simp: SetMaxConcurrentJobs_def StartJob_cases CancelJob_def
          Stop_exchange_def split: option.splits)
  qed simp
  have "live_set s \<subseteq> set to_join"
  proof
    fix i assume "i \<in> live_set s"
    then have "map_get (threads s) (wk_job (workers s ! i)) = Some i"
      using live_thread [of s i] inv assms(2) by (simp add: jm_inv_def collected_def)
    then show "i \<in> set to_join" unfolding t by (force dest: map_of_SomeD)
  qed
  moreover have "length (workers u) = length (workers s)"
    using ext st by (simp add: extends_def)
  moreover have "\<forall>i \<in> live_set u. flag_cells u ! wk_flag (workers u ! i)"
    using invu pc by (simp add: jm_inv_def inv_flags_def collected_def)
  ultimately show ?thesis
    using pc by (simp add: StartJob_cases)
qed

theorem Stop_stops_everything_witness:
  "fst (Stop_collect (snd (Stop_exchange one_job))) = [0]
   \<and> flag_cells (snd (Stop_collect (snd (Stop_exchange one_job)))) = [True]
   \<and> fst (StartJob ''a'' ''b'' (snd (Stop_collect (snd (Stop_exchange one_job)))))
       = Threw (Runtime_error ''JobManager is stopping'')"
proof -
  let ?s = "snd (Stop_exchange one_job)"
  have r: "jm_reachable ?s" by (rule reachable_step [OF reachable_one_job stop_exchange])
  have pc: "stop_pc ?s" by (simp add: Stop_exchange_def)
  have c: "fst (Stop_collect ?s) = [0]" "flag_cells (snd (Stop_collect ?s)) = [True]"
    by (simp_all add: Stop_collect_def Stop_exchange_def one_job_def started_def new_JobManager_def)
  have "Stop_collect ?s = (fst (Stop_collect ?s), snd (Stop_collect ?s))" by simp
  from Stop_stops_everything [OF r pc this rtranclp.rtrancl_refl, of "''a''" "''b''"] c
  show ?thesis by blast
qed

end
