(* ===== verification/Db_Pool.thy ===== *)
theory Db_Pool
  imports Metrics_Registry
begin

text \<open>
  The bounded connection pool, \<^verbatim>\<open>PooledDbConnectionManager\<close> of
  \<^verbatim>\<open>src/src/db_connection_manager.{h,cpp}\<close>. Connections are handles (\<^typ>\<open>nat\<close>). The state holds
  the private data of the class, the registry it reports to, and two pieces of its environment: the
  handles callers hold (\<open>held\<close>) and the next handle \<^verbatim>\<open>pqxx\<close> would give. Opening a connection is
  third-party code: its result is the parameter \<open>opened\<close>. The wait on the condition variable is
  represented by the state in which it returns.
\<close>

section \<open>State\<close>

record pool =
  pool_size :: size_t
  idle :: "nat list"
  in_use_count :: size_t
  total_acquires :: int
  total_timeouts :: int
  total_wait_ms :: real
  shutdown :: bool
  p_registry :: MetricsRegistry
  held :: "nat list"
  next_handle :: nat

definition PooledDbConnectionManager :: "size_t \<Rightarrow> pool" where
  "PooledDbConnectionManager n =
     \<lparr>pool_size = n, idle = [], in_use_count = 0, total_acquires = 0, total_timeouts = 0,
      total_wait_ms = 0, shutdown = False, p_registry = empty_registry, held = [], next_handle = 0\<rparr>"

section \<open>Operations\<close>

text \<open>The predicate the condition variable waits for.\<close>

definition pool_ready :: "pool \<Rightarrow> bool" where
  "pool_ready s \<longleftrightarrow> idle s \<noteq> [] \<or> in_use_count s < pool_size s \<or> shutdown s"

definition acquired :: "nat \<Rightarrow> real \<Rightarrow> pool \<Rightarrow> pool" where
  "acquired c wait_ms s =
     s\<lparr>in_use_count := in_use_count s + 1, total_acquires := total_acquires s + 1,
       total_wait_ms := total_wait_ms s + wait_ms,
       p_registry := EmitHistogram ''db_pool_wait_time_ms'' wait_ms []
         (EmitGauge ''db_pool_in_use'' (real (unat (in_use_count s + 1)))
           (EmitGauge ''db_pool_size'' (real (unat (pool_size s))) (p_registry s))),
       held := c # held s\<rparr>"

definition GetConnection :: "cpp_exception option \<Rightarrow> real \<Rightarrow> pool \<Rightarrow> nat cpp \<times> pool" where
  "GetConnection opened wait_ms s =
     (if \<not> pool_ready s then
        (Inl (Runtime_error ''DB connection acquisition timeout''),
         s\<lparr>total_timeouts := total_timeouts s + 1,
           p_registry := EmitCounter ''db_pool_timeouts_total'' 1 [] (p_registry s)\<rparr>)
      else if shutdown s then (Inl (Runtime_error ''DB Connection Manager is shutting down''), s)
      else
        (case idle s of
           c # cs \<Rightarrow> (Inr c, acquired c wait_ms (s\<lparr>idle := cs\<rparr>))
         | [] \<Rightarrow>
             (case opened of
                Some err \<Rightarrow> (Inl err, s)
              | None \<Rightarrow> (Inr (next_handle s),
                         acquired (next_handle s) wait_ms (s\<lparr>next_handle := Suc (next_handle s)\<rparr>)))))"

text \<open>\<^verbatim>\<open>ReleaseConnection\<close> returns whether it notified a waiter.\<close>

definition ReleaseConnection :: "nat \<Rightarrow> bool \<Rightarrow> pool \<Rightarrow> bool \<times> pool" where
  "ReleaseConnection c is_open s =
     (let s1 = s\<lparr>in_use_count := in_use_count s - 1, held := remove1 c (held s)\<rparr>
      in if shutdown s1 \<or> \<not> is_open then (False, s1) else (True, s1\<lparr>idle := idle s1 @ [c]\<rparr>))"

definition destroy_pool :: "pool \<Rightarrow> pool" where
  "destroy_pool s = s\<lparr>shutdown := True, idle := []\<rparr>"

record PoolStats =
  ps_size :: size_t
  ps_in_use :: size_t
  ps_available :: nat
  ps_total_acquires :: int
  ps_total_timeouts :: int
  ps_total_wait_ms :: real

definition GetStats :: "pool \<Rightarrow> PoolStats" where
  "GetStats s =
     \<lparr>ps_size = pool_size s, ps_in_use = in_use_count s, ps_available = length (idle s),
      ps_total_acquires = total_acquires s, ps_total_timeouts = total_timeouts s,
      ps_total_wait_ms = total_wait_ms s\<rparr>"

inductive pool_step :: "pool \<Rightarrow> pool \<Rightarrow> bool" where
  get: "0 \<le> wait_ms \<Longrightarrow> pool_step s (snd (GetConnection opened wait_ms s))"
| release: "c \<in> set (held s) \<Longrightarrow> pool_step s (snd (ReleaseConnection c is_open s))"
| destroy: "pool_step s (destroy_pool s)"

abbreviation pool_reachable :: "size_t \<Rightarrow> pool \<Rightarrow> bool" where
  "pool_reachable n \<equiv> reachable (\<lambda>s. s = PooledDbConnectionManager n) pool_step"

section \<open>Invariant\<close>

definition pool_inv :: "size_t \<Rightarrow> pool \<Rightarrow> bool" where
  "pool_inv n s \<longleftrightarrow>
     pool_size s = n
     \<and> unat (in_use_count s) = length (held s)
     \<and> length (idle s) + length (held s) \<le> unat n
     \<and> distinct (idle s @ held s)
     \<and> (\<forall>c \<in> set (idle s) \<union> set (held s). c < next_handle s)
     \<and> (shutdown s \<longrightarrow> idle s = [])
     \<and> 0 \<le> total_wait_ms s
     \<and> int (length (held s)) \<le> total_acquires s
     \<and> counter (p_registry s) ''db_pool_timeouts_total'' = total_timeouts s"

lemma pool_inv_new: "pool_inv n (PooledDbConnectionManager n)"
  by (simp add: pool_inv_def PooledDbConnectionManager_def counter_def empty_registry_def)

lemma pool_inv_acquired:
  assumes "unat (in_use_count s) = length (held s)" and "pool_size s = n"
    and "length (idle s) + Suc (length (held s)) \<le> unat n" and "distinct (idle s @ c # held s)"
    and "\<forall>d \<in> set (idle s) \<union> set (c # held s). d < next_handle s" and "\<not> shutdown s"
    and "0 \<le> total_wait_ms s" and "0 \<le> wait_ms" and "int (length (held s)) \<le> total_acquires s"
    and "counter (p_registry s) ''db_pool_timeouts_total'' = total_timeouts s"
  shows "pool_inv n (acquired c wait_ms s)"
proof -
  have "unat (in_use_count s + 1) = Suc (length (held s))"
    using assms(1,3) unat_size_t_bound [of n] by (simp add: unat_word_ariths)
  with assms show ?thesis by (simp add: pool_inv_def acquired_def)
qed

lemma pool_inv_get:
  assumes inv: "pool_inv n s" and w: "0 \<le> wait_ms"
  shows "pool_inv n (snd (GetConnection opened wait_ms s))"
proof -
  consider (timeout) "\<not> pool_ready s" | (down) "pool_ready s" "shutdown s"
    | (idle) c cs where "\<not> shutdown s" "pool_ready s" "idle s = c # cs"
    | (open_error) err where "\<not> shutdown s" "pool_ready s" "idle s = []" "opened = Some err"
    | (new) "\<not> shutdown s" "pool_ready s" "idle s = []" "opened = None"
    by (cases "idle s"; cases opened) auto
  then show ?thesis
  proof cases
    case timeout
    with inv show ?thesis by (simp add: GetConnection_def pool_inv_def)
  next
    case down
    with inv show ?thesis by (simp add: GetConnection_def)
  next
    case idle
    have "pool_inv n (acquired c wait_ms (s\<lparr>idle := cs\<rparr>))"
      using idle inv w by (intro pool_inv_acquired) (auto simp: pool_inv_def)
    with idle show ?thesis by (simp add: GetConnection_def)
  next
    case open_error
    with inv show ?thesis by (simp add: GetConnection_def)
  next
    case new
    then have "in_use_count s < pool_size s" by (simp add: pool_ready_def)
    then have "length (held s) < unat n"
      using inv by (simp add: pool_inv_def word_less_nat_alt)
    then have "pool_inv n (acquired (next_handle s) wait_ms (s\<lparr>next_handle := Suc (next_handle s)\<rparr>))"
      using new inv w by (intro pool_inv_acquired) (auto simp: pool_inv_def less_Suc_eq)
    with new show ?thesis by (simp add: GetConnection_def)
  qed
qed

lemma pool_inv_release:
  assumes inv: "pool_inv n s" and c: "c \<in> set (held s)"
  shows "pool_inv n (snd (ReleaseConnection c is_open s))"
proof -
  have len: "Suc (length (remove1 c (held s))) = length (held s)"
    using c by (simp add: length_remove1) (metis Suc_pred length_pos_if_in_set)
  have "unat (in_use_count s) = length (held s)" using inv by (simp add: pool_inv_def)
  then have "unat (in_use_count s - 1) = length (remove1 c (held s))"
    using len unat_size_t_pred [of "in_use_count s"] by (cases "held s = []") simp_all
  moreover have "c \<notin> set (remove1 c (held s))"
    using inv by (simp add: pool_inv_def)
  ultimately show ?thesis
    using inv len c by (auto simp: ReleaseConnection_def Let_def pool_inv_def dest: notin_set_remove1)
qed

lemma pool_inv_destroy: "pool_inv n s \<Longrightarrow> pool_inv n (destroy_pool s)"
  by (auto simp: destroy_pool_def pool_inv_def)

lemma pool_step_inv: "pool_inv n s \<Longrightarrow> pool_step s t \<Longrightarrow> pool_inv n t"
  by (erule pool_step.cases) (auto intro: pool_inv_get pool_inv_release pool_inv_destroy)

interpretation db_pool: inductive_invariant "\<lambda>s. s = PooledDbConnectionManager n" pool_step "pool_inv n" for n
  by unfold_locales (auto intro: pool_inv_new pool_step_inv)

section \<open>Properties\<close>

text \<open>
  C7. The pool is bounded and never shares a connection: in every reachable state the idle and the
  held connections together number at most \<^verbatim>\<open>pool_size_\<close>, no handle occurs twice among them,
  \<^verbatim>\<open>in_use_count_\<close> is the number of connections callers hold (it never wraps), and the statistics
  report exactly that.
\<close>

theorem pool_bounded:
  assumes "pool_reachable n s"
  shows "length (idle s) + length (held s) \<le> unat n
    \<and> distinct (idle s @ held s)
    \<and> unat (ps_in_use (GetStats s)) = length (held s)
    \<and> ps_available (GetStats s) + unat (ps_in_use (GetStats s)) \<le> unat (ps_size (GetStats s))"
  using db_pool.reachable_inv [OF assms] by (simp add: pool_inv_def GetStats_def)

definition one_held :: pool where
  "one_held = snd (GetConnection None 2 (PooledDbConnectionManager 1))"

lemma one_held_eq: "idle one_held = []" "held one_held = [0]" "in_use_count one_held = 1"
  "pool_size one_held = 1" "shutdown one_held = False"
  by (simp_all add: one_held_def GetConnection_def pool_ready_def PooledDbConnectionManager_def acquired_def)

lemma reachable_one_held: "pool_reachable 1 one_held"
proof -
  have "pool_reachable 1 (PooledDbConnectionManager 1)" by (rule reachable_init) simp
  then show ?thesis unfolding one_held_def by (rule reachable_step) (rule get, simp)
qed

theorem pool_bounded_witness:
  "pool_reachable 1 one_held \<and> length (idle one_held) + length (held one_held) = 1
   \<and> unat (ps_in_use (GetStats one_held)) = 1"
  using pool_bounded [OF reachable_one_held] reachable_one_held by (simp add: one_held_eq)

text \<open>
  The outcome of \<^verbatim>\<open>GetConnection\<close>: it times out exactly when the manager is not shutting down
  and all \<^verbatim>\<open>pool_size_\<close> connections are held; a pool that shuts down always throws; a connection
  that is returned was held by nobody; and a failure to open one leaves the counts as they were.
\<close>

theorem GetConnection_outcome:
  assumes "pool_reachable n s" and "GetConnection opened wait_ms s = (r, t)"
  shows "(r = Inl (Runtime_error ''DB connection acquisition timeout'') \<and> total_timeouts t = total_timeouts s + 1
            \<longleftrightarrow> \<not> shutdown s \<and> length (held s) = unat n)
    \<and> (shutdown s \<longrightarrow> r = Inl (Runtime_error ''DB Connection Manager is shutting down'') \<and> t = s)
    \<and> (\<forall>c. r = Inr c \<longrightarrow> c \<notin> set (held s) \<and> held t = c # held s \<and> unat (in_use_count t) = length (held s) + 1)
    \<and> (\<forall>e. r = Inl e \<longrightarrow> held t = held s \<and> idle t = idle s \<and> in_use_count t = in_use_count s)"
proof -
  have inv: "pool_inv n s" by (rule db_pool.reachable_inv [OF assms(1)])
  have len: "unat (in_use_count s) = length (held s)" "length (idle s) + length (held s) \<le> unat n"
    "pool_size s = n" using inv by (simp_all add: pool_inv_def)
  have ready: "\<not> pool_ready s \<longleftrightarrow> \<not> shutdown s \<and> length (held s) = unat n"
  proof -
    have "in_use_count s < pool_size s \<longleftrightarrow> length (held s) < unat n"
      using len by (simp add: word_less_nat_alt)
    with len(2) show ?thesis by (cases "idle s") (auto simp: pool_ready_def)
  qed
  have t: "t = snd (GetConnection opened wait_ms s)" and r: "r = fst (GetConnection opened wait_ms s)"
    using assms(2) by simp_all
  have 1: "r = Inl (Runtime_error ''DB connection acquisition timeout'') \<and> total_timeouts t = total_timeouts s + 1
      \<longleftrightarrow> \<not> pool_ready s"
    unfolding r t by (auto simp: GetConnection_def acquired_def split: list.splits option.splits)
  have 2: "r = Inl (Runtime_error ''DB Connection Manager is shutting down'') \<and> t = s" if "shutdown s"
    using that unfolding r t by (simp add: GetConnection_def pool_ready_def)
  have 3: "c \<notin> set (held s) \<and> held t = c # held s \<and> unat (in_use_count t) = length (held s) + 1" if c: "r = Inr c" for c
  proof -
    have ht: "held t = c # held s"
      using c unfolding r t
      by (auto simp: GetConnection_def acquired_def split: if_splits list.splits option.splits)
    moreover have "unat (in_use_count t) = length (held t)" "distinct (held t)"
    proof -
      have "pool_inv n (snd (GetConnection opened 0 s))" by (rule pool_inv_get [OF inv]) simp
      moreover have "in_use_count (snd (GetConnection opened 0 s)) = in_use_count t"
        "held (snd (GetConnection opened 0 s)) = held t"
        unfolding t by (auto simp: GetConnection_def acquired_def split: list.splits option.splits)
      ultimately show "unat (in_use_count t) = length (held t)" "distinct (held t)"
        by (simp_all add: pool_inv_def)
    qed
    ultimately show ?thesis by simp
  qed
  have 4: "held t = held s \<and> idle t = idle s \<and> in_use_count t = in_use_count s" if "r = Inl e" for e
    using that unfolding r t
    by (auto simp: GetConnection_def split: if_splits list.splits option.splits)
  from 1 ready 2 3 4 show ?thesis by blast
qed

theorem GetConnection_outcome_witness:
  "fst (GetConnection None 5000 one_held) = Inl (Runtime_error ''DB connection acquisition timeout'')"
proof -
  obtain r t where g: "GetConnection None 5000 one_held = (r, t)" by fastforce
  from GetConnection_outcome [OF reachable_one_held g] show ?thesis by (simp add: g one_held_eq)
qed

text \<open>
  A wake-up is lost: when every connection is held and one of them is released broken, the
  pool becomes ready (a waiter could open a new connection) but the release notifies nobody, so a
  waiter sleeps on until its timeout; releasing an open connection in the same state does notify.
\<close>

theorem broken_release_wakes_nobody:
  assumes "pool_reachable n s" and "\<not> pool_ready s" and "c \<in> set (held s)"
  shows "pool_ready (snd (ReleaseConnection c False s)) \<and> \<not> fst (ReleaseConnection c False s)
    \<and> pool_ready (snd (ReleaseConnection c True s)) \<and> fst (ReleaseConnection c True s)"
proof -
  have inv: "pool_inv n s" by (rule db_pool.reachable_inv [OF assms(1)])
  have "0 < length (held s)" using assms(3) by (cases "held s") auto
  moreover have "unat (in_use_count s) = length (held s)" "length (held s) \<le> unat n"
    using inv by (simp_all add: pool_inv_def)
  ultimately have "unat (in_use_count s - 1) < unat n"
    using unat_size_t_pred [of "in_use_count s"] by linarith
  then show ?thesis
    using inv assms(2) by (simp add: ReleaseConnection_def Let_def pool_ready_def pool_inv_def word_less_nat_alt)
qed

theorem broken_release_wakes_nobody_witness:
  "\<not> pool_ready one_held \<and> pool_ready (snd (ReleaseConnection 0 False one_held))
   \<and> \<not> fst (ReleaseConnection 0 False one_held)"
proof -
  have "\<not> pool_ready one_held" by (simp add: pool_ready_def one_held_eq)
  then show ?thesis
    using broken_release_wakes_nobody [OF reachable_one_held, of 0] by (simp add: one_held_eq)
qed

end
