(* ===== verification/Features.thy ===== *)
theory Features
  imports Prelude
begin

text \<open>
  The data that flows through the anomaly pipeline, \<^verbatim>\<open>src/src/types.h\<close>, \<^verbatim>\<open>contract.h\<close>,
  \<^verbatim>\<open>detector_config.h\<close>, and the preprocessor of \<^verbatim>\<open>preprocessing.cpp\<close>. A time point is its tick
  count since the epoch, in nanoseconds. A \<^verbatim>\<open>FeatureVector\<close> is the list of its \<^verbatim>\<open>kSize\<close> values.
\<close>

type_synonym time_point = int

definition kSize :: nat where
  "kSize = 5"

record TelemetryRecord =
  metric_timestamp :: time_point
  ingestion_time :: time_point
  tr_host_id :: string
  tr_project_id :: string
  tr_region :: string
  tr_cpu_usage :: real
  tr_memory_usage :: real
  tr_disk_utilization :: real
  tr_network_rx_rate :: real
  tr_network_tx_rate :: real
  tr_labels_json :: string
  tr_run_id :: string
  tr_is_anomaly :: bool
  tr_anomaly_type :: string

record Alert =
  al_host_id :: string
  al_run_id :: string
  al_timestamp :: time_point
  al_severity :: string
  al_source :: string
  al_score :: real
  al_details_json :: string

type_synonym FeatureVector = "real list"

definition FromRecord :: "TelemetryRecord \<Rightarrow> FeatureVector" where
  "FromRecord r =
     [tr_cpu_usage r, tr_memory_usage r, tr_disk_utilization r, tr_network_rx_rate r, tr_network_tx_rate r]"

definition GetFeatureNames :: "string list" where
  "GetFeatureNames =
     [''cpu_usage'', ''memory_usage'', ''disk_utilization'', ''network_rx_rate'', ''network_tx_rate'']"

record PreprocessingConfig =
  log1p_network :: bool

record WindowConfig =
  win_size :: int
  recompute_interval :: int
  min_history :: int

record OutlierConfig =
  z_score_threshold :: real
  robust_z_threshold :: real
  enable_poison_mitigation :: bool
  poison_skip_threshold :: real

record GatingConfig =
  enable_gating :: bool
  z_trigger_threshold :: real
  period_ms :: int

record DetectorConfig =
  dc_preprocessing :: PreprocessingConfig
  dc_window :: WindowConfig
  dc_outliers :: OutlierConfig
  dc_gating :: GatingConfig

definition default_DetectorConfig :: DetectorConfig where
  "default_DetectorConfig =
     \<lparr>dc_preprocessing = \<lparr>log1p_network = False\<rparr>,
      dc_window = \<lparr>win_size = 60, recompute_interval = 10, min_history = 10\<rparr>,
      dc_outliers = \<lparr>z_score_threshold = 3, robust_z_threshold = 7 / 2,
                     enable_poison_mitigation = False, poison_skip_threshold = 7\<rparr>,
      dc_gating = \<lparr>enable_gating = False, z_trigger_threshold = 3, period_ms = 60000\<rparr>\<rparr>"

definition log1p :: "real \<Rightarrow> real" where
  "log1p x = ln (1 + x)"

definition Apply :: "PreprocessingConfig \<Rightarrow> FeatureVector \<Rightarrow> FeatureVector" where
  "Apply config vec =
     (let v = map (\<lambda>x. if x < 0 then 0 else x) vec in
      if log1p_network config then v[3 := log1p (v ! 3), 4 := log1p (v ! 4)] else v)"

lemma length_FromRecord [simp]: "length (FromRecord r) = kSize"
  by (simp add: FromRecord_def kSize_def)

lemma length_GetFeatureNames [simp]: "length GetFeatureNames = kSize"
  by (simp add: GetFeatureNames_def kSize_def)

lemma length_Apply [simp]: "length (Apply config vec) = length vec"
  by (simp add: Apply_def Let_def)

lemma log1p_nonneg: "0 \<le> x \<Longrightarrow> 0 \<le> log1p x"
  by (simp add: log1p_def)

lemma Apply_nth:
  assumes "length vec = kSize" and "i < kSize"
  shows "Apply config vec ! i =
    (if log1p_network config \<and> i \<ge> 3 then log1p (max 0 (vec ! i)) else max 0 (vec ! i))"
  using assms
  by (cases "i = 3"; cases "i = 4") (auto simp: Apply_def Let_def kSize_def nth_list_update max_def)

section \<open>Properties\<close>

text \<open>
  The preprocessor maps every feature vector to a vector of the same length with no negative
  entry, keeps non-negative vectors unchanged unless the network logarithm is on, and with it on
  keeps the order of any two values of one feature.
\<close>

theorem Apply_sound:
  assumes "length vec = kSize" and "length vec' = kSize" and "i < kSize"
  shows "length (Apply config vec) = kSize \<and> 0 \<le> Apply config vec ! i
    \<and> (0 \<le> vec ! i \<longrightarrow> \<not> log1p_network config \<longrightarrow> Apply config vec ! i = vec ! i)
    \<and> (vec ! i \<le> vec' ! i \<longrightarrow> Apply config vec ! i \<le> Apply config vec' ! i)"
proof -
  have "0 \<le> Apply config vec ! i"
    using assms by (simp add: Apply_nth log1p_nonneg)
  moreover have "Apply config vec ! i \<le> Apply config vec' ! i" if "vec ! i \<le> vec' ! i"
    using assms that by (auto simp: Apply_nth log1p_def max_def)
  ultimately show ?thesis
    using assms by (simp add: Apply_nth)
qed

theorem Apply_sound_witness:
  "0 \<le> Apply \<lparr>log1p_network = True\<rparr> [-1, 2, 3, 4, -5] ! 4
   \<and> Apply \<lparr>log1p_network = True\<rparr> [-1, 2, 3, 4, -5] ! 4 \<le> Apply \<lparr>log1p_network = True\<rparr> [0, 0, 0, 0, 1] ! 4"
  using Apply_sound [of "[-1, 2, 3, 4, -5]" "[0, 0, 0, 0, 1]" 4 "\<lparr>log1p_network = True\<rparr>"]
  by (simp add: kSize_def)

end
