(* ===== verification/Alert_Manager.thy ===== *)
theory Alert_Manager
  imports Features
begin

text \<open>
  Alert fusion with hysteresis and cooldown, \<^verbatim>\<open>src/src/alert_manager.{h,cpp}\<close>. The manager keeps
  one \<^verbatim>\<open>FusionState\<close> per host; \<open>Evaluate\<close> is the method, \<open>evaluate_all\<close> feeds it the
  events of a run in order and collects the alerts.
\<close>

record FusionState =
  consecutive_anomalies :: int
  last_alert_time :: time_point

record AlertManager =
  hysteresis_threshold :: int
  cooldown_s :: int
  am_states :: "(string, FusionState) std_map"

definition fresh_fusion :: FusionState where
  "fresh_fusion = \<lparr>consecutive_anomalies = 0, last_alert_time = 0\<rparr>"

definition new_AlertManager :: "int \<Rightarrow> int \<Rightarrow> AlertManager" where
  "new_AlertManager h c = \<lparr>hysteresis_threshold = h, cooldown_s = c, am_states = []\<rparr>"

text \<open>The entry \<^verbatim>\<open>states_[host_id]\<close>, created on first use.\<close>

definition fusion_state :: "AlertManager \<Rightarrow> string \<Rightarrow> FusionState" where
  "fusion_state am host = (case map_get (am_states am) host of None \<Rightarrow> fresh_fusion | Some st \<Rightarrow> st)"

definition fuse :: "bool \<Rightarrow> real \<Rightarrow> bool \<Rightarrow> real \<Rightarrow> string \<times> string \<times> real" where
  "fuse a_flag scores_a b_flag scores_b =
     (if a_flag \<and> b_flag then (''CRITICAL'', ''FUSION_A_B'', max scores_a scores_b)
      else if b_flag then (''HIGH'', ''DETECTOR_B_PCA'', scores_b)
      else (if scores_a > 10 then ''HIGH'' else ''MEDIUM'', ''DETECTOR_A_STATS'', scores_a))"

record event =
  ev_host :: string
  ev_run :: string
  ev_ts :: time_point
  ev_a_flag :: bool
  ev_a_score :: real
  ev_b_flag :: bool
  ev_b_score :: real
  ev_details :: string

abbreviation any_flag :: "event \<Rightarrow> bool" where
  "any_flag e \<equiv> ev_a_flag e \<or> ev_b_flag e"

definition Evaluate :: "event \<Rightarrow> AlertManager \<Rightarrow> Alert list \<times> AlertManager" where
  "Evaluate e am =
     (let host = ev_host e;
          state = fusion_state am host;
          put = (\<lambda>st. am\<lparr>am_states := map_put host st (am_states am)\<rparr>)
      in
      if \<not> any_flag e then ([], put (state\<lparr>consecutive_anomalies := 0\<rparr>))
      else
        let state1 = state\<lparr>consecutive_anomalies := consecutive_anomalies state + 1\<rparr> in
        if consecutive_anomalies state1 < hysteresis_threshold am then ([], put state1)
        else if last_alert_time state1 > 0
                \<and> ev_ts e - last_alert_time state1 < cooldown_s am * 1000000000
        then ([], put state1)
        else
          case fuse (ev_a_flag e) (ev_a_score e) (ev_b_flag e) (ev_b_score e) of (severity, source, score) \<Rightarrow>
          ([\<lparr>al_host_id = host, al_run_id = ev_run e, al_timestamp = ev_ts e, al_severity = severity,
             al_source = source, al_score = score, al_details_json = ev_details e\<rparr>],
           put \<lparr>consecutive_anomalies = 0, last_alert_time = ev_ts e\<rparr>))"

primrec evaluate_all :: "event list \<Rightarrow> AlertManager \<Rightarrow> Alert list \<times> AlertManager" where
  "evaluate_all [] am = ([], am)"
| "evaluate_all (e # es) am =
     (let (out, am1) = Evaluate e am; (outs, am2) = evaluate_all es am1 in (out @ outs, am2))"

section \<open>One evaluation\<close>

lemma fusion_state_put:
  "fusion_state (am\<lparr>am_states := map_put host st (am_states am)\<rparr>) h =
     (if h = host then st else fusion_state am h)"
  by (simp add: fusion_state_def)

lemma Evaluate_config [simp]:
  "hysteresis_threshold (snd (Evaluate e am)) = hysteresis_threshold am"
  "cooldown_s (snd (Evaluate e am)) = cooldown_s am"
  by (auto simp: Evaluate_def Let_def split: prod.splits)

lemma Evaluate_other_host:
  "h \<noteq> ev_host e \<Longrightarrow> fusion_state (snd (Evaluate e am)) h = fusion_state am h"
  by (auto simp: Evaluate_def Let_def fusion_state_put split: prod.splits)

text \<open>The three ways an event changes the state of its host.\<close>

definition alerts_now :: "event \<Rightarrow> AlertManager \<Rightarrow> bool" where
  "alerts_now e am \<longleftrightarrow>
     any_flag e \<and> hysteresis_threshold am \<le> consecutive_anomalies (fusion_state am (ev_host e)) + 1
     \<and> (last_alert_time (fusion_state am (ev_host e)) > 0 \<longrightarrow>
          cooldown_s am * 1000000000 \<le> ev_ts e - last_alert_time (fusion_state am (ev_host e)))"

definition alert_of :: "event \<Rightarrow> Alert" where
  "alert_of e =
     (case fuse (ev_a_flag e) (ev_a_score e) (ev_b_flag e) (ev_b_score e) of (severity, source, score) \<Rightarrow>
      \<lparr>al_host_id = ev_host e, al_run_id = ev_run e, al_timestamp = ev_ts e, al_severity = severity,
       al_source = source, al_score = score, al_details_json = ev_details e\<rparr>)"

lemma Evaluate_alerts: "fst (Evaluate e am) = (if alerts_now e am then [alert_of e] else [])"
  by (simp add: Evaluate_def Let_def alerts_now_def alert_of_def split: prod.splits)

lemma Evaluate_state:
  "fusion_state (snd (Evaluate e am)) (ev_host e) =
     (if alerts_now e am then \<lparr>consecutive_anomalies = 0, last_alert_time = ev_ts e\<rparr>
      else (fusion_state am (ev_host e))
        \<lparr>consecutive_anomalies :=
           (if any_flag e then consecutive_anomalies (fusion_state am (ev_host e)) + 1 else 0)\<rparr>)"
  by (simp add: Evaluate_def Let_def alerts_now_def fusion_state_put split: prod.splits)

lemma alert_of_simps [simp]:
  "al_host_id (alert_of e) = ev_host e" "al_timestamp (alert_of e) = ev_ts e"
  by (simp_all add: alert_of_def split: prod.splits)

lemma evaluate_all_Cons:
  "evaluate_all (e # es) am =
     (fst (Evaluate e am) @ fst (evaluate_all es (snd (Evaluate e am))),
      snd (evaluate_all es (snd (Evaluate e am))))"
  by (simp add: Let_def split_beta)

declare evaluate_all.simps(2) [simp del]
declare evaluate_all_Cons [simp]

section \<open>Runs\<close>

abbreviation host_alerts :: "string \<Rightarrow> Alert list \<Rightarrow> Alert list" where
  "host_alerts h as \<equiv> filter (\<lambda>a. al_host_id a = h) as"

abbreviation host_events :: "string \<Rightarrow> event list \<Rightarrow> event list" where
  "host_events h es \<equiv> filter (\<lambda>e. ev_host e = h) es"

lemma alerts_spaced_from:
  assumes "\<forall>e \<in> set es. ev_ts e > 0" and "cooldown_s am \<ge> 0"
    and "last_alert_time (fusion_state am h) \<ge> 0"
  shows "sorted_wrt (\<lambda>a b. cooldown_s am * 1000000000 \<le> al_timestamp b - al_timestamp a)
           (host_alerts h (fst (evaluate_all es am)))
    \<and> (last_alert_time (fusion_state am h) > 0 \<longrightarrow>
         (\<forall>a \<in> set (host_alerts h (fst (evaluate_all es am))).
            cooldown_s am * 1000000000 \<le> al_timestamp a - last_alert_time (fusion_state am h)))"
  using assms
proof (induction es arbitrary: am)
  case Nil
  show ?case by simp
next
  case (Cons e es)
  let ?am1 = "snd (Evaluate e am)"
  have pos: "last_alert_time (fusion_state ?am1 h) \<ge> 0"
    using Cons.prems Evaluate_other_host [of h e am] Evaluate_state [of e am]
    by (cases "ev_host e = h") auto
  note IH = Cons.IH [of ?am1, simplified Evaluate_config, OF _ _ pos]
  show ?case
  proof (cases "ev_host e = h \<and> alerts_now e am")
    case True
    then have last: "last_alert_time (fusion_state ?am1 h) = ev_ts e"
      using Evaluate_state [of e am] by auto
    have "\<And>a. a \<in> set (host_alerts h (fst (evaluate_all es ?am1))) \<Longrightarrow>
            cooldown_s am * 1000000000 \<le> al_timestamp a - ev_ts e"
      using IH Cons.prems last by auto
    moreover have "last_alert_time (fusion_state am h) > 0 \<longrightarrow>
        cooldown_s am * 1000000000 \<le> ev_ts e - last_alert_time (fusion_state am h)"
      using True by (auto simp: alerts_now_def)
    ultimately show ?thesis
      using IH Cons.prems True by (fastforce simp: Evaluate_alerts)
  next
    case False
    then have "last_alert_time (fusion_state ?am1 h) = last_alert_time (fusion_state am h)"
      using Evaluate_other_host [of h e am] Evaluate_state [of e am] by (cases "ev_host e = h") auto
    then show ?thesis
      using IH Cons.prems False by (auto simp: Evaluate_alerts)
  qed
qed

text \<open>The counter of a host never exceeds its current run of flagged events.\<close>

definition flagged_run :: "event list \<Rightarrow> nat" where
  "flagged_run past = length (takeWhile any_flag (rev past))"

lemma flagged_run_snoc:
  "flagged_run (past @ [e]) = (if any_flag e then Suc (flagged_run past) else 0)"
  by (simp add: flagged_run_def)

definition counts_run :: "AlertManager \<Rightarrow> event list \<Rightarrow> bool" where
  "counts_run am past \<longleftrightarrow>
     (\<forall>h. 0 \<le> consecutive_anomalies (fusion_state am h)
          \<and> consecutive_anomalies (fusion_state am h) \<le> int (flagged_run (host_events h past)))"

lemma counts_run_Evaluate:
  assumes "counts_run am past"
  shows "counts_run (snd (Evaluate e am)) (past @ [e])"
proof -
  have "0 \<le> consecutive_anomalies (fusion_state (snd (Evaluate e am)) h) \<and>
      consecutive_anomalies (fusion_state (snd (Evaluate e am)) h) \<le> int (flagged_run (host_events h (past @ [e])))" for h
  proof (cases "h = ev_host e")
    case True
    then show ?thesis
      using assms [unfolded counts_run_def, rule_format, of h]
      by (auto simp: Evaluate_state flagged_run_snoc)
  next
    case False
    then show ?thesis
      using assms [unfolded counts_run_def, rule_format, of h] by (simp add: Evaluate_other_host)
  qed
  then show ?thesis
    by (simp add: counts_run_def)
qed

lemma counts_run_all: "counts_run am past \<Longrightarrow> counts_run (snd (evaluate_all es am)) (past @ es)"
proof (induction es arbitrary: am past)
  case (Cons e es)
  then show ?case
    using Cons.IH [OF counts_run_Evaluate, of am past e] by simp
qed simp

lemma evaluate_all_config [simp]:
  "hysteresis_threshold (snd (evaluate_all es am)) = hysteresis_threshold am"
  "cooldown_s (snd (evaluate_all es am)) = cooldown_s am"
  by (induction es arbitrary: am) simp_all

lemma new_AlertManager_config [simp]:
  "hysteresis_threshold (new_AlertManager h c) = h" "cooldown_s (new_AlertManager h c) = c"
  by (simp_all add: new_AlertManager_def)

lemma fusion_state_new [simp]: "fusion_state (new_AlertManager h c) host = fresh_fusion"
  by (simp add: fusion_state_def new_AlertManager_def)

lemma counts_run_new: "counts_run (new_AlertManager h c) []"
  by (simp add: counts_run_def fresh_fusion_def flagged_run_def)


lemma no_events_no_alerts:
  "host_events h es = [] \<Longrightarrow> host_alerts h (fst (evaluate_all es am)) = []"
proof (induction es arbitrary: am)
  case (Cons e es)
  then show ?case
    by (auto simp: Evaluate_alerts split: if_splits)
qed simp

lemma first_alert_from:
  assumes "\<forall>e \<in> set (host_events h es). any_flag e" and "host_events h es \<noteq> []"
    and "consecutive_anomalies (fusion_state am h) + int (length (host_events h es)) = hysteresis_threshold am"
    and "last_alert_time (fusion_state am h) = 0"
  shows "\<exists>e. last (host_events h es) = e \<and> host_alerts h (fst (evaluate_all es am)) = [alert_of e]"
  using assms
proof (induction es arbitrary: am)
  case Nil
  then show ?case by simp
next
  case (Cons e es)
  let ?am1 = "snd (Evaluate e am)"
  show ?case
  proof (cases "ev_host e = h")
    case False
    then have "fusion_state ?am1 h = fusion_state am h"
      by (simp add: Evaluate_other_host)
    then show ?thesis
      using Cons.IH [of ?am1] Cons.prems False by (auto simp: Evaluate_alerts)
  next
    case True
    show ?thesis
    proof (cases "host_events h es = []")
      case last: True
      then have "alerts_now e am"
        using Cons.prems True by (auto simp: alerts_now_def)
      then show ?thesis
        using True last no_events_no_alerts [OF last, of ?am1] by (simp add: Evaluate_alerts)
    next
      case more: False
      then have "int (length (host_events h es)) \<ge> 1"
        by (cases "host_events h es") auto
      then have "\<not> alerts_now e am"
        using Cons.prems True by (auto simp: alerts_now_def)
      then show ?thesis
        using Cons.IH [of ?am1] Cons.prems True more by (auto simp: Evaluate_alerts Evaluate_state)
    qed
  qed
qed

section \<open>Properties\<close>

text \<open>
  C36. Rate limit: over any run of events with timestamps after the epoch, in any order and with the
  hosts interleaved in any way, two alerts of the same host are at least the cooldown apart, the
  later one in the output being the later one in time.
\<close>

theorem alerts_respect_cooldown:
  assumes "\<forall>e \<in> set es. ev_ts e > 0" and "c \<ge> 0"
  shows "sorted_wrt (\<lambda>a b. c * 1000000000 \<le> al_timestamp b - al_timestamp a)
           (host_alerts h (fst (evaluate_all es (new_AlertManager k c))))"
proof -
  have "cooldown_s (new_AlertManager k c) = c"
    by (simp add: new_AlertManager_def)
  then show ?thesis
    using alerts_spaced_from [of es "new_AlertManager k c" h] assms by (simp add: fresh_fusion_def)
qed

definition ex_event :: "time_point \<Rightarrow> bool \<Rightarrow> bool \<Rightarrow> event" where
  "ex_event t a b =
     \<lparr>ev_host = ''h1'', ev_run = ''r1'', ev_ts = t, ev_a_flag = a, ev_a_score = 4, ev_b_flag = b,
      ev_b_score = 12, ev_details = ''{}''\<rparr>"

theorem alerts_respect_cooldown_witness:
  "sorted_wrt (\<lambda>a b. 600 * 1000000000 \<le> al_timestamp b - al_timestamp a)
     (host_alerts ''h1'' (fst (evaluate_all
        [ex_event 1 True False, ex_event 2 True False, ex_event 600000000003 True True] (new_AlertManager 1 600))))
   \<and> length (host_alerts ''h1'' (fst (evaluate_all
        [ex_event 1 True False, ex_event 2 True False, ex_event 600000000003 True True] (new_AlertManager 1 600)))) = 2"
  using alerts_respect_cooldown
    [of "[ex_event 1 True False, ex_event 2 True False, ex_event 600000000003 True True]" 600 "''h1''" 1]
  by (simp add: ex_event_def Evaluate_alerts alerts_now_def Evaluate_state fusion_state_def
      new_AlertManager_def fresh_fusion_def Evaluate_def Let_def fuse_def)

text \<open>
  Confirmation: after any history, an event raises at most one alert; if it raises one, the
  host's last events including it, at least as many as the hysteresis threshold, were all flagged,
  and the alert carries the event's host, run, time and details with the fused severity.
\<close>

theorem alert_confirmed:
  assumes "fst (Evaluate e (snd (evaluate_all past (new_AlertManager k c)))) = a # as"
  shows "as = [] \<and> a = alert_of e \<and> any_flag e
    \<and> k \<le> int (flagged_run (host_events (ev_host e) (past @ [e])))"
proof -
  let ?am = "snd (evaluate_all past (new_AlertManager k c))"
  have now: "alerts_now e ?am" and eq: "[alert_of e] = a # as"
    using assms by (auto simp: Evaluate_alerts split: if_splits)
  have "any_flag e" and "k \<le> consecutive_anomalies (fusion_state ?am (ev_host e)) + 1"
    using now by (simp_all add: alerts_now_def)
  moreover have "counts_run ?am past"
    using counts_run_all [OF counts_run_new, of past k c] by simp
  then have "consecutive_anomalies (fusion_state ?am (ev_host e)) \<le> int (flagged_run (host_events (ev_host e) past))"
    by (simp add: counts_run_def)
  ultimately show ?thesis
    using eq by (simp add: flagged_run_snoc)
qed

theorem alert_confirmed_witness:
  "2 \<le> int (flagged_run (host_events ''h1'' ([ex_event 1 True False] @ [ex_event 2 False True])))"
  using alert_confirmed [of "ex_event 2 False True" "[ex_event 1 True False]" 2 600 "alert_of (ex_event 2 False True)" "[]"]
  by (simp add: Evaluate_def Let_def alert_of_def ex_event_def new_AlertManager_def
      fusion_state_def fresh_fusion_def fuse_def)

text \<open>
  Liveness: a host whose first events are all flagged, as many as the hysteresis threshold and
  interleaved with the events of other hosts in any way, has exactly one alert, raised by the event
  that completes the threshold.
\<close>

theorem alert_raised_at_threshold:
  assumes "\<forall>e \<in> set (host_events h es). any_flag e" and "int (length (host_events h es)) = k" and "k \<ge> 1"
  shows "host_alerts h (fst (evaluate_all es (new_AlertManager k c))) = [alert_of (last (host_events h es))]"
proof -
  have "host_events h es \<noteq> []"
    using assms by auto
  then show ?thesis
    using first_alert_from [of h es "new_AlertManager k c"] assms by (simp add: fresh_fusion_def)
qed

theorem alert_raised_at_threshold_witness:
  "host_alerts ''h1'' (fst (evaluate_all [ex_event 1 True False, ex_event 2 False True] (new_AlertManager 2 600)))
     = [alert_of (ex_event 2 False True)]
   \<and> al_severity (alert_of (ex_event 2 False True)) = ''HIGH''"
  using alert_raised_at_threshold [of "''h1''" "[ex_event 1 True False, ex_event 2 False True]" 2 600]
  by (simp add: ex_event_def alert_of_def fuse_def)

end
