(* ===== verification/Detector_A.thy ===== *)
theory Detector_A
  imports Features "HOL-Library.Sublist"
begin

text \<open>
  The windowed robust z-score detector, \<^verbatim>\<open>src/src/detectors/detector_a.{h,cpp}\<close>. One
  \<^verbatim>\<open>MetricState\<close> per feature; \<open>update_metric\<close> is the body of the loop over the features and
  \<open>Update\<close> the method. \<close>

section \<open>State and operations\<close>

record MetricState =
  ms_buffer :: "real list"
  ms_sum :: real
  ms_sum_sq :: real
  ms_median :: real
  ms_mad :: real

record AnomalyScore =
  as_is_anomaly :: bool
  max_z_score :: real
  as_details :: string

record DetectorA =
  win_config :: WindowConfig
  outlier_config :: OutlierConfig
  da_states :: "MetricState list"
  update_count :: int

definition fresh_metric :: MetricState where
  "fresh_metric = \<lparr>ms_buffer = [], ms_sum = 0, ms_sum_sq = 0, ms_median = 0, ms_mad = 0\<rparr>"

definition new_DetectorA :: "WindowConfig \<Rightarrow> OutlierConfig \<Rightarrow> DetectorA" where
  "new_DetectorA wc oc =
     \<lparr>win_config = wc, outlier_config = oc, da_states = replicate kSize fresh_metric, update_count = 0\<rparr>"

definition Mean :: "MetricState \<Rightarrow> nat \<Rightarrow> real" where
  "Mean st n = (if n > 0 then ms_sum st / real n else 0)"

definition Std :: "MetricState \<Rightarrow> nat \<Rightarrow> real" where
  "Std st n =
     (if n < 2 then 0
      else let mean = Mean st n; variance = ms_sum_sq st / real n - mean * mean in
           if variance > 0 then sqrt variance else 0)"

definition UpdateRobustStats :: "MetricState \<Rightarrow> MetricState" where
  "UpdateRobustStats st =
     (if ms_buffer st = [] then st
      else
        let data = ms_buffer st; mid = length data div 2; med = nth_element data mid;
            mad = nth_element (map (\<lambda>v. \<bar>v - med\<bar>) data) mid
        in st\<lparr>ms_median := med, ms_mad := (if mad = 0 then 1 / 1000000 else mad)\<rparr>)"

text \<open>\<^verbatim>\<open>static_cast<size_t>\<close> of a configured \<^verbatim>\<open>int\<close>: a negative one becomes huge.\<close>

definition size_cast :: "int \<Rightarrow> nat" where
  "size_cast i = unat (word_of_int i :: size_t)"

text \<open>\<^verbatim>\<open>std::fixed << std::setprecision(1)\<close> of a non-negative value, ties to even.\<close>

definition fixed1 :: "real \<Rightarrow> string" where
  "fixed1 x =
     (let f = \<lfloor>10 * x\<rfloor>; r = 10 * x - of_int f;
          n = nat (if r > 1 / 2 \<or> (r = 1 / 2 \<and> odd f) then f + 1 else f)
      in string_of_nat (n div 10) @ ''.'' @ [digit_char (n mod 10)])"

definition warm :: "WindowConfig \<Rightarrow> MetricState \<Rightarrow> bool" where
  "warm wc st \<longleftrightarrow> size_cast (min_history wc) \<le> length (ms_buffer st)"

definition robust_z :: "MetricState \<Rightarrow> real \<Rightarrow> real" where
  "robust_z st val = \<bar>val - ms_median st\<bar> / (if ms_mad st > 0 then ms_mad st else 1 / 1000000)"

definition push_value :: "WindowConfig \<Rightarrow> real \<Rightarrow> MetricState \<Rightarrow> MetricState" where
  "push_value wc val st =
     (let st1 = st\<lparr>ms_buffer := ms_buffer st @ [val], ms_sum := ms_sum st + val, ms_sum_sq := ms_sum_sq st + val * val\<rparr>
      in if size_cast (win_size wc) < length (ms_buffer st1)
         then let old = hd (ms_buffer st1) in
              st1\<lparr>ms_buffer := tl (ms_buffer st1), ms_sum := ms_sum st1 - old, ms_sum_sq := ms_sum_sq st1 - old * old\<rparr>
         else st1)"

text \<open>The loop body: the new state of the metric, its robust z-score (0 while cold) and whether the value was skipped.\<close>

definition update_metric ::
  "WindowConfig \<Rightarrow> OutlierConfig \<Rightarrow> bool \<Rightarrow> real \<Rightarrow> MetricState \<Rightarrow> MetricState \<times> real \<times> bool" where
  "update_metric wc oc needs_recompute val st =
     (let w = warm wc st;
          st1 = (if needs_recompute \<and> w then UpdateRobustStats st else st);
          rz = (if w then robust_z st1 val else 0);
          skip_update = (enable_poison_mitigation oc \<and> w \<and> rz > poison_skip_threshold oc)
      in (if skip_update then st1 else push_value wc val st1, rz, skip_update))"

definition score_metric :: "OutlierConfig \<Rightarrow> string \<Rightarrow> bool \<Rightarrow> real \<Rightarrow> bool \<Rightarrow> AnomalyScore \<Rightarrow> AnomalyScore" where
  "score_metric oc name w rz skipped sc =
     (if w \<and> rz > robust_z_threshold oc
      then \<lparr>as_is_anomaly = True, max_z_score = (if rz > max_z_score sc then rz else max_z_score sc),
            as_details = as_details sc @ name @ '':rz='' @ fixed1 rz @ (if skipped then ''(skipped)'' else '''') @ '' ''\<rparr>
      else sc)"

fun update_loop ::
  "WindowConfig \<Rightarrow> OutlierConfig \<Rightarrow> bool \<Rightarrow> (string \<times> real) list \<Rightarrow> MetricState list \<Rightarrow> AnomalyScore
     \<Rightarrow> MetricState list \<times> AnomalyScore" where
  "update_loop wc oc rec ((name, val) # vs) (st # sts) sc =
     (let (st1, rz, skipped) = update_metric wc oc rec val st;
          (sts1, sc1) = update_loop wc oc rec vs sts (score_metric oc name (warm wc st) rz skipped sc)
      in (st1 # sts1, sc1))"
| "update_loop wc oc rec _ sts sc = (sts, sc)"

text \<open>\<^verbatim>\<open>Update\<close>; the remainder by a zero \<^verbatim>\<open>recompute_interval\<close> kills the process.\<close>

definition Update :: "FeatureVector \<Rightarrow> DetectorA \<Rightarrow> (AnomalyScore \<times> DetectorA) outcome" where
  "Update vec d =
     (if recompute_interval (win_config d) = 0 then Terminated
      else
        let needs_recompute = (recompute_interval (win_config d) dvd update_count d);
            (sts, sc) = update_loop (win_config d) (outlier_config d) needs_recompute
                          (zip GetFeatureNames vec) (da_states d)
                          \<lparr>as_is_anomaly = False, max_z_score = 0, as_details = ''''\<rparr>
        in Returned (sc, d\<lparr>da_states := sts, update_count := update_count d + 1\<rparr>))"

section \<open>One metric\<close>

definition metric_inv :: "WindowConfig \<Rightarrow> MetricState \<Rightarrow> bool" where
  "metric_inv wc st \<longleftrightarrow>
     ms_sum st = sum_list (ms_buffer st) \<and> ms_sum_sq st = (\<Sum>x \<leftarrow> ms_buffer st. x * x)
     \<and> length (ms_buffer st) \<le> size_cast (win_size wc) \<and> 0 \<le> ms_mad st"

lemma UpdateRobustStats_simps [simp]:
  "ms_buffer (UpdateRobustStats st) = ms_buffer st"
  "ms_sum (UpdateRobustStats st) = ms_sum st"
  "ms_sum_sq (UpdateRobustStats st) = ms_sum_sq st"
  by (simp_all add: UpdateRobustStats_def Let_def)

lemma nth_element_abs_nonneg: "k < length xs \<Longrightarrow> 0 \<le> nth_element (map (\<lambda>v. \<bar>v - (c::real)\<bar>) xs) k"
  using nth_element_in [of k "map (\<lambda>v. \<bar>v - c\<bar>) xs"] by auto

lemma UpdateRobustStats_mad_pos: "ms_buffer st \<noteq> [] \<Longrightarrow> 0 < ms_mad (UpdateRobustStats st)"
proof -
  assume ne: "ms_buffer st \<noteq> []"
  then have "length (ms_buffer st) div 2 < length (ms_buffer st)"
    by simp
  from nth_element_abs_nonneg [OF this] ne show ?thesis
    by (simp add: UpdateRobustStats_def Let_def order.strict_iff_order)
qed

lemma metric_inv_robust: "metric_inv wc st \<Longrightarrow> metric_inv wc (UpdateRobustStats st)"
  using UpdateRobustStats_mad_pos [of st] less_imp_le
  by (cases "ms_buffer st = []") (simp add: UpdateRobustStats_def, simp add: metric_inv_def)

lemma push_value_buffer:
  "ms_buffer (push_value wc val st) =
     (if size_cast (win_size wc) \<le> length (ms_buffer st)
      then tl (ms_buffer st @ [val]) else ms_buffer st @ [val])"
  by (auto simp: push_value_def Let_def)

lemma metric_inv_push: "metric_inv wc st \<Longrightarrow> metric_inv wc (push_value wc val st)"
  unfolding push_value_def Let_def metric_inv_def
  by (cases "ms_buffer st") (auto simp: algebra_simps)

lemma metric_inv_update: "metric_inv wc st \<Longrightarrow> metric_inv wc (fst (update_metric wc oc r val st))"
  by (auto simp: update_metric_def Let_def intro: metric_inv_robust metric_inv_push)

text \<open>The window is the most recent part of the accepted values.\<close>

definition window_of :: "nat \<Rightarrow> real list \<Rightarrow> real list" where
  "window_of n xs = drop (length xs - n) xs"

lemma window_push:
  assumes "ms_buffer st = window_of (size_cast (win_size wc)) xs"
  shows "ms_buffer (push_value wc val st) = window_of (size_cast (win_size wc)) (xs @ [val])"
proof (cases "size_cast (win_size wc) \<le> length xs")
  case True
  let ?n = "size_cast (win_size wc)"
  have "tl (drop (length xs - ?n) xs @ [val]) = drop (Suc (length xs - ?n)) (xs @ [val])"
  proof -
    have "drop (length xs - ?n) xs @ [val] = drop (length xs - ?n) (xs @ [val])"
      by simp
    then show ?thesis
      by (simp only: drop_Suc tl_drop)
  qed
  then show ?thesis
    using assms True by (simp add: push_value_buffer window_of_def Suc_diff_le)
next
  case False
  then show ?thesis
    using assms by (simp add: push_value_buffer window_of_def)
qed


section \<open>The loop over the features\<close>

lemma update_loop_Cons:
  "update_loop wc oc r (nv # vs) (st # sts) sc =
     (let (st1, rz, skipped) = update_metric wc oc r (snd nv) st;
          (sts1, sc1) = update_loop wc oc r vs sts (score_metric oc (fst nv) (warm wc st) rz skipped sc)
      in (st1 # sts1, sc1))"
  by (cases nv) simp

lemma update_loop_states:
  "length vs = length sts \<Longrightarrow>
     fst (update_loop wc oc r vs sts sc) = map2 (\<lambda>nv st. fst (update_metric wc oc r (snd nv) st)) vs sts"
  by (induction vs sts arbitrary: sc rule: list_induct2)
    (simp_all add: update_loop_Cons Let_def split_beta)

text \<open>The robust z-scores above the detection threshold, in feature order.\<close>

definition flagged_zs :: "WindowConfig \<Rightarrow> OutlierConfig \<Rightarrow> bool \<Rightarrow> (string \<times> real) list \<Rightarrow> MetricState list \<Rightarrow> real list" where
  "flagged_zs wc oc r vs sts =
     filter (\<lambda>z. z > robust_z_threshold oc)
       (map (\<lambda>(nv, st). fst (snd (update_metric wc oc r (snd nv) st)))
         (filter (\<lambda>(nv, st). warm wc st) (zip vs sts)))"

lemma flagged_zs_Cons:
  "flagged_zs wc oc r (nv # vs) (st # sts) =
     (let rz = fst (snd (update_metric wc oc r (snd nv) st)) in
      (if warm wc st \<and> rz > robust_z_threshold oc then [rz] else []) @ flagged_zs wc oc r vs sts)"
  by (simp add: flagged_zs_def Let_def)

lemma set_flagged_zs:
  assumes "length vs = length sts"
  shows "set (flagged_zs wc oc r vs sts) =
    (\<lambda>i. fst (snd (update_metric wc oc r (snd (vs ! i)) (sts ! i)))) `
      {i. i < length sts \<and> warm wc (sts ! i)
          \<and> fst (snd (update_metric wc oc r (snd (vs ! i)) (sts ! i))) > robust_z_threshold oc}"
proof -
  have "zip vs sts = map (\<lambda>i. (vs ! i, sts ! i)) [0..<length sts]"
    using assms by (intro nth_equalityI) simp_all
  then show ?thesis
    by (auto simp: flagged_zs_def filter_map comp_def)
qed

lemma update_loop_score:
  "length vs = length sts \<Longrightarrow>
     as_is_anomaly (snd (update_loop wc oc r vs sts sc)) = (as_is_anomaly sc \<or> flagged_zs wc oc r vs sts \<noteq> [])
     \<and> max_z_score (snd (update_loop wc oc r vs sts sc)) = fold max (flagged_zs wc oc r vs sts) (max_z_score sc)
     \<and> (as_details (snd (update_loop wc oc r vs sts sc)) = '''' \<longleftrightarrow> as_details sc = '''' \<and> flagged_zs wc oc r vs sts = [])"
proof (induction vs sts arbitrary: sc rule: list_induct2)
  case Nil
  then show ?case by (simp add: flagged_zs_def)
next
  case (Cons nv vs st sts)
  obtain st1 rz skipped where um: "update_metric wc oc r (snd nv) st = (st1, rz, skipped)"
    by (metis prod.exhaust)
  have "snd (update_loop wc oc r (nv # vs) (st # sts) sc) =
      snd (update_loop wc oc r vs sts (score_metric oc (fst nv) (warm wc st) rz skipped sc))"
    by (simp add: update_loop_Cons um Let_def split_beta)
  then show ?case
    using Cons.IH [of "score_metric oc (fst nv) (warm wc st) rz skipped sc"]
    by (simp add: flagged_zs_Cons um score_metric_def max_def)
qed

section \<open>Runs of the detector\<close>

fun feed :: "FeatureVector list \<Rightarrow> DetectorA \<Rightarrow> DetectorA outcome" where
  "feed [] d = Returned d"
| "feed (v # vs) d =
     (case Update v d of Returned (sc, d1) \<Rightarrow> feed vs d1 | Threw e \<Rightarrow> Threw e
      | Terminated \<Rightarrow> Terminated | Undefined \<Rightarrow> Undefined)"

lemma Update_returns:
  assumes "recompute_interval (win_config d) \<noteq> 0" and "length vec = kSize" and "length (da_states d) = kSize"
  shows "\<exists>sc. Update vec d = Returned (sc, d\<lparr>
      da_states := map2 (\<lambda>val st. fst (update_metric (win_config d) (outlier_config d)
         (recompute_interval (win_config d) dvd update_count d) val st)) vec (da_states d),
      update_count := update_count d + 1\<rparr>)"
proof -
  have "map2 (\<lambda>nv st. fst (update_metric wc oc r (snd nv) st)) (zip GetFeatureNames vec) (da_states d) =
      map2 (\<lambda>val st. fst (update_metric wc oc r val st)) vec (da_states d)" for wc oc r
    using assms by (intro nth_equalityI) simp_all
  then show ?thesis
    using assms
      update_loop_states [of "zip GetFeatureNames vec" "da_states d" "win_config d" "outlier_config d"
        "recompute_interval (win_config d) dvd update_count d"
        "\<lparr>as_is_anomaly = False, max_z_score = 0, as_details = ''''\<rparr>"]
    by (simp add: Update_def Let_def split_beta)
qed

text \<open>Along a run, the window of feature \<open>i\<close> holds the latest values accepted from column \<open>i\<close>.\<close>

definition tracks :: "WindowConfig \<Rightarrow> OutlierConfig \<Rightarrow> real list \<Rightarrow> MetricState \<Rightarrow> bool" where
  "tracks wc oc column st \<longleftrightarrow>
     metric_inv wc st
     \<and> (\<exists>accepted. subseq accepted column \<and> (\<not> enable_poison_mitigation oc \<longrightarrow> accepted = column)
          \<and> ms_buffer st = window_of (size_cast (win_size wc)) accepted)"

lemma tracks_update:
  assumes "tracks wc oc column st"
  shows "tracks wc oc (column @ [val]) (fst (update_metric wc oc r val st))"
proof -
  obtain accepted where acc: "subseq accepted column" "\<not> enable_poison_mitigation oc \<longrightarrow> accepted = column"
      "ms_buffer st = window_of (size_cast (win_size wc)) accepted" and inv: "metric_inv wc st"
    using assms by (auto simp: tracks_def)
  let ?st1 = "if r \<and> warm wc st then UpdateRobustStats st else st"
  have buf: "ms_buffer ?st1 = window_of (size_cast (win_size wc)) accepted"
    using acc by simp
  have pushed: "subseq (accepted @ [val]) (column @ [val])"
    using acc(1) by simp
  have kept: "subseq accepted (column @ [val])"
    using acc(1) by (meson subseq_order.order_trans subseq_rev_drop_many subseq_order.order_refl list_emb_append2)
  show ?thesis
  proof (cases "snd (snd (update_metric wc oc r val st))")
    case True
    then have "fst (update_metric wc oc r val st) = ?st1" and "enable_poison_mitigation oc"
      by (auto simp: update_metric_def Let_def)
    then show ?thesis
      using metric_inv_update [OF inv, of oc r val] buf kept unfolding tracks_def by auto
  next
    case False
    then have "fst (update_metric wc oc r val st) = push_value wc val ?st1"
      by (auto simp: update_metric_def Let_def)
    then show ?thesis
      using metric_inv_update [OF inv, of oc r val] window_push [OF buf, of val] pushed acc(2)
      unfolding tracks_def by (metis (no_types, lifting))
  qed
qed

definition detector_tracks :: "WindowConfig \<Rightarrow> OutlierConfig \<Rightarrow> FeatureVector list \<Rightarrow> DetectorA \<Rightarrow> bool" where
  "detector_tracks wc oc past d \<longleftrightarrow>
     win_config d = wc \<and> outlier_config d = oc \<and> length (da_states d) = kSize
     \<and> update_count d = int (length past)
     \<and> (\<forall>i < kSize. tracks wc oc (map (\<lambda>v. v ! i) past) (da_states d ! i))"

lemma tracks_fresh: "tracks wc oc [] fresh_metric"
  unfolding tracks_def by (auto simp: metric_inv_def fresh_metric_def window_of_def intro!: exI [of _ "[]"])

lemma detector_tracks_new: "detector_tracks wc oc [] (new_DetectorA wc oc)"
  by (simp add: detector_tracks_def new_DetectorA_def tracks_fresh)

lemma detector_tracks_feed:
  assumes "recompute_interval wc \<noteq> 0" and "\<forall>v \<in> set vs. length v = kSize" and "detector_tracks wc oc past d"
  shows "\<exists>d'. feed vs d = Returned d' \<and> detector_tracks wc oc (past @ vs) d'"
  using assms(2,3)
proof (induction vs arbitrary: past d)
  case Nil
  then show ?case by simp
next
  case (Cons v vs)
  let ?d1 = "d\<lparr>da_states := map2 (\<lambda>val st. fst (update_metric (win_config d) (outlier_config d)
         (recompute_interval (win_config d) dvd update_count d) val st)) v (da_states d),
      update_count := update_count d + 1\<rparr>"
  have len: "length v = kSize" "length (da_states d) = kSize" and cfg: "win_config d = wc" "outlier_config d = oc"
    using Cons.prems by (auto simp: detector_tracks_def)
  then obtain sc where up: "Update v d = Returned (sc, ?d1)"
    using Update_returns [of d v] assms(1) by auto
  have "detector_tracks wc oc (past @ [v]) ?d1"
    using Cons.prems len cfg by (simp add: detector_tracks_def tracks_update)
  then show ?case
    using Cons.IH [of "past @ [v]" ?d1] Cons.prems(1) up by simp
qed


section \<open>Properties\<close>

text \<open>
  The rolling window: from a fresh detector with a non-zero recompute interval, any sequence of
  feature vectors is processed to the end, and then each feature's window is the latest part of the
  values accepted for it, at most the configured size of them, which are all values unless poison
  mitigation is on; the incremental sum and sum of squares are those of the window.
\<close>

theorem detector_window:
  assumes "recompute_interval wc \<noteq> 0" and "\<forall>v \<in> set vs. length v = kSize"
  shows "\<exists>d. feed vs (new_DetectorA wc oc) = Returned d \<and> update_count d = int (length vs)
    \<and> (\<forall>i < kSize. \<exists>accepted. subseq accepted (map (\<lambda>v. v ! i) vs)
         \<and> (\<not> enable_poison_mitigation oc \<longrightarrow> accepted = map (\<lambda>v. v ! i) vs)
         \<and> ms_buffer (da_states d ! i) = drop (length accepted - size_cast (win_size wc)) accepted
         \<and> ms_sum (da_states d ! i) = sum_list (ms_buffer (da_states d ! i))
         \<and> ms_sum_sq (da_states d ! i) = (\<Sum>x \<leftarrow> ms_buffer (da_states d ! i). x * x))"
proof -
  obtain d where d: "feed vs (new_DetectorA wc oc) = Returned d" "detector_tracks wc oc vs d"
    using detector_tracks_feed [OF assms detector_tracks_new, of oc] by auto
  then show ?thesis
    unfolding detector_tracks_def tracks_def metric_inv_def window_of_def by blast
qed

definition ex_window :: WindowConfig where
  "ex_window = \<lparr>win_size = 2, recompute_interval = 1, min_history = 1\<rparr>"

definition ex_outlier :: OutlierConfig where
  "ex_outlier = \<lparr>z_score_threshold = 3, robust_z_threshold = 7 / 2, enable_poison_mitigation = True,
     poison_skip_threshold = 7\<rparr>"

theorem detector_window_witness:
  "\<exists>d. feed [[1, 2, 3, 4, 5], [1, 2, 3, 4, 6], [1, 2, 3, 4, 7]] (new_DetectorA ex_window ex_outlier) = Returned d
     \<and> update_count d = 3"
  using detector_window [of ex_window "[[1, 2, 3, 4, 5], [1, 2, 3, 4, 6], [1, 2, 3, 4, 7]]" ex_outlier]
  by (auto simp: ex_window_def kSize_def)

text \<open>
  The verdict: a vector is flagged exactly when some warm feature has a robust z-score above
  the detection threshold, the reported score is the largest such z-score (0 if there is none), and
  the details are empty exactly when nothing is flagged. A feature whose z-score exceeds the poison
  threshold with mitigation on keeps its window and sums.
\<close>

theorem Update_verdict:
  assumes "Update vec d = Returned (sc, d')" and "length vec = kSize" and "length (da_states d) = kSize"
    and "r = (recompute_interval (win_config d) dvd update_count d)"
    and "z = (\<lambda>i. fst (snd (update_metric (win_config d) (outlier_config d) r (vec ! i) (da_states d ! i))))"
    and "F = {i. i < kSize \<and> warm (win_config d) (da_states d ! i) \<and> z i > robust_z_threshold (outlier_config d)}"
  shows "(as_is_anomaly sc \<longleftrightarrow> F \<noteq> {}) \<and> max_z_score sc = Max (insert 0 (z ` F))
    \<and> (as_details sc = '''' \<longleftrightarrow> F = {})
    \<and> (\<forall>i < kSize. warm (win_config d) (da_states d ! i) \<and> enable_poison_mitigation (outlier_config d)
          \<and> z i > poison_skip_threshold (outlier_config d) \<longrightarrow>
         ms_buffer (da_states d' ! i) = ms_buffer (da_states d ! i) \<and> ms_sum (da_states d' ! i) = ms_sum (da_states d ! i))"
proof -
  let ?zs = "flagged_zs (win_config d) (outlier_config d) r (zip GetFeatureNames vec) (da_states d)"
  have zs: "set ?zs = z ` F"
  proof -
    have "snd (zip GetFeatureNames vec ! i) = vec ! i" if "i < kSize" for i
      using that assms(2) by simp
    then show ?thesis
      using assms(2,3) unfolding assms(5,6) by (subst set_flagged_zs) (auto cong: conj_cong image_cong_simp)
  qed
  have int: "recompute_interval (win_config d) \<noteq> 0"
    using assms(1) by (auto simp: Update_def)
  have len: "length (zip GetFeatureNames vec) = length (da_states d)"
    using assms by simp
  have "as_is_anomaly sc = (?zs \<noteq> []) \<and> max_z_score sc = fold max ?zs 0 \<and> (as_details sc = '''' \<longleftrightarrow> ?zs = [])"
    using update_loop_score [OF len, of "win_config d" "outlier_config d" r
        "\<lparr>as_is_anomaly = False, max_z_score = 0, as_details = ''''\<rparr>"] assms(1,4) int
    by (simp add: Update_def Let_def split_beta)
  moreover have "fold max ?zs 0 = Max (insert 0 (z ` F))"
    using Max.set_eq_fold [of 0 ?zs] zs by simp
  moreover have "?zs = [] \<longleftrightarrow> F = {}"
    using zs by (metis image_is_empty set_empty)
  moreover obtain sts where sts: "da_states d' = sts"
      "sts = map2 (\<lambda>val st. fst (update_metric (win_config d) (outlier_config d) r val st)) vec (da_states d)"
    using Update_returns [OF int assms(2,3)] assms(1,4) by auto
  then have "ms_buffer (da_states d' ! i) = ms_buffer (da_states d ! i) \<and> ms_sum (da_states d' ! i) = ms_sum (da_states d ! i)"
    if "i < kSize" "warm (win_config d) (da_states d ! i)" "enable_poison_mitigation (outlier_config d)"
      "z i > poison_skip_threshold (outlier_config d)" for i
    using that assms(2,3,5) by (simp add: update_metric_def Let_def split: if_splits)
  ultimately show ?thesis
    by auto
qed

definition ex_detector :: DetectorA where
  "ex_detector =
     \<lparr>win_config = ex_window\<lparr>recompute_interval := 5\<rparr>, outlier_config = ex_outlier,
      da_states = replicate kSize \<lparr>ms_buffer = [0], ms_sum = 0, ms_sum_sq = 0, ms_median = 0, ms_mad = 1\<rparr>,
      update_count = 1\<rparr>"

theorem Update_verdict_witness:
  "\<exists>sc d'. Update [9, 0, 0, 0, 0] ex_detector = Returned (sc, d') \<and> as_is_anomaly sc
     \<and> ms_buffer (da_states d' ! 0) = [0]"
proof -
  obtain sc d' where up: "Update [9, 0, 0, 0, 0] ex_detector = Returned (sc, d')"
    using Update_returns [of ex_detector "[9, 0, 0, 0, 0]"]
    by (auto simp: ex_detector_def ex_window_def kSize_def)
  have len: "length [9, 0, 0, 0, 0 :: real] = kSize" "length (da_states ex_detector) = kSize"
    by (simp_all add: kSize_def ex_detector_def)
  have z: "fst (snd (update_metric (win_config ex_detector) (outlier_config ex_detector) r 9 (da_states ex_detector ! 0))) = 9"
      and w: "warm (win_config ex_detector) (da_states ex_detector ! 0)" if "\<not> r" for r
    using that by (simp_all add: update_metric_def ex_detector_def ex_window_def ex_outlier_def kSize_def
        warm_def size_cast_def robust_z_def)
  have "\<not> recompute_interval (win_config ex_detector) dvd update_count ex_detector"
    by (simp add: ex_detector_def)
  note z = z [OF this] and w = w [OF this]
  have thr: "robust_z_threshold (outlier_config ex_detector) < 9" "poison_skip_threshold (outlier_config ex_detector) < 9"
      "enable_poison_mitigation (outlier_config ex_detector)"
    by (simp_all add: ex_detector_def ex_outlier_def)
  have "as_is_anomaly sc \<and> ms_buffer (da_states d' ! 0) = ms_buffer (da_states ex_detector ! 0)"
    using Update_verdict [OF up len refl refl refl] z w thr by (auto simp: kSize_def intro!: exI [of _ 0])
  then show ?thesis
    using up by (auto simp: ex_detector_def kSize_def)
qed

text \<open>
  The robust statistics: after a recomputation over a non-empty window, more than half of the
  window (position \<open>n div 2\<close> of the sorted window included) is at most the median and at least half is
  at least the median, the median is a value of the window, the deviation is positive, and more
  than half of the window lies within the deviation of the median.
\<close>

theorem UpdateRobustStats_median:
  assumes "ms_buffer st \<noteq> []"
  shows "ms_median (UpdateRobustStats st) \<in> set (ms_buffer st)
    \<and> length (ms_buffer st) div 2 + 1 \<le> length (filter (\<lambda>x. x \<le> ms_median (UpdateRobustStats st)) (ms_buffer st))
    \<and> length (ms_buffer st) - length (ms_buffer st) div 2
        \<le> length (filter (\<lambda>x. ms_median (UpdateRobustStats st) \<le> x) (ms_buffer st))
    \<and> 0 < ms_mad (UpdateRobustStats st)
    \<and> length (ms_buffer st) div 2 + 1
        \<le> length (filter (\<lambda>x. \<bar>x - ms_median (UpdateRobustStats st)\<bar> \<le> ms_mad (UpdateRobustStats st)) (ms_buffer st))"
proof -
  let ?xs = "ms_buffer st" and ?mid = "length (ms_buffer st) div 2" and ?med = "ms_median (UpdateRobustStats st)"
  let ?mad = "nth_element (map (\<lambda>v. \<bar>v - ?med\<bar>) ?xs) ?mid"
  have mid: "?mid < length ?xs"
    using assms by simp
  have med: "?med = nth_element ?xs ?mid"
    using assms by (simp add: UpdateRobustStats_def Let_def)
  then have mad: "ms_mad (UpdateRobustStats st) = (if ?mad = 0 then 1 / 1000000 else ?mad)"
    using assms by (simp add: UpdateRobustStats_def Let_def)
  have "?mid + 1 \<le> length (filter (\<lambda>x. \<bar>x - ?med\<bar> \<le> ?mad) ?xs)"
    using nth_element_rank(1) [of ?mid "map (\<lambda>v. \<bar>v - ?med\<bar>) ?xs"] mid by (simp add: filter_map comp_def)
  also have "\<dots> \<le> length (filter (\<lambda>x. \<bar>x - ?med\<bar> \<le> ms_mad (UpdateRobustStats st)) ?xs)"
    unfolding mad by (rule length_filter_mono) auto
  finally show ?thesis
    using nth_element_rank [OF mid] nth_element_in [OF mid] UpdateRobustStats_mad_pos [OF assms]
    by (simp add: med)
qed

theorem UpdateRobustStats_median_witness:
  "ms_median (UpdateRobustStats (fresh_metric\<lparr>ms_buffer := [5, 1, 3]\<rparr>)) \<in> {5, 1, 3}"
  using UpdateRobustStats_median [of "fresh_metric\<lparr>ms_buffer := [5, 1, 3]\<rparr>"] by simp

end
