(* ===== verification/Linalg.thy ===== *)
theory Linalg
  imports Prelude
begin

text \<open>
  The dense linear algebra of \<^verbatim>\<open>src/src/linalg/matrix.{h,cpp}\<close>: row-major matrices over a flat
  \<^verbatim>\<open>std::vector<double>\<close>, updated in place by loops, and the Jacobi eigenvalue iteration. The loops
  are folds over index ranges that write one cell at a time, as the code does.
\<close>

section \<open>Matrices\<close>

type_synonym Vector = "real list"

record Matrix =
  rows :: nat
  cols :: nat
  mdata :: "real list"

record EigenSymResult =
  eigenvalues :: Vector
  eigenvectors :: Matrix

definition mat_new :: "nat \<Rightarrow> nat \<Rightarrow> Matrix" where
  "mat_new r c = \<lparr>rows = r, cols = c, mdata = replicate (r * c) 0\<rparr>"

definition mget :: "Matrix \<Rightarrow> nat \<Rightarrow> nat \<Rightarrow> real" where
  "mget m r c = mdata m ! (r * cols m + c)"

definition mset_at :: "nat \<Rightarrow> nat \<Rightarrow> real \<Rightarrow> Matrix \<Rightarrow> Matrix" where
  "mset_at r c v m = m\<lparr>mdata := (mdata m)[r * cols m + c := v]\<rparr>"

definition identity :: "nat \<Rightarrow> Matrix" where
  "identity n = fold (\<lambda>i m. mset_at i i 1 m) [0..<n] (mat_new n n)"

definition transpose :: "Matrix \<Rightarrow> Matrix" where
  "transpose m =
     fold (\<lambda>r t. fold (\<lambda>c t. mset_at c r (mget m r c) t) [0..<cols m] t) [0..<rows m] (mat_new (cols m) (rows m))"

definition matmul :: "Matrix \<Rightarrow> Matrix \<Rightarrow> Matrix cpp" where
  "matmul a b =
     (if cols a \<noteq> rows b then Inl (Runtime_error ''matmul dimension mismatch'')
      else Inr (fold (\<lambda>i out. fold (\<lambda>k out.
             let av = mget a i k in
             fold (\<lambda>j out. mset_at i j (mget out i j + av * mget b k j) out) [0..<cols b] out)
           [0..<cols a] out) [0..<rows a] (mat_new (rows a) (cols b))))"

definition matvec :: "Matrix \<Rightarrow> Vector \<Rightarrow> Vector cpp" where
  "matvec a x =
     (if cols a \<noteq> length x then Inl (Runtime_error ''matvec dimension mismatch'')
      else Inr (map (\<lambda>i. fold (\<lambda>j sum. sum + mget a i j * x ! j) [0..<cols a] 0) [0..<rows a]))"

definition dot :: "Vector \<Rightarrow> Vector \<Rightarrow> real cpp" where
  "dot a b =
     (if length a \<noteq> length b then Inl (Runtime_error ''dot dimension mismatch'')
      else Inr (fold (\<lambda>i sum. sum + a ! i * b ! i) [0..<length a] 0))"

definition l2_norm :: "Vector \<Rightarrow> real" where
  "l2_norm v = sqrt (case dot v v of Inr s \<Rightarrow> s | Inl e \<Rightarrow> 0)"

text \<open>
  \<^verbatim>\<open>std::sort\<close> of the indices with the comparator; the comparator is a strict total order on
  indices (larger value first, then smaller index), so the result is unique.
\<close>

definition desc_before :: "Vector \<Rightarrow> nat \<Rightarrow> nat \<Rightarrow> bool" where
  "desc_before v a b = (if v ! a = v ! b then a < b else v ! a > v ! b)"

primrec insert_by :: "('a \<Rightarrow> 'a \<Rightarrow> bool) \<Rightarrow> 'a \<Rightarrow> 'a list \<Rightarrow> 'a list" where
  "insert_by lt x [] = [x]"
| "insert_by lt x (y # ys) = (if lt y x then y # insert_by lt x ys else x # y # ys)"

definition argsort_desc :: "Vector \<Rightarrow> nat list" where
  "argsort_desc v = foldr (insert_by (desc_before v)) [0..<length v] []"

section \<open>Cells\<close>

definition mat_wf :: "Matrix \<Rightarrow> bool" where
  "mat_wf m \<longleftrightarrow> length (mdata m) = rows m * cols m"

lemma cell_index: "i < r \<Longrightarrow> j < c \<Longrightarrow> i * c + j < r * (c::nat)"
proof -
  assume "i < r" "j < c"
  then have "i * c + j < Suc i * c" by simp
  also have "\<dots> \<le> r * c" using \<open>i < r\<close> by (intro mult_le_mono1) simp
  finally show ?thesis .
qed

lemma cell_inj: "j < c \<Longrightarrow> j' < c \<Longrightarrow> i * c + j = i' * c + j' \<longleftrightarrow> i = i' \<and> j = (j'::nat)"
  by (metis add.commute div_mult_self3 div_less add_0 mod_mult_self3 mod_less not_less_zero)

lemma mat_new_simps [simp]:
  "rows (mat_new r c) = r" "cols (mat_new r c) = c" "mat_wf (mat_new r c)"
  by (simp_all add: mat_new_def mat_wf_def)

lemma mget_new [simp]: "i < r \<Longrightarrow> j < c \<Longrightarrow> mget (mat_new r c) i j = 0"
  by (simp add: mget_def mat_new_def cell_index)

lemma mset_at_simps [simp]:
  "rows (mset_at i j v m) = rows m" "cols (mset_at i j v m) = cols m"
  "mat_wf (mset_at i j v m) = mat_wf m"
  by (simp_all add: mset_at_def mat_wf_def)

lemma mget_mset [simp]:
  assumes "mat_wf m" "i < rows m" "j < cols m" "a < rows m" "b < cols m"
  shows "mget (mset_at i j v m) a b = (if a = i \<and> b = j then v else mget m a b)"
  using assms cell_index [of i "rows m" j "cols m"]
  by (auto simp: mget_def mset_at_def mat_wf_def nth_list_update cell_inj)

lemma sum_lessThan_fold: "fold (\<lambda>j s. s + g j) [0..<n] z = z + (\<Sum>j<n. g j)" for z :: real
  by (induction n) simp_all

lemma dot_eq: "length a = length b \<Longrightarrow> dot a b = Inr (\<Sum>i<length a. a ! i * b ! i)"
  by (simp add: dot_def sum_lessThan_fold)

lemma l2_norm_eq: "l2_norm v = sqrt (\<Sum>i<length v. (v ! i)\<^sup>2)"
  by (simp add: l2_norm_def dot_eq power2_eq_square)

lemma matvec_eq:
  "cols a = length x \<Longrightarrow> matvec a x = Inr (map (\<lambda>i. \<Sum>j<cols a. mget a i j * x ! j) [0..<rows a])"
  by (simp add: matvec_def sum_lessThan_fold)

text \<open>Two well-formed matrices of the same shape with the same cells are equal.\<close>

lemma matrix_eqI:
  assumes "mat_wf m" "mat_wf m'" "rows m = rows m'" "cols m = cols m'"
    and cells: "\<And>i j. i < rows m \<Longrightarrow> j < cols m \<Longrightarrow> mget m i j = mget m' i j"
  shows "m = (m' :: Matrix)"
proof -
  have "mdata m = mdata m'"
  proof (rule nth_equalityI)
    show "length (mdata m) = length (mdata m')"
      using assms by (simp add: mat_wf_def)
    fix x assume x: "x < length (mdata m)"
    then have "cols m > 0"
      using assms(1) by (auto simp: mat_wf_def intro: Nat.gr0I)
    then have "x div cols m < rows m" "x mod cols m < cols m"
      using x assms(1) by (auto simp: mat_wf_def less_mult_imp_div_less)
    from cells [OF this] show "mdata m ! x = mdata m' ! x"
      using assms(4) by (simp add: mget_def)
  qed
  then show ?thesis
    using assms(3,4) by simp
qed

section \<open>Identity, transpose, product\<close>

text \<open>A loop that writes cells one after another, each value independent of the matrix written.\<close>

lemma fill_column:
  fixes f :: "nat \<Rightarrow> real"
  assumes "mat_wf t" "n \<le> rows t" "r < cols t"
  defines "t' \<equiv> fold (\<lambda>c t. mset_at c r (f c) t) [0..<n] t"
  shows "mat_wf t'" "rows t' = rows t" "cols t' = cols t"
    and "a < rows t \<Longrightarrow> b < cols t \<Longrightarrow> mget t' a b = (if b = r \<and> a < n then f a else mget t a b)"
proof -
  have "mat_wf t' \<and> rows t' = rows t \<and> cols t' = cols t
     \<and> (\<forall>a < rows t. \<forall>b < cols t. mget t' a b = (if b = r \<and> a < n then f a else mget t a b))"
    using assms(2) unfolding t'_def
  proof (induction n)
    case 0
    then show ?case using assms(1) by simp
  next
    case (Suc n)
    then show ?case using assms(3) by (auto simp: less_Suc_eq)
  qed
  then show "mat_wf t'" "rows t' = rows t" "cols t' = cols t"
    "a < rows t \<Longrightarrow> b < cols t \<Longrightarrow> mget t' a b = (if b = r \<and> a < n then f a else mget t a b)"
    by auto
qed

lemma transpose_props:
  shows "mat_wf (transpose m)" "rows (transpose m) = cols m" "cols (transpose m) = rows m"
    and "a < cols m \<Longrightarrow> b < rows m \<Longrightarrow> mget (transpose m) a b = mget m b a"
proof -
  have "k \<le> rows m \<Longrightarrow>
      (let t = fold (\<lambda>r t. fold (\<lambda>c t. mset_at c r (mget m r c) t) [0..<cols m] t) [0..<k] (mat_new (cols m) (rows m)) in
       mat_wf t \<and> rows t = cols m \<and> cols t = rows m
       \<and> (\<forall>a < cols m. \<forall>b < rows m. mget t a b = (if b < k then mget m b a else 0)))" for k
  proof (induction k)
    case 0
    then show ?case by simp
  next
    case (Suc k)
    then show ?case
      by (simp add: Let_def fill_column less_Suc_eq)
  qed
  from this [of "rows m"]
  show "mat_wf (transpose m)" "rows (transpose m) = cols m" "cols (transpose m) = rows m"
    "a < cols m \<Longrightarrow> b < rows m \<Longrightarrow> mget (transpose m) a b = mget m b a"
    by (simp_all add: transpose_def Let_def)
qed

lemma identity_props:
  shows "mat_wf (identity n)" "rows (identity n) = n" "cols (identity n) = n"
    and "a < n \<Longrightarrow> b < n \<Longrightarrow> mget (identity n) a b = (if a = b then 1 else 0)"
proof -
  have "k \<le> n \<Longrightarrow>
      (let t = fold (\<lambda>i m. mset_at i i 1 m) [0..<k] (mat_new n n) in
       mat_wf t \<and> rows t = n \<and> cols t = n
       \<and> (\<forall>a < n. \<forall>b < n. mget t a b = (if a = b \<and> a < k then 1 else 0)))" for k
    by (induction k) (auto simp: Let_def less_Suc_eq)
  from this [of n]
  show "mat_wf (identity n)" "rows (identity n) = n" "cols (identity n) = n"
    "a < n \<Longrightarrow> b < n \<Longrightarrow> mget (identity n) a b = (if a = b then 1 else 0)"
    by (simp_all add: identity_def Let_def)
qed


text \<open>The inner loop of the product adds a multiple of a row.\<close>

definition has_cells :: "Matrix \<Rightarrow> nat \<Rightarrow> nat \<Rightarrow> (nat \<Rightarrow> nat \<Rightarrow> real) \<Rightarrow> bool" where
  "has_cells m r c f \<longleftrightarrow> mat_wf m \<and> rows m = r \<and> cols m = c \<and> (\<forall>a < r. \<forall>b < c. mget m a b = f a b)"

lemma has_cells_self: "mat_wf m \<Longrightarrow> has_cells m (rows m) (cols m) (mget m)"
  by (simp add: has_cells_def)

lemma has_cells_cong:
  "has_cells m r c f \<Longrightarrow> (\<And>a b. a < r \<Longrightarrow> b < c \<Longrightarrow> f a b = g a b) \<Longrightarrow> has_cells m r c g"
  by (simp add: has_cells_def)

lemma has_cells_mset:
  "has_cells m r c f \<Longrightarrow> i < r \<Longrightarrow> j < c \<Longrightarrow>
     has_cells (mset_at i j v m) r c (\<lambda>a b. if a = i \<and> b = j then v else f a b)"
  by (simp add: has_cells_def)

lemma add_to_row:
  assumes "has_cells out r c f" "i < r" "n \<le> c"
  shows "has_cells (fold (\<lambda>j out. mset_at i j (mget out i j + g j) out) [0..<n] out) r c
           (\<lambda>a b. if a = i \<and> b < n then f a b + g b else f a b)"
  using assms(3)
proof (induction n)
  case 0
  then show ?case using assms(1) by simp
next
  case (Suc n)
  let ?o = "fold (\<lambda>j out. mset_at i j (mget out i j + g j) out) [0..<n] out"
  have IH: "has_cells ?o r c (\<lambda>a b. if a = i \<and> b < n then f a b + g b else f a b)"
    using Suc by simp
  have "mget ?o i n = f i n"
    using IH assms(2) Suc.prems by (simp add: has_cells_def)
  with has_cells_mset [OF IH, of i n "mget ?o i n + g n"] assms(2) Suc.prems show ?case
    by (auto simp: less_Suc_eq elim!: has_cells_cong)
qed

lemma fill_row:
  assumes "has_cells m r d f" "i < r" "n \<le> d"
  shows "has_cells (fold (\<lambda>c m. mset_at i c (g c) m) [0..<n] m) r d (\<lambda>a b. if a = i \<and> b < n then g b else f a b)"
  using assms(3)
proof (induction n)
  case 0
  then show ?case using assms(1) by simp
next
  case (Suc n)
  then have "has_cells (fold (\<lambda>c m. mset_at i c (g c) m) [0..<n] m) r d (\<lambda>a b. if a = i \<and> b < n then g b else f a b)"
    by simp
  from has_cells_mset [OF this assms(2), of n "g n"] Suc.prems show ?case
    by (auto simp: less_Suc_eq elim!: has_cells_cong)
qed

lemma matmul_row:
  assumes "has_cells out r (cols b) f" "i < r"
  shows "has_cells (fold (\<lambda>k out. let av = mget a i k in
             fold (\<lambda>j out. mset_at i j (mget out i j + av * mget b k j) out) [0..<cols b] out) [0..<n] out)
           r (cols b) (\<lambda>x y. if x = i then f x y + (\<Sum>k<n. mget a i k * mget b k y) else f x y)"
proof (induction n)
  case 0
  then show ?case using assms(1) by (auto elim!: has_cells_cong)
next
  case (Suc n)
  from add_to_row [OF Suc assms(2) order_refl, of "\<lambda>j. mget a i n * mget b n j"]
  show ?case
    by (auto simp: Let_def elim!: has_cells_cong)
qed

lemma matmul_eq:
  assumes "cols a = rows b"
  obtains m where "matmul a b = Inr m"
    and "has_cells m (rows a) (cols b) (\<lambda>i j. \<Sum>k<cols a. mget a i k * mget b k j)"
proof -
  let ?step = "\<lambda>i out. fold (\<lambda>k out. let av = mget a i k in
             fold (\<lambda>j out. mset_at i j (mget out i j + av * mget b k j) out) [0..<cols b] out) [0..<cols a] out"
  have "n \<le> rows a \<Longrightarrow> has_cells (fold ?step [0..<n] (mat_new (rows a) (cols b))) (rows a) (cols b)
          (\<lambda>x y. if x < n then \<Sum>k<cols a. mget a x k * mget b k y else 0)" for n
  proof (induction n)
    case 0
    then show ?case by (simp add: has_cells_def)
  next
    case (Suc n)
    then have "has_cells (fold ?step [0..<n] (mat_new (rows a) (cols b))) (rows a) (cols b)
          (\<lambda>x y. if x < n then \<Sum>k<cols a. mget a x k * mget b k y else 0)" "n < rows a"
      by simp_all
    from matmul_row [OF this, of a "cols a"] show ?case
      by (auto simp: less_Suc_eq elim!: has_cells_cong)
  qed
  from this [OF order_refl]
  have "has_cells (fold ?step [0..<rows a] (mat_new (rows a) (cols b))) (rows a) (cols b)
          (\<lambda>i j. \<Sum>k<cols a. mget a i k * mget b k j)"
    by (rule has_cells_cong) simp
  moreover have "matmul a b = Inr (fold ?step [0..<rows a] (mat_new (rows a) (cols b)))"
    using assms by (simp add: matmul_def)
  ultimately show ?thesis
    using that by blast
qed

section \<open>Sorting of indices\<close>

lemma set_insert_by [simp]: "set (insert_by lt x ys) = insert x (set ys)"
  by (induction ys) auto

lemma length_insert_by [simp]: "length (insert_by lt x ys) = Suc (length ys)"
  by (induction ys) auto

lemma insert_by_sorted:
  assumes "\<And>a b c. lt a b \<Longrightarrow> lt b c \<Longrightarrow> lt a c" and "\<And>a b. a \<noteq> b \<Longrightarrow> \<not> lt a b \<Longrightarrow> lt b a"
    and "sorted_wrt lt ys" and "x \<notin> set ys"
  shows "sorted_wrt lt (insert_by lt x ys)"
  using assms(3,4)
proof (induction ys)
  case Nil
  then show ?case by simp
next
  case (Cons y ys)
  show ?case
  proof (cases "lt y x")
    case True
    then show ?thesis using Cons by auto
  next
    case False
    then have "lt x y" using assms(2) [of y x] Cons.prems by auto
    then show ?thesis using False Cons.prems assms(1) by auto
  qed
qed

lemma desc_before_order:
  "desc_before v a b \<Longrightarrow> desc_before v b c \<Longrightarrow> desc_before v a c"
  "a \<noteq> b \<Longrightarrow> \<not> desc_before v a b \<Longrightarrow> desc_before v b a"
  by (auto simp: desc_before_def split: if_splits)

lemma foldr_insert_by:
  "distinct is \<Longrightarrow> sorted_wrt (desc_before v) (foldr (insert_by (desc_before v)) is [])
     \<and> set (foldr (insert_by (desc_before v)) is []) = set is
     \<and> length (foldr (insert_by (desc_before v)) is []) = length is"
proof (induction "is")
  case (Cons i "is")
  then have "sorted_wrt (desc_before v) (insert_by (desc_before v) i (foldr (insert_by (desc_before v)) is []))"
    by (intro insert_by_sorted [OF desc_before_order]) simp_all
  then show ?case
    using Cons by simp
qed simp

lemma argsort_desc_props:
  shows "sorted_wrt (desc_before v) (argsort_desc v)" and "set (argsort_desc v) = {..<length v}"
    and "length (argsort_desc v) = length v" and "distinct (argsort_desc v)"
proof -
  show "sorted_wrt (desc_before v) (argsort_desc v)" "set (argsort_desc v) = {..<length v}"
    "length (argsort_desc v) = length v"
    using foldr_insert_by [of "[0..<length v]" v] by (simp_all add: argsort_desc_def lessThan_atLeast0 del: foldr.simps)
  then show "distinct (argsort_desc v)"
    by (intro card_distinct) simp
qed


section \<open>The Jacobi iteration\<close>

definition atan2 :: "real \<Rightarrow> real \<Rightarrow> real" where
  "atan2 y x =
     (if x > 0 then arctan (y / x)
      else if x < 0 then (if y \<ge> 0 then arctan (y / x) + pi else arctan (y / x) - pi)
      else if y > 0 then pi / 2 else if y < 0 then - (pi / 2) else 0)"

definition offdiag_cell :: "Matrix \<Rightarrow> nat \<Rightarrow> nat \<Rightarrow> real \<times> nat \<times> nat \<Rightarrow> real \<times> nat \<times> nat" where
  "offdiag_cell a i j acc = (let val = \<bar>mget a i j\<bar> in if val > fst acc then (val, i, j) else acc)"

definition max_offdiag :: "Matrix \<Rightarrow> real \<times> nat \<times> nat" where
  "max_offdiag a =
     fold (\<lambda>i acc. fold (offdiag_cell a i) [i + 1..<cols a] acc) [0..<rows a] (0, 0, 0)"

definition rotate_rows :: "real \<Rightarrow> real \<Rightarrow> nat \<Rightarrow> nat \<Rightarrow> nat \<Rightarrow> Matrix \<Rightarrow> Matrix" where
  "rotate_rows c s p q n d =
     fold (\<lambda>k d. let dpk = mget d p k; dqk = mget d q k in
         mset_at q k (s * dpk + c * dqk) (mset_at p k (c * dpk - s * dqk) d)) [0..<n] d"

definition rotate_cols :: "real \<Rightarrow> real \<Rightarrow> nat \<Rightarrow> nat \<Rightarrow> nat \<Rightarrow> Matrix \<Rightarrow> Matrix" where
  "rotate_cols c s p q n d =
     fold (\<lambda>k d. let dkp = mget d k p; dkq = mget d k q in
         mset_at k q (s * dkp + c * dkq) (mset_at k p (c * dkp - s * dkq) d)) [0..<n] d"

text \<open>The body of the iteration, for the pivot \<open>p\<close>, \<open>q\<close>.\<close>

definition jacobi_rotate :: "nat \<Rightarrow> nat \<Rightarrow> nat \<Rightarrow> Matrix \<times> Matrix \<Rightarrow> Matrix \<times> Matrix" where
  "jacobi_rotate n p q dv =
     (let d = fst dv; app = mget d p p; aqq = mget d q q; apq = mget d p q;
          phi = 1 / 2 * atan2 (2 * apq) (aqq - app); c = cos phi; s = sin phi;
          d1 = rotate_cols c s p q n (rotate_rows c s p q n d);
          d2 = mset_at p p (c * c * app - 2 * s * c * apq + s * s * aqq) d1;
          d3 = mset_at q q (s * s * app + 2 * s * c * apq + c * c * aqq) d2;
          d4 = mset_at q p 0 (mset_at p q 0 d3)
      in (d4, rotate_cols c s p q n (snd dv)))"

primrec jacobi_loop :: "nat \<Rightarrow> real \<Rightarrow> nat \<Rightarrow> Matrix \<times> Matrix \<Rightarrow> Matrix \<times> Matrix" where
  "jacobi_loop 0 eps n dv = dv"
| "jacobi_loop (Suc iters) eps n dv =
     (case max_offdiag (fst dv) of (off, p, q) \<Rightarrow>
        if off < eps then dv else jacobi_loop iters eps n (jacobi_rotate n p q dv))"

definition eigen_sym_jacobi :: "Matrix \<Rightarrow> int \<Rightarrow> real \<Rightarrow> EigenSymResult cpp" where
  "eigen_sym_jacobi a max_iter eps =
     (if rows a \<noteq> cols a then Inl (Runtime_error ''eigen_sym_jacobi requires square matrix'')
      else
        let n = rows a; (d, v) = jacobi_loop (nat max_iter) eps n (a, identity n)
        in Inr \<lparr>eigenvalues = map (\<lambda>i. mget d i i) [0..<n], eigenvectors = v\<rparr>)"

lemma atan2_ratio: "sin (atan2 y x) * x = cos (atan2 y x) * y"
proof -
  have "sin (arctan t) = t * cos (arctan t)" for t :: real
    by (simp add: sin_arctan cos_arctan)
  then have "x \<noteq> 0 \<Longrightarrow> sin (arctan (y / x)) * x = cos (arctan (y / x)) * y"
    by (simp add: field_simps)
  then show ?thesis
    by (auto simp: atan2_def sin_add cos_add sin_diff cos_diff algebra_simps)
qed

text \<open>The angle makes the pivot vanish.\<close>

lemma pivot_vanishes:
  fixes app aqq apq :: real
  defines "phi \<equiv> 1 / 2 * atan2 (2 * apq) (aqq - app)"
  shows "cos phi * sin phi * (app - aqq) + (cos phi * cos phi - sin phi * sin phi) * apq = 0"
proof -
  have two: "atan2 (2 * apq) (aqq - app) = 2 * phi"
    by (simp add: phi_def)
  have "2 * (cos phi * sin phi * (app - aqq) + (cos phi * cos phi - sin phi * sin phi) * apq) = 0"
    using atan2_ratio [of "2 * apq" "aqq - app"] unfolding two sin_double cos_double
    by (simp add: algebra_simps power2_eq_square)
  then show ?thesis by simp
qed

text \<open>The pivot search returns the largest off-diagonal magnitude above the diagonal and its place.\<close>

definition pivot_ok :: "Matrix \<Rightarrow> (nat \<times> nat) set \<Rightarrow> real \<times> nat \<times> nat \<Rightarrow> bool" where
  "pivot_ok a S acc \<longleftrightarrow> (case acc of (m, p, q) \<Rightarrow>
     0 \<le> m \<and> (\<forall>(i, j) \<in> S. \<bar>mget a i j\<bar> \<le> m) \<and> (m > 0 \<longrightarrow> (p, q) \<in> S \<and> m = \<bar>mget a p q\<bar>))"

lemma pivot_row:
  assumes "pivot_ok a S acc"
  shows "pivot_ok a (S \<union> {i} \<times> set js) (fold (offdiag_cell a i) js acc)"
  using assms
proof (induction js arbitrary: S acc)
  case Nil
  then show ?case by simp
next
  case (Cons j js)
  have "pivot_ok a (insert (i, j) S) (offdiag_cell a i j acc)"
    using Cons.prems unfolding pivot_ok_def offdiag_cell_def Let_def by (cases acc) (auto split: if_splits)
  moreover have "insert (i, j) S \<union> {i} \<times> set js = S \<union> {i} \<times> set (j # js)"
    by auto
  ultimately show ?case
    using Cons.IH [of "insert (i, j) S" "offdiag_cell a i j acc"] by simp
qed

lemma max_offdiag_pivot: "pivot_ok a {(i, j). i < rows a \<and> i < j \<and> j < cols a} (max_offdiag a)"
proof -
  have "pivot_ok a {(i, j). i < n \<and> i < j \<and> j < cols a}
    (fold (\<lambda>i acc. fold (offdiag_cell a i) [i + 1..<cols a] acc) [0..<n] (0, 0, 0))" for n
  proof (induction n)
    case 0
    then show ?case by (simp add: pivot_ok_def)
  next
    case (Suc n)
    have "{(i, j). i < n \<and> i < j \<and> j < cols a} \<union> {n} \<times> set [n + 1..<cols a] =
        {(i, j). i < Suc n \<and> i < j \<and> j < cols a}"
      by auto
    with pivot_row [OF Suc, of n "[n + 1..<cols a]"] show ?case
      by simp
  qed
  then show ?thesis
    by (simp add: max_offdiag_def)
qed


text \<open>The rotations on the level of cells.\<close>

definition rowrot :: "real \<Rightarrow> real \<Rightarrow> nat \<Rightarrow> nat \<Rightarrow> (nat \<Rightarrow> nat \<Rightarrow> real) \<Rightarrow> nat \<Rightarrow> nat \<Rightarrow> real" where
  "rowrot c s p q f a b =
     (if a = p then c * f p b - s * f q b else if a = q then s * f p b + c * f q b else f a b)"

definition colrot :: "real \<Rightarrow> real \<Rightarrow> nat \<Rightarrow> nat \<Rightarrow> (nat \<Rightarrow> nat \<Rightarrow> real) \<Rightarrow> nat \<Rightarrow> nat \<Rightarrow> real" where
  "colrot c s p q f a b =
     (if b = p then c * f a p - s * f a q else if b = q then s * f a p + c * f a q else f a b)"

lemma has_cellsD: "has_cells m r c f \<Longrightarrow> a < r \<Longrightarrow> b < c \<Longrightarrow> mget m a b = f a b"
  by (simp add: has_cells_def)

lemma rotate_rows_cells:
  assumes "has_cells d n n f" "p < n" "q < n" "p \<noteq> q"
  shows "has_cells (rotate_rows c s p q n d) n n (rowrot c s p q f)"
proof -
  let ?step = "\<lambda>k d. let dpk = mget d p k; dqk = mget d q k in
         mset_at q k (s * dpk + c * dqk) (mset_at p k (c * dpk - s * dqk) d)"
  have "k \<le> n \<Longrightarrow> has_cells (fold ?step [0..<k] d) n n (\<lambda>a b. if b < k then rowrot c s p q f a b else f a b)" for k
  proof (induction k)
    case 0
    then show ?case using assms(1) by simp
  next
    case (Suc k)
    let ?d = "fold ?step [0..<k] d"
    have IH: "has_cells ?d n n (\<lambda>a b. if b < k then rowrot c s p q f a b else f a b)" and k: "k < n"
      using Suc by simp_all
    have "mget ?d p k = f p k" "mget ?d q k = f q k"
      using has_cellsD [OF IH] assms(2,3) k by simp_all
    with has_cells_mset [OF has_cells_mset [OF IH assms(2) k, of "c * f p k - s * f q k"] assms(3) k,
        of "s * f p k + c * f q k"] assms(4) show ?case
      by (auto simp: Let_def rowrot_def less_Suc_eq elim!: has_cells_cong)
  qed
  from has_cells_cong [OF this [of n]] show ?thesis
    by (simp add: rotate_rows_def)
qed

lemma rotate_cols_cells:
  assumes "has_cells d n n f" "p < n" "q < n" "p \<noteq> q"
  shows "has_cells (rotate_cols c s p q n d) n n (colrot c s p q f)"
proof -
  let ?step = "\<lambda>k d. let dkp = mget d k p; dkq = mget d k q in
         mset_at k q (s * dkp + c * dkq) (mset_at k p (c * dkp - s * dkq) d)"
  have "k \<le> n \<Longrightarrow> has_cells (fold ?step [0..<k] d) n n (\<lambda>a b. if a < k then colrot c s p q f a b else f a b)" for k
  proof (induction k)
    case 0
    then show ?case using assms(1) by simp
  next
    case (Suc k)
    let ?d = "fold ?step [0..<k] d"
    have IH: "has_cells ?d n n (\<lambda>a b. if a < k then colrot c s p q f a b else f a b)" and k: "k < n"
      using Suc by simp_all
    have "mget ?d k p = f k p" "mget ?d k q = f k q"
      using has_cellsD [OF IH] assms(2,3) k by simp_all
    with has_cells_mset [OF has_cells_mset [OF IH k assms(2), of "c * f k p - s * f k q"] k assms(3),
        of "s * f k p + c * f k q"] assms(4) show ?case
      by (auto simp: Let_def colrot_def less_Suc_eq elim!: has_cells_cong)
  qed
  from has_cells_cong [OF this [of n]] show ?thesis
    by (simp add: rotate_cols_def)
qed

text \<open>Rotating the columns of one factor and the rows of the other leaves a product unchanged.\<close>

lemma sum_two:
  fixes g :: "nat \<Rightarrow> real"
  assumes "p < n" "q < n" "p \<noteq> q"
  shows "(\<Sum>k<n. g k) = g p + g q + (\<Sum>k \<in> {..<n} - {p, q}. g k)"
proof -
  have "(\<Sum>k<n. g k) = g p + (\<Sum>k \<in> {..<n} - {p}. g k)"
    using assms by (simp add: sum.remove)
  also have "(\<Sum>k \<in> {..<n} - {p}. g k) = g q + (\<Sum>k \<in> {..<n} - {p} - {q}. g k)"
    using assms by (intro sum.remove) auto
  finally show ?thesis
    by (simp add: set_diff_eq insert_commute conj_commute conj_left_commute)
qed

lemma rot_cancel:
  assumes "p < n" "q < n" "p \<noteq> q" and cs: "c * c + s * s = (1::real)"
  shows "(\<Sum>k<n. colrot c s p q g i k * rowrot c s p q f k l) = (\<Sum>k<n. g i k * f k l)"
proof -
  have "colrot c s p q g i p * rowrot c s p q f p l + colrot c s p q g i q * rowrot c s p q f q l =
      (c * c + s * s) * (g i p * f p l + g i q * f q l)"
    using assms(3) by (simp add: colrot_def rowrot_def algebra_simps)
  moreover have "(\<Sum>k \<in> {..<n} - {p, q}. colrot c s p q g i k * rowrot c s p q f k l) =
      (\<Sum>k \<in> {..<n} - {p, q}. g i k * f k l)"
    by (intro sum.cong) (auto simp: colrot_def rowrot_def)
  ultimately show ?thesis
    using cs by (simp add: sum_two [OF assms(1-3)])
qed

lemma rowrot_flip: "rowrot c s p q (\<lambda>a b. f b a) a b = colrot c s p q f b a"
  by (simp add: rowrot_def colrot_def)

lemma rot_commute: "p \<noteq> q \<Longrightarrow> rowrot c s p q (colrot c s p q f) = colrot c s p q (rowrot c s p q f)"
  by (auto simp: rowrot_def colrot_def fun_eq_iff algebra_simps)


section \<open>The iteration keeps an orthogonal decomposition\<close>

definition orthogonal :: "nat \<Rightarrow> (nat \<Rightarrow> nat \<Rightarrow> real) \<Rightarrow> bool" where
  "orthogonal n g \<longleftrightarrow>
     (\<forall>i < n. \<forall>j < n. (\<Sum>k<n. g i k * g j k) = (if i = j then 1 else 0)
                     \<and> (\<Sum>k<n. g k i * g k j) = (if i = j then 1 else 0))"

definition symmetric :: "nat \<Rightarrow> (nat \<Rightarrow> nat \<Rightarrow> real) \<Rightarrow> bool" where
  "symmetric n f \<longleftrightarrow> (\<forall>i < n. \<forall>j < n. f i j = f j i)"

definition conjugate :: "nat \<Rightarrow> (nat \<Rightarrow> nat \<Rightarrow> real) \<Rightarrow> (nat \<Rightarrow> nat \<Rightarrow> real) \<Rightarrow> nat \<Rightarrow> nat \<Rightarrow> real" where
  "conjugate n g f i j = (\<Sum>k<n. g i k * (\<Sum>l<n. f k l * g j l))"

lemma symmetric_rot:
  assumes "symmetric n f" "p < n" "q < n" "p \<noteq> q"
  shows "symmetric n (colrot c s p q (rowrot c s p q f))"
proof -
  have "f i j = f j i" if "i < n" "j < n" for i j
    using assms(1) that by (simp add: symmetric_def)
  then show ?thesis
    using assms(2-4) unfolding symmetric_def by (simp add: colrot_def rowrot_def algebra_simps)
qed

lemma conjugate_rot:
  assumes "p < n" "q < n" "p \<noteq> q" and cs: "c * c + s * s = (1::real)"
  shows "conjugate n (colrot c s p q g) (colrot c s p q (rowrot c s p q f)) i j = conjugate n g f i j"
proof -
  let ?h = "\<lambda>k _ :: nat. \<Sum>l<n. f k l * g j l"
  have "(\<Sum>l<n. colrot c s p q (rowrot c s p q f) k l * colrot c s p q g j l) = rowrot c s p q ?h k 0" for k
  proof -
    have "(\<Sum>l<n. colrot c s p q (rowrot c s p q f) k l * colrot c s p q g j l) =
        (\<Sum>l<n. colrot c s p q (rowrot c s p q f) k l * rowrot c s p q (\<lambda>a b. g b a) l j)"
      by (simp add: rowrot_flip)
    also have "\<dots> = (\<Sum>l<n. rowrot c s p q f k l * g j l)"
      by (rule rot_cancel [OF assms])
    also have "\<dots> = rowrot c s p q ?h k 0"
      by (simp add: rowrot_def sum_distrib_left sum.distrib [symmetric] sum_subtractf [symmetric] algebra_simps)
    finally show ?thesis .
  qed
  then show ?thesis
    using rot_cancel [OF assms, of g i ?h 0] by (simp add: conjugate_def)
qed

lemma gram_rot:
  assumes "p \<noteq> q"
  shows "(\<Sum>k<n. colrot c s p q g k i * colrot c s p q g k j) =
    colrot c s p q (rowrot c s p q (\<lambda>a b. \<Sum>k<n. g k a * g k b)) i j"
  using assms
  by (auto simp: colrot_def rowrot_def sum_distrib_left sum.distrib [symmetric] sum_subtractf [symmetric]
      algebra_simps intro!: sum.cong)

lemma orthogonal_rot:
  assumes "orthogonal n g" "p < n" "q < n" "p \<noteq> q" and cs: "c * c + s * s = (1::real)"
  shows "orthogonal n (colrot c s p q g)"
proof -
  have rows: "(\<Sum>k<n. g i k * g j k) = (if i = j then 1 else 0)"
    and cols: "(\<Sum>k<n. g k i * g k j) = (if i = j then 1 else 0)" if "i < n" "j < n" for i j
    using assms(1) that by (simp_all add: orthogonal_def)
  have "(\<Sum>k<n. colrot c s p q g i k * colrot c s p q g j k) = (if i = j then 1 else 0)" if "i < n" "j < n" for i j
    using rot_cancel [OF assms(2-5), of g i "\<lambda>a b. g b a" j] rows [OF that] by (simp add: rowrot_flip)
  moreover have "(\<Sum>k<n. colrot c s p q g k i * colrot c s p q g k j) = (if i = j then 1 else 0)"
    if "i < n" "j < n" for i j
    using that assms(2-4) cs cols unfolding gram_rot [OF assms(4)]
    by (auto simp: colrot_def rowrot_def algebra_simps)
  ultimately show ?thesis
    by (simp add: orthogonal_def)
qed

definition jacobi_inv :: "nat \<Rightarrow> (nat \<Rightarrow> nat \<Rightarrow> real) \<Rightarrow> Matrix \<times> Matrix \<Rightarrow> bool" where
  "jacobi_inv n a dv \<longleftrightarrow>
     has_cells (fst dv) n n (mget (fst dv)) \<and> has_cells (snd dv) n n (mget (snd dv))
     \<and> symmetric n (mget (fst dv)) \<and> orthogonal n (mget (snd dv))
     \<and> (\<forall>i < n. \<forall>j < n. conjugate n (mget (snd dv)) (mget (fst dv)) i j = a i j)"

lemma jacobi_inv_cells:
  assumes "has_cells d n n f" "has_cells v n n g" "symmetric n f" "orthogonal n g"
    and "\<And>i j. i < n \<Longrightarrow> j < n \<Longrightarrow> conjugate n g f i j = a i j"
  shows "jacobi_inv n a (d, v)"
  using assms by (simp add: jacobi_inv_def has_cells_def symmetric_def orthogonal_def conjugate_def)

lemma has_cells_rewrite:
  "has_cells m r c f \<Longrightarrow> i < r \<Longrightarrow> j < c \<Longrightarrow> has_cells (mset_at i j (f i j) m) r c f"
  by (simp add: has_cells_def)

text \<open>The four cells written at the end of a rotation already hold the written values.\<close>

lemma jacobi_rotate_cells:
  assumes d: "has_cells d n n f" and sym: "symmetric n f" and pq: "p < n" "q < n" "p \<noteq> q"
    and phi: "phi = 1 / 2 * atan2 (2 * f p q) (f q q - f p p)"
  shows "has_cells (fst (jacobi_rotate n p q (d, v))) n n
           (colrot (cos phi) (sin phi) p q (rowrot (cos phi) (sin phi) p q f))"
proof -
  let ?c = "cos phi" and ?s = "sin phi"
  let ?F = "colrot ?c ?s p q (rowrot ?c ?s p q f)"
  have F: "has_cells (rotate_cols ?c ?s p q n (rotate_rows ?c ?s p q n d)) n n ?F"
    by (intro rotate_cols_cells rotate_rows_cells d pq)
  have qp: "f q p = f p q"
    using sym pq by (simp add: symmetric_def)
  have z: "?c * ?s * (f p p - f q q) + (?c * ?c - ?s * ?s) * f p q = 0"
    using pivot_vanishes [of "f p q" "f q q" "f p p"] by (simp add: phi)
  have cells: "?F p p = ?c * ?c * f p p - 2 * ?s * ?c * f p q + ?s * ?s * f q q"
    "?F q q = ?s * ?s * f p p + 2 * ?s * ?c * f p q + ?c * ?c * f q q" "?F p q = 0" "?F q p = 0"
    using pq z by (simp_all add: colrot_def rowrot_def qp algebra_simps)
  let ?M = "mset_at q p (?F q p) (mset_at p q (?F p q) (mset_at q q (?F q q) (mset_at p p (?F p p)
     (rotate_cols ?c ?s p q n (rotate_rows ?c ?s p q n d)))))"
  have "has_cells ?M n n ?F"
    by (intro has_cells_rewrite F pq)
  moreover have "mget d p p = f p p" "mget d q q = f q q" "mget d p q = f p q"
    using d pq by (simp_all add: has_cells_def)
  then have "fst (jacobi_rotate n p q (d, v)) = ?M"
    unfolding cells by (simp add: jacobi_rotate_def Let_def phi)
  ultimately show ?thesis
    by simp
qed

lemma jacobi_inv_rotate:
  assumes "jacobi_inv n a dv" and pq: "p < n" "q < n" "p \<noteq> q"
  shows "jacobi_inv n a (jacobi_rotate n p q dv)"
proof -
  obtain d v where dv: "dv = (d, v)" by (cases dv)
  have d: "has_cells d n n (mget d)" and v: "has_cells v n n (mget v)" and sym: "symmetric n (mget d)"
    and orth: "orthogonal n (mget v)" and conj: "\<And>i j. i < n \<Longrightarrow> j < n \<Longrightarrow> conjugate n (mget v) (mget d) i j = a i j"
    using assms(1) by (auto simp: jacobi_inv_def dv)
  define phi where "phi = 1 / 2 * atan2 (2 * mget d p q) (mget d q q - mget d p p)"
  have cs: "cos phi * cos phi + sin phi * sin phi = 1"
    using sin_cos_squared_add2 [of phi] by (simp add: power2_eq_square)
  have v': "snd (jacobi_rotate n p q (d, v)) = rotate_cols (cos phi) (sin phi) p q n v"
    by (simp add: jacobi_rotate_def Let_def phi_def)
  have "jacobi_inv n a (fst (jacobi_rotate n p q (d, v)), snd (jacobi_rotate n p q (d, v)))"
    unfolding v'
    by (rule jacobi_inv_cells [OF jacobi_rotate_cells [OF d sym pq phi_def] rotate_cols_cells [OF v pq]
          symmetric_rot [OF sym pq] orthogonal_rot [OF orth pq cs]])
      (simp add: conjugate_rot [OF pq cs] conj)
  then show ?thesis
    by (simp add: dv)
qed

lemma jacobi_loop_inv:
  assumes "eps > 0" "jacobi_inv n a dv"
  shows "jacobi_inv n a (jacobi_loop iters eps n dv)"
  using assms(2)
proof (induction iters arbitrary: dv)
  case 0
  then show ?case by simp
next
  case (Suc iters)
  obtain off p q where piv: "max_offdiag (fst dv) = (off, p, q)" by (cases "max_offdiag (fst dv)")
  show ?case
  proof (cases "off < eps")
    case True
    then show ?thesis using Suc.prems piv by simp
  next
    case False
    have "rows (fst dv) = n" "cols (fst dv) = n"
      using Suc.prems by (auto simp: jacobi_inv_def has_cells_def)
    then have "p < n" "q < n" "p \<noteq> q"
      using max_offdiag_pivot [of "fst dv"] False assms(1) by (auto simp: pivot_ok_def piv)
    then show ?thesis
      using Suc.IH [OF jacobi_inv_rotate [OF Suc.prems]] piv False by simp
  qed
qed


lemma jacobi_inv_start:
  assumes "mat_wf a" "rows a = n" "cols a = n" "symmetric n (mget a)"
  shows "jacobi_inv n (mget a) (a, identity n)"
proof -
  have delta: "(\<Sum>k<n. (if i = k then 1 else 0) * h k) = (h i :: real)" if "i < n" for i h
    using that by (simp add: if_distrib [of "\<lambda>x. x * _"] cong: if_cong)
  show ?thesis
  proof (rule jacobi_inv_cells)
    show "has_cells a n n (mget a)"
      using assms by (simp add: has_cells_def)
    show "has_cells (identity n) n n (\<lambda>i j. if i = j then 1 else 0)"
      by (simp add: has_cells_def identity_props)
    show "orthogonal n (\<lambda>i j. if i = j then 1 else 0)"
    proof -
      have "(\<Sum>k<n. (if k = i then 1 else 0) * (if k = j then 1 else 0 :: real)) = (if i = j then 1 else 0)"
        if "i < n" "j < n" for i j
        using that by (simp add: if_distrib [of "\<lambda>x. x * _"] cong: if_cong)
      then show ?thesis
        using delta by (simp add: orthogonal_def)
    qed
    show "conjugate n (\<lambda>i j. if i = j then 1 else 0) (mget a) i j = mget a i j" if "i < n" "j < n" for i j
    proof -
      have "(\<Sum>l<n. mget a k l * (if j = l then 1 else 0)) = mget a k j" for k
        using delta [OF that(2), of "mget a k"] by (simp add: mult.commute)
      then show ?thesis
        using delta [OF that(1)] by (simp add: conjugate_def)
    qed
  qed (rule assms(4))
qed

text \<open>From a decomposition, the product with an eigenvector column.\<close>

lemma conjugate_column:
  assumes "orthogonal n g" "\<And>i j. i < n \<Longrightarrow> j < n \<Longrightarrow> conjugate n g f i j = a i j" "i < n" "j < n"
  shows "(\<Sum>k<n. a i k * g k j) = (\<Sum>k<n. g i k * f k j)"
proof -
  have "(\<Sum>m<n. a i m * g m j) = (\<Sum>m<n. (\<Sum>k<n. \<Sum>l<n. g i k * f k l * (g m l * g m j)))"
  proof (rule sum.cong [OF refl])
    fix m assume "m \<in> {..<n}"
    then have "a i m = conjugate n g f i m"
      using assms(2,3) by simp
    then show "a i m * g m j = (\<Sum>k<n. \<Sum>l<n. g i k * f k l * (g m l * g m j))"
      by (simp add: conjugate_def sum_distrib_left sum_distrib_right mult.assoc)
  qed
  also have "\<dots> = (\<Sum>k<n. \<Sum>m<n. \<Sum>l<n. g i k * f k l * (g m l * g m j))"
    by (rule sum.swap)
  also have "\<dots> = (\<Sum>k<n. \<Sum>l<n. \<Sum>m<n. g i k * f k l * (g m l * g m j))"
    by (intro sum.cong refl sum.swap)
  also have "\<dots> = (\<Sum>k<n. \<Sum>l<n. g i k * f k l * (if l = j then 1 else 0))"
    using assms(1,4) by (simp add: orthogonal_def sum_distrib_left [symmetric])
  also have "\<dots> = (\<Sum>k<n. g i k * f k j)"
    using assms(4) by (simp add: if_distrib [of "\<lambda>x. _ * x"] cong: if_cong)
  finally show ?thesis .
qed

lemma orthogonal_entry:
  assumes "orthogonal n g" "i < n" "k < n"
  shows "\<bar>g i k\<bar> \<le> 1"
proof -
  have "g i k * g i k \<le> (\<Sum>l<n. g i l * g i l)"
    using assms(3) by (intro member_le_sum) auto
  then have "(g i k)\<^sup>2 \<le> 1"
    using assms(1,2) by (simp add: orthogonal_def power2_eq_square)
  then show ?thesis
    by (simp add: abs_square_le_1)
qed

lemma column_residual:
  assumes "orthogonal n g" "i < n" "j < n" "eps \<ge> 0"
    and off: "\<And>k. k < n \<Longrightarrow> k \<noteq> j \<Longrightarrow> \<bar>f k j\<bar> \<le> eps"
  shows "\<bar>(\<Sum>k<n. g i k * f k j) - f j j * g i j\<bar> \<le> real n * eps"
proof -
  have "(\<Sum>k<n. g i k * f k j) - f j j * g i j = (\<Sum>k \<in> {..<n} - {j}. g i k * f k j)"
    using assms(3) by (simp add: sum.remove [of "{..<n}" j])
  also have "\<bar>\<dots>\<bar> \<le> (\<Sum>k \<in> {..<n} - {j}. \<bar>g i k * f k j\<bar>)"
    by (rule sum_abs)
  also have "\<dots> \<le> (\<Sum>k \<in> {..<n} - {j}. eps)"
  proof (rule sum_mono)
    fix k assume k: "k \<in> {..<n} - {j}"
    then have "\<bar>g i k\<bar> * \<bar>f k j\<bar> \<le> 1 * eps"
      using orthogonal_entry [OF assms(1,2)] off by (intro mult_mono) auto
    then show "\<bar>g i k * f k j\<bar> \<le> eps"
      by (simp add: abs_mult)
  qed
  also have "\<dots> \<le> (\<Sum>k<n. eps)"
    using assms(4) by (intro sum_mono2) auto
  finally show ?thesis
    by simp
qed

lemma conjugate_trace:
  assumes "orthogonal n g"
  shows "(\<Sum>i<n. conjugate n g f i i) = (\<Sum>k<n. f k k)"
proof -
  have "(\<Sum>i<n. conjugate n g f i i) = (\<Sum>i<n. \<Sum>k<n. \<Sum>l<n. f k l * (g i k * g i l))"
    by (simp add: conjugate_def sum_distrib_left mult.left_commute)
  also have "\<dots> = (\<Sum>k<n. \<Sum>i<n. \<Sum>l<n. f k l * (g i k * g i l))"
    by (rule sum.swap)
  also have "\<dots> = (\<Sum>k<n. \<Sum>l<n. \<Sum>i<n. f k l * (g i k * g i l))"
    by (intro sum.cong refl sum.swap)
  also have "\<dots> = (\<Sum>k<n. \<Sum>l<n. f k l * (if k = l then 1 else 0))"
    using assms by (simp add: orthogonal_def sum_distrib_left [symmetric])
  also have "\<dots> = (\<Sum>k<n. f k k)"
    by (simp add: if_distrib [of "\<lambda>x. _ * x"] cong: if_cong)
  finally show ?thesis .
qed


section \<open>Every rotation shrinks the off-diagonal part\<close>

definition frob2 :: "nat \<Rightarrow> (nat \<Rightarrow> nat \<Rightarrow> real) \<Rightarrow> real" where
  "frob2 n f = (\<Sum>i<n. \<Sum>j<n. f i j * f i j)"

definition off2 :: "nat \<Rightarrow> (nat \<Rightarrow> nat \<Rightarrow> real) \<Rightarrow> real" where
  "off2 n f = frob2 n f - (\<Sum>i<n. f i i * f i i)"

lemma frob2_flip: "frob2 n (\<lambda>a b. f b a) = frob2 n f"
  unfolding frob2_def by (rule sum.swap)

lemma frob2_colrot:
  assumes "p < n" "q < n" "p \<noteq> q" "c * c + s * s = (1::real)"
  shows "frob2 n (colrot c s p q f) = frob2 n f"
  unfolding frob2_def
proof (rule sum.cong [OF refl])
  fix i
  show "(\<Sum>j<n. colrot c s p q f i j * colrot c s p q f i j) = (\<Sum>j<n. f i j * f i j)"
    using rot_cancel [OF assms, of f i "\<lambda>a b. f b a" i] by (simp add: rowrot_flip)
qed

lemma frob2_rot:
  assumes "p < n" "q < n" "p \<noteq> q" "c * c + s * s = (1::real)"
  shows "frob2 n (colrot c s p q (rowrot c s p q f)) = frob2 n f"
proof -
  have "rowrot c s p q f = (\<lambda>a b. colrot c s p q (\<lambda>x y. f y x) b a)"
    by (simp add: rowrot_def colrot_def fun_eq_iff)
  then have "frob2 n (rowrot c s p q f) = frob2 n f"
    using frob2_colrot [OF assms, of "\<lambda>x y. f y x"] frob2_flip [of n f]
      frob2_flip [of n "colrot c s p q (\<lambda>x y. f y x)"] by simp
  then show ?thesis
    by (simp add: frob2_colrot [OF assms])
qed

lemma block_norm:
  fixes c s x y z :: real
  shows "(c * (c * x - s * y) - s * (c * y - s * z)) * (c * (c * x - s * y) - s * (c * y - s * z))
    + (s * (s * x + c * y) + c * (s * y + c * z)) * (s * (s * x + c * y) + c * (s * y + c * z))
    + 2 * ((s * (c * x - s * y) + c * (c * y - s * z)) * (s * (c * x - s * y) + c * (c * y - s * z)))
    = (c * c + s * s)\<^sup>2 * (x * x + z * z + 2 * (y * y))"
  by algebra

lemma off2_rot:
  assumes pq: "p < n" "q < n" "p \<noteq> q" and sym: "f q p = f p q"
    and phi: "phi = 1 / 2 * atan2 (2 * f p q) (f q q - f p p)"
  shows "off2 n (colrot (cos phi) (sin phi) p q (rowrot (cos phi) (sin phi) p q f)) = off2 n f - 2 * (f p q)\<^sup>2"
proof -
  let ?c = "cos phi" and ?s = "sin phi"
  let ?F = "colrot ?c ?s p q (rowrot ?c ?s p q f)"
  have cs: "?c * ?c + ?s * ?s = 1"
    using sin_cos_squared_add2 [of phi] by (simp add: power2_eq_square)
  have z: "?c * ?s * (f p p - f q q) + (?c * ?c - ?s * ?s) * f p q = 0"
    using pivot_vanishes [of "f p q" "f q q" "f p p"] by (simp add: phi)
  have block: "?F p p * ?F p p + ?F q q * ?F q q + 2 * (?F p q * ?F p q) =
      (?c * ?c + ?s * ?s)\<^sup>2 * (f p p * f p p + f q q * f q q + 2 * (f p q * f p q))"
    using block_norm [of ?c "f p p" ?s "f p q" "f q q"] pq(3) pq(3) [symmetric] sym
    by (simp only: colrot_def rowrot_def if_True if_False simp_thms)
  have "?F p q = 0"
    using pq z by (simp add: colrot_def rowrot_def sym algebra_simps)
  with block have diag: "?F p p * ?F p p + ?F q q * ?F q q = f p p * f p p + f q q * f q q + 2 * (f p q * f p q)"
    by (simp add: cs)
  have rest: "(\<Sum>i \<in> {..<n} - {p, q}. ?F i i * ?F i i) = (\<Sum>i \<in> {..<n} - {p, q}. f i i * f i i)"
    by (intro sum.cong) (auto simp: colrot_def rowrot_def)
  show ?thesis
    using diag rest
    by (simp add: off2_def frob2_rot [OF pq cs] sum_two [OF pq, of "\<lambda>i. ?F i i * ?F i i"]
        sum_two [OF pq, of "\<lambda>i. f i i * f i i"] power2_eq_square)
qed

lemma off2_eq: "off2 n f = (\<Sum>i<n. \<Sum>j \<in> {..<n} - {i}. f i j * f i j)"
proof -
  have "(\<Sum>j<n. f i j * f i j) = f i i * f i i + (\<Sum>j \<in> {..<n} - {i}. f i j * f i j)" if "i \<in> {..<n}" for i
    using that by (intro sum.remove) auto
  then show ?thesis
    by (simp add: off2_def frob2_def sum.distrib)
qed

lemma off2_nonneg: "0 \<le> off2 n f"
  unfolding off2_eq by (intro sum_nonneg) auto

lemma off2_le_max:
  assumes "\<And>i j. i < n \<Longrightarrow> j < n \<Longrightarrow> i \<noteq> j \<Longrightarrow> \<bar>f i j\<bar> \<le> m"
  shows "off2 n f \<le> real n * (real n - 1) * m\<^sup>2"
proof (cases "n = 0")
  case True
  then show ?thesis by (simp add: off2_eq)
next
  case False
  have "off2 n f \<le> (\<Sum>i<n. \<Sum>j \<in> {..<n} - {i}. m\<^sup>2)"
    unfolding off2_eq
  proof (intro sum_mono)
    fix i j assume ij: "i \<in> {..<n}" "j \<in> {..<n} - {i}"
    then have "\<bar>f i j\<bar> * \<bar>f i j\<bar> \<le> m * m"
      using assms [of i j] by (intro mult_mono) auto
    then show "f i j * f i j \<le> m\<^sup>2"
      by (simp add: power2_eq_square)
  qed
  also have "\<dots> = (\<Sum>i<n. (real n - 1) * m\<^sup>2)"
    using False by (intro sum.cong) auto
  finally show ?thesis
    by simp
qed


lemma jacobi_rotate_off2:
  assumes "jacobi_inv n a dv" and piv: "max_offdiag (fst dv) = (off, p, q)" and "off > 0"
  shows "off2 n (mget (fst (jacobi_rotate n p q dv))) \<le> (1 - 2 / (real n * (real n - 1))) * off2 n (mget (fst dv))"
proof -
  obtain d v where dv: "dv = (d, v)" by (cases dv)
  have d: "has_cells d n n (mget d)" and sym: "symmetric n (mget d)"
    using assms(1) by (auto simp: jacobi_inv_def dv)
  have "rows d = n" "cols d = n"
    using d by (auto simp: has_cells_def)
  then have ok: "pivot_ok d {(i, j). i < n \<and> i < j \<and> j < n} (off, p, q)"
    using max_offdiag_pivot [of d] piv by (simp add: dv)
  then have pq: "p < n" "q < n" "p \<noteq> q" and off: "off = \<bar>mget d p q\<bar>"
    using assms(3) by (auto simp: pivot_ok_def)
  have le: "\<bar>mget d i j\<bar> \<le> off" if "i < n" "j < n" "i \<noteq> j" for i j
    using ok sym that by (cases "i < j") (auto simp: pivot_ok_def symmetric_def dest: bspec [of _ _ "(j, i)"])
  define phi where "phi = 1 / 2 * atan2 (2 * mget d p q) (mget d q q - mget d p p)"
  let ?F = "colrot (cos phi) (sin phi) p q (rowrot (cos phi) (sin phi) p q (mget d))"
  have "off2 n (mget (fst (jacobi_rotate n p q dv))) = off2 n ?F"
    using jacobi_rotate_cells [OF d sym pq phi_def, of v] by (simp add: off2_def frob2_def dv has_cells_def)
  also have "\<dots> = off2 n (mget d) - 2 * off\<^sup>2"
    using off2_rot [OF pq _ phi_def] sym pq by (simp add: symmetric_def off)
  finally have drop: "off2 n (mget (fst (jacobi_rotate n p q dv))) = off2 n (mget d) - 2 * off\<^sup>2" .
  have nn: "real n * (real n - 1) > 0"
    using pq by (intro mult_pos_pos) auto
  have "off2 n (mget d) \<le> real n * (real n - 1) * off\<^sup>2"
    by (rule off2_le_max) (rule le)
  then have "2 / (real n * (real n - 1)) * off2 n (mget d) \<le> 2 * off\<^sup>2"
    using nn by (simp add: field_simps)
  then have "off2 n (mget d) - 2 * off\<^sup>2 \<le> (1 - 2 / (real n * (real n - 1))) * off2 n (mget d)"
    by (simp add: left_diff_distrib)
  then show ?thesis
    using drop by (simp add: dv)
qed

lemma jacobi_loop_off2:
  assumes "eps > 0" "jacobi_inv n a dv"
  shows "fst (max_offdiag (fst (jacobi_loop iters eps n dv))) < eps
    \<or> off2 n (mget (fst (jacobi_loop iters eps n dv))) \<le> (1 - 2 / (real n * (real n - 1))) ^ iters * off2 n (mget (fst dv))"
  using assms(2)
proof (induction iters arbitrary: dv)
  case 0
  then show ?case by simp
next
  case (Suc iters)
  obtain off p q where piv: "max_offdiag (fst dv) = (off, p, q)" by (cases "max_offdiag (fst dv)")
  show ?case
  proof (cases "off < eps")
    case True
    then show ?thesis using piv by simp
  next
    case False
    have "rows (fst dv) = n" "cols (fst dv) = n"
      using Suc.prems by (auto simp: jacobi_inv_def has_cells_def)
    then have pq: "p < n" "q < n" "p \<noteq> q"
      using max_offdiag_pivot [of "fst dv"] False assms(1) by (auto simp: pivot_ok_def piv)
    let ?r = "1 - 2 / (real n * (real n - 1))" and ?dv = "jacobi_rotate n p q dv"
    have "n \<ge> 2"
      using pq by auto
    then have "real n * (real n - 1) \<ge> 2 * 1"
      by (intro mult_mono) auto
    then have r: "?r \<ge> 0"
      by (simp add: field_simps)
    have "off2 n (mget (fst ?dv)) \<le> ?r * off2 n (mget (fst dv))"
      using jacobi_rotate_off2 [OF Suc.prems piv] False assms(1) by simp
    then have "?r ^ iters * off2 n (mget (fst ?dv)) \<le> ?r ^ iters * (?r * off2 n (mget (fst dv)))"
      using r by (intro mult_left_mono) auto
    then show ?thesis
      using Suc.IH [OF jacobi_inv_rotate [OF Suc.prems pq]] piv False
      by (auto simp: mult.assoc mult.left_commute)
  qed
qed

lemma max_offdiag_bound:
  assumes "has_cells d n n (mget d)" "symmetric n (mget d)" "i < n" "j < n" "i \<noteq> j"
  shows "\<bar>mget d i j\<bar> \<le> fst (max_offdiag d)"
proof -
  have "rows d = n" "cols d = n"
    using assms(1) by (auto simp: has_cells_def)
  then have ok: "\<And>i j. i < j \<Longrightarrow> i < n \<Longrightarrow> j < n \<Longrightarrow> \<bar>mget d i j\<bar> \<le> fst (max_offdiag d)"
    using max_offdiag_pivot [of d] by (force simp: pivot_ok_def split_beta)
  show ?thesis
    using ok [of i j] ok [of j i] assms(2-5) by (cases "i < j") (simp_all add: symmetric_def)
qed

section \<open>Properties\<close>

text \<open>
  The eigensolver on a symmetric matrix, for any iteration bound and any positive tolerance:
  the returned vectors are orthonormal in rows and columns; with the matrix \<open>d\<close> the iteration ends
  with, whose diagonal are the returned eigenvalues, they decompose the input exactly; the
  eigenvalues add up to the trace; and if the iteration ended because every off-diagonal entry is
  below the tolerance, every eigenpair satisfies its equation up to \<open>n\<close> times the tolerance.
\<close>

theorem eigen_sym_jacobi_sound:
  assumes a: "mat_wf a" "rows a = n" "cols a = n" "symmetric n (mget a)" and eps: "eps > 0"
    and dv: "jacobi_loop (nat max_iter) eps n (a, identity n) = (d, v)"
  shows "\<exists>res. eigen_sym_jacobi a max_iter eps = Inr res
    \<and> eigenvectors res = v \<and> eigenvalues res = map (\<lambda>i. mget d i i) [0..<n]
    \<and> orthogonal n (mget (eigenvectors res))
    \<and> (\<forall>i < n. \<forall>j < n. (\<Sum>k<n. mget v i k * (\<Sum>l<n. mget d k l * mget v j l)) = mget a i j)
    \<and> sum_list (eigenvalues res) = (\<Sum>i<n. mget a i i)
    \<and> (fst (max_offdiag d) < eps \<longrightarrow>
        (\<forall>i < n. \<forall>j < n. \<bar>(\<Sum>k<n. mget a i k * mget (eigenvectors res) k j)
                           - eigenvalues res ! j * mget (eigenvectors res) i j\<bar> \<le> real n * eps))"
proof -
  have inv: "jacobi_inv n (mget a) (d, v)"
    using jacobi_loop_inv [OF eps jacobi_inv_start [OF a], of "nat max_iter"] dv by simp
  then have d: "has_cells d n n (mget d)" "symmetric n (mget d)" and orth: "orthogonal n (mget v)"
    and conj: "\<And>i j. i < n \<Longrightarrow> j < n \<Longrightarrow> conjugate n (mget v) (mget d) i j = mget a i j"
    by (auto simp: jacobi_inv_def)
  have trace: "(\<Sum>i<n. mget d i i) = (\<Sum>i<n. mget a i i)"
    using conjugate_trace [OF orth, of "mget d"] conj by simp
  have resid: "\<bar>(\<Sum>k<n. mget a i k * mget v k j) - mget d j j * mget v i j\<bar> \<le> real n * eps"
    if "fst (max_offdiag d) < eps" "i < n" "j < n" for i j
  proof -
    have "(\<Sum>k<n. mget a i k * mget v k j) = (\<Sum>k<n. mget v i k * mget d k j)"
      using orth conj that(2,3) by (rule conjugate_column)
    moreover have "\<bar>mget d k j\<bar> \<le> eps" if "k < n" "k \<noteq> j" for k
      using max_offdiag_bound [OF d that(1) \<open>j < n\<close> that(2)] \<open>fst (max_offdiag d) < eps\<close> by simp
    ultimately show ?thesis
      using column_residual [OF orth that(2,3), of eps "mget d"] eps by simp
  qed
  have "eigen_sym_jacobi a max_iter eps = Inr \<lparr>eigenvalues = map (\<lambda>i. mget d i i) [0..<n], eigenvectors = v\<rparr>"
    using a dv by (simp add: eigen_sym_jacobi_def)
  then show ?thesis
    using orth conj trace resid by (simp add: conjugate_def interv_sum_list_conv_sum_set_nat lessThan_atLeast0)
qed

definition ex_sym :: Matrix where
  "ex_sym = \<lparr>rows = 2, cols = 2, mdata = [2, 1, 1, 2]\<rparr>"

lemma ex_sym_ok: "mat_wf ex_sym" "rows ex_sym = 2" "cols ex_sym = 2" "symmetric 2 (mget ex_sym)"
  by (auto simp: ex_sym_def mat_wf_def symmetric_def mget_def less_2_cases_iff)

theorem eigen_sym_jacobi_sound_witness:
  "\<exists>res. eigen_sym_jacobi ex_sym 200 (1 / 10 ^ 12) = Inr res \<and> sum_list (eigenvalues res) = 4"
proof -
  obtain d v where dv: "jacobi_loop (nat 200) (1 / 10 ^ 12) 2 (ex_sym, identity 2) = (d, v)"
    by (metis prod.exhaust)
  have "(\<Sum>i<2. mget ex_sym i i) = 4"
    by (simp add: ex_sym_def mget_def numeral_2_eq_2)
  then show ?thesis
    using eigen_sym_jacobi_sound [OF ex_sym_ok _ dv] by auto
qed

text \<open>
  C33. Progress of the eigensolver: when the iteration bound is reached without meeting the
  tolerance, the sum of squares of the off-diagonal entries has shrunk by the factor
  \<open>1 - 2 / (n (n - 1))\<close> for every iteration made.
\<close>

theorem jacobi_progress:
  assumes "mat_wf a" "rows a = n" "cols a = n" "symmetric n (mget a)" "eps > 0"
    and "jacobi_loop iters eps n (a, identity n) = (d, v)"
  shows "fst (max_offdiag d) < eps
    \<or> off2 n (mget d) \<le> (1 - 2 / (real n * (real n - 1))) ^ iters * off2 n (mget a)"
  using jacobi_loop_off2 [OF assms(5) jacobi_inv_start [OF assms(1-4)], of iters] assms(6) by simp

theorem jacobi_progress_witness:
  "\<exists>d v. jacobi_loop 3 1 2 (ex_sym, identity 2) = (d, v)
     \<and> (fst (max_offdiag d) < 1 \<or> off2 2 (mget d) \<le> 0)"
proof -
  obtain d v where dv: "jacobi_loop 3 1 2 (ex_sym, identity 2) = (d, v)"
    by (metis prod.exhaust)
  show ?thesis
    using jacobi_progress [OF ex_sym_ok _ dv] dv by (auto simp: power_0_left)
qed

text \<open>
  The descending argsort of eigenvalues is a permutation of the indices, ordered by decreasing
  value with ties broken by increasing index.
\<close>

theorem argsort_desc_correct:
  "sorted_wrt (\<lambda>a b. v ! b < v ! a \<or> (v ! a = v ! b \<and> a < b)) (argsort_desc v)
   \<and> mset (argsort_desc v) = mset [0..<length v]"
proof
  show "sorted_wrt (\<lambda>a b. v ! b < v ! a \<or> (v ! a = v ! b \<and> a < b)) (argsort_desc v)"
    using argsort_desc_props(1) by (rule sorted_wrt_mono_rel [rotated]) (auto simp: desc_before_def split: if_splits)
  show "mset (argsort_desc v) = mset [0..<length v]"
    using argsort_desc_props(2,4) by (intro set_eq_iff_mset_eq_distinct [THEN iffD1]) auto
qed

end
