(* ===== verification/Json.thy ===== *)
theory Json
  imports Prelude
begin

text \<open>
  JSON documents as the code uses them: the tree of values with objects ordered by key, the
  element access \<^verbatim>\<open>j["k"]\<close> (a missing member reads as null, a value that is no object is a type
  error), the typed reads \<^verbatim>\<open>get<T>()\<close>, and assignment to a member. The text of a document is not
  modelled: dumping and parsing are parameters of the operations that read and write files.
\<close>

datatype json =
    JNull
  | JBool bool
  | JInt int
  | JReal real
  | JStr string
  | JArr "json list"
  | JObj "(string \<times> json) list"

fun jat :: "json \<Rightarrow> string \<Rightarrow> json cpp" where
  "jat (JObj m) k = Inr (case map_get m k of None \<Rightarrow> JNull | Some v \<Rightarrow> v)"
| "jat JNull k = Inr JNull"
| "jat _ k = Inl (Json_type_error ''cannot use operator[] with a string argument'')"

fun jget_double :: "json \<Rightarrow> real cpp" where
  "jget_double (JReal x) = Inr x"
| "jget_double (JInt i) = Inr (of_int i)"
| "jget_double _ = Inl (Json_type_error ''type must be number'')"

fun jget_vector :: "json \<Rightarrow> real list cpp" where
  "jget_vector (JArr js) = cmap jget_double js"
| "jget_vector _ = Inl (Json_type_error ''type must be array'')"

fun jget_matrix :: "json \<Rightarrow> real list list cpp" where
  "jget_matrix (JArr js) = cmap jget_vector js"
| "jget_matrix _ = Inl (Json_type_error ''type must be array'')"

definition jvector :: "real list \<Rightarrow> json" where
  "jvector v = JArr (map JReal v)"

definition jmatrix :: "real list list \<Rightarrow> json" where
  "jmatrix rows = JArr (map jvector rows)"

text \<open>The assignments \<^verbatim>\<open>j["k"] = v\<close> and \<^verbatim>\<open>j["k"]["l"] = v\<close> on null values and objects.\<close>

fun jset :: "string \<Rightarrow> json \<Rightarrow> json \<Rightarrow> json" where
  "jset k v (JObj m) = JObj (map_put k v m)"
| "jset k v _ = JObj [(k, v)]"

definition jset2 :: "string \<Rightarrow> string \<Rightarrow> json \<Rightarrow> json \<Rightarrow> json" where
  "jset2 k l v j = jset k (jset l v (case jat j k of Inr x \<Rightarrow> x | Inl _ \<Rightarrow> JNull)) j"

definition jis_object :: "json \<Rightarrow> bool" where
  "jis_object j = (case j of JObj _ \<Rightarrow> True | _ \<Rightarrow> False)"

lemma jis_object_JObj [simp]: "jis_object (JObj m)"
  by (simp add: jis_object_def)

lemma jis_objectE: "jis_object j \<Longrightarrow> (\<And>m. j = JObj m \<Longrightarrow> P) \<Longrightarrow> P"
  by (cases j) (auto simp: jis_object_def)

lemma jis_object_jset [simp]: "jis_object (jset k v j)"
  by (cases j) (simp_all add: jis_object_def)

lemma jis_object_jset2 [simp]: "jis_object (jset2 k l v j)"
  by (simp add: jset2_def)

lemma jat_jset [simp]: "jat (jset k v j) k' = (if k' = k then Inr v else case j of JObj _ \<Rightarrow> jat j k' | _ \<Rightarrow> Inr JNull)"
  by (cases j) auto

lemma jat_jset_object [simp]: "jis_object j \<Longrightarrow> jat (jset k v j) k' = (if k' = k then Inr v else jat j k')"
  by (cases j) (auto simp: jis_object_def)

lemma jat_jset2_object: "jis_object j \<Longrightarrow> k' \<noteq> k \<Longrightarrow> jat (jset2 k l v j) k' = jat j k'"
  by (simp add: jset2_def del: jat_jset)

lemma jget_vector_jvector [simp]: "jget_vector (jvector v) = Inr v"
  by (simp add: jvector_def cmap_map)

lemma jget_matrix_jmatrix [simp]: "jget_matrix (jmatrix m) = Inr m"
  by (simp add: jmatrix_def cmap_map)

text \<open>Reading a member of a member after assignments to an object built from null.\<close>

definition jat2 :: "json \<Rightarrow> string \<Rightarrow> string \<Rightarrow> json cpp" where
  "jat2 j k l = cbind (jat j k) (\<lambda>x. jat x l)"

text \<open>Documents whose members at the first level are absent or objects.\<close>

definition jtwo_level :: "json \<Rightarrow> bool" where
  "jtwo_level j \<longleftrightarrow> j = JNull \<or>
     (\<exists>m. j = JObj m \<and> (\<forall>k x. map_get m k = Some x \<longrightarrow> jis_object x))"

lemma jtwo_level_JNull [simp]: "jtwo_level JNull"
  by (simp add: jtwo_level_def)

lemma jtwo_level_jset2 [simp]: "jtwo_level j \<Longrightarrow> jtwo_level (jset2 k l v j)"
  by (cases j) (auto simp: jtwo_level_def jset2_def split: if_splits option.splits)

lemma jat2_jset2 [simp]:
  assumes "jtwo_level j"
  shows "jat2 (jset2 k l v j) k' l' = (if k' = k \<and> l' = l then Inr v else jat2 j k' l')"
proof -
  consider "j = JNull" | m where "j = JObj m" "\<forall>k x. map_get m k = Some x \<longrightarrow> jis_object x"
    using assms by (auto simp: jtwo_level_def)
  then show ?thesis
  proof cases
    case 1
    then show ?thesis by (auto simp: jat2_def jset2_def)
  next
    case 2
    show ?thesis
    proof (cases "map_get m k")
      case None
      then show ?thesis using 2(1) by (auto simp: jat2_def jset2_def)
    next
      case (Some x)
      then obtain mx where "x = JObj mx"
        using 2(2) jis_objectE by blast
      then show ?thesis using 2(1) Some by (auto simp: jat2_def jset2_def)
    qed
  qed
qed


section \<open>Typed members with defaults\<close>

text \<open>\<^verbatim>\<open>j.value(k, default)\<close>, \<^verbatim>\<open>j.at(k)\<close>, \<^verbatim>\<open>j.contains(k)\<close> and the remaining typed reads.\<close>

fun jvalue :: "(json \<Rightarrow> 'a cpp) \<Rightarrow> json \<Rightarrow> string \<Rightarrow> 'a \<Rightarrow> 'a cpp" where
  "jvalue get (JObj m) k dflt = (case map_get m k of None \<Rightarrow> Inr dflt | Some v \<Rightarrow> get v)"
| "jvalue get _ k dflt = Inl (Json_type_error ''cannot use value() on this type'')"

fun jrequire :: "json \<Rightarrow> string \<Rightarrow> json cpp" where
  "jrequire (JObj m) k = (case map_get m k of None \<Rightarrow> Inl (Json_out_of_range (''key '' @ k @ '' not found'')) | Some v \<Rightarrow> Inr v)"
| "jrequire _ k = Inl (Json_type_error ''cannot use at() on this type'')"

fun jcontains :: "json \<Rightarrow> string \<Rightarrow> bool" where
  "jcontains (JObj m) k = (map_get m k \<noteq> None)"
| "jcontains _ k = False"

fun jget_string :: "json \<Rightarrow> string cpp" where
  "jget_string (JStr s) = Inr s"
| "jget_string _ = Inl (Json_type_error ''type must be string'')"

definition trunc_to_int :: "real \<Rightarrow> int" where
  "trunc_to_int x = (if 0 \<le> x then \<lfloor>x\<rfloor> else \<lceil>x\<rceil>)"

definition int32 :: "int \<Rightarrow> int" where
  "int32 i = (i + 2 ^ 31) mod 2 ^ 32 - 2 ^ 31"

fun jget_long :: "json \<Rightarrow> int cpp" where
  "jget_long (JInt i) = Inr i"
| "jget_long (JReal x) = Inr (trunc_to_int x)"
| "jget_long _ = Inl (Json_type_error ''type must be number'')"

fun jget_int :: "json \<Rightarrow> int cpp" where
  "jget_int (JInt i) = Inr (int32 i)"
| "jget_int (JReal x) = Inr (int32 (trunc_to_int x))"
| "jget_int (JBool b) = Inr (if b then 1 else 0)"
| "jget_int _ = Inl (Json_type_error ''type must be number'')"

fun jget_ints :: "json \<Rightarrow> int list cpp" where
  "jget_ints (JArr js) = cmap jget_int js"
| "jget_ints _ = Inl (Json_type_error ''type must be array'')"

lemma jvalue_jset [simp]:
  "jvalue get (jset k v j) k' dflt =
     (if k' = k then get v else case j of JObj _ \<Rightarrow> jvalue get j k' dflt | _ \<Rightarrow> Inr dflt)"
  by (cases j) auto

lemma jvalue_jset_object [simp]:
  "jis_object j \<Longrightarrow> jvalue get (jset k v j) k' dflt = (if k' = k then get v else jvalue get j k' dflt)"
  by (cases j) (auto simp: jis_object_def)

lemma int32_id: "- (2 ^ 31) \<le> i \<Longrightarrow> i < 2 ^ 31 \<Longrightarrow> int32 i = i"
  by (simp add: int32_def)

end
