(* ===== verification/Pca_Model.thy ===== *)
theory Pca_Model
  imports Linalg Features Json Metrics_Registry
begin

text \<open>
  The PCA reconstruction detector, \<^verbatim>\<open>src/src/detectors/pca_model.{h,cpp}\<close>. \<open>read_artifact\<close> is the
  part of \<^verbatim>\<open>Load\<close> after the document is parsed; a component row shorter than the first one makes
  the code read past the end of a vector, the outcome \<open>Undefined\<close>. Files, their text and size, the
  parser, elapsed time and the decimal form of a double are parameters.
\<close>

section \<open>State and operations\<close>

record PcaScore =
  ps_is_anomaly :: bool
  reconstruction_error :: real
  residuals :: "real list"
  ps_details :: string

record PcaModel =
  loaded :: bool
  cur_mean :: Vector
  cur_scale :: Vector
  components :: Matrix
  pca_mean :: Vector
  threshold :: real

definition new_PcaModel :: PcaModel where
  "new_PcaModel =
     \<lparr>loaded = False, cur_mean = [], cur_scale = [], components = \<lparr>rows = 0, cols = 0, mdata = []\<rparr>,
      pca_mean = [], threshold = 0\<rparr>"

definition vec_sub :: "Vector \<Rightarrow> Vector \<Rightarrow> Vector cpp" where
  "vec_sub a b =
     (if length a \<noteq> length b then Inl (Runtime_error ''vec_sub dimension mismatch'')
      else Inr (map (\<lambda>i. a ! i - b ! i) [0..<length a]))"

definition vec_add :: "Vector \<Rightarrow> Vector \<Rightarrow> Vector cpp" where
  "vec_add a b =
     (if length a \<noteq> length b then Inl (Runtime_error ''vec_add dimension mismatch'')
      else Inr (map (\<lambda>i. a ! i + b ! i) [0..<length a]))"

definition vec_div :: "Vector \<Rightarrow> Vector \<Rightarrow> Vector cpp" where
  "vec_div a b =
     (if length a \<noteq> length b then Inl (Runtime_error ''vec_div dimension mismatch'')
      else Inr (map (\<lambda>i. a ! i / b ! i) [0..<length a]))"

definition copy_components :: "real list list \<Rightarrow> nat \<Rightarrow> Matrix" where
  "copy_components raw d =
     fold (\<lambda>i m. fold (\<lambda>c m. mset_at i c (raw ! i ! c) m) [0..<d] m) [0..<length raw] (mat_new (length raw) d)"

definition read_artifact :: "json \<Rightarrow> PcaModel \<Rightarrow> unit outcome \<times> PcaModel" where
  "read_artifact j m =
     or_throw (cbind (jat2 j ''preprocessing'' ''mean'') jget_vector) m (\<lambda>raw_mean.
     or_throw (cbind (jat2 j ''preprocessing'' ''scale'') jget_vector) m (\<lambda>raw_scale.
       if length raw_mean \<noteq> kSize \<or> length raw_scale \<noteq> kSize
       then (Threw (Runtime_error ''Dimension mismatch in artifact preprocessing''), m)
       else
         let m1 = m\<lparr>cur_mean := raw_mean, cur_scale := raw_scale\<rparr> in
         or_throw (cbind (jat2 j ''model'' ''components'') jget_matrix) m1 (\<lambda>raw.
           if raw = [] then (Threw (Runtime_error ''No PCA components found''), m1)
           else if length (raw ! 0) \<noteq> kSize then (Threw (Runtime_error ''Dimension mismatch in PCA components''), m1)
           else if list_ex (\<lambda>row. length row < kSize) raw then (Undefined, m1)
           else
             let m2 = m1\<lparr>components := copy_components raw kSize\<rparr> in
             or_throw (cbind (jat2 j ''model'' ''mean'') jget_vector) m2 (\<lambda>raw_pca_mean.
             let m3 = m2\<lparr>pca_mean := raw_pca_mean\<rparr> in
             or_throw (cbind (jat2 j ''thresholds'' ''reconstruction_error'') jget_double) m3 (\<lambda>t.
               (Returned (), m3\<lparr>threshold := t, loaded := True\<rparr>))))))"

record artifact_env =
  file_text :: "string \<Rightarrow> string option"
  parse_json :: "string \<Rightarrow> json cpp"
  file_size :: "string \<Rightarrow> int option"
  elapsed_ms :: real

definition Load ::
  "artifact_env \<Rightarrow> string \<Rightarrow> PcaModel \<times> MetricsRegistry \<Rightarrow> unit outcome \<times> PcaModel \<times> MetricsRegistry" where
  "Load env artifact_path mr =
     (case file_text env artifact_path of
        None \<Rightarrow> (Threw (Runtime_error (''Failed to open artifact: '' @ artifact_path)), mr)
      | Some text \<Rightarrow>
          or_throw (parse_json env text) mr (\<lambda>j.
            let (out, m) = read_artifact j (fst mr);
                reg1 = EmitHistogram ''model_load_duration_ms'' (elapsed_ms env) [] (snd mr);
                reg2 = (case file_size env artifact_path of
                          None \<Rightarrow> reg1
                        | Some bytes \<Rightarrow> EmitCounter ''model_bytes_read'' bytes [] reg1)
            in if out = Returned () then (out, m, reg2) else (out, m, snd mr)))"

text \<open>The arithmetic of \<^verbatim>\<open>Score\<close>: standardise, project, reconstruct, residual.\<close>

definition residual_of :: "Vector \<Rightarrow> Vector \<Rightarrow> Matrix \<Rightarrow> Vector \<Rightarrow> Vector \<Rightarrow> Vector cpp" where
  "residual_of mean scale comps pmean x =
     cbind (vec_sub x mean) (\<lambda>xm.
     cbind (vec_div xm scale) (\<lambda>x_scaled.
     cbind (vec_sub x_scaled pmean) (\<lambda>x_centered.
     cbind (matvec comps x_centered) (\<lambda>x_proj.
     cbind (matvec (transpose comps) x_proj) (\<lambda>x_recon_centered.
     cbind (vec_add x_recon_centered pmean) (\<lambda>x_recon_scaled.
     vec_sub x_scaled x_recon_scaled))))))"

definition Score :: "(real \<Rightarrow> string) \<Rightarrow> FeatureVector \<Rightarrow> PcaModel \<Rightarrow> PcaScore cpp" where
  "Score fmt vec m =
     (let result = \<lparr>ps_is_anomaly = False, reconstruction_error = 0, residuals = [], ps_details = ''''\<rparr> in
      if \<not> loaded m then Inr result
      else
        cbind (residual_of (cur_mean m) (cur_scale m) (components m) (pca_mean m) vec) (\<lambda>diff.
          let err = l2_norm diff; result1 = result\<lparr>reconstruction_error := err, residuals := diff\<rparr> in
          Inr (if err > threshold m
               then result1\<lparr>ps_is_anomaly := True,
                      ps_details := ''PCA_RECON_ERR='' @ fmt err @ '' > '' @ fmt (threshold m)\<rparr>
               else result1)))"

definition EstimateMemoryUsage :: "size_t \<Rightarrow> PcaModel \<Rightarrow> size_t" where
  "EstimateMemoryUsage sizeof_model m =
     sizeof_model + of_nat (length (cur_mean m)) * 8 + of_nat (length (cur_scale m)) * 8
     + of_nat (length (mdata (components m))) * 8 + of_nat (length (pca_mean m)) * 8"

section \<open>Loading\<close>

lemma copy_components_cells:
  "has_cells (copy_components raw d) (length raw) d (\<lambda>i c. raw ! i ! c)"
proof -
  have "n \<le> length raw \<Longrightarrow>
      has_cells (fold (\<lambda>i m. fold (\<lambda>c m. mset_at i c (raw ! i ! c) m) [0..<d] m) [0..<n] (mat_new (length raw) d))
        (length raw) d (\<lambda>i c. if i < n then raw ! i ! c else 0)" for n
  proof (induction n)
    case 0
    then show ?case by (simp add: has_cells_def)
  next
    case (Suc n)
    then have "n < length raw" by simp
    with Suc fill_row [OF Suc.IH, of n d "\<lambda>c. raw ! n ! c"] show ?case
      by (auto simp: less_Suc_eq elim!: has_cells_cong)
  qed
  from has_cells_cong [OF this [OF order_refl]] show ?thesis
    by (simp add: copy_components_def)
qed

text \<open>A loaded model has the dimensions that scoring needs, except for the unchecked \<^verbatim>\<open>pca_mean_\<close>.\<close>

definition model_shape :: "PcaModel \<Rightarrow> bool" where
  "model_shape m \<longleftrightarrow> length (cur_mean m) = kSize \<and> length (cur_scale m) = kSize
     \<and> mat_wf (components m) \<and> cols (components m) = kSize \<and> rows (components m) > 0"

lemma read_artifact_shape:
  assumes "read_artifact j m = (Returned u, m')"
  shows "model_shape m' \<and> loaded m'"
proof -
  have "mat_wf (copy_components raw d)" "cols (copy_components raw d) = d" "rows (copy_components raw d) = length raw" for raw d
    using copy_components_cells [of raw d] by (simp_all add: has_cells_def)
  then show ?thesis
    using assms by (auto simp: read_artifact_def model_shape_def Let_def or_throw_Returned split: if_splits)
qed

section \<open>Scoring\<close>

lemma vec_sub_eq: "length a = length b \<Longrightarrow> vec_sub a b = Inr (map (\<lambda>i. a ! i - b ! i) [0..<length a])"
  by (simp add: vec_sub_def)

lemma vec_add_eq: "length a = length b \<Longrightarrow> vec_add a b = Inr (map (\<lambda>i. a ! i + b ! i) [0..<length a])"
  by (simp add: vec_add_def)

lemma vec_div_eq: "length a = length b \<Longrightarrow> vec_div a b = Inr (map (\<lambda>i. a ! i / b ! i) [0..<length a])"
  by (simp add: vec_div_def)

definition centered :: "Vector \<Rightarrow> Vector \<Rightarrow> Vector \<Rightarrow> Vector \<Rightarrow> nat \<Rightarrow> real" where
  "centered mean scale pmean x i = (x ! i - mean ! i) / scale ! i - pmean ! i"

definition projected :: "Matrix \<Rightarrow> (nat \<Rightarrow> real) \<Rightarrow> nat \<Rightarrow> real" where
  "projected comps xc r = (\<Sum>j<cols comps. mget comps r j * xc j)"

lemma residual_of_eq:
  assumes "length x = d" "length mean = d" "length scale = d" "length pmean = d" "cols comps = d"
  shows "residual_of mean scale comps pmean x = Inr (map (\<lambda>i. centered mean scale pmean x i
      - (\<Sum>r<rows comps. mget comps r i * projected comps (centered mean scale pmean x) r)) [0..<d])"
proof -
  let ?xs = "map (\<lambda>i. (x ! i - mean ! i) / scale ! i) [0..<d]"
  let ?xc = "map (centered mean scale pmean x) [0..<d]"
  let ?xp = "map (projected comps (centered mean scale pmean x)) [0..<rows comps]"
  let ?xr = "map (\<lambda>i. \<Sum>r<rows comps. mget comps r i * projected comps (centered mean scale pmean x) r) [0..<d]"
  have 1: "cbind (vec_sub x mean) (\<lambda>xm. cbind (vec_div xm scale) f) = f ?xs" for f :: "real list \<Rightarrow> real list cpp"
  proof -
    have "map (\<lambda>i. map (\<lambda>i. x ! i - mean ! i) [0..<d] ! i / scale ! i) [0..<d] = ?xs"
      by simp
    then show ?thesis
      using assms by (simp only: vec_sub_eq vec_div_eq cbind_simps length_map length_upt diff_zero)
  qed
  have 2: "vec_sub ?xs pmean = Inr ?xc"
    using assms by (simp add: vec_sub_eq centered_def)
  have 3: "matvec comps ?xc = Inr ?xp"
    using assms by (simp add: matvec_eq projected_def cong: sum.cong_simp)
  have 4: "matvec (transpose comps) ?xp = Inr ?xr"
    using assms by (simp add: matvec_eq transpose_props cong: sum.cong_simp)
  have 5: "vec_add ?xr pmean = Inr (map (\<lambda>i. ?xr ! i + pmean ! i) [0..<d])"
    using assms by (simp add: vec_add_eq)
  have 6: "vec_sub ?xs (map (\<lambda>i. ?xr ! i + pmean ! i) [0..<d]) = Inr (map (\<lambda>i. centered mean scale pmean x i - ?xr ! i) [0..<d])"
    by (simp add: vec_sub_eq centered_def)
  have "map (\<lambda>i. centered mean scale pmean x i - ?xr ! i) [0..<d] = map (\<lambda>i. centered mean scale pmean x i
      - (\<Sum>r<rows comps. mget comps r i * projected comps (centered mean scale pmean x) r)) [0..<d]"
    by simp
  then show ?thesis
    by (simp only: residual_of_def 1 2 3 4 5 6 cbind_simps)
qed


text \<open>Components with orthonormal rows, as training produces them.\<close>

definition orthonormal_rows :: "Matrix \<Rightarrow> bool" where
  "orthonormal_rows m \<longleftrightarrow>
     (\<forall>r < rows m. \<forall>s < rows m. (\<Sum>j<cols m. mget m r j * mget m s j) = (if r = s then 1 else 0))"

lemma projection_residual:
  assumes "orthonormal_rows m" "s < rows m"
  shows "(\<Sum>i<cols m. mget m s i * (xc i - (\<Sum>r<rows m. mget m r i * projected m xc r))) = 0"
proof -
  have "(\<Sum>i<cols m. mget m s i * (\<Sum>r<rows m. mget m r i * projected m xc r)) =
      (\<Sum>i<cols m. \<Sum>r<rows m. (mget m s i * mget m r i) * projected m xc r)"
    by (simp add: sum_distrib_left mult.assoc)
  also have "\<dots> = (\<Sum>r<rows m. \<Sum>i<cols m. (mget m s i * mget m r i) * projected m xc r)"
    by (rule sum.swap)
  also have "\<dots> = (\<Sum>r<rows m. (if s = r then 1 else 0) * projected m xc r)"
    using assms by (intro sum.cong refl) (simp add: sum_distrib_right [symmetric] orthonormal_rows_def)
  also have "\<dots> = projected m xc s"
    using assms(2) by (simp add: if_distrib [of "\<lambda>x. x * _"] cong: if_cong)
  finally show ?thesis
    by (simp add: right_diff_distrib sum_subtractf projected_def)
qed

lemma projection_pythagoras:
  assumes "orthonormal_rows m"
  shows "(\<Sum>i<cols m. (xc i - (\<Sum>r<rows m. mget m r i * projected m xc r))\<^sup>2) =
    (\<Sum>i<cols m. (xc i)\<^sup>2) - (\<Sum>r<rows m. (projected m xc r)\<^sup>2)"
proof -
  let ?p = "\<lambda>i. \<Sum>r<rows m. mget m r i * projected m xc r" and ?d = "cols m"
  have split: "(xc i - ?p i)\<^sup>2 = (xc i)\<^sup>2 - xc i * ?p i - ?p i * (xc i - ?p i)" for i
    by (simp add: power2_eq_square algebra_simps)
  have "(\<Sum>i<?d. ?p i * (xc i - ?p i)) = (\<Sum>i<?d. \<Sum>r<rows m. projected m xc r * (mget m r i * (xc i - ?p i)))"
    by (simp add: sum_distrib_right mult.assoc mult.left_commute)
  also have "\<dots> = (\<Sum>r<rows m. \<Sum>i<?d. projected m xc r * (mget m r i * (xc i - ?p i)))"
    by (rule sum.swap)
  also have "\<dots> = 0"
    using projection_residual [OF assms] by (simp add: sum_distrib_left [symmetric])
  finally have zero: "(\<Sum>i<?d. ?p i * (xc i - ?p i)) = 0" .
  have "(\<Sum>i<?d. xc i * ?p i) = (\<Sum>i<?d. \<Sum>r<rows m. projected m xc r * (mget m r i * xc i))"
    by (simp add: sum_distrib_left mult.assoc mult.left_commute mult.commute)
  also have "\<dots> = (\<Sum>r<rows m. \<Sum>i<?d. projected m xc r * (mget m r i * xc i))"
    by (rule sum.swap)
  also have "\<dots> = (\<Sum>r<rows m. (projected m xc r)\<^sup>2)"
    by (simp add: sum_distrib_left [symmetric] power2_eq_square projected_def)
  finally show ?thesis
    using zero by (simp add: split sum_subtractf)
qed

section \<open>Properties\<close>

text \<open>
  Scoring with a loaded model whose components are orthonormal: the call returns, the squared
  reconstruction error is the squared length of the standardised and centred vector minus that of
  its projection on the components, the residuals have one entry per feature and are orthogonal to
  every component, and the vector is an anomaly exactly when the error exceeds the threshold.
\<close>

theorem Score_reconstruction:
  assumes "model_shape m" "loaded m" "length (pca_mean m) = kSize" "length vec = kSize"
    and "orthonormal_rows (components m)"
    and "xc = centered (cur_mean m) (cur_scale m) (pca_mean m) vec"
  shows "\<exists>res. Score fmt vec m = Inr res
    \<and> reconstruction_error res =
        sqrt ((\<Sum>i<kSize. (xc i)\<^sup>2) - (\<Sum>r<rows (components m). (projected (components m) xc r)\<^sup>2))
    \<and> length (residuals res) = kSize
    \<and> (\<forall>r < rows (components m). (\<Sum>i<kSize. mget (components m) r i * residuals res ! i) = 0)
    \<and> (ps_is_anomaly res \<longleftrightarrow> reconstruction_error res > threshold m)"
proof -
  let ?M = "components m"
  let ?diff = "map (\<lambda>i. xc i - (\<Sum>r<rows ?M. mget ?M r i * projected ?M xc r)) [0..<kSize]"
  have shape: "length (cur_mean m) = kSize" "length (cur_scale m) = kSize" "cols ?M = kSize"
    using assms(1) by (simp_all add: model_shape_def)
  have resid: "residual_of (cur_mean m) (cur_scale m) ?M (pca_mean m) vec = Inr ?diff"
    using residual_of_eq [OF assms(4) shape(1,2) assms(3) shape(3)] by (simp add: assms(6))
  have err: "l2_norm ?diff = sqrt ((\<Sum>i<kSize. (xc i)\<^sup>2) - (\<Sum>r<rows ?M. (projected ?M xc r)\<^sup>2))"
    using projection_pythagoras [OF assms(5), of xc] by (simp add: l2_norm_eq shape(3))
  have "(\<Sum>i<kSize. mget ?M r i * ?diff ! i) = 0" if "r < rows ?M" for r
    using projection_residual [OF assms(5) that, of xc] by (simp add: shape(3))
  then show ?thesis
    using assms(2) resid err by (simp add: Score_def Let_def)
qed

definition ex_model :: PcaModel where
  "ex_model =
     \<lparr>loaded = True, cur_mean = [0, 0, 0, 0, 0], cur_scale = [1, 1, 1, 1, 1],
      components = \<lparr>rows = 1, cols = 5, mdata = [1, 0, 0, 0, 0]\<rparr>, pca_mean = [0, 0, 0, 0, 0], threshold = 1\<rparr>"

theorem Score_reconstruction_witness:
  "\<exists>res. Score (\<lambda>_. ''x'') [3, 0, 0, 0, 2] ex_model = Inr res \<and> length (residuals res) = kSize"
  using Score_reconstruction [of ex_model "[3, 0, 0, 0, 2]" _ "\<lambda>_. ''x''", OF _ _ _ _ _ refl]
  by (auto simp: ex_model_def model_shape_def mat_wf_def kSize_def orthonormal_rows_def mget_def
      numeral_eq_Suc lessThan_Suc)

lemma Load_Returned: "Load env path mr = (Returned u, m, reg) \<Longrightarrow> \<exists>j. read_artifact j (fst mr) = (Returned (), m)"
proof -
  assume "Load env path mr = (Returned u, m, reg)"
  then obtain j where "fst (read_artifact j (fst mr)) = Returned ()" "snd (read_artifact j (fst mr)) = m"
    by (auto simp: Load_def Let_def or_throw_Returned split_beta split: option.splits if_splits)
  then show ?thesis
    by (intro exI [of _ j]) (simp add: prod_eq_iff)
qed

text \<open>
  What loading checks: whatever the artifact file holds, a load that returns leaves a model with
  five means and scales and a non-empty, well-formed component matrix of five columns; an unreadable
  file throws without touching the model; and a model so loaded throws from scoring exactly when
  the unchecked \<^verbatim>\<open>pca_mean_\<close> does not have five entries.
\<close>

theorem Load_checks:
  assumes "length vec = kSize"
  shows "(\<forall>u m reg. Load env path mr = (Returned u, m, reg) \<longrightarrow>
       model_shape m \<and> loaded m
       \<and> ((\<exists>res. Score fmt vec m = Inr res) \<longleftrightarrow> length (pca_mean m) = kSize))
    \<and> (file_text env path = None \<longrightarrow>
       Load env path mr = (Threw (Runtime_error (''Failed to open artifact: '' @ path)), mr))"
proof (intro conjI allI impI)
  fix u m reg
  assume load: "Load env path mr = (Returned u, m, reg)"
  then obtain j where "read_artifact j (fst mr) = (Returned (), m)"
    using Load_Returned by blast
  then have shape: "model_shape m" and "loaded m"
    using read_artifact_shape by blast+
  then show "model_shape m" "loaded m"
    by simp_all
  have "(\<exists>res. Score fmt vec m = Inr res) \<longleftrightarrow>
      (\<exists>diff. residual_of (cur_mean m) (cur_scale m) (components m) (pca_mean m) vec = Inr diff)"
    using \<open>loaded m\<close> by (auto simp: Score_def Let_def cbind_Inr_iff)
  also have "\<dots> \<longleftrightarrow> length (pca_mean m) = kSize"
  proof (cases "length (pca_mean m) = kSize")
    case True
    then show ?thesis
      using shape residual_of_eq [OF assms, of "cur_mean m" "cur_scale m" "pca_mean m" "components m"]
      by (simp add: model_shape_def)
  next
    case False
    then show ?thesis
      using shape assms by (simp add: model_shape_def residual_of_def vec_sub_def vec_div_def)
  qed
  finally show "(\<exists>res. Score fmt vec m = Inr res) \<longleftrightarrow> length (pca_mean m) = kSize" .
qed (simp add: Load_def)

theorem Load_checks_witness:
  "Load \<lparr>file_text = \<lambda>_. None, parse_json = \<lambda>_. Inr JNull, file_size = \<lambda>_. None, elapsed_ms = 0\<rparr>
      ''model.json'' (new_PcaModel, empty_registry)
    = (Threw (Runtime_error ''Failed to open artifact: model.json''), new_PcaModel, empty_registry)"
  using Load_checks [of "[0, 0, 0, 0, 0]"
      "\<lparr>file_text = \<lambda>_. None, parse_json = \<lambda>_. Inr JNull, file_size = \<lambda>_. None, elapsed_ms = 0\<rparr>"
      "''model.json''" "(new_PcaModel, empty_registry)"]
  by (simp add: kSize_def)

end
