(* ===== verification/Pca_Trainer.thy ===== *)
theory Pca_Trainer
  imports Pca_Model
begin

text \<open>
  PCA training, \<^verbatim>\<open>src/src/training/pca_trainer.{h,cpp}\<close> without the hyper-parameter search: the
  one-pass statistics, the scaler, the eigenvectors of the correlation matrix, the percentile
  threshold, and the artifact document. \<^verbatim>\<open>TrainPcaFromStream\<close> walks its input three times; the
  model takes the three sequences the walks deliver, which need not be equal when they come from a
  database.
\<close>

section \<open>Operations\<close>

record RunningStats =
  rs_n :: nat
  rs_mean :: Vector
  rs_m2 :: Matrix

definition new_RunningStats :: "nat \<Rightarrow> RunningStats" where
  "new_RunningStats ndim = \<lparr>rs_n = 0, rs_mean = replicate ndim 0, rs_m2 = mat_new ndim ndim\<rparr>"

definition update_stats :: "Vector \<Rightarrow> RunningStats \<Rightarrow> RunningStats cpp" where
  "update_stats x st =
     (if length x \<noteq> length (rs_mean st) then Inl (Runtime_error ''RunningStats dimension mismatch'')
      else
        let d = length x; n = rs_n st + 1;
            delta = map (\<lambda>i. x ! i - rs_mean st ! i) [0..<d];
            mean = map (\<lambda>i. rs_mean st ! i + delta ! i / real n) [0..<d];
            delta2 = map (\<lambda>i. x ! i - mean ! i) [0..<d];
            m2 = fold (\<lambda>i m. fold (\<lambda>j m. mset_at i j (mget m i j + delta ! i * delta2 ! j) m) [0..<d] m)
                   [0..<d] (rs_m2 st)
        in Inr \<lparr>rs_n = n, rs_mean = mean, rs_m2 = m2\<rparr>)"

primrec run_stats :: "Vector list \<Rightarrow> RunningStats \<Rightarrow> RunningStats cpp" where
  "run_stats [] st = Inr st"
| "run_stats (x # xs) st = cbind (update_stats x st) (run_stats xs)"

definition vec_scale :: "Vector \<Rightarrow> real \<Rightarrow> Vector" where
  "vec_scale a s = map (\<lambda>x. x * s) a"

definition percentile_index :: "nat \<Rightarrow> real \<Rightarrow> nat" where
  "percentile_index n percentile =
     (let rank = (percentile / 100) * real n in
      if rank \<le> 1 then 0 else let idx = nat \<lceil>rank\<rceil> - 1 in if n \<le> idx then n - 1 else idx)"

definition percentile_value :: "real list \<Rightarrow> real \<Rightarrow> real cpp" where
  "percentile_value values percentile =
     (if values = [] then Inl (Runtime_error ''percentile_value requires non-empty input'')
      else Inr (nth_element values (percentile_index (length values) percentile)))"

definition max_abs_index :: "Vector \<Rightarrow> nat" where
  "max_abs_index v =
     snd (fold (\<lambda>i acc. if \<bar>v ! i\<bar> > fst acc then (\<bar>v ! i\<bar>, i) else acc) [0..<length v] (0, 0))"

definition enforce_component_sign :: "Vector \<Rightarrow> Vector" where
  "enforce_component_sign v = (if v ! max_abs_index v < 0 then map (\<lambda>x. x * (- 1)) v else v)"

record PcaArtifact =
  scaler_mean :: Vector
  scaler_scale :: Vector
  art_components :: Matrix
  explained_variance :: Vector
  art_pca_mean :: Vector
  art_threshold :: real
  n_components :: int

definition scaler_of :: "RunningStats \<Rightarrow> nat \<Rightarrow> Vector" where
  "scaler_of st ndim =
     map (\<lambda>i. let s = sqrt (mget (rs_m2 st) i i / (real (rs_n st) - 1)) in if s = 0 then 1 else s) [0..<ndim]"

definition correlation_of :: "RunningStats \<Rightarrow> Vector \<Rightarrow> nat \<Rightarrow> Matrix" where
  "correlation_of st scale ndim =
     fold (\<lambda>i m. fold (\<lambda>j m.
         mset_at i j (mget (rs_m2 st) i j / (real (rs_n st) - 1) / (scale ! i * scale ! j)) m) [0..<ndim] m)
       [0..<ndim] (mat_new ndim ndim)"

definition component_row :: "EigenSymResult \<Rightarrow> nat list \<Rightarrow> nat \<Rightarrow> nat \<Rightarrow> Vector" where
  "component_row eig order ndim i =
     enforce_component_sign (map (\<lambda>r. mget (eigenvectors eig) r (order ! i)) [0..<ndim])"

definition select_components :: "EigenSymResult \<Rightarrow> nat list \<Rightarrow> nat \<Rightarrow> nat \<Rightarrow> Matrix" where
  "select_components eig order k ndim =
     fold (\<lambda>i m. fold (\<lambda>c m. mset_at i c (component_row eig order ndim i ! c) m) [0..<ndim] m)
       [0..<k] (mat_new k ndim)"

primrec sum_scaled :: "Vector \<Rightarrow> Vector \<Rightarrow> Vector list \<Rightarrow> Vector \<Rightarrow> Vector cpp" where
  "sum_scaled mean scale [] acc = Inr acc"
| "sum_scaled mean scale (x # xs) acc =
     cbind (vec_sub x mean) (\<lambda>xm. cbind (vec_div xm scale) (\<lambda>x_scaled.
     cbind (vec_add acc x_scaled) (sum_scaled mean scale xs)))"

definition TrainPcaFromStream ::
  "Vector list \<Rightarrow> Vector list \<Rightarrow> Vector list \<Rightarrow> nat \<Rightarrow> int \<Rightarrow> real \<Rightarrow> PcaArtifact cpp" where
  "TrainPcaFromStream pass1 pass2 pass3 ndim n_comp percentile =
     (if n_comp < 1 \<or> n_comp > int ndim
      then Inl (Invalid_argument (''n_components must be between 1 and '' @ to_string (int ndim)))
      else
        cbind (run_stats pass1 (new_RunningStats ndim)) (\<lambda>stats.
        if rs_n stats < 2 then Inl (Runtime_error ''Not enough samples to train PCA'')
        else
          let scale = scaler_of stats ndim; cov = correlation_of stats scale ndim in
          cbind (eigen_sym_jacobi cov 200 (1 / 10 ^ 12)) (\<lambda>eig.
          let order = argsort_desc (eigenvalues eig); k = nat (min n_comp (int ndim));
              comps = select_components eig order k ndim;
              variance = map (\<lambda>i. eigenvalues eig ! (order ! i)) [0..<k]
          in
          cbind (sum_scaled (rs_mean stats) scale pass2 (replicate ndim 0)) (\<lambda>total.
          if pass2 = [] then Inl (Runtime_error ''No samples found for PCA mean computation'')
          else
            let pmean = vec_scale total (1 / real (length pass2)) in
            cbind (cmap (\<lambda>x. cbind (residual_of (rs_mean stats) scale comps pmean x) (\<lambda>diff. Inr (l2_norm diff))) pass3)
              (\<lambda>errors.
            cbind (percentile_value errors percentile) (\<lambda>thr.
            Inr \<lparr>scaler_mean = rs_mean stats, scaler_scale = scale, art_components = comps,
                 explained_variance = variance, art_pca_mean = pmean, art_threshold = thr,
                 n_components = int k\<rparr>))))))"

definition TrainPcaFromSamples :: "Vector list \<Rightarrow> int \<Rightarrow> real \<Rightarrow> PcaArtifact cpp" where
  "TrainPcaFromSamples samples n_comp percentile =
     TrainPcaFromStream samples samples samples kSize n_comp percentile"

definition matrix_rows :: "Matrix \<Rightarrow> real list list" where
  "matrix_rows m = map (\<lambda>r. map (\<lambda>c. mget m r c) [0..<cols m]) [0..<rows m]"

definition artifact_json :: "PcaArtifact \<Rightarrow> json" where
  "artifact_json art =
     jset2 ''thresholds'' ''reconstruction_error'' (JReal (art_threshold art))
     (jset2 ''model'' ''n_components'' (JInt (n_components art))
     (jset2 ''model'' ''mean'' (jvector (art_pca_mean art))
     (jset2 ''model'' ''explained_variance'' (jvector (explained_variance art))
     (jset2 ''model'' ''components'' (jmatrix (matrix_rows (art_components art)))
     (jset2 ''preprocessing'' ''scale'' (jvector (scaler_scale art))
     (jset2 ''preprocessing'' ''mean'' (jvector (scaler_mean art))
     (jset2 ''meta'' ''features'' (JArr (map JStr GetFeatureNames))
     (jset2 ''meta'' ''type'' (JStr ''pca_reconstruction'')
     (jset2 ''meta'' ''version'' (JStr ''v1'') JNull)))))))))"

text \<open>
  \<^verbatim>\<open>WriteArtifactJson\<close> on a file system: \<open>dump\<close> is the serialiser, \<open>writable\<close> decides whether the
  path can be opened, \<open>written\<close> is what asking for the size of the file gives.
\<close>

definition WriteArtifactJson ::
  "(json \<Rightarrow> string) \<Rightarrow> (string \<Rightarrow> bool) \<Rightarrow> int option \<Rightarrow> PcaArtifact \<Rightarrow> string
     \<Rightarrow> (string \<Rightarrow> string option) \<times> MetricsRegistry \<Rightarrow> unit outcome \<times> (string \<Rightarrow> string option) \<times> MetricsRegistry" where
  "WriteArtifactJson dump writable written art output_path fr =
     (if \<not> writable output_path
      then (Threw (Runtime_error (''Failed to open output path: '' @ output_path)), fr)
      else (Returned (), (fst fr)(output_path := Some (dump (artifact_json art))),
            (case written of
               None \<Rightarrow> snd fr
             | Some bytes \<Rightarrow> EmitCounter ''train_bytes_written'' bytes [] (snd fr))))"

section \<open>The one-pass statistics\<close>

definition stats_of :: "nat \<Rightarrow> Vector list \<Rightarrow> RunningStats \<Rightarrow> bool" where
  "stats_of d xs st \<longleftrightarrow>
     rs_n st = length xs \<and> length (rs_mean st) = d
     \<and> (\<forall>i < d. real (length xs) * rs_mean st ! i = (\<Sum>x \<leftarrow> xs. x ! i))
     \<and> has_cells (rs_m2 st) d d
         (\<lambda>i j. (\<Sum>x \<leftarrow> xs. x ! i * x ! j) - real (length xs) * rs_mean st ! i * rs_mean st ! j)"

lemma stats_of_new: "stats_of d [] (new_RunningStats d)"
  by (simp add: stats_of_def new_RunningStats_def has_cells_def)

lemma add_outer:
  assumes "has_cells m r c f" "n \<le> r"
  shows "has_cells (fold (\<lambda>i m. fold (\<lambda>j m. mset_at i j (mget m i j + g i j) m) [0..<c] m) [0..<n] m) r c
           (\<lambda>a b. if a < n then f a b + g a b else f a b)"
  using assms(2)
proof (induction n)
  case 0
  then show ?case using assms(1) by simp
next
  case (Suc n)
  then have "has_cells (fold (\<lambda>i m. fold (\<lambda>j m. mset_at i j (mget m i j + g i j) m) [0..<c] m) [0..<n] m) r c
           (\<lambda>a b. if a < n then f a b + g a b else f a b)"
    by simp
  from add_to_row [OF this _ order_refl, of n "g n"] Suc.prems show ?case
    by (auto simp: less_Suc_eq elim!: has_cells_cong)
qed

lemma welford_step:
  fixes n mi mj xi xj s :: real
  assumes "n \<ge> 0" "mi' = mi + (xi - mi) / (n + 1)" "mj' = mj + (xj - mj) / (n + 1)"
  shows "(n + 1) * mi' = n * mi + xi"
    and "s - n * mi * mj + (xi - mi) * (xj - mj') = s + xi * xj - (n + 1) * mi' * mj'"
proof -
  have i: "(n + 1) * mi' = n * mi + xi" and j: "(n + 1) * mj' = n * mj + xj"
    using assms by (simp_all add: field_simps)
  then show "(n + 1) * mi' = n * mi + xi" by simp
  have "(n + 1) * mi' * mj' = (n * mi + xi) * mj'"
    by (simp add: i)
  moreover have "mi * ((n + 1) * mj') = mi * (n * mj + xj)"
    by (simp add: j)
  ultimately show "s - n * mi * mj + (xi - mi) * (xj - mj') = s + xi * xj - (n + 1) * mi' * mj'"
    by (simp add: algebra_simps)
qed

lemma stats_of_update:
  assumes "stats_of d xs st" "length x = d"
  shows "\<exists>st'. update_stats x st = Inr st' \<and> stats_of d (xs @ [x]) st'"
proof -
  let ?n = "real (length xs)" and ?m = "rs_mean st"
  let ?mean = "map (\<lambda>i. ?m ! i + (x ! i - ?m ! i) / (?n + 1)) [0..<d]"
  have len: "rs_n st = length xs" "length ?m = d"
    and mean: "\<And>i. i < d \<Longrightarrow> ?n * ?m ! i = (\<Sum>x \<leftarrow> xs. x ! i)"
    and m2: "has_cells (rs_m2 st) d d (\<lambda>i j. (\<Sum>x \<leftarrow> xs. x ! i * x ! j) - ?n * ?m ! i * ?m ! j)"
    using assms(1) by (auto simp: stats_of_def)
  let ?delta = "map (\<lambda>i. x ! i - ?m ! i) [0..<d]"
  let ?mean' = "map (\<lambda>i. ?m ! i + ?delta ! i / real (length xs + 1)) [0..<d]"
  let ?delta2 = "map (\<lambda>i. x ! i - ?mean' ! i) [0..<d]"
  let ?m2 = "fold (\<lambda>i m. fold (\<lambda>j m. mset_at i j (mget m i j + ?delta ! i * ?delta2 ! j) m) [0..<d] m) [0..<d] (rs_m2 st)"
  have upd: "update_stats x st = Inr \<lparr>rs_n = length xs + 1, rs_mean = ?mean', rs_m2 = ?m2\<rparr>"
    using len assms(2) by (simp add: update_stats_def Let_def)
  have mean': "?mean' ! i = ?m ! i + (x ! i - ?m ! i) / (?n + 1)" if "i < d" for i
    using that by (simp add: add.commute)
  have "has_cells ?m2 d d (\<lambda>i j. (\<Sum>y \<leftarrow> xs @ [x]. y ! i * y ! j) - real (length (xs @ [x])) * ?mean' ! i * ?mean' ! j)"
  proof (rule has_cells_cong [OF add_outer [OF m2 order_refl, of "\<lambda>i j. ?delta ! i * ?delta2 ! j"]])
    fix i j assume ij: "i < d" "j < d"
    then show "(if i < d then (\<Sum>x \<leftarrow> xs. x ! i * x ! j) - ?n * ?m ! i * ?m ! j + ?delta ! i * ?delta2 ! j
        else (\<Sum>x \<leftarrow> xs. x ! i * x ! j) - ?n * ?m ! i * ?m ! j) =
      (\<Sum>y \<leftarrow> xs @ [x]. y ! i * y ! j) - real (length (xs @ [x])) * ?mean' ! i * ?mean' ! j"
      using welford_step(2) [OF _ mean' [OF ij(1)] mean' [OF ij(2)], of "\<Sum>x \<leftarrow> xs. x ! i * x ! j"]
      by (simp add: add.commute)
  qed
  moreover have "real (length (xs @ [x])) * ?mean' ! i = (\<Sum>y \<leftarrow> xs @ [x]. y ! i)" if "i < d" for i
    using welford_step(1) [OF _ mean' [OF that] refl] mean [OF that] by (simp add: add.commute)
  ultimately show ?thesis
    using upd by (simp add: stats_of_def)
qed

lemma stats_of_run:
  assumes "stats_of d xs st" "\<forall>x \<in> set ys. length x = d"
  shows "\<exists>st'. run_stats ys st = Inr st' \<and> stats_of d (xs @ ys) st'"
  using assms
proof (induction ys arbitrary: xs st)
  case (Cons y ys)
  then obtain st1 where "update_stats y st = Inr st1" "stats_of d (xs @ [y]) st1"
    using stats_of_update [of d xs st y] by auto
  then show ?case
    using Cons.IH [of "xs @ [y]" st1] Cons.prems by simp
qed simp


lemma sum_list_centered:
  fixes f g :: "'a \<Rightarrow> real"
  assumes "real (length xs) * mf = (\<Sum>x \<leftarrow> xs. f x)" "real (length xs) * mg = (\<Sum>x \<leftarrow> xs. g x)"
  shows "(\<Sum>x \<leftarrow> xs. (f x - mf) * (g x - mg)) = (\<Sum>x \<leftarrow> xs. f x * g x) - real (length xs) * mf * mg"
proof -
  have "(\<Sum>x \<leftarrow> xs. (f x - mf) * (g x - mg)) =
      (\<Sum>x \<leftarrow> xs. f x * g x) - mg * (\<Sum>x \<leftarrow> xs. f x) - mf * (\<Sum>x \<leftarrow> xs. g x) + real (length xs) * mf * mg"
    by (induction xs) (simp_all add: algebra_simps)
  then show ?thesis
    using assms by (simp add: algebra_simps flip: assms)
qed

text \<open>What the statistics hold: the mean and the sums of products of deviations from it.\<close>

definition column_mean :: "Vector list \<Rightarrow> nat \<Rightarrow> real" where
  "column_mean xs i = (\<Sum>x \<leftarrow> xs. x ! i) / real (length xs)"

definition scatter :: "Vector list \<Rightarrow> nat \<Rightarrow> nat \<Rightarrow> real" where
  "scatter xs i j = (\<Sum>x \<leftarrow> xs. (x ! i - column_mean xs i) * (x ! j - column_mean xs j))"

lemma stats_of_exact:
  assumes "stats_of d xs st" "xs \<noteq> []"
  shows "rs_mean st = map (column_mean xs) [0..<d]" and "has_cells (rs_m2 st) d d (scatter xs)"
proof -
  have m: "rs_mean st ! i = column_mean xs i" if "i < d" for i
    using assms that by (simp add: stats_of_def column_mean_def field_simps)
  then show "rs_mean st = map (column_mean xs) [0..<d]"
    using assms by (intro nth_equalityI) (auto simp: stats_of_def)
  have "real (length xs) * column_mean xs i = (\<Sum>x \<leftarrow> xs. x ! i)" for i
    using assms(2) by (simp add: column_mean_def)
  then have "scatter xs i j = (\<Sum>x \<leftarrow> xs. x ! i * x ! j) - real (length xs) * column_mean xs i * column_mean xs j" for i j
    unfolding scatter_def by (intro sum_list_centered) auto
  then show "has_cells (rs_m2 st) d d (scatter xs)"
    using assms(1) m by (auto simp: stats_of_def elim!: has_cells_cong)
qed

lemma scatter_sym: "scatter xs i j = scatter xs j i"
  by (simp add: scatter_def mult.commute)

lemma scatter_nonneg: "0 \<le> scatter xs i i"
  unfolding scatter_def by (intro sum_list_nonneg) auto

section \<open>Scaler, components, threshold\<close>

lemma scaler_of_pos: "i < d \<Longrightarrow> rs_n st \<ge> 2 \<Longrightarrow> mget (rs_m2 st) i i \<ge> 0 \<Longrightarrow> scaler_of st d ! i > 0"
  by (simp add: scaler_of_def Let_def order.strict_iff_order)

lemma length_scaler_of [simp]: "length (scaler_of st d) = d"
  by (simp add: scaler_of_def)

lemma fill_all:
  "n \<le> r \<Longrightarrow> has_cells (fold (\<lambda>i m. fold (\<lambda>j m. mset_at i j (g i j) m) [0..<c] m) [0..<n] (mat_new r c)) r c
     (\<lambda>a b. if a < n then g a b else 0)"
proof (induction n)
  case 0
  then show ?case by (simp add: has_cells_def)
next
  case (Suc n)
  then have "has_cells (fold (\<lambda>i m. fold (\<lambda>j m. mset_at i j (g i j) m) [0..<c] m) [0..<n] (mat_new r c)) r c
     (\<lambda>a b. if a < n then g a b else 0)"
    by simp
  from fill_row [OF this _ order_refl, of n "g n"] Suc.prems show ?case
    by (auto simp: less_Suc_eq elim!: has_cells_cong)
qed

lemma correlation_cells:
  "has_cells (correlation_of st scale d) d d
     (\<lambda>i j. mget (rs_m2 st) i j / (real (rs_n st) - 1) / (scale ! i * scale ! j))"
  unfolding correlation_of_def by (rule has_cells_cong [OF fill_all [OF order_refl]]) simp

lemma select_components_cells:
  "has_cells (select_components eig order k d) k d (\<lambda>i c. component_row eig order d i ! c)"
  unfolding select_components_def by (rule has_cells_cong [OF fill_all [OF order_refl]]) simp

text \<open>The sign convention only flips whole components.\<close>

lemma enforce_component_sign_cases:
  obtains \<sigma> :: real where "\<sigma> * \<sigma> = 1" "\<And>c. c < length v \<Longrightarrow> enforce_component_sign v ! c = \<sigma> * v ! c"
    "length (enforce_component_sign v) = length v"
proof (cases "v ! max_abs_index v < 0")
  case True
  then show ?thesis by (intro that [of "- 1"]) (simp_all add: enforce_component_sign_def)
next
  case False
  then show ?thesis by (intro that [of 1]) (simp_all add: enforce_component_sign_def)
qed

lemma select_components_orthonormal:
  assumes "orthogonal d (mget (eigenvectors eig))" "distinct order" "set order = {..<d}" "length order = d" "k \<le> d"
  shows "orthonormal_rows (select_components eig order k d)"
proof -
  let ?M = "select_components eig order k d" and ?V = "mget (eigenvectors eig)"
  have shape: "rows ?M = k" "cols ?M = d" and cell: "\<And>i c. i < k \<Longrightarrow> c < d \<Longrightarrow> mget ?M i c = component_row eig order d i ! c"
    using select_components_cells [of eig order k d] by (auto simp: has_cells_def)
  have "(\<Sum>c<d. mget ?M i c * mget ?M j c) = (if i = j then 1 else 0)" if ij: "i < k" "j < k" for i j
  proof -
    obtain \<sigma> where s: "\<sigma> * \<sigma> = 1" "\<And>c. c < d \<Longrightarrow> component_row eig order d i ! c = \<sigma> * ?V c (order ! i)"
      by (rule enforce_component_sign_cases [of "map (\<lambda>r. ?V r (order ! i)) [0..<d]"]) (simp add: component_row_def)
    obtain \<tau> where t: "\<tau> * \<tau> = 1" "\<And>c. c < d \<Longrightarrow> component_row eig order d j ! c = \<tau> * ?V c (order ! j)"
      by (rule enforce_component_sign_cases [of "map (\<lambda>r. ?V r (order ! j)) [0..<d]"]) (simp add: component_row_def)
    have idx: "order ! i < d" "order ! j < d" "order ! i = order ! j \<longleftrightarrow> i = j"
      using assms(2-5) ij nth_mem [of i order] nth_mem [of j order] by (auto simp: nth_eq_iff_index_eq)
    have "(\<Sum>c<d. mget ?M i c * mget ?M j c) = \<sigma> * \<tau> * (\<Sum>c<d. ?V c (order ! i) * ?V c (order ! j))"
      using ij s(2) t(2) by (simp add: cell sum_distrib_left mult.assoc mult.left_commute)
    also have "\<dots> = \<sigma> * \<tau> * (if i = j then 1 else 0)"
      using assms(1) idx by (simp add: orthogonal_def)
    finally show ?thesis
    proof (cases "i = j")
      case True
      have "d > 0" using idx by auto
      moreover have "(\<Sum>c<d. mget ?M i c * mget ?M i c) = \<sigma> * \<sigma> * (\<Sum>c<d. ?V c (order ! i) * ?V c (order ! i))"
        using ij s(2) by (simp add: cell sum_distrib_left mult.assoc mult.left_commute)
      ultimately show ?thesis
        using True s(1) assms(1) idx by (simp add: orthogonal_def)
    qed simp
  qed
  then show ?thesis
    by (simp add: orthonormal_rows_def shape)
qed

lemma percentile_index_less: "n > 0 \<Longrightarrow> percentile_index n p < n"
  by (auto simp: percentile_index_def Let_def)

lemma percentile_index_rank:
  assumes "n > 0" "p \<le> 100"
  shows "p / 100 * real n \<le> real (percentile_index n p + 1)"
proof -
  define r where "r = p / 100 * real n"
  have r: "r \<le> real n"
    using assms by (simp add: r_def field_simps)
  have idx: "percentile_index n p =
      (if r \<le> 1 then 0 else if n \<le> nat \<lceil>r\<rceil> - 1 then n - 1 else nat \<lceil>r\<rceil> - 1)"
    by (simp add: percentile_index_def r_def Let_def)
  have "r \<le> real (nat \<lceil>r\<rceil> - 1 + 1)" if "\<not> r \<le> 1"
    using that by linarith
  then have "r \<le> real (percentile_index n p + 1)"
    using r assms(1) unfolding idx by (auto simp: Suc_leI)
  then show ?thesis
    by (simp add: r_def)
qed

text \<open>At most the share above the percentile exceeds the threshold.\<close>

lemma percentile_value_share:
  assumes "percentile_value es p = Inr t" "p \<le> 100"
  shows "real (length (filter (\<lambda>e. e > t) es)) \<le> (1 - p / 100) * real (length es)"
proof -
  have ne: "es \<noteq> []" and t: "t = nth_element es (percentile_index (length es) p)"
    using assms(1) by (auto simp: percentile_value_def split: if_splits)
  then have idx: "percentile_index (length es) p < length es"
    by (simp add: percentile_index_less)
  have "length (filter (\<lambda>e. e \<le> t) es) + length (filter (\<lambda>e. \<not> e \<le> t) es) = length es"
    by (rule sum_length_filter_compl)
  moreover have "percentile_index (length es) p + 1 \<le> length (filter (\<lambda>e. e \<le> t) es)"
    unfolding t by (rule nth_element_rank(1) [OF idx])
  ultimately have "length (filter (\<lambda>e. e > t) es) + (percentile_index (length es) p + 1) \<le> length es"
    by (simp add: not_le)
  then have "real (length (filter (\<lambda>e. e > t) es)) \<le> real (length es) - real (percentile_index (length es) p + 1)"
    by linarith
  also have "\<dots> \<le> real (length es) - p / 100 * real (length es)"
    using percentile_index_rank [of "length es" p] assms(2) ne by simp
  finally show ?thesis
    by (simp add: left_diff_distrib)
qed


section \<open>Training\<close>

lemma sum_scaled_eq:
  assumes "\<forall>x \<in> set xs. length x = d" "length mean = d" "length scale = d" "length acc = d"
  shows "sum_scaled mean scale xs acc =
    Inr (map (\<lambda>i. acc ! i + (\<Sum>x \<leftarrow> xs. (x ! i - mean ! i) / scale ! i)) [0..<d])"
  using assms
proof (induction xs arbitrary: acc)
  case Nil
  then show ?case by (simp add: list_eq_iff_nth_eq)
next
  case (Cons x xs)
  let ?s = "map (\<lambda>i. (x ! i - mean ! i) / scale ! i) [0..<d]"
  let ?acc = "map (\<lambda>i. acc ! i + (x ! i - mean ! i) / scale ! i) [0..<d]"
  have "map (\<lambda>i. map (\<lambda>i. x ! i - mean ! i) [0..<d] ! i / scale ! i) [0..<d] = ?s"
    "map (\<lambda>i. acc ! i + ?s ! i) [0..<d] = ?acc"
    by simp_all
  then have "sum_scaled mean scale (x # xs) acc = sum_scaled mean scale xs ?acc"
    using Cons.prems by (simp only: sum_scaled.simps vec_sub_eq vec_div_eq vec_add_eq cbind_simps length_map
        length_upt diff_zero list.set insert_iff ball_simps)
  also have "\<dots> = Inr (map (\<lambda>i. ?acc ! i + (\<Sum>x \<leftarrow> xs. (x ! i - mean ! i) / scale ! i)) [0..<d])"
    using Cons.prems by (intro Cons.IH) simp_all
  also have "map (\<lambda>i. ?acc ! i + (\<Sum>x \<leftarrow> xs. (x ! i - mean ! i) / scale ! i)) [0..<d] =
      map (\<lambda>i. acc ! i + (\<Sum>x \<leftarrow> x # xs. (x ! i - mean ! i) / scale ! i)) [0..<d]"
    by simp
  finally show ?case .
qed

lemma sum_list_deviations: "xs \<noteq> [] \<Longrightarrow> (\<Sum>x \<leftarrow> xs. (x ! i - column_mean xs i) / s) = 0"
proof -
  assume ne: "xs \<noteq> []"
  have "(\<Sum>x \<leftarrow> xs. (x ! i - m) / s) = ((\<Sum>x \<leftarrow> xs. x ! i) - real (length xs) * m) / s" for m
    by (induction xs) (simp_all add: diff_divide_distrib add_divide_distrib algebra_simps)
  then show ?thesis
    using ne by (simp add: column_mean_def)
qed

text \<open>The model that scoring uses, as read back from an artifact.\<close>

definition artifact_model :: "PcaArtifact \<Rightarrow> PcaModel" where
  "artifact_model art =
     \<lparr>loaded = True, cur_mean = scaler_mean art, cur_scale = scaler_scale art,
      components = art_components art, pca_mean = art_pca_mean art, threshold = art_threshold art\<rparr>"

definition train_error :: "PcaArtifact \<Rightarrow> Vector \<Rightarrow> real" where
  "train_error art x =
     (case residual_of (scaler_mean art) (scaler_scale art) (art_components art) (art_pca_mean art) x of
        Inr diff \<Rightarrow> l2_norm diff | Inl _ \<Rightarrow> 0)"

definition sample_scale :: "Vector list \<Rightarrow> nat \<Rightarrow> real" where
  "sample_scale xs i =
     (let s = sqrt (scatter xs i i / (real (length xs) - 1)) in if s = 0 then 1 else s)"

definition trained :: "Vector list \<Rightarrow> nat \<Rightarrow> real \<Rightarrow> PcaArtifact \<Rightarrow> bool" where
  "trained xs k p art \<longleftrightarrow>
     n_components art = int k
     \<and> scaler_mean art = map (column_mean xs) [0..<kSize]
     \<and> scaler_scale art = map (sample_scale xs) [0..<kSize]
     \<and> mat_wf (art_components art) \<and> rows (art_components art) = k \<and> cols (art_components art) = kSize
     \<and> orthonormal_rows (art_components art)
     \<and> length (explained_variance art) = k \<and> sorted_wrt (\<ge>) (explained_variance art)
     \<and> art_pca_mean art = replicate kSize 0
     \<and> percentile_value (map (train_error art) xs) p = Inr (art_threshold art)"

lemma sorted_by_order:
  assumes "sorted_wrt (desc_before v) order" "k \<le> length order"
  shows "sorted_wrt (\<ge>) (map (\<lambda>i. v ! (order ! i)) [0..<k])"
proof -
  have "v ! (order ! i) \<ge> v ! (order ! j)" if "i < j" "j < k" for i j
    using sorted_wrt_nth_less [OF assms(1), of i j] assms(2) that by (auto simp: desc_before_def split: if_splits)
  then show ?thesis
    by (simp add: sorted_wrt_iff_nth_less)
qed

lemma train_eigen:
  assumes stats: "has_cells (rs_m2 st) d d (scatter xs)"
  obtains eig where "eigen_sym_jacobi (correlation_of st scale d) 200 (1 / 10 ^ 12) = Inr eig"
    "orthogonal d (mget (eigenvectors eig))" "length (eigenvalues eig) = d"
proof -
  let ?C = "correlation_of st scale d"
  note C = correlation_cells [of st scale d]
  have shape: "mat_wf ?C" "rows ?C = d" "cols ?C = d"
    using C by (auto simp: has_cells_def)
  have "mget ?C i j = mget ?C j i" if "i < d" "j < d" for i j
    using C stats that scatter_sym [of xs i j] by (simp add: has_cells_def mult.commute)
  then have sym: "symmetric d (mget ?C)"
    by (simp add: symmetric_def)
  obtain dd v where dv: "jacobi_loop (nat 200) (1 / 10 ^ 12) d (?C, identity d) = (dd, v)"
    by (metis prod.exhaust)
  have inv: "jacobi_inv d (mget ?C) (dd, v)"
    using jacobi_loop_inv [OF _ jacobi_inv_start [OF shape sym], of "1 / 10 ^ 12" "nat 200"] dv by simp
  show ?thesis
    using that [of "\<lparr>eigenvalues = map (\<lambda>i. mget dd i i) [0..<d], eigenvectors = v\<rparr>"] inv shape dv
    by (simp add: eigen_sym_jacobi_def jacobi_inv_def)
qed


lemma train_samples:
  assumes k: "1 \<le> k" "k \<le> kSize" and xs: "length xs \<ge> 2" "\<forall>x \<in> set xs. length x = kSize"
  shows "\<exists>art. TrainPcaFromSamples xs (int k) p = Inr art \<and> trained xs k p art"
proof -
  let ?d = kSize
  have ne: "xs \<noteq> []" using xs(1) by auto
  obtain st where st: "run_stats xs (new_RunningStats ?d) = Inr st" "stats_of ?d xs st"
    using stats_of_run [OF stats_of_new xs(2)] by auto
  have n: "rs_n st = length xs"
    using st(2) by (simp add: stats_of_def)
  note mean = stats_of_exact(1) [OF st(2) ne] and m2 = stats_of_exact(2) [OF st(2) ne]
  define scale where "scale = scaler_of st ?d"
  have scale: "scale = map (sample_scale xs) [0..<?d]"
    using m2 n by (auto simp: scale_def scaler_of_def sample_scale_def has_cells_def)
  obtain eig where eig: "eigen_sym_jacobi (correlation_of st scale ?d) 200 (1 / 10 ^ 12) = Inr eig"
      "orthogonal ?d (mget (eigenvectors eig))" "length (eigenvalues eig) = ?d"
    using train_eigen [OF m2] by blast
  define order where "order = argsort_desc (eigenvalues eig)"
  note ord = argsort_desc_props [of "eigenvalues eig", folded order_def, unfolded eig(3)]
  define comps where "comps = select_components eig order k ?d"
  have comps: "mat_wf comps" "rows comps = k" "cols comps = ?d" "orthonormal_rows comps"
    using select_components_cells [of eig order k ?d] select_components_orthonormal [OF eig(2) ord(4,2,3) k(2)]
    by (auto simp: comps_def has_cells_def)
  have sums: "sum_scaled (rs_mean st) scale xs (replicate ?d 0) = Inr (replicate ?d 0)"
    by (subst sum_scaled_eq [OF xs(2)])
      (simp_all add: mean scale sum_list_deviations [OF ne] list_eq_iff_nth_eq)
  have pmean: "vec_scale (replicate ?d 0) (1 / real (length xs)) = replicate ?d 0"
    by (simp add: vec_scale_def)
  define err where "err = (\<lambda>x. case residual_of (rs_mean st) scale comps (replicate ?d 0) x of Inr diff \<Rightarrow> l2_norm diff | Inl _ \<Rightarrow> 0)"
  have errs: "cmap (\<lambda>x. cbind (residual_of (rs_mean st) scale comps (replicate ?d 0) x) (\<lambda>diff. Inr (l2_norm diff))) xs
      = Inr (map err xs)"
  proof (rule cmap_Inr)
    fix x assume "x \<in> set xs"
    then obtain diff where "residual_of (rs_mean st) scale comps (replicate ?d 0) x = Inr diff"
      using residual_of_eq [of x ?d "rs_mean st" scale "replicate ?d 0" comps] xs(2) mean scale comps(3) by auto
    then show "cbind (residual_of (rs_mean st) scale comps (replicate ?d 0) x) (\<lambda>diff. Inr (l2_norm diff)) = Inr (err x)"
      by (simp add: err_def)
  qed
  obtain t where t: "percentile_value (map err xs) p = Inr t"
    using ne by (simp add: percentile_value_def)
  let ?art = "\<lparr>scaler_mean = rs_mean st, scaler_scale = scale, art_components = comps,
       explained_variance = map (\<lambda>i. eigenvalues eig ! (order ! i)) [0..<k], art_pca_mean = replicate ?d 0,
       art_threshold = t, n_components = int k\<rparr>"
  have "TrainPcaFromSamples xs (int k) p = Inr ?art"
    using k xs(1) n ne sums pmean errs t
    by (simp add: TrainPcaFromSamples_def TrainPcaFromStream_def st(1) Let_def eig(1) [simplified]
        flip: scale_def order_def comps_def)
  moreover have "train_error ?art = err"
    by (simp add: train_error_def err_def fun_eq_iff)
  then have "trained xs k p ?art"
    using mean scale comps t ord(1,3) k by (simp add: trained_def sorted_by_order)
  ultimately show ?thesis
    by blast
qed

lemma Score_artifact:
  assumes "trained xs k p art" "k \<ge> 1" "length x = kSize"
  shows "\<exists>res. Score fmt x (artifact_model art) = Inr res \<and> reconstruction_error res = train_error art x
    \<and> (ps_is_anomaly res \<longleftrightarrow> train_error art x > art_threshold art)"
proof -
  obtain diff where "residual_of (scaler_mean art) (scaler_scale art) (art_components art) (art_pca_mean art) x = Inr diff"
    using residual_of_eq [of x kSize "scaler_mean art" "scaler_scale art" "art_pca_mean art" "art_components art"] assms
    by (auto simp: trained_def)
  then show ?thesis
    by (simp add: Score_def artifact_model_def train_error_def Let_def)
qed

lemma copy_matrix_rows:
  assumes "mat_wf m"
  shows "copy_components (matrix_rows m) (cols m) = m"
proof (rule matrix_eqI)
  have cells: "has_cells (copy_components (matrix_rows m) (cols m)) (rows m) (cols m) (\<lambda>i c. matrix_rows m ! i ! c)"
    using copy_components_cells [of "matrix_rows m" "cols m"] by (simp add: matrix_rows_def)
  then show "mat_wf (copy_components (matrix_rows m) (cols m))" "rows (copy_components (matrix_rows m) (cols m)) = rows m"
      "cols (copy_components (matrix_rows m) (cols m)) = cols m"
    by (simp_all add: has_cells_def)
  then show "mget (copy_components (matrix_rows m) (cols m)) i j = mget m i j"
    if "i < rows (copy_components (matrix_rows m) (cols m))" "j < cols (copy_components (matrix_rows m) (cols m))" for i j
    using cells that by (simp add: has_cells_def matrix_rows_def)
qed (rule assms)

definition artifact_shape :: "PcaArtifact \<Rightarrow> bool" where
  "artifact_shape art \<longleftrightarrow> length (scaler_mean art) = kSize \<and> length (scaler_scale art) = kSize
     \<and> mat_wf (art_components art) \<and> cols (art_components art) = kSize \<and> rows (art_components art) > 0"

lemma read_artifact_json:
  assumes "artifact_shape art"
  shows "read_artifact (artifact_json art) m = (Returned (), artifact_model art)"
proof -
  have read: "jat2 (artifact_json art) ''preprocessing'' ''mean'' = Inr (jvector (scaler_mean art))"
    "jat2 (artifact_json art) ''preprocessing'' ''scale'' = Inr (jvector (scaler_scale art))"
    "jat2 (artifact_json art) ''model'' ''components'' = Inr (jmatrix (matrix_rows (art_components art)))"
    "jat2 (artifact_json art) ''model'' ''mean'' = Inr (jvector (art_pca_mean art))"
    "jat2 (artifact_json art) ''thresholds'' ''reconstruction_error'' = Inr (JReal (art_threshold art))"
    by (simp_all add: artifact_json_def)
  have "copy_components (matrix_rows (art_components art)) kSize = art_components art"
    using assms copy_matrix_rows [of "art_components art"] by (simp add: artifact_shape_def)
  moreover have "matrix_rows (art_components art) \<noteq> []" "length (matrix_rows (art_components art) ! 0) = kSize"
      "\<not> list_ex (\<lambda>row. length row < kSize) (matrix_rows (art_components art))"
    using assms by (auto simp: artifact_shape_def matrix_rows_def list_ex_iff)
  ultimately show ?thesis
    using assms unfolding read_artifact_def read
    by (simp add: Let_def artifact_shape_def artifact_model_def)
qed


section \<open>Properties\<close>

text \<open>
  C2. Training succeeds on every set of at least two five-dimensional samples with one to five
  components, and the artifact it returns holds: the exact column means; the sample standard
  deviations, with 1 in place of 0; orthonormal components with the explained variances in
  descending order; a zero PCA mean; and a threshold which at most the share \<open>1 - p / 100\<close> of the
  training samples exceeds when they are scored with the resulting model.
\<close>

theorem training_correct:
  assumes "1 \<le> k" "k \<le> kSize" "length xs \<ge> 2" "\<forall>x \<in> set xs. length x = kSize" "p \<le> 100"
  shows "\<exists>art. TrainPcaFromSamples xs (int k) p = Inr art
    \<and> scaler_mean art = map (column_mean xs) [0..<kSize]
    \<and> scaler_scale art = map (sample_scale xs) [0..<kSize]
    \<and> rows (art_components art) = k \<and> orthonormal_rows (art_components art)
    \<and> sorted_wrt (\<ge>) (explained_variance art) \<and> art_pca_mean art = replicate kSize 0
    \<and> real (length (filter (\<lambda>x. \<exists>res. Score fmt x (artifact_model art) = Inr res \<and> ps_is_anomaly res) xs))
        \<le> (1 - p / 100) * real (length xs)"
proof -
  obtain art where art: "TrainPcaFromSamples xs (int k) p = Inr art" and tr: "trained xs k p art"
    using train_samples [OF assms(1-4)] by blast
  have "filter (\<lambda>x. \<exists>res. Score fmt x (artifact_model art) = Inr res \<and> ps_is_anomaly res) xs =
      filter (\<lambda>x. train_error art x > art_threshold art) xs"
  proof (rule filter_cong [OF refl])
    fix x assume "x \<in> set xs"
    then have "length x = kSize" using assms(4) by simp
    from Score_artifact [OF tr assms(1) this, of fmt]
    show "(\<exists>res. Score fmt x (artifact_model art) = Inr res \<and> ps_is_anomaly res) = (train_error art x > art_threshold art)"
      by auto
  qed
  moreover have "real (length (filter (\<lambda>e. e > art_threshold art) (map (train_error art) xs))) \<le> (1 - p / 100) * real (length xs)"
    using percentile_value_share [of "map (train_error art) xs" p] tr assms(5) by (simp add: trained_def)
  ultimately show ?thesis
    using art tr by (auto simp: trained_def filter_map comp_def)
qed

theorem training_correct_witness:
  "\<exists>art. TrainPcaFromSamples [[1, 2, 3, 4, 5], [2, 2, 3, 5, 5], [4, 1, 3, 4, 6]] 2 95 = Inr art
     \<and> art_pca_mean art = [0, 0, 0, 0, 0]"
  using training_correct [of 2 "[[1, 2, 3, 4, 5], [2, 2, 3, 5, 5], [4, 1, 3, 4, 6]]" 95 "\<lambda>_. ''''"]
  by (auto simp: kSize_def numeral_eq_Suc)

text \<open>
  C35. The running statistics are exact: after any non-empty sequence of vectors of one dimension the
  one-pass update holds the number of vectors, their column means, and the matrix of the sums of
  products of deviations from those means; a vector of another dimension throws.
\<close>

theorem RunningStats_exact:
  assumes "xs \<noteq> []" "\<forall>x \<in> set xs. length x = d"
  shows "\<exists>st. run_stats xs (new_RunningStats d) = Inr st \<and> rs_n st = length xs
    \<and> (\<forall>i < d. rs_mean st ! i = (\<Sum>x \<leftarrow> xs. x ! i) / real (length xs))
    \<and> (\<forall>i < d. \<forall>j < d. mget (rs_m2 st) i j =
         (\<Sum>x \<leftarrow> xs. (x ! i - rs_mean st ! i) * (x ! j - rs_mean st ! j)))
    \<and> (\<forall>y. length y \<noteq> d \<longrightarrow> update_stats y st = Inl (Runtime_error ''RunningStats dimension mismatch''))"
proof -
  obtain st where st: "run_stats xs (new_RunningStats d) = Inr st" "stats_of d xs st"
    using stats_of_run [OF stats_of_new assms(2)] by auto
  then show ?thesis
    using stats_of_exact [OF st(2) assms(1)]
    by (auto simp: stats_of_def column_mean_def scatter_def has_cells_def update_stats_def)
qed

theorem RunningStats_exact_witness:
  "\<exists>st. run_stats [[1, 2], [3, 6]] (new_RunningStats 2) = Inr st \<and> rs_mean st ! 1 = 4"
proof -
  obtain st where "run_stats [[1, 2], [3, 6]] (new_RunningStats 2) = Inr st"
      "\<forall>i < 2. rs_mean st ! i = (\<Sum>x \<leftarrow> [[1, 2], [3, 6]]. x ! i) / real (length [[1, 2], [3, 6 :: real]])"
    using RunningStats_exact [of "[[1, 2], [3, 6]]" 2] by auto
  then show ?thesis
    by (auto dest: spec [of _ 1])
qed

text \<open>
  C34. Saving and loading: with a parser that reads the serialised document back, the file
  that training writes for an artifact of the right shape loads back, into any model object, as
  exactly the model of that artifact; a path that cannot be opened throws and changes no file.
\<close>

theorem artifact_roundtrip:
  assumes "artifact_shape art" and "parse_json env (dump (artifact_json art)) = Inr (artifact_json art)"
    and "WriteArtifactJson dump writable written art path (files, reg) = (out, files', reg')"
    and "file_text env = files'"
  shows "(writable path \<longrightarrow> out = Returned ()
      \<and> (\<exists>reg''. Load env path (m, reg') = (Returned (), artifact_model art, reg'')))
    \<and> (\<not> writable path \<longrightarrow> files' = files \<and> out = Threw (Runtime_error (''Failed to open output path: '' @ path)))"
proof (cases "writable path")
  case True
  then have "out = Returned ()" "files' path = Some (dump (artifact_json art))"
    using assms(3) by (auto simp: WriteArtifactJson_def)
  then show ?thesis
    using True assms(2,4) read_artifact_json [OF assms(1)] by (simp add: Load_def Let_def)
next
  case False
  then show ?thesis
    using assms(3) by (auto simp: WriteArtifactJson_def)
qed

definition ex_artifact :: PcaArtifact where
  "ex_artifact =
     \<lparr>scaler_mean = [1, 2, 3, 4, 5], scaler_scale = [1, 1, 1, 1, 1],
      art_components = \<lparr>rows = 1, cols = 5, mdata = [1, 0, 0, 0, 0]\<rparr>, explained_variance = [2],
      art_pca_mean = [0, 0, 0, 0, 0], art_threshold = 3, n_components = 1\<rparr>"

theorem artifact_roundtrip_witness:
  "\<exists>reg. Load \<lparr>file_text = (\<lambda>_. None)(''m.json'' := Some ''doc''), parse_json = \<lambda>_. Inr (artifact_json ex_artifact),
            file_size = \<lambda>_. None, elapsed_ms = 2\<rparr> ''m.json'' (new_PcaModel, empty_registry)
      = (Returned (), artifact_model ex_artifact, reg)"
proof -
  let ?files = "(\<lambda>_. None)(''m.json'' := Some ''doc'')"
  let ?env = "\<lparr>file_text = ?files, parse_json = \<lambda>_. Inr (artifact_json ex_artifact), file_size = \<lambda>_. None, elapsed_ms = 2\<rparr>"
  have shape: "artifact_shape ex_artifact"
    by (simp add: artifact_shape_def ex_artifact_def kSize_def mat_wf_def)
  have "WriteArtifactJson (\<lambda>_. ''doc'') (\<lambda>_. True) None ex_artifact ''m.json'' (\<lambda>_. None, empty_registry)
      = (Returned (), ?files, empty_registry)"
    by (simp add: WriteArtifactJson_def)
  from artifact_roundtrip [OF shape _ this, of ?env new_PcaModel] show ?thesis
    by simp
qed

end
