(* ===== verification/Model_Cache.thy ===== *)
theory Model_Cache
  imports Pca_Model
begin

text \<open>
  The model cache, \<^verbatim>\<open>src/src/pca_model_cache.{h,cpp}\<close>. \<^verbatim>\<open>GetOrCreate\<close> releases the mutex while it
  loads: \<open>cache_lookup\<close> and \<open>cache_commit\<close> are its two critical sections and \<open>GetOrCreate\<close> is a call
  that nothing else interleaves with. The cache is a \<^verbatim>\<open>std::unordered_map\<close>; the order in which
  \<^verbatim>\<open>EvictLru\<close> walks over it is the parameter \<open>ord\<close>, of which only that it enumerates the entries is
  assumed. Byte counts are 64-bit words.
\<close>

section \<open>State and operations\<close>

record CacheEntry =
  ce_model :: PcaModel
  ce_last_access :: time_point
  ce_artifact_path :: string
  ce_memory_usage :: size_t

type_synonym entries = "(string \<times> CacheEntry) list"

record PcaModelCache =
  pc_max_entries :: nat
  pc_max_bytes :: size_t
  pc_current_bytes :: size_t
  pc_ttl :: int
  pc_cache :: entries
  pc_hits :: int
  pc_misses :: int
  pc_evictions :: int
  pc_registry :: MetricsRegistry

record CacheStats =
  st_size :: nat
  st_bytes_used :: size_t
  st_max_bytes :: size_t
  st_hits :: int
  st_misses :: int
  st_evictions :: int

definition new_PcaModelCache :: "nat \<Rightarrow> size_t \<Rightarrow> int \<Rightarrow> MetricsRegistry \<Rightarrow> PcaModelCache" where
  "new_PcaModelCache max_entries max_bytes ttl_seconds reg =
     \<lparr>pc_max_entries = max_entries, pc_max_bytes = max_bytes, pc_current_bytes = 0, pc_ttl = ttl_seconds,
      pc_cache = [], pc_hits = 0, pc_misses = 0, pc_evictions = 0, pc_registry = reg\<rparr>"

text \<open>Assignment \<^verbatim>\<open>cache_[id] = entry\<close>: overwrites an existing entry, else adds one.\<close>

definition assign_entry :: "string \<Rightarrow> CacheEntry \<Rightarrow> entries \<Rightarrow> entries" where
  "assign_entry mid e m = (mid, e) # map_erase mid m"

definition drop_entry :: "string \<Rightarrow> CacheEntry \<Rightarrow> PcaModelCache \<Rightarrow> PcaModelCache" where
  "drop_entry mid e c =
     c\<lparr>pc_current_bytes := pc_current_bytes c - ce_memory_usage e, pc_cache := map_erase mid (pc_cache c)\<rparr>"

definition note_miss :: "PcaModelCache \<Rightarrow> PcaModelCache" where
  "note_miss c = c\<lparr>pc_misses := pc_misses c + 1, pc_registry := EmitCounter ''model_cache_misses'' 1 [] (pc_registry c)\<rparr>"

definition cache_lookup :: "time_point \<Rightarrow> string \<Rightarrow> string \<Rightarrow> PcaModelCache \<Rightarrow> PcaModel option \<times> PcaModelCache" where
  "cache_lookup now mid path c =
     (case map_get (pc_cache c) mid of
        None \<Rightarrow> (None, note_miss c)
      | Some e \<Rightarrow>
          if now - ce_last_access e > pc_ttl c * 1000000000 then (None, note_miss (drop_entry mid e c))
          else if ce_artifact_path e = path then
            (Some (ce_model e),
             c\<lparr>pc_hits := pc_hits c + 1,
               pc_cache := assign_entry mid (e\<lparr>ce_last_access := now\<rparr>) (pc_cache c),
               pc_registry := EmitCounter ''model_cache_hits'' 1 [] (pc_registry c)\<rparr>)
          else (None, note_miss (drop_entry mid e c)))"

definition oldest_entry :: "entries \<Rightarrow> string \<times> CacheEntry" where
  "oldest_entry es =
     fold (\<lambda>it oldest. if ce_last_access (snd it) < ce_last_access (snd oldest) then it else oldest) es (hd es)"

definition EvictLru :: "(entries \<Rightarrow> entries) \<Rightarrow> PcaModelCache \<Rightarrow> PcaModelCache" where
  "EvictLru ord c =
     (if pc_cache c = [] then c
      else
        let oldest = oldest_entry (ord (pc_cache c)); c1 = drop_entry (fst oldest) (snd oldest) c in
        c1\<lparr>pc_evictions := pc_evictions c + 1,
           pc_registry := EmitCounter ''model_cache_evictions'' 1 [] (pc_registry c)\<rparr>)"

text \<open>The eviction loop, bounded by the number of entries: each round removes one.\<close>

primrec evict_loop :: "nat \<Rightarrow> (entries \<Rightarrow> entries) \<Rightarrow> size_t \<Rightarrow> PcaModelCache \<Rightarrow> PcaModelCache" where
  "evict_loop 0 ord extra c = c"
| "evict_loop (Suc n) ord extra c =
     (if pc_cache c \<noteq> [] \<and> pc_current_bytes c + extra > pc_max_bytes c
      then evict_loop n ord extra (EvictLru ord c) else c)"

definition EnsureCapacity :: "(entries \<Rightarrow> entries) \<Rightarrow> size_t \<Rightarrow> PcaModelCache \<Rightarrow> PcaModelCache" where
  "EnsureCapacity ord extra c = evict_loop (length (pc_cache c)) ord extra c"

definition cache_commit ::
  "(entries \<Rightarrow> entries) \<Rightarrow> time_point \<Rightarrow> string \<Rightarrow> string \<Rightarrow> PcaModel \<Rightarrow> size_t \<Rightarrow> PcaModelCache \<Rightarrow> PcaModelCache" where
  "cache_commit ord now mid path model usage c =
     (if usage > pc_max_bytes c then c
      else
        let c1 = EnsureCapacity ord usage c;
            c2 = (if length (pc_cache c1) \<ge> pc_max_entries c1 then EvictLru ord c1 else c1);
            c3 = c2\<lparr>pc_cache := assign_entry mid
                      \<lparr>ce_model = model, ce_last_access = now, ce_artifact_path = path, ce_memory_usage = usage\<rparr>
                      (pc_cache c2),
                    pc_current_bytes := pc_current_bytes c2 + usage\<rparr>
        in c3\<lparr>pc_registry := EmitGauge ''model_cache_entries'' (real (length (pc_cache c3)))
               (EmitGauge ''model_cache_bytes_used'' (real (unat (pc_current_bytes c3))) (pc_registry c3))\<rparr>)"

definition GetOrCreate ::
  "(entries \<Rightarrow> entries) \<Rightarrow> size_t \<Rightarrow> artifact_env \<Rightarrow> time_point \<Rightarrow> string \<Rightarrow> string \<Rightarrow> PcaModelCache
     \<Rightarrow> PcaModel outcome \<times> PcaModelCache" where
  "GetOrCreate ord sizeof_model env now mid path c =
     (case cache_lookup now mid path c of
        (Some model, c1) \<Rightarrow> (Returned model, c1)
      | (None, c1) \<Rightarrow>
          (case Load env path (new_PcaModel, pc_registry c1) of
             (Returned u, model, reg) \<Rightarrow>
               (Returned model,
                cache_commit ord now mid path model (EstimateMemoryUsage sizeof_model model)
                  (c1\<lparr>pc_registry := EmitCounter ''model_load_count'' 1 [] reg\<rparr>))
           | (Threw e, model, reg) \<Rightarrow> (Threw e, c1\<lparr>pc_registry := reg\<rparr>)
           | (Terminated, model, reg) \<Rightarrow> (Terminated, c1\<lparr>pc_registry := reg\<rparr>)
           | (Undefined, model, reg) \<Rightarrow> (Undefined, c1\<lparr>pc_registry := reg\<rparr>)))"

definition Invalidate :: "string \<Rightarrow> PcaModelCache \<Rightarrow> PcaModelCache" where
  "Invalidate mid c =
     (case map_get (pc_cache c) mid of
        None \<Rightarrow> c
      | Some e \<Rightarrow>
          let c1 = drop_entry mid e c in
          c1\<lparr>pc_registry := EmitGauge ''model_cache_bytes_used'' (real (unat (pc_current_bytes c1))) (pc_registry c1)\<rparr>)"

definition Clear :: "PcaModelCache \<Rightarrow> PcaModelCache" where
  "Clear c = c\<lparr>pc_cache := [], pc_current_bytes := 0,
               pc_registry := EmitGauge ''model_cache_bytes_used'' 0 (pc_registry c)\<rparr>"

definition GetStats :: "PcaModelCache \<Rightarrow> CacheStats" where
  "GetStats c =
     \<lparr>st_size = length (pc_cache c), st_bytes_used = pc_current_bytes c, st_max_bytes = pc_max_bytes c,
      st_hits = pc_hits c, st_misses = pc_misses c, st_evictions = pc_evictions c\<rparr>"

section \<open>Entries\<close>

definition usage_sum :: "entries \<Rightarrow> nat" where
  "usage_sum m = (\<Sum>e \<leftarrow> m. unat (ce_memory_usage (snd e)))"

definition entries_wf :: "entries \<Rightarrow> bool" where
  "entries_wf m \<longleftrightarrow> distinct (map fst m)"

definition enumerates :: "(entries \<Rightarrow> entries) \<Rightarrow> bool" where
  "enumerates ord \<longleftrightarrow> (\<forall>m. mset (ord m) = mset m)"

lemma entries_wf_erase [simp]: "entries_wf m \<Longrightarrow> entries_wf (map_erase k m)"
  unfolding entries_wf_def map_erase_def by (induction m) auto

lemma entries_wf_assign [simp]: "entries_wf m \<Longrightarrow> entries_wf (assign_entry k e m)"
  using keys_map_erase [of k m] entries_wf_erase [of m k] by (auto simp: entries_wf_def assign_entry_def)

lemma erase_absent: "map_get m k = None \<Longrightarrow> map_erase k m = m"
  by (induction m) (auto simp: map_erase_def split: if_splits)

lemma usage_erase:
  assumes "entries_wf m" "map_get m k = Some e"
  shows "usage_sum m = unat (ce_memory_usage e) + usage_sum (map_erase k m)"
    and "length m = Suc (length (map_erase k m))"
proof -
  have "usage_sum m = unat (ce_memory_usage e) + usage_sum (map_erase k m) \<and> length m = Suc (length (map_erase k m))"
    using assms
  proof (induction m)
    case Nil
    then show ?case by simp
  next
    case (Cons x m)
    show ?case
    proof (cases "fst x = k")
      case True
      then have "map_get m k = None"
        using Cons.prems(1) by (auto simp: entries_wf_def map_of_eq_None_iff)
      then show ?thesis
        using True Cons.prems erase_absent [of m k] by (auto simp: usage_sum_def map_erase_def)
    next
      case False
      then show ?thesis
        using Cons by (cases x) (auto simp: usage_sum_def map_erase_def entries_wf_def)
    qed
  qed
  then show "usage_sum m = unat (ce_memory_usage e) + usage_sum (map_erase k m)" "length m = Suc (length (map_erase k m))"
    by auto
qed

lemma usage_assign: "usage_sum (assign_entry k e m) = unat (ce_memory_usage e) + usage_sum (map_erase k m)"
  by (simp add: usage_sum_def assign_entry_def)

lemma map_get_assign [simp]: "map_get (assign_entry k e m) = (map_get m)(k \<mapsto> e)"
  by (simp add: assign_entry_def fun_eq_iff)

text \<open>The scan finds an entry with the least access time.\<close>

lemma oldest_entry_min:
  assumes "es \<noteq> []"
  shows "oldest_entry es \<in> set es" and "\<forall>x \<in> set es. ce_last_access (snd (oldest_entry es)) \<le> ce_last_access (snd x)"
  using fold_keep_min [of "\<lambda>e. ce_last_access (snd e)" es "hd es"] assms
  by (auto simp: oldest_entry_def)

lemma enumerates_set: "enumerates ord \<Longrightarrow> set (ord m) = set m"
  by (metis enumerates_def set_mset_mset)

lemma enumerates_nonempty: "enumerates ord \<Longrightarrow> m \<noteq> [] \<Longrightarrow> ord m \<noteq> []"
  by (metis enumerates_set set_empty)


section \<open>Byte accounting\<close>

definition bytes_ok :: "PcaModelCache \<Rightarrow> bool" where
  "bytes_ok c \<longleftrightarrow> entries_wf (pc_cache c) \<and> unat (pc_current_bytes c) = usage_sum (pc_cache c)
     \<and> usage_sum (pc_cache c) \<le> unat (pc_max_bytes c)"

definition cache_inv :: "PcaModelCache \<Rightarrow> bool" where
  "cache_inv c \<longleftrightarrow> bytes_ok c \<and> length (pc_cache c) \<le> max 1 (pc_max_entries c)"

lemma bytes_ok_registry [simp]: "bytes_ok (c\<lparr>pc_registry := r\<rparr>) = bytes_ok c"
  by (simp add: bytes_ok_def)

lemma drop_entry_ok:
  assumes "bytes_ok c" "map_get (pc_cache c) mid = Some e"
  shows "bytes_ok (drop_entry mid e c)" and "length (pc_cache c) = Suc (length (pc_cache (drop_entry mid e c)))"
    and "usage_sum (pc_cache (drop_entry mid e c)) \<le> usage_sum (pc_cache c)"
proof -
  have wf: "entries_wf (pc_cache c)" using assms(1) by (simp add: bytes_ok_def)
  note u = usage_erase [OF wf assms(2)]
  show "bytes_ok (drop_entry mid e c)"
    using assms(1) u by (simp add: bytes_ok_def drop_entry_def unat_size_t_sub)
  show "length (pc_cache c) = Suc (length (pc_cache (drop_entry mid e c)))"
    "usage_sum (pc_cache (drop_entry mid e c)) \<le> usage_sum (pc_cache c)"
    using u by (simp_all add: drop_entry_def)
qed

lemma drop_entry_simps [simp]:
  "pc_max_bytes (drop_entry mid e c) = pc_max_bytes c" "pc_max_entries (drop_entry mid e c) = pc_max_entries c"
  "pc_ttl (drop_entry mid e c) = pc_ttl c" "pc_registry (drop_entry mid e c) = pc_registry c"
  by (simp_all add: drop_entry_def)

lemma note_miss_simps [simp]:
  "pc_cache (note_miss c) = pc_cache c" "bytes_ok (note_miss c) = bytes_ok c"
  "pc_max_bytes (note_miss c) = pc_max_bytes c" "pc_max_entries (note_miss c) = pc_max_entries c"
  "pc_ttl (note_miss c) = pc_ttl c"
  by (simp_all add: note_miss_def bytes_ok_def)

lemma EvictLru_simps [simp]:
  "pc_max_bytes (EvictLru ord c) = pc_max_bytes c" "pc_max_entries (EvictLru ord c) = pc_max_entries c"
  "pc_ttl (EvictLru ord c) = pc_ttl c"
  by (simp_all add: EvictLru_def Let_def)

text \<open>One eviction removes exactly one entry, a least recently used one.\<close>

lemma EvictLru_victim:
  assumes "enumerates ord" "bytes_ok c" "pc_cache c \<noteq> []"
  obtains mid e where "map_get (pc_cache c) mid = Some e" "pc_cache (EvictLru ord c) = map_erase mid (pc_cache c)"
    "bytes_ok (EvictLru ord c)" "\<forall>x \<in> set (pc_cache c). ce_last_access e \<le> ce_last_access (snd x)"
    "length (pc_cache c) = Suc (length (pc_cache (EvictLru ord c)))"
proof -
  let ?o = "oldest_entry (ord (pc_cache c))"
  note ne = enumerates_nonempty [OF assms(1,3)]
  have o: "?o \<in> set (pc_cache c)" "\<forall>x \<in> set (pc_cache c). ce_last_access (snd ?o) \<le> ce_last_access (snd x)"
    using oldest_entry_min [OF ne] by (simp_all add: enumerates_set [OF assms(1)])
  then have get: "map_get (pc_cache c) (fst ?o) = Some (snd ?o)"
    using assms(2) by (simp add: bytes_ok_def entries_wf_def)
  have "EvictLru ord c = (drop_entry (fst ?o) (snd ?o) c)\<lparr>pc_evictions := pc_evictions c + 1,
           pc_registry := EmitCounter ''model_cache_evictions'' 1 [] (pc_registry c)\<rparr>"
    using assms(3) by (simp add: EvictLru_def Let_def)
  then show ?thesis
    using that [OF get _ _ o(2)] drop_entry_ok [OF assms(2) get] by (simp add: bytes_ok_def drop_entry_def)
qed

lemma evict_loop_simps [simp]:
  "pc_max_bytes (evict_loop n ord extra c) = pc_max_bytes c"
  "pc_max_entries (evict_loop n ord extra c) = pc_max_entries c"
  "pc_ttl (evict_loop n ord extra c) = pc_ttl c"
  by (induction n arbitrary: c) simp_all

lemma map_erase_subset: "set (map_erase k m) \<subseteq> set m"
  by (auto simp: map_erase_def)

text \<open>The loop ends with enough room or an empty cache, and has evicted in order of access time.\<close>

lemma evict_loop_ok:
  assumes "enumerates ord" "bytes_ok c" "length (pc_cache c) \<le> n"
  shows "bytes_ok (evict_loop n ord extra c)
    \<and> (pc_cache (evict_loop n ord extra c) = [] \<or> pc_current_bytes (evict_loop n ord extra c) + extra \<le> pc_max_bytes c)
    \<and> set (pc_cache (evict_loop n ord extra c)) \<subseteq> set (pc_cache c)
    \<and> length (pc_cache (evict_loop n ord extra c)) \<le> length (pc_cache c)
    \<and> (\<forall>x \<in> set (pc_cache c) - set (pc_cache (evict_loop n ord extra c)).
        \<forall>y \<in> set (pc_cache (evict_loop n ord extra c)). ce_last_access (snd x) \<le> ce_last_access (snd y))"
  using assms(2,3)
proof (induction n arbitrary: c)
  case 0
  then show ?case by simp
next
  case (Suc n)
  show ?case
  proof (cases "pc_cache c \<noteq> [] \<and> pc_current_bytes c + extra > pc_max_bytes c")
    case False
    then show ?thesis using Suc.prems by auto
  next
    case True
    obtain mid e where ev: "map_get (pc_cache c) mid = Some e" "pc_cache (EvictLru ord c) = map_erase mid (pc_cache c)"
        "bytes_ok (EvictLru ord c)" "\<forall>x \<in> set (pc_cache c). ce_last_access e \<le> ce_last_access (snd x)"
        "length (pc_cache c) = Suc (length (pc_cache (EvictLru ord c)))"
      using EvictLru_victim [OF assms(1) Suc.prems(1)] True by blast
    note IH = Suc.IH [OF ev(3)]
    have gone: "x = (mid, e) \<or> x \<in> set (pc_cache (EvictLru ord c))" if "x \<in> set (pc_cache c)" for x
    proof (cases "fst x = mid")
      case True
      then show ?thesis
        using that ev(1) Suc.prems(1) by (cases x) (auto simp: bytes_ok_def entries_wf_def)
    next
      case False
      then show ?thesis using that ev(2) by (simp add: map_erase_def)
    qed
    have sub: "set (pc_cache (EvictLru ord c)) \<subseteq> set (pc_cache c)"
      using map_erase_subset [of mid "pc_cache c"] ev(2) by simp
    let ?r = "evict_loop n ord extra (EvictLru ord c)"
    have r: "evict_loop (Suc n) ord extra c = ?r"
      using True by simp
    have "ce_last_access (snd x) \<le> ce_last_access (snd y)" if "x \<in> set (pc_cache c) - set (pc_cache ?r)" "y \<in> set (pc_cache ?r)" for x y
    proof (cases "x = (mid, e)")
      case True
      then show ?thesis using that ev(4,5) IH Suc.prems(2) sub by auto
    next
      case False
      then show ?thesis using that gone [of x] IH ev(5) Suc.prems(2) by auto
    qed
    then show ?thesis
      unfolding r using IH Suc.prems(2) ev(5) sub by auto
  qed
qed


section \<open>The invariant\<close>

lemma cache_inv_lookup:
  assumes "cache_inv c"
  shows "cache_inv (snd (cache_lookup now mid path c))"
proof (cases "map_get (pc_cache c) mid")
  case None
  then show ?thesis using assms by (simp add: cache_lookup_def cache_inv_def)
next
  case (Some e)
  have ok: "bytes_ok c" and wf: "entries_wf (pc_cache c)"
    using assms by (auto simp: cache_inv_def bytes_ok_def)
  note d = drop_entry_ok [OF ok Some] and u = usage_erase [OF wf Some]
  have "cache_inv (note_miss (drop_entry mid e c))"
    using assms d by (simp add: cache_inv_def)
  moreover have "cache_inv (c\<lparr>pc_hits := pc_hits c + 1,
      pc_cache := assign_entry mid (e\<lparr>ce_last_access := now\<rparr>) (pc_cache c),
      pc_registry := EmitCounter ''model_cache_hits'' 1 [] (pc_registry c)\<rparr>)"
    using assms u wf by (simp add: cache_inv_def bytes_ok_def usage_assign) (simp add: assign_entry_def)
  ultimately show ?thesis
    using Some by (simp add: cache_lookup_def)
qed

text \<open>A miss leaves no entry under the identifier.\<close>

lemma lookup_miss_absent:
  assumes "cache_lookup now mid path c = (None, c1)"
  shows "map_get (pc_cache c1) mid = None"
  using assms by (auto simp: cache_lookup_def drop_entry_def split: option.splits if_splits)

lemma no_wrap_sum:
  fixes a b m :: size_t
  assumes "unat a \<le> unat m" "unat b \<le> unat m" "unat m < 2 ^ 63" "a + b \<le> m"
  shows "unat a + unat b \<le> unat m" "unat (a + b) = unat a + unat b"
proof -
  have "unat a + unat b < 2 ^ 64"
    using assms(1-3) by simp
  then show eq: "unat (a + b) = unat a + unat b"
    by (rule unat_size_t_add)
  then show "unat a + unat b \<le> unat m"
    using assms(4) by (simp add: word_le_nat_alt)
qed

text \<open>What a commit of a model that fits leaves, on a cache without an entry for the identifier.\<close>

lemma commit_fits:
  assumes "enumerates ord" "cache_inv c" "map_get (pc_cache c) mid = None" "usage \<le> pc_max_bytes c"
    and "unat (pc_max_bytes c) < 2 ^ 63"
  shows "cache_inv (cache_commit ord now mid path model usage c)"
proof -
  let ?c1 = "EnsureCapacity ord usage c"
  have "bytes_ok c" using assms(2) by (simp add: cache_inv_def)
  from evict_loop_ok [OF assms(1) this order_refl, of usage]
  have c1: "bytes_ok ?c1" "pc_cache ?c1 = [] \<or> pc_current_bytes ?c1 + usage \<le> pc_max_bytes c"
      "set (pc_cache ?c1) \<subseteq> set (pc_cache c)" "length (pc_cache ?c1) \<le> length (pc_cache c)"
      and cfg: "pc_max_bytes ?c1 = pc_max_bytes c" "pc_max_entries ?c1 = pc_max_entries c"
    by (simp_all add: EnsureCapacity_def)
  define c2 where "c2 = (if length (pc_cache ?c1) \<ge> pc_max_entries ?c1 then EvictLru ord ?c1 else ?c1)"
  have c2: "bytes_ok c2 \<and> usage_sum (pc_cache c2) \<le> usage_sum (pc_cache ?c1) \<and> set (pc_cache c2) \<subseteq> set (pc_cache ?c1)
      \<and> length (pc_cache c2) + 1 \<le> max 1 (pc_max_entries c) \<and> pc_max_bytes c2 = pc_max_bytes c \<and> pc_max_entries c2 = pc_max_entries c"
  proof (cases "pc_cache ?c1 = []")
    case True
    then show ?thesis
      using c1(1) cfg by (auto simp: c2_def EvictLru_def)
  next
    case ne: False
    obtain k e where ev: "map_get (pc_cache ?c1) k = Some e" "pc_cache (EvictLru ord ?c1) = map_erase k (pc_cache ?c1)"
        "bytes_ok (EvictLru ord ?c1)" "length (pc_cache ?c1) = Suc (length (pc_cache (EvictLru ord ?c1)))"
      using EvictLru_victim [OF assms(1) c1(1) ne] by metis
    have "usage_sum (map_erase k (pc_cache ?c1)) \<le> usage_sum (pc_cache ?c1)"
      using usage_erase(1) [OF _ ev(1)] c1(1) by (simp add: bytes_ok_def)
    then show ?thesis
      using ev c1(1,4) cfg map_erase_subset [of k "pc_cache ?c1"] assms(2)
      by (auto simp: c2_def cache_inv_def)
  qed
  have room: "usage_sum (pc_cache c2) + unat usage \<le> unat (pc_max_bytes c)"
  proof (cases "pc_cache ?c1 = []")
    case True
    then show ?thesis using c2 assms(4) by (auto simp: usage_sum_def word_le_nat_alt)
  next
    case False
    then have "pc_current_bytes ?c1 + usage \<le> pc_max_bytes c" using c1(2) by simp
    from no_wrap_sum(1) [OF _ _ assms(5) this] c1(1) cfg assms(4) c2 show ?thesis
      by (auto simp: bytes_ok_def word_le_nat_alt)
  qed
  have absent: "map_erase mid (pc_cache c2) = pc_cache c2"
    using assms(3) c2 c1(3) by (intro erase_absent) (auto simp: map_of_eq_None_iff)
  have sum: "unat (pc_current_bytes c2 + usage) = usage_sum (pc_cache c2) + unat usage"
    using c2 room assms(5) by (subst unat_size_t_add) (auto simp: bytes_ok_def)
  have wf: "entries_wf (pc_cache c2)"
    using c2 by (simp add: bytes_ok_def)
  have "cache_commit ord now mid path model usage c = (let c3 = c2\<lparr>pc_cache := assign_entry mid
                      \<lparr>ce_model = model, ce_last_access = now, ce_artifact_path = path, ce_memory_usage = usage\<rparr>
                      (pc_cache c2), pc_current_bytes := pc_current_bytes c2 + usage\<rparr>
        in c3\<lparr>pc_registry := EmitGauge ''model_cache_entries'' (real (length (pc_cache c3)))
               (EmitGauge ''model_cache_bytes_used'' (real (unat (pc_current_bytes c3))) (pc_registry c3))\<rparr>)"
    using assms(4) by (simp add: cache_commit_def Let_def c2_def)
  then show ?thesis
    using c2 room sum wf absent
    by (simp add: Let_def cache_inv_def bytes_ok_def usage_assign) (simp add: assign_entry_def)
qed


lemma lookup_config [simp]:
  "pc_max_bytes (snd (cache_lookup now mid path c)) = pc_max_bytes c"
  "pc_max_entries (snd (cache_lookup now mid path c)) = pc_max_entries c"
  "pc_ttl (snd (cache_lookup now mid path c)) = pc_ttl c"
  by (auto simp: cache_lookup_def split: option.splits)

lemma commit_config [simp]:
  "pc_max_bytes (cache_commit ord now mid path model usage c) = pc_max_bytes c"
  "pc_ttl (cache_commit ord now mid path model usage c) = pc_ttl c"
  by (simp_all add: cache_commit_def Let_def EnsureCapacity_def)

lemma commit_entry:
  "usage \<le> pc_max_bytes c \<Longrightarrow> map_get (pc_cache (cache_commit ord now mid path model usage c)) mid =
     Some \<lparr>ce_model = model, ce_last_access = now, ce_artifact_path = path, ce_memory_usage = usage\<rparr>"
  by (simp add: cache_commit_def Let_def not_le)

lemma cache_inv_registry [simp]: "cache_inv (c\<lparr>pc_registry := r\<rparr>) = cache_inv c"
  by (simp add: cache_inv_def)

lemma cache_inv_commit:
  assumes "enumerates ord" "cache_inv c" "map_get (pc_cache c) mid = None" "unat (pc_max_bytes c) < 2 ^ 63"
  shows "cache_inv (cache_commit ord now mid path model usage c)"
proof (cases "usage \<le> pc_max_bytes c")
  case True
  then show ?thesis using commit_fits [OF assms(1-3)] assms(4) by simp
next
  case False
  then show ?thesis using assms(2) by (simp add: cache_commit_def not_le)
qed

lemma cache_inv_Invalidate: "cache_inv c \<Longrightarrow> cache_inv (Invalidate mid c)"
  using drop_entry_ok [of c mid] by (auto simp: Invalidate_def cache_inv_def Let_def split: option.splits)

lemma cache_inv_Clear: "cache_inv c \<Longrightarrow> cache_inv (Clear c)"
  by (simp add: Clear_def cache_inv_def bytes_ok_def entries_wf_def usage_sum_def)

lemma GetOrCreate_cases:
  assumes "GetOrCreate ord sz env now mid path c = (out, c')"
  obtains (hit) model where "cache_lookup now mid path c = (Some model, c')" "out = Returned model"
  | (stored) c1 model reg u where "cache_lookup now mid path c = (None, c1)"
      "Load env path (new_PcaModel, pc_registry c1) = (Returned u, model, reg)" "out = Returned model"
      "c' = cache_commit ord now mid path model (EstimateMemoryUsage sz model)
              (c1\<lparr>pc_registry := EmitCounter ''model_load_count'' 1 [] reg\<rparr>)"
  | (failed) c1 reg where "cache_lookup now mid path c = (None, c1)" "c' = c1\<lparr>pc_registry := reg\<rparr>"
      "\<nexists>model. out = Returned model"
proof -
  obtain r c1 where l: "cache_lookup now mid path c = (r, c1)"
    by (metis prod.exhaust)
  show thesis
  proof (cases r)
    case None
    obtain lo model reg where ld: "Load env path (new_PcaModel, pc_registry c1) = (lo, model, reg)"
      by (metis prod.exhaust)
    show thesis
      using assms l None ld stored failed by (cases lo) (auto simp: GetOrCreate_def)
  next
    case (Some model)
    then show thesis using assms l hit by (auto simp: GetOrCreate_def)
  qed
qed

text \<open>Calls one after another; every call may walk the hash table in another order.\<close>

inductive cache_step :: "size_t \<Rightarrow> PcaModelCache \<Rightarrow> PcaModelCache \<Rightarrow> bool" for sz :: size_t where
  get_or_create: "enumerates ord \<Longrightarrow> GetOrCreate ord sz env now mid path c = (out, c') \<Longrightarrow> cache_step sz c c'"
| invalidate: "cache_step sz c (Invalidate mid c)"
| clear: "cache_step sz c (Clear c)"

definition cache_init :: "nat \<Rightarrow> size_t \<Rightarrow> int \<Rightarrow> PcaModelCache \<Rightarrow> bool" where
  "cache_init me mb ttl c \<longleftrightarrow> (\<exists>reg. c = new_PcaModelCache me mb ttl reg) \<and> unat mb < 2 ^ 63"

definition cache_sound :: "nat \<Rightarrow> size_t \<Rightarrow> int \<Rightarrow> PcaModelCache \<Rightarrow> bool" where
  "cache_sound me mb ttl c \<longleftrightarrow>
     cache_inv c \<and> pc_max_entries c = me \<and> pc_max_bytes c = mb \<and> pc_ttl c = ttl \<and> unat mb < 2 ^ 63"

lemma cache_sound_step:
  assumes "cache_sound me mb ttl c" "cache_step sz c c'"
  shows "cache_sound me mb ttl c'"
  using assms(2)
proof cases
  case (get_or_create ord env now mid path out)
  have inv: "cache_inv c" and mb: "unat (pc_max_bytes c) < 2 ^ 63"
    using assms(1) by (auto simp: cache_sound_def)
  from get_or_create(2) show ?thesis
  proof (cases rule: GetOrCreate_cases)
    case (hit model)
    then show ?thesis
      using assms(1) cache_inv_lookup [OF inv, of now mid path] lookup_config [of now mid path c]
      by (simp add: cache_sound_def)
  next
    case (stored c1 model reg u)
    let ?c1 = "c1\<lparr>pc_registry := EmitCounter ''model_load_count'' 1 [] reg\<rparr>"
    have c1: "cache_inv ?c1" "map_get (pc_cache ?c1) mid = None" "unat (pc_max_bytes ?c1) < 2 ^ 63"
      using cache_inv_lookup [OF inv, of now mid path] lookup_miss_absent [OF stored(1)] lookup_config [of now mid path c]
        stored(1) mb by simp_all
    moreover have "pc_max_entries c' = pc_max_entries c" "pc_max_bytes c' = pc_max_bytes c" "pc_ttl c' = pc_ttl c"
      using stored(1,4) lookup_config [of now mid path c] by (simp_all add: cache_commit_def Let_def EnsureCapacity_def)
    ultimately show ?thesis
      using cache_inv_commit [OF get_or_create(1) c1] stored(4) assms(1) by (simp add: cache_sound_def)
  next
    case (failed c1 reg)
    then show ?thesis
      using assms(1) cache_inv_lookup [OF inv, of now mid path] lookup_config [of now mid path c]
      by (simp add: cache_sound_def)
  qed
next
  case (invalidate mid)
  then show ?thesis
    using assms(1) cache_inv_Invalidate [of c mid]
    by (auto simp: cache_sound_def Invalidate_def Let_def split: option.splits)
next
  case clear
  then show ?thesis
    using assms(1) cache_inv_Clear [of c] by (auto simp: cache_sound_def Clear_def)
qed

interpretation model_cache: inductive_invariant "cache_init me mb ttl" "cache_step sz" "cache_sound me mb ttl"
  for me :: nat and mb :: size_t and ttl :: int and sz :: size_t
proof unfold_locales
  show "cache_sound me mb ttl c" if "cache_init me mb ttl c" for c
    using that by (auto simp: cache_init_def cache_sound_def new_PcaModelCache_def cache_inv_def bytes_ok_def
        entries_wf_def usage_sum_def)
  show "cache_sound me mb ttl c'" if "cache_sound me mb ttl c" "cache_step sz c c'" for c c'
    using cache_sound_step that .
qed

section \<open>Properties\<close>



text \<open>
  The cache serves what it loaded: a call that returned a model which fits is followed, for the
  same identifier and path at any time within the time to live, by a call that returns that same
  model without touching the file, counted as a hit; a failed load leaves no entry behind.
\<close>

theorem GetOrCreate_then_hit:
  assumes "GetOrCreate ord sz env now mid path c = (out, c')"
    and "now \<le> now'" and "now' \<le> now + pc_ttl c * 1000000000"
  shows "(\<forall>model. out = Returned model \<longrightarrow> EstimateMemoryUsage sz model \<le> pc_max_bytes c \<longrightarrow>
      (\<exists>c''. GetOrCreate ord' sz env' now' mid path c' = (Returned model, c'') \<and> pc_hits c'' = pc_hits c' + 1))
    \<and> ((\<nexists>model. out = Returned model) \<longrightarrow> map_get (pc_cache c') mid = None)"
proof -
  have again: "\<exists>c''. GetOrCreate ord' sz env' now' mid path c' = (Returned model, c'') \<and> pc_hits c'' = pc_hits c' + 1"
    if "map_get (pc_cache c') mid = Some e" "ce_model e = model" "ce_artifact_path e = path"
      "ce_last_access e = now" "pc_ttl c' = pc_ttl c" for e model
    using that assms(2,3) by (simp add: GetOrCreate_def cache_lookup_def)
  from assms(1) show ?thesis
  proof (cases rule: GetOrCreate_cases)
    case (hit m)
    then obtain e where "map_get (pc_cache c) mid = Some e" "ce_model e = m" "ce_artifact_path e = path"
        "c' = c\<lparr>pc_hits := pc_hits c + 1, pc_cache := assign_entry mid (e\<lparr>ce_last_access := now\<rparr>) (pc_cache c),
               pc_registry := EmitCounter ''model_cache_hits'' 1 [] (pc_registry c)\<rparr>"
      by (auto simp: cache_lookup_def split: option.splits if_splits)
    then show ?thesis
      using again [of "e\<lparr>ce_last_access := now\<rparr>" m] hit(2) by simp
  next
    case (stored c1 m reg u)
    have cfg: "pc_max_bytes c1 = pc_max_bytes c" "pc_ttl c1 = pc_ttl c"
      using lookup_config [of now mid path c] stored(1) by simp_all
    have "\<exists>c''. GetOrCreate ord' sz env' now' mid path c' = (Returned m, c'') \<and> pc_hits c'' = pc_hits c' + 1"
      if "EstimateMemoryUsage sz m \<le> pc_max_bytes c"
      using commit_entry [of "EstimateMemoryUsage sz m" "c1\<lparr>pc_registry := EmitCounter ''model_load_count'' 1 [] reg\<rparr>"
          ord now mid path m] that cfg stored(4)
        again [of "\<lparr>ce_model = m, ce_last_access = now, ce_artifact_path = path, ce_memory_usage = EstimateMemoryUsage sz m\<rparr>" m]
      by simp
    then show ?thesis
      using stored(3) by simp
  next
    case (failed c1 reg)
    then show ?thesis
      using lookup_miss_absent [OF failed(1)] by simp
  qed
qed


definition ex_cache :: PcaModelCache where
  "ex_cache = (new_PcaModelCache 2 1000 60 empty_registry)
     \<lparr>pc_cache := [(''m1'', \<lparr>ce_model = ex_model, ce_last_access = 5, ce_artifact_path = ''p'', ce_memory_usage = 288\<rparr>)],
      pc_current_bytes := 288\<rparr>"

theorem GetOrCreate_then_hit_witness:
  "\<exists>c' c''. GetOrCreate (\<lambda>m. m) 128
       \<lparr>file_text = \<lambda>_. None, parse_json = \<lambda>_. Inr JNull, file_size = \<lambda>_. None, elapsed_ms = 0\<rparr> 7 ''m1'' ''p'' ex_cache
       = (Returned ex_model, c')
     \<and> GetOrCreate (\<lambda>m. m) 128
       \<lparr>file_text = \<lambda>_. None, parse_json = \<lambda>_. Inr JNull, file_size = \<lambda>_. None, elapsed_ms = 0\<rparr> 9 ''m1'' ''p'' c'
       = (Returned ex_model, c'')"
proof -
  let ?env = "\<lparr>file_text = \<lambda>_. None, parse_json = \<lambda>_. Inr JNull, file_size = \<lambda>_. None, elapsed_ms = 0\<rparr> :: artifact_env"
  obtain c' where 1: "GetOrCreate (\<lambda>m. m) 128 ?env 7 ''m1'' ''p'' ex_cache = (Returned ex_model, c')"
    by (simp add: GetOrCreate_def cache_lookup_def ex_cache_def new_PcaModelCache_def)
  have "EstimateMemoryUsage 128 ex_model \<le> pc_max_bytes ex_cache"
    by (simp add: EstimateMemoryUsage_def ex_model_def ex_cache_def new_PcaModelCache_def)
  then show ?thesis
    using GetOrCreate_then_hit [OF 1, of 9 "\<lambda>m. m" ?env] 1
    by (auto simp: ex_cache_def new_PcaModelCache_def)
qed

text \<open>What may be thrown out: an order by access time between what goes and what stays.\<close>

definition lru_kept :: "entries \<Rightarrow> entries \<Rightarrow> bool" where
  "lru_kept m m' \<longleftrightarrow> set m' \<subseteq> set m
     \<and> (\<forall>x \<in> set m - set m'. \<forall>y \<in> set m'. ce_last_access (snd x) \<le> ce_last_access (snd y))"

lemma lru_kept_trans: "lru_kept m m' \<Longrightarrow> lru_kept m' m'' \<Longrightarrow> lru_kept m m''"
  unfolding lru_kept_def by blast

lemma lru_kept_EvictLru:
  assumes "enumerates ord" "bytes_ok c"
  shows "lru_kept (pc_cache c) (pc_cache (EvictLru ord c))"
proof (cases "pc_cache c = []")
  case True
  then show ?thesis by (simp add: EvictLru_def lru_kept_def)
next
  case False
  then obtain mid e where ev: "map_get (pc_cache c) mid = Some e" "pc_cache (EvictLru ord c) = map_erase mid (pc_cache c)"
      "\<forall>x \<in> set (pc_cache c). ce_last_access e \<le> ce_last_access (snd x)"
    using EvictLru_victim [OF assms] by metis
  have "x = (mid, e)" if "x \<in> set (pc_cache c) - set (map_erase mid (pc_cache c))" for x
    using that ev(1) assms(2) by (cases x) (auto simp: map_erase_def bytes_ok_def entries_wf_def dest: eq_key_imp_eq_value)
  then show ?thesis
    using ev(2,3) map_erase_subset [of mid "pc_cache c"] unfolding lru_kept_def by (metis snd_conv subsetD)
qed

text \<open>
  Least recently used first: storing a model, whatever order the hash table is walked in, evicts
  only entries whose last access is not later than that of any other entry it keeps.
\<close>

theorem commit_evicts_lru:
  assumes "enumerates ord" "bytes_ok c"
    and "x \<in> set (pc_cache c)" "x \<notin> set (pc_cache (cache_commit ord now mid path model usage c))" "fst x \<noteq> mid"
    and "y \<in> set (pc_cache (cache_commit ord now mid path model usage c))" "fst y \<noteq> mid"
  shows "y \<in> set (pc_cache c) \<and> ce_last_access (snd x) \<le> ce_last_access (snd y)"
proof -
  let ?c1 = "EnsureCapacity ord usage c"
  let ?c2 = "if length (pc_cache ?c1) \<ge> pc_max_entries ?c1 then EvictLru ord ?c1 else ?c1"
  have fits: "\<not> usage > pc_max_bytes c"
    using assms(3,4) by (auto simp: cache_commit_def)
  have "bytes_ok ?c1" "lru_kept (pc_cache c) (pc_cache ?c1)"
    using evict_loop_ok [OF assms(1,2) order_refl, of usage] by (simp_all add: EnsureCapacity_def lru_kept_def)
  then have kept: "lru_kept (pc_cache c) (pc_cache ?c2)"
    using lru_kept_EvictLru [OF assms(1), of ?c1] lru_kept_trans by auto
  have "pc_cache (cache_commit ord now mid path model usage c) =
      (mid, \<lparr>ce_model = model, ce_last_access = now, ce_artifact_path = path, ce_memory_usage = usage\<rparr>)
        # map_erase mid (pc_cache ?c2)"
    using fits by (simp add: cache_commit_def Let_def assign_entry_def)
  then have "x \<notin> set (pc_cache ?c2)" "y \<in> set (pc_cache ?c2)"
    using assms(4-7) by (auto simp: map_erase_def)
  then show ?thesis
    using kept assms(3) by (auto simp: lru_kept_def)
qed

definition ex_entry :: "time_point \<Rightarrow> CacheEntry" where
  "ex_entry t = \<lparr>ce_model = ex_model, ce_last_access = t, ce_artifact_path = ''p'', ce_memory_usage = 288\<rparr>"

definition ex_full_cache :: PcaModelCache where
  "ex_full_cache = (new_PcaModelCache 2 1000 60 empty_registry)
     \<lparr>pc_cache := [(''m1'', ex_entry 5), (''m2'', ex_entry 4)], pc_current_bytes := 576\<rparr>"

theorem commit_evicts_lru_witness:
  "(''m2'', ex_entry 4) \<notin> set (pc_cache (cache_commit (\<lambda>m. m) 9 ''m3'' ''p'' ex_model 288 ex_full_cache))
   \<and> ce_last_access (ex_entry 4) \<le> ce_last_access (ex_entry 5)"
proof -
  have ok: "bytes_ok ex_full_cache" and en: "enumerates (\<lambda>m. m)"
    by (simp_all add: bytes_ok_def ex_full_cache_def new_PcaModelCache_def entries_wf_def usage_sum_def ex_entry_def enumerates_def)
  have "pc_cache (cache_commit (\<lambda>m. m) 9 ''m3'' ''p'' ex_model 288 ex_full_cache) =
      [(''m3'', ex_entry 9), (''m1'', ex_entry 5)]"
    by (simp add: cache_commit_def Let_def EnsureCapacity_def ex_full_cache_def new_PcaModelCache_def EvictLru_def
        oldest_entry_def drop_entry_def map_erase_def assign_entry_def ex_entry_def)
  then show ?thesis
    using commit_evicts_lru [OF en ok, of "(''m2'', ex_entry 4)" 9 "''m3''" "''p''" ex_model 288 "(''m1'', ex_entry 5)"]
    by (simp add: ex_full_cache_def)
qed

text \<open>
  Overlapping misses: two callers that miss the same identifier before either has stored its model
  both store it. The second assignment replaces the first entry without giving its bytes back, so
  the counter exceeds the size of the cached models by one model, and stays so after the entry is
  invalidated and the cache is empty.
\<close>

theorem concurrent_miss_leaks_bytes:
  assumes "me \<ge> 2" "2 * unat usage \<le> unat mb" "unat mb < 2 ^ 63"
    and "cache_lookup t1 mid path (new_PcaModelCache me mb ttl reg) = (r1, c1)"
    and "cache_lookup t2 mid path c1 = (r2, c2)"
    and "c3 = cache_commit ord t1 mid path model usage c2"
    and "c4 = cache_commit ord t2 mid path model usage c3"
  shows "r1 = None \<and> r2 = None \<and> length (pc_cache c4) = 1 \<and> usage_sum (pc_cache c4) = unat usage
    \<and> unat (pc_current_bytes c4) = 2 * unat usage
    \<and> pc_cache (Invalidate mid c4) = [] \<and> unat (pc_current_bytes (Invalidate mid c4)) = unat usage"
proof -
  have c2: "r1 = None" "r2 = None" "pc_cache c2 = []" "pc_current_bytes c2 = 0" "pc_max_bytes c2 = mb" "pc_max_entries c2 = me"
    using assms(4,5) by (auto simp: cache_lookup_def new_PcaModelCache_def note_miss_def)
  have fit: "\<not> mb < usage"
    using assms(2) by (simp add: word_less_nat_alt)
  let ?e = "\<lambda>t. \<lparr>ce_model = model, ce_last_access = t, ce_artifact_path = path, ce_memory_usage = usage\<rparr>"
  have c3: "pc_cache c3 = [(mid, ?e t1)]" "pc_current_bytes c3 = usage" "pc_max_bytes c3 = mb" "pc_max_entries c3 = me"
    using c2 fit assms(1) by (simp_all add: assms(6) cache_commit_def Let_def EnsureCapacity_def assign_entry_def map_erase_def EvictLru_def)
  have two: "unat (usage + usage) = 2 * unat usage"
    using assms(2,3) by (subst unat_size_t_add) auto
  then have room: "\<not> mb < usage + usage"
    using assms(2) by (simp add: word_less_nat_alt)
  have c4: "pc_cache c4 = [(mid, ?e t2)]" "pc_current_bytes c4 = usage + usage"
    using c3 fit room assms(1) by (simp_all add: assms(7) cache_commit_def Let_def EnsureCapacity_def assign_entry_def map_erase_def)
  then show ?thesis
    using c2 two by (simp add: usage_sum_def Invalidate_def drop_entry_def map_erase_def)
qed

theorem concurrent_miss_leaks_bytes_witness:
  "\<exists>c4 :: PcaModelCache. length (pc_cache c4) = 1 \<and> unat (pc_current_bytes c4) = 576 \<and> usage_sum (pc_cache c4) = 288"
proof -
  obtain r1 c1 where l1: "cache_lookup 1 ''m'' ''p'' (new_PcaModelCache 2 1000 60 empty_registry) = (r1, c1)"
    by (metis prod.exhaust)
  obtain r2 c2 where l2: "cache_lookup 2 ''m'' ''p'' c1 = (r2, c2)"
    by (metis prod.exhaust)
  let ?c4 = "cache_commit (\<lambda>m. m) 2 ''m'' ''p'' ex_model 288 (cache_commit (\<lambda>m. m) 1 ''m'' ''p'' ex_model 288 c2)"
  have "length (pc_cache ?c4) = 1 \<and> unat (pc_current_bytes ?c4) = 576 \<and> usage_sum (pc_cache ?c4) = 288"
    using concurrent_miss_leaks_bytes [OF _ _ _ l1 l2 refl refl, of 288 "\<lambda>m. m" ex_model] by simp
  then show ?thesis
    by blast
qed

end
