(* ===== verification/Hpo.thy ===== *)
theory Hpo
  imports Json
begin

text \<open>
  Hyper-parameter search, the second half of \<^verbatim>\<open>src/src/training/pca_trainer.{h,cpp}\<close>: validation of
  a search configuration, the preflight estimate shown before a run, the trials generated for it and
  the fingerprint that identifies it. The draws of \<^verbatim>\<open>std::uniform_int_distribution\<close> on a seeded
  Mersenne twister are the parameter \<open>draw seed k hi\<close>, the \<open>k\<close>-th draw from \<open>0..hi\<close>; the serialiser
  and \<^verbatim>\<open>std::hash\<close> are parameters of the fingerprint.
\<close>

section \<open>Operations\<close>

record TrainingConfig =
  tc_dataset_id :: string
  tc_n_components :: int
  tc_percentile :: real
  tc_feature_set :: "string list"

record HpoConfig =
  hpo_algorithm :: string
  hpo_max_trials :: int
  hpo_max_concurrency :: int
  hpo_seed :: "int option"
  hpo_n_components :: "int list"
  hpo_percentile :: "real list"

record HpoValidationError =
  ve_field :: string
  ve_message :: string

datatype HpoCapReason = NONE | MAX_TRIALS | GRID_CAP

record HpoPreflight =
  estimated_candidates :: int
  effective_trials :: int
  capped_by :: HpoCapReason

definition kHpoGeneratorVersion :: string where
  "kHpoGeneratorVersion = ''hpo_generator_v1''"

text \<open>\<^verbatim>\<open>static_cast<int>\<close> of a size.\<close>

definition int_cast :: "nat \<Rightarrow> int" where
  "int_cast n = sint (of_nat n :: 32 word)"

definition components_space :: "HpoConfig \<Rightarrow> int list" where
  "components_space hpo = (if hpo_n_components hpo = [] then [3] else hpo_n_components hpo)"

definition percentiles_space :: "HpoConfig \<Rightarrow> real list" where
  "percentiles_space hpo = (if hpo_percentile hpo = [] then [995 / 10] else hpo_percentile hpo)"

definition PreflightHpoConfig :: "HpoConfig \<Rightarrow> HpoPreflight" where
  "PreflightHpoConfig hpo =
     (let total = length (components_space hpo) * length (percentiles_space hpo) in
      if hpo_algorithm hpo = ''grid'' then
        \<lparr>estimated_candidates = int_cast total,
         effective_trials =
           (if total > 100 then 100
            else if int_cast total > hpo_max_trials hpo then hpo_max_trials hpo else int_cast total),
         capped_by =
           (if total > 100 then GRID_CAP
            else if int_cast total > hpo_max_trials hpo then MAX_TRIALS else NONE)\<rparr>
      else if hpo_algorithm hpo = ''random'' then
        \<lparr>estimated_candidates = hpo_max_trials hpo, effective_trials = hpo_max_trials hpo, capped_by = NONE\<rparr>
      else \<lparr>estimated_candidates = 0, effective_trials = 0, capped_by = NONE\<rparr>)"

definition hpo_error :: "bool \<Rightarrow> string \<Rightarrow> string \<Rightarrow> HpoValidationError list" where
  "hpo_error bad field message = (if bad then [\<lparr>ve_field = field, ve_message = message\<rparr>] else [])"

definition ValidateHpoConfig :: "HpoConfig \<Rightarrow> HpoValidationError list" where
  "ValidateHpoConfig config =
     hpo_error (hpo_algorithm config \<noteq> ''grid'' \<and> hpo_algorithm config \<noteq> ''random'')
       ''algorithm'' (''Algorithm must be '' @ [CHR 0x27] @ ''grid'' @ [CHR 0x27] @ '' or '' @ [CHR 0x27] @ ''random'' @ [CHR 0x27])
     @ hpo_error (hpo_max_trials config \<le> 0 \<or> hpo_max_trials config > 50)
       ''max_trials'' ''max_trials must be between 1 and 50''
     @ hpo_error (hpo_max_concurrency config \<le> 0 \<or> hpo_max_concurrency config > 10)
       ''max_concurrency'' ''max_concurrency must be between 1 and 10''
     @ hpo_error (hpo_n_components config = [] \<and> hpo_percentile config = [])
       ''search_space'' ''Search space cannot be empty''
     @ hpo_error (list_ex (\<lambda>n. n \<le> 0 \<or> n > 5) (hpo_n_components config))
       ''search_space.n_components'' ''n_components must be between 1 and 5''
     @ hpo_error (list_ex (\<lambda>p. p < 50 \<or> p \<ge> 100) (hpo_percentile config))
       ''search_space.percentile'' ''percentile must be between 50.0 and 99.99''
     @ (if hpo_algorithm config = ''grid''
        then hpo_error ((if hpo_n_components config = [] then 1 else length (hpo_n_components config))
                        * (if hpo_percentile config = [] then 1 else length (hpo_percentile config)) > 100)
               ''search_space'' ''Grid search space too large (max 100 combinations)''
        else [])"

definition new_trial :: "string \<Rightarrow> int \<Rightarrow> real \<Rightarrow> TrainingConfig" where
  "new_trial dataset n p =
     \<lparr>tc_dataset_id = dataset, tc_n_components = n, tc_percentile = p,
      tc_feature_set = [''cpu_usage'', ''memory_usage'', ''disk_utilization'', ''network_rx_rate'', ''network_tx_rate'']\<rparr>"

text \<open>The two nested loops of the grid, each left when the trial limit is reached.\<close>

fun grid_percentiles :: "int \<Rightarrow> string \<Rightarrow> int \<Rightarrow> real list \<Rightarrow> TrainingConfig list \<Rightarrow> TrainingConfig list" where
  "grid_percentiles limit dataset n [] trials = trials"
| "grid_percentiles limit dataset n (p # ps) trials =
     (if int (length trials) \<ge> limit then trials
      else grid_percentiles limit dataset n ps (trials @ [new_trial dataset n p]))"

fun grid_components :: "int \<Rightarrow> string \<Rightarrow> int list \<Rightarrow> real list \<Rightarrow> TrainingConfig list \<Rightarrow> TrainingConfig list" where
  "grid_components limit dataset [] ps trials = trials"
| "grid_components limit dataset (n # ns) ps trials =
     (let trials1 = grid_percentiles limit dataset n ps trials in
      if int (length trials1) \<ge> limit then trials1 else grid_components limit dataset ns ps trials1)"

definition GenerateTrials :: "(nat \<Rightarrow> nat \<Rightarrow> nat \<Rightarrow> nat) \<Rightarrow> int \<Rightarrow> HpoConfig \<Rightarrow> string \<Rightarrow> TrainingConfig list" where
  "GenerateTrials draw clock hpo dataset =
     (let ns = components_space hpo; ps = percentiles_space hpo in
      if hpo_algorithm hpo = ''grid'' then grid_components (hpo_max_trials hpo) dataset ns ps []
      else if hpo_algorithm hpo = ''random'' then
        let seed = unat (word_of_int (case hpo_seed hpo of Some s \<Rightarrow> s | None \<Rightarrow> clock) :: 32 word) in
        map (\<lambda>i. new_trial dataset (ns ! draw seed (2 * i) (length ns - 1)) (ps ! draw seed (2 * i + 1) (length ps - 1)))
          [0..<nat (hpo_max_trials hpo)]
      else [])"

definition clamp :: "int \<Rightarrow> int \<Rightarrow> int \<Rightarrow> int" where
  "clamp v lo hi = (if v < lo then lo else if hi < v then hi else v)"

definition fingerprint_json :: "HpoConfig \<Rightarrow> json" where
  "fingerprint_json hpo =
     jset ''generator_version'' (JStr kHpoGeneratorVersion)
     (jset2 ''search_space'' ''percentile'' (JArr (map JReal (sort (hpo_percentile hpo))))
     (jset2 ''search_space'' ''n_components'' (JArr (map JInt (sort (hpo_n_components hpo))))
     (jset ''seed'' (case hpo_seed hpo of Some s \<Rightarrow> JInt s | None \<Rightarrow> JNull)
     (jset ''max_concurrency'' (JInt (clamp (hpo_max_concurrency hpo) 1 10))
     (jset ''max_trials'' (JInt (hpo_max_trials hpo))
     (jset ''algorithm'' (JStr (hpo_algorithm hpo)) JNull))))))"

definition hex_digit :: "nat \<Rightarrow> char" where
  "hex_digit d = (if d < 10 then char_of (48 + d) else char_of (87 + d))"

fun hex_string :: "nat \<Rightarrow> string" where
  "hex_string n = (if n < 16 then [hex_digit n] else hex_string (n div 16) @ [hex_digit (n mod 16)])"

definition ComputeCandidateFingerprint :: "(json \<Rightarrow> string) \<Rightarrow> (string \<Rightarrow> size_t) \<Rightarrow> HpoConfig \<Rightarrow> string" where
  "ComputeCandidateFingerprint dump hash hpo = hex_string (unat (hash (dump (fingerprint_json hpo))))"

section \<open>The grid is a prefix of the product\<close>

definition grid_trials :: "string \<Rightarrow> int list \<Rightarrow> real list \<Rightarrow> TrainingConfig list" where
  "grid_trials dataset ns ps = concat (map (\<lambda>n. map (new_trial dataset n) ps) ns)"

lemma grid_percentiles_take:
  "int (length trials) \<le> limit \<Longrightarrow>
     grid_percentiles limit dataset n ps trials = take (nat limit) (trials @ map (new_trial dataset n) ps)"
proof (induction ps arbitrary: trials)
  case (Cons p ps)
  show ?case
  proof (cases "int (length trials) \<ge> limit")
    case True
    then have "nat limit = length trials" using Cons.prems by simp
    then show ?thesis using True by simp
  next
    case False
    then show ?thesis using Cons.IH [of "trials @ [new_trial dataset n p]"] by simp
  qed
qed simp

lemma grid_components_take:
  "int (length trials) \<le> limit \<Longrightarrow>
     grid_components limit dataset ns ps trials = take (nat limit) (trials @ grid_trials dataset ns ps)"
proof (induction ns arbitrary: trials)
  case Nil
  then show ?case by (simp add: grid_trials_def)
next
  case (Cons n ns)
  let ?row = "trials @ map (new_trial dataset n) ps"
  have t1: "grid_percentiles limit dataset n ps trials = take (nat limit) ?row"
    by (rule grid_percentiles_take) (rule Cons.prems)
  have g: "trials @ grid_trials dataset (n # ns) ps = ?row @ grid_trials dataset ns ps"
    by (simp add: grid_trials_def)
  show ?case
  proof (cases "int (length (take (nat limit) ?row)) \<ge> limit")
    case True
    then have "nat limit \<le> length ?row" by auto
    then have "take (nat limit) (?row @ grid_trials dataset ns ps) = take (nat limit) ?row"
      by simp
    then show ?thesis
      using True by (simp only: grid_components.simps t1 g Let_def if_True)
  next
    case False
    then have "take (nat limit) ?row = ?row" by auto
    then show ?thesis
      using False Cons.IH [of ?row] by (simp only: grid_components.simps t1 g Let_def if_False)
  qed
qed

lemma length_grid_trials [simp]: "length (grid_trials dataset ns ps) = length ns * length ps"
  by (induction ns) (simp_all add: grid_trials_def)

lemma set_grid_trials: "set (grid_trials dataset ns ps) = {new_trial dataset n p | n p. n \<in> set ns \<and> p \<in> set ps}"
  by (auto simp: grid_trials_def)

lemma new_trial_inj: "new_trial d n p = new_trial d n' p' \<longleftrightarrow> n = n' \<and> p = p'"
  by (simp add: new_trial_def)

lemma distinct_grid_trials: "distinct ns \<Longrightarrow> distinct ps \<Longrightarrow> distinct (grid_trials dataset ns ps)"
  unfolding grid_trials_def by (induction ns) (auto simp: distinct_map inj_on_def new_trial_inj)

lemma int_cast_small: "n < 2 ^ 31 \<Longrightarrow> int_cast n = int n"
  by (simp add: int_cast_def signed_of_nat signed_take_bit_int_eq_self)


section \<open>Validated configurations\<close>

lemma hpo_error_Nil [simp]: "hpo_error bad f m = [] \<longleftrightarrow> \<not> bad"
  by (simp add: hpo_error_def)

lemma valid_config:
  assumes "ValidateHpoConfig hpo = []"
  shows "hpo_algorithm hpo = ''grid'' \<or> hpo_algorithm hpo = ''random''"
    and "1 \<le> hpo_max_trials hpo \<and> hpo_max_trials hpo \<le> 50"
    and "\<forall>n \<in> set (components_space hpo). 1 \<le> n \<and> n \<le> 5"
    and "\<forall>p \<in> set (percentiles_space hpo). 50 \<le> p \<and> p < 100"
    and "hpo_algorithm hpo = ''grid'' \<Longrightarrow> length (components_space hpo) * length (percentiles_space hpo) \<le> 100"
  using assms by (auto simp: ValidateHpoConfig_def components_space_def percentiles_space_def list_ex_iff split: if_splits)

lemma spaces_nonempty [simp]: "components_space hpo \<noteq> []" "percentiles_space hpo \<noteq> []"
  by (simp_all add: components_space_def percentiles_space_def)

lemma GenerateTrials_grid:
  "hpo_algorithm hpo = ''grid'' \<Longrightarrow> hpo_max_trials hpo \<ge> 0 \<Longrightarrow>
     GenerateTrials draw clock hpo dataset =
       take (nat (hpo_max_trials hpo)) (grid_trials dataset (components_space hpo) (percentiles_space hpo))"
  by (simp add: GenerateTrials_def Let_def grid_components_take)

lemma draw_index:
  assumes "\<And>s k hi. draw s k hi \<le> hi" "xs \<noteq> []"
  shows "draw s k (length xs - 1) < length xs"
  using assms(1) [of s k "length xs - 1"] assms(2) by (cases xs) auto

lemma random_trial_in:
  assumes "\<And>s k hi. draw s k hi \<le> hi"
  shows "new_trial dataset (components_space hpo ! draw s i (length (components_space hpo) - 1))
       (percentiles_space hpo ! draw s j (length (percentiles_space hpo) - 1))
     \<in> set (grid_trials dataset (components_space hpo) (percentiles_space hpo))"
  using draw_index [of draw "components_space hpo" s i] draw_index [of draw "percentiles_space hpo" s j] assms
  by (auto simp: set_grid_trials new_trial_inj)

section \<open>The normalised document\<close>

lemma fingerprint_fields:
  "jat (fingerprint_json hpo) ''algorithm'' = Inr (JStr (hpo_algorithm hpo))"
  "jat (fingerprint_json hpo) ''max_trials'' = Inr (JInt (hpo_max_trials hpo))"
  "jat (fingerprint_json hpo) ''max_concurrency'' = Inr (JInt (clamp (hpo_max_concurrency hpo) 1 10))"
  "jat (fingerprint_json hpo) ''seed'' = Inr (case hpo_seed hpo of Some s \<Rightarrow> JInt s | None \<Rightarrow> JNull)"
  by (simp_all add: fingerprint_json_def jat_jset2_object del: jat_jset)

lemma fingerprint_space:
  "jat2 (fingerprint_json hpo) ''search_space'' ''n_components'' = Inr (JArr (map JInt (sort (hpo_n_components hpo))))"
  "jat2 (fingerprint_json hpo) ''search_space'' ''percentile'' = Inr (JArr (map JReal (sort (hpo_percentile hpo))))"
  by (simp_all add: fingerprint_json_def jat2_def jset2_def del: jat_jset)

lemma sort_eq_iff: "sort xs = sort ys \<longleftrightarrow> mset xs = mset (ys :: 'a::linorder list)"
  by (metis mset_sort properties_for_sort sorted_sort)

lemma fingerprint_json_eq_iff:
  "fingerprint_json a = fingerprint_json b \<longleftrightarrow>
      hpo_algorithm a = hpo_algorithm b \<and> hpo_max_trials a = hpo_max_trials b
      \<and> clamp (hpo_max_concurrency a) 1 10 = clamp (hpo_max_concurrency b) 1 10 \<and> hpo_seed a = hpo_seed b
      \<and> mset (hpo_n_components a) = mset (hpo_n_components b) \<and> mset (hpo_percentile a) = mset (hpo_percentile b)"
  (is "?l \<longleftrightarrow> ?r")
proof
  assume eq: ?l
  have "sort (hpo_n_components a) = sort (hpo_n_components b)" "sort (hpo_percentile a) = sort (hpo_percentile b)"
    using fingerprint_space [of a] fingerprint_space [of b] eq by (auto simp: inj_def)
  moreover have "hpo_seed a = hpo_seed b"
    using fingerprint_fields(4) [of a] fingerprint_fields(4) [of b] eq by (auto split: option.splits)
  ultimately show ?r
    using fingerprint_fields(1-3) [of a] fingerprint_fields(1-3) [of b] eq by (auto simp: sort_eq_iff)
next
  assume ?r
  then show ?l
    by (simp add: fingerprint_json_def sort_eq_iff [symmetric])
qed

section \<open>Properties\<close>

text \<open>
  A validated search configuration: the preflight estimate of the number of trials is exactly the
  number that is generated, between 1 and 50 and never cut by the grid cap; every trial is for the
  given dataset with a number of components from 1 to 5 and a percentile from 50 up to below 100,
  drawn from the search space; and a grid over distinct values never repeats a trial and misses a
  combination only when the trial limit is smaller than the grid.
\<close>

theorem preflight_exact:
  assumes "ValidateHpoConfig hpo = []" and "\<And>s k hi. draw s k hi \<le> hi"
    and "trials = GenerateTrials draw clock hpo dataset"
  shows "int (length trials) = effective_trials (PreflightHpoConfig hpo)
    \<and> 1 \<le> length trials \<and> length trials \<le> 50 \<and> capped_by (PreflightHpoConfig hpo) \<noteq> GRID_CAP
    \<and> (\<forall>t \<in> set trials. tc_dataset_id t = dataset \<and> 1 \<le> tc_n_components t \<and> tc_n_components t \<le> 5
         \<and> 50 \<le> tc_percentile t \<and> tc_percentile t < 100)
    \<and> (hpo_algorithm hpo = ''grid'' \<longrightarrow> distinct (components_space hpo) \<longrightarrow> distinct (percentiles_space hpo) \<longrightarrow>
         distinct trials
         \<and> (capped_by (PreflightHpoConfig hpo) = NONE \<longrightarrow>
              set trials = {new_trial dataset n p | n p. n \<in> set (components_space hpo) \<and> p \<in> set (percentiles_space hpo)}))"
proof -
  let ?g = "grid_trials dataset (components_space hpo) (percentiles_space hpo)"
  let ?total = "length (components_space hpo) * length (percentiles_space hpo)"
  note v = valid_config [OF assms(1)]
  have total: "?total \<ge> 1"
    by (simp add: Suc_le_eq)
  have sub: "set trials \<subseteq> set ?g"
    using v(1,2) GenerateTrials_grid [of hpo draw clock dataset] set_take_subset [of _ ?g] random_trial_in [OF assms(2)]
    by (auto simp: assms(3) GenerateTrials_def Let_def)
  then have each: "\<forall>t \<in> set trials. tc_dataset_id t = dataset \<and> 1 \<le> tc_n_components t \<and> tc_n_components t \<le> 5
         \<and> 50 \<le> tc_percentile t \<and> tc_percentile t < 100"
    using v(3,4) by (auto simp: set_grid_trials new_trial_def)
  show ?thesis
  proof (cases "hpo_algorithm hpo = ''grid''")
    case True
    then have tr: "trials = take (nat (hpo_max_trials hpo)) ?g" and small: "?total \<le> 100" "int_cast ?total = int ?total"
      using GenerateTrials_grid v(2,5) by (auto simp: assms(3) int_cast_small)
    have "distinct trials" if "distinct (components_space hpo)" "distinct (percentiles_space hpo)"
      using distinct_grid_trials [OF that, of dataset] by (simp add: tr)
    moreover have "set trials = set ?g" if "capped_by (PreflightHpoConfig hpo) = NONE"
    proof -
      have "\<not> int_cast ?total > hpo_max_trials hpo"
        using that True small(1) by (auto simp: PreflightHpoConfig_def Let_def)
      then have "?total \<le> nat (hpo_max_trials hpo)"
        using small(2) by linarith
      then show ?thesis
        by (simp add: tr)
    qed
    moreover have "length trials = min (nat (hpo_max_trials hpo)) ?total"
      by (simp add: tr)
    moreover have "effective_trials (PreflightHpoConfig hpo) = min (hpo_max_trials hpo) (int_cast ?total)"
        "capped_by (PreflightHpoConfig hpo) \<noteq> GRID_CAP"
      using True small(1) by (simp_all add: PreflightHpoConfig_def Let_def min_def)
    ultimately show ?thesis
      using v(2) each total small(2) by (auto simp: set_grid_trials [symmetric] simp del: of_nat_mult)
  next
    case False
    then have "hpo_algorithm hpo = ''random''" using v(1) by simp
    then have "length trials = nat (hpo_max_trials hpo)" "effective_trials (PreflightHpoConfig hpo) = hpo_max_trials hpo"
        "capped_by (PreflightHpoConfig hpo) = NONE"
      by (simp_all add: assms(3) PreflightHpoConfig_def GenerateTrials_def Let_def)
    then show ?thesis
      using v(2) each False by (simp add: nat_le_iff) linarith
  qed
qed

definition ex_hpo :: HpoConfig where
  "ex_hpo = \<lparr>hpo_algorithm = ''grid'', hpo_max_trials = 3, hpo_max_concurrency = 2, hpo_seed = None,
     hpo_n_components = [1, 2], hpo_percentile = [95, 99]\<rparr>"

theorem preflight_exact_witness:
  "int (length (GenerateTrials (\<lambda>s k hi. hi) 0 ex_hpo ''d'')) = effective_trials (PreflightHpoConfig ex_hpo)
   \<and> effective_trials (PreflightHpoConfig ex_hpo) = 3"
proof -
  have "ValidateHpoConfig ex_hpo = []"
    by (simp add: ValidateHpoConfig_def ex_hpo_def)
  from preflight_exact [OF this _ refl, of "\<lambda>s k hi. hi" 0 "''d''"] show ?thesis
    by (simp add: PreflightHpoConfig_def ex_hpo_def components_space_def percentiles_space_def int_cast_small)
qed

text \<open>
  What the fingerprint identifies: two configurations are normalised to the same document exactly
  when they agree on the algorithm, the trial limit, the clamped concurrency, the seed and, as
  multisets, on both search spaces; then their fingerprints are equal. Equal fingerprints do not
  mean equal trials: with a trial limit below the grid size the order of the search space decides
  which trials are run.
\<close>

theorem fingerprint_identifies:
  "(fingerprint_json a = fingerprint_json b \<longleftrightarrow>
      hpo_algorithm a = hpo_algorithm b \<and> hpo_max_trials a = hpo_max_trials b
      \<and> clamp (hpo_max_concurrency a) 1 10 = clamp (hpo_max_concurrency b) 1 10 \<and> hpo_seed a = hpo_seed b
      \<and> mset (hpo_n_components a) = mset (hpo_n_components b) \<and> mset (hpo_percentile a) = mset (hpo_percentile b))
   \<and> ComputeCandidateFingerprint dump hash ex_hpo = ComputeCandidateFingerprint dump hash (ex_hpo\<lparr>hpo_n_components := [2, 1]\<rparr>)
   \<and> set (GenerateTrials draw clock ex_hpo d) \<noteq> set (GenerateTrials draw clock (ex_hpo\<lparr>hpo_n_components := [2, 1]\<rparr>) d)"
proof -
  have iff: "fingerprint_json a = fingerprint_json b \<longleftrightarrow>
      hpo_algorithm a = hpo_algorithm b \<and> hpo_max_trials a = hpo_max_trials b
      \<and> clamp (hpo_max_concurrency a) 1 10 = clamp (hpo_max_concurrency b) 1 10 \<and> hpo_seed a = hpo_seed b
      \<and> mset (hpo_n_components a) = mset (hpo_n_components b) \<and> mset (hpo_percentile a) = mset (hpo_percentile b)" for a b
    by (rule fingerprint_json_eq_iff)
  have "fingerprint_json ex_hpo = fingerprint_json (ex_hpo\<lparr>hpo_n_components := [2, 1]\<rparr>)"
    by (simp add: iff ex_hpo_def)
  then have "ComputeCandidateFingerprint dump hash ex_hpo = ComputeCandidateFingerprint dump hash (ex_hpo\<lparr>hpo_n_components := [2, 1]\<rparr>)"
    by (simp add: ComputeCandidateFingerprint_def)
  moreover have "new_trial d 1 99 \<in> set (GenerateTrials draw clock ex_hpo d)"
      "new_trial d 1 99 \<notin> set (GenerateTrials draw clock (ex_hpo\<lparr>hpo_n_components := [2, 1]\<rparr>) d)"
    by (auto simp: GenerateTrials_def ex_hpo_def components_space_def percentiles_space_def new_trial_inj)
  ultimately show ?thesis
    using iff [of a b] by blast
qed

end
