(* ===== verification/Run_Store.thy ===== *)
theory Run_Store
  imports Features Json Metrics_Registry
begin

text \<open>
  The tables behind \<^verbatim>\<open>DbClient\<close> (\<^verbatim>\<open>src/src/db_client.cpp\<close>) and the operations on runs, jobs, scores
  and alerts, each as the SQL statement its body executes. A table is the list of its rows in the
  order of insertion; the primary and foreign keys are those of \<^verbatim>\<open>src/db/init.sql\<close>. A statement that
  violates a key, and any other failure of the connection or the server (the parameter \<open>fault\<close>),
  throws inside the transaction, which then changes nothing. The clock and the identifiers that the
  server generates are parameters; JSON columns hold documents.
\<close>

section \<open>Tables\<close>

record AnomalyConfig =
  ac_point_rate :: real
  ac_contextual_rate :: real
  ac_collective_rate :: real
  ac_correlation_break_rate :: real
  ac_burst_duration_points :: int

record TimingConfig =
  tc_fixed_lag_ms :: int
  tc_jitter_mu :: real
  tc_jitter_sigma :: real
  tc_max_clock_drift_ms :: int

record GenerateRequest =
  rq_tier :: string
  rq_host_count :: int
  rq_start_time_iso :: string
  rq_end_time_iso :: string
  rq_interval_seconds :: int
  rq_regions :: "string list"
  rq_anomaly_config :: "AnomalyConfig option"
  rq_timing_config :: "TimingConfig option"
  rq_seed :: int
  rq_request_id :: string

datatype JobType = Generation | ModelRun | ScoreJob

record generation_run =
  gr_run_id :: string
  gr_tier :: string
  gr_host_count :: int
  gr_start_time :: string
  gr_end_time :: string
  gr_interval_seconds :: int
  gr_seed :: int
  gr_status :: string
  gr_config :: GenerateRequest
  gr_inserted_rows :: int
  gr_error :: "string option"
  gr_request_id :: string
  gr_updated_at :: int

record telemetry_row =
  tel_record_id :: int
  tel_record :: TelemetryRecord

record model_run =
  mr_model_run_id :: string
  mr_dataset_id :: string
  mr_name :: string
  mr_status :: string
  mr_artifact_path :: "string option"
  mr_error :: "string option"
  mr_request_id :: string
  mr_training_config :: json
  mr_hpo_config :: "json option"
  mr_parent_run_id :: "string option"
  mr_trial_index :: "int option"
  mr_trial_params :: "json option"
  mr_best_trial_run_id :: "string option"
  mr_best_metric_value :: "real option"
  mr_best_metric_name :: "string option"
  mr_selection_metric_direction :: "string option"
  mr_tie_break_basis :: "string option"
  mr_is_eligible :: bool
  mr_eligibility_reason :: "string option"
  mr_selection_metric_value :: "real option"
  mr_candidate_fingerprint :: "string option"
  mr_generator_version :: "string option"
  mr_seed_used :: "int option"
  mr_error_summary :: "json option"
  mr_error_aggregates :: "json option"
  mr_selection_metric_source :: "string option"
  mr_selection_metric_computed_at :: "int option"
  mr_created_at :: int
  mr_completed_at :: "int option"
  mr_updated_at :: int

record inference_run =
  ir_inference_id :: string
  ir_model_run_id :: string
  ir_status :: string
  ir_anomaly_count :: int
  ir_details :: json
  ir_latency_ms :: real

record score_job =
  sj_job_id :: string
  sj_dataset_id :: string
  sj_model_run_id :: string
  sj_status :: string
  sj_total_rows :: int
  sj_processed_rows :: int
  sj_last_record_id :: int
  sj_error :: "string option"
  sj_request_id :: string
  sj_created_at :: int
  sj_updated_at :: int
  sj_completed_at :: "int option"

record score_row =
  sc_dataset_id :: string
  sc_model_run_id :: string
  sc_record_id :: int
  sc_reconstruction_error :: real
  sc_predicted :: bool

record db =
  generation_runs :: "generation_run list"
  telemetry :: "telemetry_row list"
  alerts :: "Alert list"
  model_runs :: "model_run list"
  inference_runs :: "inference_run list"
  score_jobs :: "score_job list"
  scores :: "score_row list"
  next_record_id :: int
  db_registry :: MetricsRegistry

text \<open>\<^verbatim>\<open>UPDATE ... SET f WHERE p\<close>.\<close>

definition update_where :: "('r \<Rightarrow> bool) \<Rightarrow> ('r \<Rightarrow> 'r) \<Rightarrow> 'r list \<Rightarrow> 'r list" where
  "update_where p f rows = map (\<lambda>r. if p r then f r else r) rows"

definition has_dataset :: "db \<Rightarrow> string \<Rightarrow> bool" where
  "has_dataset d i \<longleftrightarrow> i \<in> gr_run_id ` set (generation_runs d)"

definition has_model :: "db \<Rightarrow> string \<Rightarrow> bool" where
  "has_model d i \<longleftrightarrow> i \<in> mr_model_run_id ` set (model_runs d)"

definition key_violation :: cpp_exception where
  "key_violation = Sql_error ''key constraint violated''"

text \<open>A transaction: it fails as the server or a key constraint says, and then has no effect.\<close>

definition transact :: "cpp_exception option \<Rightarrow> bool \<Rightarrow> 'a \<Rightarrow> db \<Rightarrow> db \<Rightarrow> 'a cpp \<times> db" where
  "transact fault keys_ok result d' d =
     (case fault of
        Some e \<Rightarrow> (Inl e, d)
      | None \<Rightarrow> if keys_ok then (Inr result, d') else (Inl key_violation, d))"

section \<open>Generation runs, telemetry, alerts\<close>

text \<open>\<^verbatim>\<open>CreateRun\<close> logs and swallows every exception; \<open>valid_ts\<close> says which texts the server accepts as times.\<close>

definition CreateRun ::
  "cpp_exception option \<Rightarrow> (string \<Rightarrow> bool) \<Rightarrow> int \<Rightarrow> string \<Rightarrow> GenerateRequest \<Rightarrow> string \<Rightarrow> string \<Rightarrow> db \<Rightarrow> db" where
  "CreateRun fault valid_ts now run_id config status request_id d =
     snd (transact fault
       (\<not> has_dataset d run_id \<and> valid_ts (rq_start_time_iso config) \<and> valid_ts (rq_end_time_iso config)) ()
       (d\<lparr>generation_runs := generation_runs d @
           [\<lparr>gr_run_id = run_id, gr_tier = rq_tier config, gr_host_count = rq_host_count config,
             gr_start_time = rq_start_time_iso config, gr_end_time = rq_end_time_iso config,
             gr_interval_seconds = rq_interval_seconds config, gr_seed = rq_seed config, gr_status = status,
             gr_config = config, gr_inserted_rows = 0, gr_error = None, gr_request_id = request_id, gr_updated_at = now\<rparr>]\<rparr>) d)"

definition UpdateRunStatus :: "cpp_exception option \<Rightarrow> int \<Rightarrow> string \<Rightarrow> string \<Rightarrow> int \<Rightarrow> string \<Rightarrow> db \<Rightarrow> db" where
  "UpdateRunStatus fault now run_id status inserted_rows err d =
     snd (transact fault True ()
       (d\<lparr>generation_runs := update_where (\<lambda>r. gr_run_id r = run_id)
            (\<lambda>r. let r1 = r\<lparr>gr_status := status, gr_inserted_rows := inserted_rows, gr_updated_at := now\<rparr> in
                 if err \<noteq> '''' then r1\<lparr>gr_error := Some err\<rparr> else r1) (generation_runs d)\<rparr>) d)"

fun number_rows :: "int \<Rightarrow> TelemetryRecord list \<Rightarrow> telemetry_row list" where
  "number_rows i [] = []"
| "number_rows i (r # rs) = \<lparr>tel_record_id = i, tel_record = r\<rparr> # number_rows (i + 1) rs"

definition BatchInsertTelemetry :: "cpp_exception option \<Rightarrow> TelemetryRecord list \<Rightarrow> db \<Rightarrow> unit cpp \<times> db" where
  "BatchInsertTelemetry fault records d =
     (if records = [] then (Inr (), d)
      else transact fault (\<forall>r \<in> set records. has_dataset d (tr_run_id r)) ()
        (d\<lparr>telemetry := telemetry d @ number_rows (next_record_id d) records,
           next_record_id := next_record_id d + int (length records)\<rparr>) d)"

definition InsertAlert :: "cpp_exception option \<Rightarrow> Alert \<Rightarrow> db \<Rightarrow> db" where
  "InsertAlert fault alert d = snd (transact fault True () (d\<lparr>alerts := alerts d @ [alert]\<rparr>) d)"

record RunStatus =
  rn_run_id :: string
  rn_status :: string
  rn_inserted_rows :: int
  rn_error :: string
  rn_request_id :: string

definition GetRunStatus :: "cpp_exception option \<Rightarrow> string \<Rightarrow> db \<Rightarrow> RunStatus" where
  "GetRunStatus fault run_id d =
     (let status = \<lparr>rn_run_id = run_id, rn_status = '''', rn_inserted_rows = 0, rn_error = '''', rn_request_id = ''''\<rparr> in
      case fault of
        Some e \<Rightarrow> status\<lparr>rn_status := ''ERROR'', rn_error := what e\<rparr>
      | None \<Rightarrow>
          (case find (\<lambda>r. gr_run_id r = run_id) (generation_runs d) of
             None \<Rightarrow> status
           | Some r \<Rightarrow> status\<lparr>rn_status := gr_status r, rn_inserted_rows := gr_inserted_rows r,
               rn_error := (case gr_error r of None \<Rightarrow> '''' | Some e \<Rightarrow> e), rn_request_id := gr_request_id r\<rparr>))"

definition Heartbeat :: "cpp_exception option \<Rightarrow> int \<Rightarrow> JobType \<Rightarrow> string \<Rightarrow> db \<Rightarrow> db" where
  "Heartbeat fault now type job_id d =
     snd (transact fault True ()
       (case type of
          Generation \<Rightarrow> d\<lparr>generation_runs :=
            update_where (\<lambda>r. gr_run_id r = job_id) (\<lambda>r. r\<lparr>gr_updated_at := now\<rparr>) (generation_runs d)\<rparr>
        | ModelRun \<Rightarrow> d\<lparr>model_runs :=
            update_where (\<lambda>r. mr_model_run_id r = job_id) (\<lambda>r. r\<lparr>mr_updated_at := now\<rparr>) (model_runs d)\<rparr>
        | ScoreJob \<Rightarrow> d\<lparr>score_jobs :=
            update_where (\<lambda>r. sj_job_id r = job_id) (\<lambda>r. r\<lparr>sj_updated_at := now\<rparr>) (score_jobs d)\<rparr>) d)"

text \<open>The sweep over the three job tables; without a limit every active job is failed.\<close>

definition active :: "string \<Rightarrow> bool" where
  "active status \<longleftrightarrow> status = ''RUNNING'' \<or> status = ''PENDING''"

definition stale :: "int option \<Rightarrow> int \<Rightarrow> int \<Rightarrow> bool" where
  "stale stale_ttl now updated_at \<longleftrightarrow> (case stale_ttl of None \<Rightarrow> True | Some ttl \<Rightarrow> updated_at < now - ttl)"

definition ReconcileStaleJobs :: "cpp_exception option \<Rightarrow> int \<Rightarrow> int option \<Rightarrow> db \<Rightarrow> db" where
  "ReconcileStaleJobs fault now stale_ttl d =
     (let error_msg = (if stale_ttl \<noteq> None then ''Stale job detected (heartbeat timeout)'' else ''System restart/recovery'') in
      snd (transact fault True ()
        (d\<lparr>score_jobs := update_where (\<lambda>r. active (sj_status r) \<and> stale stale_ttl now (sj_updated_at r))
              (\<lambda>r. r\<lparr>sj_status := ''FAILED'', sj_error := Some error_msg, sj_updated_at := now\<rparr>) (score_jobs d),
           model_runs := update_where (\<lambda>r. active (mr_status r) \<and> stale stale_ttl now (mr_updated_at r))
              (\<lambda>r. r\<lparr>mr_status := ''FAILED'', mr_error := Some error_msg, mr_updated_at := now\<rparr>) (model_runs d),
           generation_runs := update_where (\<lambda>r. active (gr_status r) \<and> stale stale_ttl now (gr_updated_at r))
              (\<lambda>r. r\<lparr>gr_status := ''FAILED'', gr_error := Some error_msg, gr_updated_at := now\<rparr>) (generation_runs d)\<rparr>) d))"


section \<open>Model runs\<close>

definition jempty :: "json \<Rightarrow> bool" where
  "jempty j \<longleftrightarrow> j = JNull \<or> j = JArr [] \<or> j = JObj []"

definition text_column :: "string \<Rightarrow> string option" where
  "text_column s = (if s = '''' then None else Some s)"

definition json_column :: "json \<Rightarrow> json option" where
  "json_column j = (if jempty j then None else Some j)"

definition new_model_run :: "int \<Rightarrow> string \<Rightarrow> string \<Rightarrow> string \<Rightarrow> string \<Rightarrow> json \<Rightarrow> model_run" where
  "new_model_run now mid dataset_id name request_id training_config =
     \<lparr>mr_model_run_id = mid, mr_dataset_id = dataset_id, mr_name = name, mr_status = ''PENDING'',
      mr_artifact_path = None, mr_error = None, mr_request_id = request_id, mr_training_config = training_config,
      mr_hpo_config = None, mr_parent_run_id = None, mr_trial_index = None, mr_trial_params = None,
      mr_best_trial_run_id = None, mr_best_metric_value = None, mr_best_metric_name = None,
      mr_selection_metric_direction = None, mr_tie_break_basis = None, mr_is_eligible = True,
      mr_eligibility_reason = None, mr_selection_metric_value = None, mr_candidate_fingerprint = None,
      mr_generator_version = None, mr_seed_used = None, mr_error_summary = None, mr_error_aggregates = None,
      mr_selection_metric_source = None, mr_selection_metric_computed_at = None, mr_created_at = now,
      mr_completed_at = None, mr_updated_at = now\<rparr>"

text \<open>\<open>mid\<close> is the identifier the server generates.\<close>

definition CreateModelRun ::
  "cpp_exception option \<Rightarrow> int \<Rightarrow> string \<Rightarrow> string \<Rightarrow> string \<Rightarrow> json \<Rightarrow> string \<Rightarrow> json \<Rightarrow> string \<Rightarrow> string
     \<Rightarrow> int option \<Rightarrow> db \<Rightarrow> string cpp \<times> db" where
  "CreateModelRun fault now mid dataset_id name training_config request_id hpo_config fingerprint version seed_used d =
     transact fault (has_dataset d dataset_id \<and> \<not> has_model d mid) mid
       (d\<lparr>model_runs := model_runs d @
          [(new_model_run now mid dataset_id name request_id training_config)
             \<lparr>mr_hpo_config := json_column hpo_config, mr_candidate_fingerprint := text_column fingerprint,
              mr_generator_version := text_column version, mr_seed_used := seed_used\<rparr>]\<rparr>) d"

definition CreateHpoTrialRun ::
  "cpp_exception option \<Rightarrow> int \<Rightarrow> string \<Rightarrow> string \<Rightarrow> string \<Rightarrow> json \<Rightarrow> string \<Rightarrow> string \<Rightarrow> int \<Rightarrow> json
     \<Rightarrow> db \<Rightarrow> string cpp \<times> db" where
  "CreateHpoTrialRun fault now mid dataset_id name training_config request_id parent_run_id trial_index trial_params d =
     transact fault (has_dataset d dataset_id \<and> \<not> has_model d mid \<and> has_model d parent_run_id) mid
       (d\<lparr>model_runs := model_runs d @
          [(new_model_run now mid dataset_id name request_id training_config)
             \<lparr>mr_parent_run_id := Some parent_run_id, mr_trial_index := Some trial_index,
              mr_trial_params := Some trial_params\<rparr>]\<rparr>) d"

definition update_model :: "string \<Rightarrow> (model_run \<Rightarrow> model_run) \<Rightarrow> db \<Rightarrow> db" where
  "update_model mid f d = d\<lparr>model_runs := update_where (\<lambda>r. mr_model_run_id r = mid) f (model_runs d)\<rparr>"

definition UpdateModelRunStatus ::
  "cpp_exception option \<Rightarrow> int \<Rightarrow> string \<Rightarrow> string \<Rightarrow> string \<Rightarrow> string \<Rightarrow> json \<Rightarrow> db \<Rightarrow> db" where
  "UpdateModelRunStatus fault now mid status artifact_path err error_summary d =
     snd (transact fault True ()
       (update_model mid
          (\<lambda>r. if status = ''COMPLETED'' then
                 r\<lparr>mr_status := status, mr_artifact_path := Some artifact_path, mr_completed_at := Some now, mr_updated_at := now\<rparr>
               else if status = ''FAILED'' \<or> status = ''CANCELLED'' \<or> status = ''CANCELED'' then
                 r\<lparr>mr_status := status, mr_error := Some err, mr_error_summary := json_column error_summary,
                   mr_completed_at := Some now, mr_updated_at := now\<rparr>
               else r\<lparr>mr_status := status, mr_updated_at := now\<rparr>) d) d)"

definition TryTransitionModelRunStatus :: "cpp_exception option \<Rightarrow> string \<Rightarrow> string \<Rightarrow> string \<Rightarrow> db \<Rightarrow> bool \<times> db" where
  "TryTransitionModelRunStatus fault mid expected_current next_status d =
     (let p = (\<lambda>r. mr_model_run_id r = mid \<and> mr_status r = expected_current) in
      case fault of
        Some e \<Rightarrow> (False, d)
      | None \<Rightarrow> (list_ex p (model_runs d),
                 d\<lparr>model_runs := update_where p (\<lambda>r. r\<lparr>mr_status := next_status\<rparr>) (model_runs d)\<rparr>))"

definition UpdateBestTrial ::
  "cpp_exception option \<Rightarrow> string \<Rightarrow> string \<Rightarrow> real \<Rightarrow> string \<Rightarrow> string \<Rightarrow> string \<Rightarrow> db \<Rightarrow> db" where
  "UpdateBestTrial fault parent_run_id best_trial_run_id value name direction basis d =
     snd (transact fault (has_model d best_trial_run_id \<or> \<not> has_model d parent_run_id) ()
       (update_model parent_run_id
          (\<lambda>r. r\<lparr>mr_best_trial_run_id := Some best_trial_run_id, mr_best_metric_value := Some value,
                 mr_best_metric_name := Some name, mr_selection_metric_direction := Some direction,
                 mr_tie_break_basis := Some basis\<rparr>) d) d)"

definition UpdateTrialEligibility ::
  "cpp_exception option \<Rightarrow> int \<Rightarrow> string \<Rightarrow> bool \<Rightarrow> string \<Rightarrow> real \<Rightarrow> string \<Rightarrow> db \<Rightarrow> db" where
  "UpdateTrialEligibility fault now mid is_eligible reason metric_value source d =
     snd (transact fault True ()
       (update_model mid
          (\<lambda>r. r\<lparr>mr_is_eligible := is_eligible, mr_eligibility_reason := Some reason,
                 mr_selection_metric_value := Some metric_value, mr_selection_metric_source := text_column source,
                 mr_selection_metric_computed_at := Some now\<rparr>) d) d)"

definition UpdateParentErrorAggregates :: "cpp_exception option \<Rightarrow> string \<Rightarrow> json \<Rightarrow> db \<Rightarrow> db" where
  "UpdateParentErrorAggregates fault parent_run_id aggregates d =
     snd (transact fault True () (update_model parent_run_id (\<lambda>r. r\<lparr>mr_error_aggregates := Some aggregates\<rparr>) d) d)"

definition jtext :: "string option \<Rightarrow> json" where
  "jtext c = JStr (case c of None \<Rightarrow> '''' | Some s \<Rightarrow> s)"

definition jnullable :: "('a \<Rightarrow> json) \<Rightarrow> 'a option \<Rightarrow> json" where
  "jnullable f c = (case c of None \<Rightarrow> JNull | Some x \<Rightarrow> f x)"

definition jobject :: "(string \<times> json) list \<Rightarrow> json" where
  "jobject kvs = fold (\<lambda>(k, v) j. jset k v j) kvs JNull"

text \<open>The document built from a row; \<open>ts\<close> is the text form of a timestamp column.\<close>

definition model_run_json :: "(int \<Rightarrow> string) \<Rightarrow> model_run \<Rightarrow> json" where
  "model_run_json ts r = jobject
     [(''model_run_id'', JStr (mr_model_run_id r)), (''dataset_id'', JStr (mr_dataset_id r)), (''name'', JStr (mr_name r)),
      (''status'', JStr (mr_status r)), (''artifact_path'', jtext (mr_artifact_path r)), (''error'', jtext (mr_error r)),
      (''created_at'', JStr (ts (mr_created_at r))), (''completed_at'', jtext (map_option ts (mr_completed_at r))),
      (''request_id'', JStr (mr_request_id r)), (''training_config'', mr_training_config r),
      (''hpo_config'', jnullable id (mr_hpo_config r)), (''parent_run_id'', jnullable JStr (mr_parent_run_id r)),
      (''trial_index'', jnullable JInt (mr_trial_index r)), (''trial_params'', jnullable id (mr_trial_params r)),
      (''best_trial_run_id'', jnullable JStr (mr_best_trial_run_id r)),
      (''best_metric_value'', jnullable JReal (mr_best_metric_value r)),
      (''best_metric_name'', jnullable JStr (mr_best_metric_name r)),
      (''selection_metric_direction'', jnullable JStr (mr_selection_metric_direction r)),
      (''tie_break_basis'', jnullable JStr (mr_tie_break_basis r)), (''is_eligible'', JBool (mr_is_eligible r)),
      (''eligibility_reason'', jnullable JStr (mr_eligibility_reason r)),
      (''selection_metric_value'', jnullable JReal (mr_selection_metric_value r)),
      (''candidate_fingerprint'', jnullable JStr (mr_candidate_fingerprint r)),
      (''generator_version'', jnullable JStr (mr_generator_version r)), (''seed_used'', jnullable JInt (mr_seed_used r)),
      (''error_summary'', jnullable id (mr_error_summary r)), (''error_aggregates'', jnullable id (mr_error_aggregates r)),
      (''selection_metric_source'', jnullable JStr (mr_selection_metric_source r)),
      (''selection_metric_computed_at'', jnullable (\<lambda>t. JStr (ts t)) (mr_selection_metric_computed_at r))]"

definition GetModelRun :: "cpp_exception option \<Rightarrow> (int \<Rightarrow> string) \<Rightarrow> string \<Rightarrow> db \<Rightarrow> json" where
  "GetModelRun fault ts mid d =
     (if fault \<noteq> None then JNull
      else case find (\<lambda>r. mr_model_run_id r = mid) (model_runs d) of
             None \<Rightarrow> JNull | Some r \<Rightarrow> model_run_json ts r)"

definition trial_json :: "(int \<Rightarrow> string) \<Rightarrow> model_run \<Rightarrow> json" where
  "trial_json ts r = jobject
     [(''model_run_id'', JStr (mr_model_run_id r)), (''status'', JStr (mr_status r)),
      (''trial_index'', jnullable JInt (mr_trial_index r)), (''trial_params'', jnullable id (mr_trial_params r)),
      (''created_at'', JStr (ts (mr_created_at r))), (''completed_at'', jtext (map_option ts (mr_completed_at r))),
      (''error'', jtext (mr_error r)), (''is_eligible'', JBool (mr_is_eligible r)),
      (''eligibility_reason'', jnullable JStr (mr_eligibility_reason r)),
      (''selection_metric_value'', jnullable JReal (mr_selection_metric_value r)),
      (''selection_metric_source'', jnullable JStr (mr_selection_metric_source r)),
      (''error_summary'', jnullable id (mr_error_summary r)), (''dataset_id'', JStr (mr_dataset_id r)),
      (''name'', JStr (mr_name r)), (''training_config'', mr_training_config r)]"

text \<open>Trials always have an index (\<^verbatim>\<open>insert_hpo_trial\<close>); a row without one would end the read with the rows before it.\<close>

definition GetHpoTrialsPaginated :: "cpp_exception option \<Rightarrow> (int \<Rightarrow> string) \<Rightarrow> string \<Rightarrow> nat \<Rightarrow> nat \<Rightarrow> db \<Rightarrow> json list" where
  "GetHpoTrialsPaginated fault ts parent_run_id limit offset d =
     (if fault \<noteq> None then []
      else
        let rs = sort_key (\<lambda>r. case mr_trial_index r of None \<Rightarrow> 0 | Some i \<Rightarrow> i)
                   (filter (\<lambda>r. mr_parent_run_id r = Some parent_run_id) (model_runs d))
        in map (trial_json ts) (takeWhile (\<lambda>r. mr_trial_index r \<noteq> None \<and> mr_trial_params r \<noteq> None)
             (take limit (drop offset rs))))"

definition GetHpoTrials :: "cpp_exception option \<Rightarrow> (int \<Rightarrow> string) \<Rightarrow> string \<Rightarrow> db \<Rightarrow> json list" where
  "GetHpoTrials fault ts parent_run_id d = GetHpoTrialsPaginated fault ts parent_run_id 1000 0 d"

section \<open>Inference runs, score jobs, scores\<close>

definition CreateInferenceRun :: "cpp_exception option \<Rightarrow> string \<Rightarrow> string \<Rightarrow> db \<Rightarrow> string cpp \<times> db" where
  "CreateInferenceRun fault iid model_run_id d =
     transact fault (has_model d model_run_id \<and> iid \<notin> ir_inference_id ` set (inference_runs d)) iid
       (d\<lparr>inference_runs := inference_runs d @
          [\<lparr>ir_inference_id = iid, ir_model_run_id = model_run_id, ir_status = ''RUNNING'', ir_anomaly_count = 0,
            ir_details = JNull, ir_latency_ms = 0\<rparr>]\<rparr>) d"

definition UpdateInferenceRunStatus ::
  "cpp_exception option \<Rightarrow> string \<Rightarrow> string \<Rightarrow> int \<Rightarrow> json \<Rightarrow> real \<Rightarrow> db \<Rightarrow> db" where
  "UpdateInferenceRunStatus fault iid status anomaly_count details latency_ms d =
     snd (transact fault True ()
       (d\<lparr>inference_runs := update_where (\<lambda>r. ir_inference_id r = iid)
          (\<lambda>r. r\<lparr>ir_status := status, ir_anomaly_count := anomaly_count, ir_details := details, ir_latency_ms := latency_ms\<rparr>)
          (inference_runs d)\<rparr>) d)"

definition CreateScoreJob ::
  "cpp_exception option \<Rightarrow> int \<Rightarrow> string \<Rightarrow> string \<Rightarrow> string \<Rightarrow> string \<Rightarrow> db \<Rightarrow> string cpp \<times> db" where
  "CreateScoreJob fault now jid dataset_id model_run_id request_id d =
     (case fault of
        Some e \<Rightarrow> (Inl e, d)
      | None \<Rightarrow>
          (case find (\<lambda>r. sj_dataset_id r = dataset_id \<and> sj_model_run_id r = model_run_id \<and> active (sj_status r)) (score_jobs d) of
             Some r \<Rightarrow> (Inr (sj_job_id r), d)
           | None \<Rightarrow>
               transact None (has_dataset d dataset_id \<and> has_model d model_run_id \<and> jid \<notin> sj_job_id ` set (score_jobs d)) jid
                 (d\<lparr>score_jobs := score_jobs d @
                    [\<lparr>sj_job_id = jid, sj_dataset_id = dataset_id, sj_model_run_id = model_run_id, sj_status = ''PENDING'',
                      sj_total_rows = 0, sj_processed_rows = 0, sj_last_record_id = 0, sj_error = None,
                      sj_request_id = request_id, sj_created_at = now, sj_updated_at = now, sj_completed_at = None\<rparr>]\<rparr>) d))"

definition UpdateScoreJob ::
  "cpp_exception option \<Rightarrow> int \<Rightarrow> string \<Rightarrow> string \<Rightarrow> int \<Rightarrow> int \<Rightarrow> int \<Rightarrow> string \<Rightarrow> db \<Rightarrow> db" where
  "UpdateScoreJob fault now jid status total_rows processed_rows last_record_id err d =
     snd (transact fault True ()
       (d\<lparr>score_jobs := update_where (\<lambda>r. sj_job_id r = jid)
          (\<lambda>r. let r1 = r\<lparr>sj_status := status, sj_total_rows := total_rows, sj_processed_rows := processed_rows,
                        sj_last_record_id := last_record_id, sj_updated_at := now\<rparr> in
               if status = ''COMPLETED'' then r1\<lparr>sj_completed_at := Some now\<rparr>
               else if err \<noteq> '''' then r1\<lparr>sj_error := Some err\<rparr> else r1) (score_jobs d)\<rparr>) d)"

definition TryTransitionScoreJobStatus ::
  "cpp_exception option \<Rightarrow> int \<Rightarrow> string \<Rightarrow> string \<Rightarrow> string \<Rightarrow> db \<Rightarrow> bool \<times> db" where
  "TryTransitionScoreJobStatus fault now jid expected_current next_status d =
     (let p = (\<lambda>r. sj_job_id r = jid \<and> sj_status r = expected_current) in
      case fault of
        Some e \<Rightarrow> (False, d)
      | None \<Rightarrow> (list_ex p (score_jobs d),
                 d\<lparr>score_jobs := update_where p (\<lambda>r. r\<lparr>sj_status := next_status, sj_updated_at := now\<rparr>) (score_jobs d)\<rparr>))"

definition score_job_json :: "(int \<Rightarrow> string) \<Rightarrow> score_job \<Rightarrow> json" where
  "score_job_json ts r = jobject
     [(''job_id'', JStr (sj_job_id r)), (''dataset_id'', JStr (sj_dataset_id r)), (''model_run_id'', JStr (sj_model_run_id r)),
      (''status'', JStr (sj_status r)), (''total_rows'', JInt (sj_total_rows r)), (''processed_rows'', JInt (sj_processed_rows r)),
      (''last_record_id'', JInt (sj_last_record_id r)), (''error'', jtext (sj_error r)),
      (''created_at'', JStr (ts (sj_created_at r))), (''updated_at'', JStr (ts (sj_updated_at r))),
      (''completed_at'', jtext (map_option ts (sj_completed_at r))), (''request_id'', JStr (sj_request_id r))]"

definition GetScoreJob :: "cpp_exception option \<Rightarrow> (int \<Rightarrow> string) \<Rightarrow> string \<Rightarrow> db \<Rightarrow> json" where
  "GetScoreJob fault ts jid d =
     (if fault \<noteq> None then JNull
      else case find (\<lambda>r. sj_job_id r = jid) (score_jobs d) of None \<Rightarrow> JNull | Some r \<Rightarrow> score_job_json ts r)"

record ScoringRow =
  sr_record_id :: int
  sr_is_anomaly :: bool
  sr_features :: "real list"

definition scoring_row :: "telemetry_row \<Rightarrow> ScoringRow" where
  "scoring_row t = \<lparr>sr_record_id = tel_record_id t, sr_is_anomaly = tr_is_anomaly (tel_record t),
     sr_features = FromRecord (tel_record t)\<rparr>"

text \<open>\<^verbatim>\<open>SELECT ... WHERE run_id = $1 AND record_id > $2 ORDER BY record_id LIMIT $3\<close>, the statement of both readers.\<close>

definition rows_after :: "string \<Rightarrow> int \<Rightarrow> nat \<Rightarrow> db \<Rightarrow> telemetry_row list" where
  "rows_after run_id last_record_id limit d =
     take limit (sort_key tel_record_id
       (filter (\<lambda>t. tr_run_id (tel_record t) = run_id \<and> tel_record_id t > last_record_id) (telemetry d)))"

definition FetchScoringRowsAfterRecord :: "cpp_exception option \<Rightarrow> string \<Rightarrow> int \<Rightarrow> nat \<Rightarrow> db \<Rightarrow> ScoringRow list cpp" where
  "FetchScoringRowsAfterRecord fault dataset_id last_record_id limit d =
     (case fault of
        Some e \<Rightarrow> Inl e
      | None \<Rightarrow> Inr (map scoring_row (rows_after dataset_id last_record_id limit d)))"

definition InsertDatasetScores ::
  "cpp_exception option \<Rightarrow> real \<Rightarrow> string \<Rightarrow> string \<Rightarrow> (int \<times> real \<times> bool) list \<Rightarrow> db \<Rightarrow> unit cpp \<times> db" where
  "InsertDatasetScores fault elapsed_ms dataset_id model_run_id entries d =
     (if entries = [] then (Inr (), d)
      else
        let labels = [(''dataset_id'', dataset_id), (''model_run_id'', model_run_id)] in
        transact fault (has_dataset d dataset_id \<and> has_model d model_run_id) ()
          (d\<lparr>scores := scores d @ map (\<lambda>(rid, e, p). \<lparr>sc_dataset_id = dataset_id, sc_model_run_id = model_run_id,
               sc_record_id = rid, sc_reconstruction_error = e, sc_predicted = p\<rparr>) entries,
             db_registry := EmitHistogram ''scores_insert_duration_ms'' elapsed_ms labels
               (EmitCounter ''scores_insert_rows'' (int (length entries)) labels (db_registry d))\<rparr>) d)"

definition GetDatasetRecordCount :: "cpp_exception option \<Rightarrow> string \<Rightarrow> db \<Rightarrow> int cpp" where
  "GetDatasetRecordCount fault dataset_id d =
     (case fault of
        Some e \<Rightarrow> Inl e
      | None \<Rightarrow> Inr (int (length (filter (\<lambda>t. tr_run_id (tel_record t) = dataset_id) (telemetry d)))))"

text \<open>
  The six deletions in the order of the code. The server refuses to delete a model run that an
  inference run, a score job, a score or another model run still refers to.
\<close>

definition dataset_models :: "string \<Rightarrow> db \<Rightarrow> string set" where
  "dataset_models i d = mr_model_run_id ` {r \<in> set (model_runs d). mr_dataset_id r = i}"

definition delete_dataset_rows :: "string \<Rightarrow> db \<Rightarrow> db" where
  "delete_dataset_rows i d =
     d\<lparr>scores := filter (\<lambda>r. sc_dataset_id r \<noteq> i) (scores d),
       score_jobs := filter (\<lambda>r. sj_dataset_id r \<noteq> i) (score_jobs d),
       telemetry := filter (\<lambda>t. tr_run_id (tel_record t) \<noteq> i) (telemetry d),
       alerts := filter (\<lambda>a. al_run_id a \<noteq> i) (alerts d),
       model_runs := filter (\<lambda>r. mr_dataset_id r \<noteq> i) (model_runs d),
       generation_runs := filter (\<lambda>r. gr_run_id r \<noteq> i) (generation_runs d)\<rparr>"

definition models_unreferenced :: "string \<Rightarrow> db \<Rightarrow> bool" where
  "models_unreferenced i d \<longleftrightarrow>
     list_all (\<lambda>r. ir_model_run_id r \<notin> dataset_models i d) (inference_runs d)
     \<and> list_all (\<lambda>r. sj_dataset_id r \<noteq> i \<longrightarrow> sj_model_run_id r \<notin> dataset_models i d) (score_jobs d)
     \<and> list_all (\<lambda>r. sc_dataset_id r \<noteq> i \<longrightarrow> sc_model_run_id r \<notin> dataset_models i d) (scores d)
     \<and> list_all (\<lambda>r. mr_dataset_id r \<noteq> i \<longrightarrow>
          (\<forall>q \<in> set_option (mr_parent_run_id r) \<union> set_option (mr_best_trial_run_id r). q \<notin> dataset_models i d)) (model_runs d)"

definition DeleteDatasetWithScores :: "cpp_exception option \<Rightarrow> string \<Rightarrow> db \<Rightarrow> unit cpp \<times> db" where
  "DeleteDatasetWithScores fault dataset_id d =
     transact fault (models_unreferenced dataset_id d) () (delete_dataset_rows dataset_id d) d"


section \<open>Updates and keys\<close>

lemma update_where_key:
  "(\<And>r. k (f r) = k r) \<Longrightarrow> map k (update_where p f rows) = map k rows"
  by (simp add: update_where_def)

lemma update_where_key_image:
  "(\<And>r. k (f r) = k r) \<Longrightarrow> k ` set (update_where p f rows) = k ` set rows"
  by (metis update_where_key list.set_map)

lemma length_update_where [simp]: "length (update_where p f rows) = length rows"
  by (simp add: update_where_def)

lemma set_update_where: "r \<in> set (update_where p f rows) \<longleftrightarrow> (\<exists>s \<in> set rows. r = (if p s then f s else s))"
  by (auto simp: update_where_def)

lemma find_update_where:
  assumes "\<And>r. k (f r) = k r"
  shows "find (\<lambda>r. k r = i) (update_where p f rows) =
    map_option (\<lambda>r. if p r then f r else r) (find (\<lambda>r. k r = i) rows)"
  using assms by (induction rows) (auto simp: update_where_def)

text \<open>Primary keys are unique and every reference points to an existing row.\<close>

definition keys_unique :: "db \<Rightarrow> bool" where
  "keys_unique d \<longleftrightarrow>
     distinct (map gr_run_id (generation_runs d)) \<and> distinct (map mr_model_run_id (model_runs d))
     \<and> distinct (map ir_inference_id (inference_runs d)) \<and> distinct (map sj_job_id (score_jobs d))
     \<and> distinct (map tel_record_id (telemetry d))
     \<and> (\<forall>t \<in> set (telemetry d). 0 < tel_record_id t \<and> tel_record_id t < next_record_id d) \<and> 0 < next_record_id d"

definition references_ok :: "db \<Rightarrow> bool" where
  "references_ok d \<longleftrightarrow>
     (\<forall>t \<in> set (telemetry d). has_dataset d (tr_run_id (tel_record t)))
     \<and> (\<forall>r \<in> set (model_runs d). has_dataset d (mr_dataset_id r)
          \<and> (\<forall>q \<in> set_option (mr_parent_run_id r) \<union> set_option (mr_best_trial_run_id r). has_model d q))
     \<and> (\<forall>r \<in> set (inference_runs d). has_model d (ir_model_run_id r))
     \<and> (\<forall>r \<in> set (score_jobs d). has_dataset d (sj_dataset_id r) \<and> has_model d (sj_model_run_id r))
     \<and> (\<forall>r \<in> set (scores d). has_dataset d (sc_dataset_id r) \<and> has_model d (sc_model_run_id r))"

definition db_ok :: "db \<Rightarrow> bool" where
  "db_ok d \<longleftrightarrow> keys_unique d \<and> references_ok d"

lemma transact_cases:
  assumes "transact fault ok x d' d = (out, e)"
  obtains (committed) "out = Inr x" "e = d'" "fault = None" "ok" | (failed) ex where "out = Inl ex" "e = d"
  using assms by (cases fault) (auto simp: transact_def split: if_splits)

lemma snd_transact_ok: "(fault = None \<Longrightarrow> ok \<Longrightarrow> P d') \<Longrightarrow> P d \<Longrightarrow> P (snd (transact fault ok x d' d))"
  by (cases fault) (auto simp: transact_def)

section \<open>Compare-and-swap on a status column\<close>

text \<open>
  What the status transitions of a job table promise: \<open>ok\<close> is the table invariant, \<open>status_of\<close> the
  status of a row, \<open>attempt\<close> the conditional update, and \<open>reliable\<close> the runs of it in which the
  server does not fail.
\<close>

locale cas_table =
  fixes ok :: "'db \<Rightarrow> bool"
    and status_of :: "'db \<Rightarrow> string \<Rightarrow> string option"
    and attempt :: "'w \<Rightarrow> string \<Rightarrow> string \<Rightarrow> string \<Rightarrow> 'db \<Rightarrow> bool \<times> 'db"
    and reliable :: "'w \<Rightarrow> bool"
  assumes attempt_ok: "ok d \<Longrightarrow> attempt w i e n d = (b, d') \<Longrightarrow> ok d'"
    and attempt_won: "ok d \<Longrightarrow> attempt w i e n d = (True, d') \<Longrightarrow> status_of d i = Some e \<and> status_of d' i = Some n"
    and attempt_lost: "ok d \<Longrightarrow> attempt w i e n d = (False, d') \<Longrightarrow> status_of d' i = status_of d i"
    and attempt_reliable: "ok d \<Longrightarrow> reliable w \<Longrightarrow> status_of d i = Some e \<Longrightarrow> fst (attempt w i e n d)"
    and attempt_other: "ok d \<Longrightarrow> attempt w i e n d = (b, d') \<Longrightarrow> j \<noteq> i \<Longrightarrow> status_of d' j = status_of d j"

text \<open>Several callers, one after another in any order, each with its own next status.\<close>

primrec contend :: "('c \<Rightarrow> 'db \<Rightarrow> bool \<times> 'db) \<Rightarrow> 'c list \<Rightarrow> 'db \<Rightarrow> bool list \<times> 'db" where
  "contend f [] d = ([], d)"
| "contend f (c # cs) d =
     (case f c d of (b, d1) \<Rightarrow> (case contend f cs d1 of (bs, d2) \<Rightarrow> (b # bs, d2)))"

context cas_table
begin

lemma contend_lost:
  assumes "ok d" "status_of d i \<noteq> Some e" "\<forall>c \<in> set cs. snd c \<noteq> e"
  shows "\<not> (\<exists>b \<in> set (fst (contend (\<lambda>c. attempt (fst c) i e (snd c)) cs d)). b)
    \<and> status_of (snd (contend (\<lambda>c. attempt (fst c) i e (snd c)) cs d)) i = status_of d i"
  using assms
proof (induction cs arbitrary: d)
  case (Cons c cs)
  obtain b d1 where a: "attempt (fst c) i e (snd c) d = (b, d1)"
    by (metis prod.exhaust)
  have "\<not> b"
    using attempt_won [OF Cons.prems(1)] Cons.prems(2) a by (cases b) auto
  then have "ok d1" "status_of d1 i = status_of d i"
    using attempt_ok [OF Cons.prems(1) a] attempt_lost [OF Cons.prems(1)] a by auto
  then show ?case
    using Cons.IH [of d1] Cons.prems a \<open>\<not> b\<close> by (auto split: prod.splits)
qed simp

lemma single_winner:
  assumes "ok d" "\<forall>c \<in> set cs. snd c \<noteq> e"
  shows "length (filter (\<lambda>b. b) (fst (contend (\<lambda>c. attempt (fst c) i e (snd c)) cs d))) \<le> 1
    \<and> (status_of d i = Some e \<longrightarrow> (\<exists>c \<in> set cs. reliable (fst c)) \<longrightarrow>
        length (filter (\<lambda>b. b) (fst (contend (\<lambda>c. attempt (fst c) i e (snd c)) cs d))) = 1)"
  using assms
proof (induction cs arbitrary: d)
  case (Cons c cs)
  obtain b d1 where a: "attempt (fst c) i e (snd c) d = (b, d1)"
    by (metis prod.exhaust)
  have ok1: "ok d1"
    using attempt_ok [OF Cons.prems(1) a] .
  show ?case
  proof (cases b)
    case True
    then have "status_of d1 i \<noteq> Some e"
      using attempt_won [OF Cons.prems(1)] a Cons.prems(2) by auto
    then have "\<not> (\<exists>b \<in> set (fst (contend (\<lambda>c. attempt (fst c) i e (snd c)) cs d1)). b)"
      using contend_lost [OF ok1] Cons.prems(2) by auto
    then have "filter (\<lambda>b. b) (fst (contend (\<lambda>c. attempt (fst c) i e (snd c)) cs d1)) = []"
      by (auto simp: filter_empty_conv)
    then show ?thesis
      using a True by (auto split: prod.splits)
  next
    case False
    then have "status_of d1 i = status_of d i"
      using attempt_lost [OF Cons.prems(1)] a by auto
    moreover have "\<not> reliable (fst c)" if "status_of d i = Some e"
      using attempt_reliable [OF Cons.prems(1) _ that, of "fst c" "snd c"] a False by auto
    ultimately show ?thesis
      using Cons.IH [OF ok1] Cons.prems(2) a False by (auto split: prod.splits)
  qed
qed simp

end

definition model_status :: "db \<Rightarrow> string \<Rightarrow> string option" where
  "model_status d i = map_option mr_status (find (\<lambda>r. mr_model_run_id r = i) (model_runs d))"

definition job_status :: "db \<Rightarrow> string \<Rightarrow> string option" where
  "job_status d i = map_option sj_status (find (\<lambda>r. sj_job_id r = i) (score_jobs d))"

text \<open>A conditional update of rows with unique keys.\<close>

lemma cas_rows:
  fixes i :: 'k and e :: 's
  assumes "distinct (map k rows)" "\<And>r. k (f r) = k r" "\<And>r. st (f r) = n"
  defines "p \<equiv> \<lambda>r. k r = i \<and> st r = e"
  shows "list_ex p rows \<longleftrightarrow> map_option st (find (\<lambda>r. k r = i) rows) = Some e"
    and "list_ex p rows \<Longrightarrow> map_option st (find (\<lambda>r. k r = i) (update_where p f rows)) = Some n"
    and "\<not> list_ex p rows \<Longrightarrow> update_where p f rows = rows"
    and "j \<noteq> i \<Longrightarrow> map_option st (find (\<lambda>r. k r = j) (update_where p f rows)) = map_option st (find (\<lambda>r. k r = j) rows)"
proof -
  show iff: "list_ex p rows \<longleftrightarrow> map_option st (find (\<lambda>r. k r = i) rows) = Some e"
    using assms(1) unfolding p_def
  proof (induction rows)
    case (Cons r rows)
    have "\<not> list_ex (\<lambda>r. k r = i \<and> st r = e) rows" if "k r = i"
      using Cons.prems that by (auto simp: list_ex_iff) (metis image_eqI)
    then show ?case
      using Cons by (cases "k r = i") auto
  qed simp
  have found: "k r = q" if "find (\<lambda>r. k r = q) rows = Some r" for q r
    using that by (auto simp: find_Some_iff)
  show "map_option st (find (\<lambda>r. k r = i) (update_where p f rows)) = Some n" if won: "list_ex p rows"
  proof -
    obtain r where r: "find (\<lambda>r. k r = i) rows = Some r" "st r = e"
      using won iff by auto
    then show ?thesis
      using found [OF r(1)] assms(3) by (simp add: find_update_where [of k, OF assms(2)] p_def)
  qed
  show "update_where p f rows = rows" if "\<not> list_ex p rows"
    using that unfolding update_where_def list_ex_iff by (intro map_idI) auto
  show "map_option st (find (\<lambda>r. k r = j) (update_where p f rows)) = map_option st (find (\<lambda>r. k r = j) rows)" if "j \<noteq> i"
  proof (cases "find (\<lambda>r. k r = j) rows")
    case (Some r)
    then show ?thesis
      using found [OF Some] that by (simp add: find_update_where [of k, OF assms(2)] p_def)
  qed (simp add: find_update_where [of k, OF assms(2)])
qed

lemma try_model:
  assumes "distinct (map mr_model_run_id (model_runs d))"
  shows "TryTransitionModelRunStatus w i e n d = (b, d') \<Longrightarrow> distinct (map mr_model_run_id (model_runs d'))"
    and "TryTransitionModelRunStatus w i e n d = (True, d') \<Longrightarrow> model_status d i = Some e \<and> model_status d' i = Some n"
    and "TryTransitionModelRunStatus w i e n d = (False, d') \<Longrightarrow> d' = d"
    and "model_status d i = Some e \<Longrightarrow> fst (TryTransitionModelRunStatus None i e n d)"
    and "TryTransitionModelRunStatus w i e n d = (b, d') \<Longrightarrow> j \<noteq> i \<Longrightarrow> model_status d' j = model_status d j"
proof -
  let ?p = "\<lambda>r :: model_run. mr_model_run_id r = i \<and> mr_status r = e" and ?f = "\<lambda>r :: model_run. r\<lparr>mr_status := n\<rparr>"
  note cas = cas_rows [OF assms, where f = ?f and st = mr_status and n = n and i = i and e = e, simplified]
  have keep: "d\<lparr>model_runs := model_runs d\<rparr> = d" by simp
  show "distinct (map mr_model_run_id (model_runs d'))" if "TryTransitionModelRunStatus w i e n d = (b, d')"
    using that assms update_where_key [of mr_model_run_id ?f ?p "model_runs d"]
    by (cases w) (auto simp: TryTransitionModelRunStatus_def Let_def)
  show "model_status d i = Some e \<and> model_status d' i = Some n" if "TryTransitionModelRunStatus w i e n d = (True, d')"
    using that cas(1,2) by (cases w) (auto simp: TryTransitionModelRunStatus_def Let_def model_status_def)
  show "d' = d" if "TryTransitionModelRunStatus w i e n d = (False, d')"
    using that cas(3) keep by (cases w) (auto simp: TryTransitionModelRunStatus_def Let_def)
  show "fst (TryTransitionModelRunStatus None i e n d)" if "model_status d i = Some e"
    using that cas(1) by (simp add: TryTransitionModelRunStatus_def Let_def model_status_def)
  show "model_status d' j = model_status d j" if "TryTransitionModelRunStatus w i e n d = (b, d')" "j \<noteq> i"
    using that cas(4) [OF that(2)] by (cases w) (auto simp: TryTransitionModelRunStatus_def Let_def model_status_def)
qed

interpretation model_cas: cas_table
  "\<lambda>d. distinct (map mr_model_run_id (model_runs d))" model_status TryTransitionModelRunStatus "\<lambda>fault. fault = None"
proof (unfold_locales, goal_cases)
  case (1 d w i e n b d')
  then show ?case by (rule try_model(1))
next
  case (2 d w i e n d')
  then show ?case by (rule try_model(2))
next
  case (3 d w i e n d')
  then have "d' = d" by (rule try_model(3))
  then show ?case by simp
next
  case (4 d w i e n)
  then show ?case using try_model(4) [OF 4(1,3)] by simp
next
  case (5 d w i e n b d' j)
  then show ?case by (rule try_model(5))
qed

lemma try_job:
  assumes "distinct (map sj_job_id (score_jobs d))"
  shows "TryTransitionScoreJobStatus w now i e n d = (b, d') \<Longrightarrow> distinct (map sj_job_id (score_jobs d'))"
    and "TryTransitionScoreJobStatus w now i e n d = (True, d') \<Longrightarrow> job_status d i = Some e \<and> job_status d' i = Some n"
    and "TryTransitionScoreJobStatus w now i e n d = (False, d') \<Longrightarrow> d' = d"
    and "job_status d i = Some e \<Longrightarrow> fst (TryTransitionScoreJobStatus None now i e n d)"
    and "TryTransitionScoreJobStatus w now i e n d = (b, d') \<Longrightarrow> j \<noteq> i \<Longrightarrow> job_status d' j = job_status d j"
proof -
  let ?p = "\<lambda>r :: score_job. sj_job_id r = i \<and> sj_status r = e"
    and ?f = "\<lambda>r :: score_job. r\<lparr>sj_status := n, sj_updated_at := now\<rparr>"
  note cas = cas_rows [OF assms, where f = ?f and st = sj_status and n = n and i = i and e = e, simplified]
  have keep: "d\<lparr>score_jobs := score_jobs d\<rparr> = d" by simp
  show "distinct (map sj_job_id (score_jobs d'))" if "TryTransitionScoreJobStatus w now i e n d = (b, d')"
    using that assms update_where_key [of sj_job_id ?f ?p "score_jobs d"]
    by (cases w) (auto simp: TryTransitionScoreJobStatus_def Let_def)
  show "job_status d i = Some e \<and> job_status d' i = Some n" if "TryTransitionScoreJobStatus w now i e n d = (True, d')"
    using that cas(1,2) by (cases w) (auto simp: TryTransitionScoreJobStatus_def Let_def job_status_def)
  show "d' = d" if "TryTransitionScoreJobStatus w now i e n d = (False, d')"
    using that cas(3) keep by (cases w) (auto simp: TryTransitionScoreJobStatus_def Let_def)
  show "fst (TryTransitionScoreJobStatus None now i e n d)" if "job_status d i = Some e"
    using that cas(1) by (simp add: TryTransitionScoreJobStatus_def Let_def job_status_def)
  show "job_status d' j = job_status d j" if "TryTransitionScoreJobStatus w now i e n d = (b, d')" "j \<noteq> i"
    using that cas(4) [OF that(2)] by (cases w) (auto simp: TryTransitionScoreJobStatus_def Let_def job_status_def)
qed

interpretation job_cas: cas_table
  "\<lambda>d. distinct (map sj_job_id (score_jobs d))" job_status "\<lambda>w. TryTransitionScoreJobStatus (fst w) (snd w)" "\<lambda>w. fst w = None"
proof (unfold_locales, goal_cases)
  case (1 d w i e n b d')
  then show ?case by (rule try_job(1))
next
  case (2 d w i e n d')
  then show ?case by (rule try_job(2))
next
  case (3 d w i e n d')
  then have "d' = d" by (rule try_job(3))
  then show ?case by simp
next
  case (4 d w i e n)
  then show ?case using try_job(4) [OF 4(1,3)] by simp
next
  case (5 d w i e n b d' j)
  then show ?case by (rule try_job(5))
qed


section \<open>Every operation keeps the keys\<close>

lemma has_simps [simp]:
  "has_dataset (d\<lparr>telemetry := t\<rparr>) = has_dataset d" "has_dataset (d\<lparr>alerts := a\<rparr>) = has_dataset d"
  "has_dataset (d\<lparr>model_runs := m\<rparr>) = has_dataset d" "has_dataset (d\<lparr>inference_runs := ir\<rparr>) = has_dataset d"
  "has_dataset (d\<lparr>score_jobs := sj\<rparr>) = has_dataset d" "has_dataset (d\<lparr>scores := sc\<rparr>) = has_dataset d"
  "has_dataset (d\<lparr>next_record_id := n\<rparr>) = has_dataset d" "has_dataset (d\<lparr>db_registry := r\<rparr>) = has_dataset d"
  "has_model (d\<lparr>generation_runs := g\<rparr>) = has_model d"
  "has_model (d\<lparr>telemetry := t\<rparr>) = has_model d" "has_model (d\<lparr>alerts := a\<rparr>) = has_model d"
  "has_model (d\<lparr>inference_runs := ir\<rparr>) = has_model d"
  "has_model (d\<lparr>score_jobs := sj\<rparr>) = has_model d" "has_model (d\<lparr>scores := sc\<rparr>) = has_model d"
  "has_model (d\<lparr>next_record_id := n\<rparr>) = has_model d" "has_model (d\<lparr>db_registry := r\<rparr>) = has_model d"
  by (simp_all add: fun_eq_iff has_dataset_def has_model_def)

lemma db_ok_alerts [simp]: "db_ok (d\<lparr>alerts := a\<rparr>) = db_ok d"
  by (simp add: db_ok_def keys_unique_def references_ok_def)

lemma db_ok_registry [simp]: "db_ok (d\<lparr>db_registry := r\<rparr>) = db_ok d"
  by (simp add: db_ok_def keys_unique_def references_ok_def)

lemma db_ok_update_generation:
  assumes "db_ok d" "\<And>r. gr_run_id (f r) = gr_run_id r"
  shows "db_ok (d\<lparr>generation_runs := update_where p f (generation_runs d)\<rparr>)"
proof -
  have "has_dataset (d\<lparr>generation_runs := update_where p f (generation_runs d)\<rparr>) = has_dataset d"
    using update_where_key_image [of gr_run_id f p, OF assms(2)] by (simp add: has_dataset_def fun_eq_iff)
  then show ?thesis
    using assms(1) update_where_key [of gr_run_id f p, OF assms(2)]
    by (simp add: db_ok_def keys_unique_def references_ok_def)
qed

lemma db_ok_update_model:
  assumes "db_ok d" "\<And>r. mr_model_run_id (f r) = mr_model_run_id r" "\<And>r. mr_dataset_id (f r) = mr_dataset_id r"
    and "\<And>r. set_option (mr_parent_run_id (f r)) \<union> set_option (mr_best_trial_run_id (f r))
            \<subseteq> set_option (mr_parent_run_id r) \<union> set_option (mr_best_trial_run_id r) \<union> {q. has_model d q}"
  shows "db_ok (d\<lparr>model_runs := update_where p f (model_runs d)\<rparr>)"
proof -
  have hm: "has_model (d\<lparr>model_runs := update_where p f (model_runs d)\<rparr>) = has_model d"
    using update_where_key_image [of mr_model_run_id f p, OF assms(2)] by (simp add: has_model_def fun_eq_iff)
  have keys: "map mr_model_run_id (update_where p f (model_runs d)) = map mr_model_run_id (model_runs d)"
    by (rule update_where_key) (rule assms(2))
  have row: "has_dataset d (mr_dataset_id r) \<and> (\<forall>q \<in> set_option (mr_parent_run_id r) \<union> set_option (mr_best_trial_run_id r). has_model d q)"
    if "r \<in> set (update_where p f (model_runs d))" for r
  proof -
    obtain s where s: "s \<in> set (model_runs d)" "r = (if p s then f s else s)"
      using \<open>r \<in> _\<close> unfolding set_update_where by blast
    then have "has_dataset d (mr_dataset_id s)"
        and q: "\<forall>q \<in> set_option (mr_parent_run_id s) \<union> set_option (mr_best_trial_run_id s). has_model d q"
      using assms(1) unfolding db_ok_def references_ok_def by blast+
    then have "has_dataset d (mr_dataset_id r)"
      using s(2) assms(3) by simp
    moreover have "\<forall>q \<in> set_option (mr_parent_run_id r) \<union> set_option (mr_best_trial_run_id r). has_model d q"
      using s(2) assms(4) [of s] q by (cases "p s") (simp, blast, simp)
    ultimately show ?thesis by blast
  qed
  have "keys_unique (d\<lparr>model_runs := update_where p f (model_runs d)\<rparr>)"
    using assms(1) keys by (simp add: db_ok_def keys_unique_def)
  moreover have "references_ok (d\<lparr>model_runs := update_where p f (model_runs d)\<rparr>)"
    using assms(1) row unfolding db_ok_def references_ok_def hm has_simps by simp
  ultimately show ?thesis
    by (simp add: db_ok_def)
qed

lemma update_where_all:
  "\<forall>r \<in> set rows. P r \<Longrightarrow> (\<And>r. P r \<Longrightarrow> P (f r)) \<Longrightarrow> \<forall>r \<in> set (update_where p f rows). P r"
  by (auto simp: update_where_def)

lemma db_ok_update_job:
  assumes "db_ok d" "\<And>r. sj_job_id (f r) = sj_job_id r" "\<And>r. sj_dataset_id (f r) = sj_dataset_id r"
    "\<And>r. sj_model_run_id (f r) = sj_model_run_id r"
  shows "db_ok (d\<lparr>score_jobs := update_where p f (score_jobs d)\<rparr>)"
proof -
  have "\<forall>r \<in> set (update_where p f (score_jobs d)). has_dataset d (sj_dataset_id r) \<and> has_model d (sj_model_run_id r)"
    using assms(1,3,4) by (intro update_where_all) (simp_all add: db_ok_def references_ok_def)
  then show ?thesis
    using assms(1) update_where_key [of sj_job_id f p "score_jobs d", OF assms(2)]
    by (simp add: db_ok_def keys_unique_def references_ok_def)
qed

lemma db_ok_update_inference:
  assumes "db_ok d" "\<And>r. ir_inference_id (f r) = ir_inference_id r" "\<And>r. ir_model_run_id (f r) = ir_model_run_id r"
  shows "db_ok (d\<lparr>inference_runs := update_where p f (inference_runs d)\<rparr>)"
proof -
  have "\<forall>r \<in> set (update_where p f (inference_runs d)). has_model d (ir_model_run_id r)"
    using assms(1,3) by (intro update_where_all) (simp_all add: db_ok_def references_ok_def)
  then show ?thesis
    using assms(1) update_where_key [of ir_inference_id f p "inference_runs d", OF assms(2)]
    by (simp add: db_ok_def keys_unique_def references_ok_def)
qed

lemma db_ok_insert_generation:
  assumes "db_ok d" "\<not> has_dataset d (gr_run_id r)"
  shows "db_ok (d\<lparr>generation_runs := generation_runs d @ [r]\<rparr>)"
  using assms by (auto simp: db_ok_def keys_unique_def references_ok_def has_dataset_def)

lemma db_ok_insert_model:
  assumes "db_ok d" "\<not> has_model d (mr_model_run_id r)" "has_dataset d (mr_dataset_id r)"
    "\<forall>q \<in> set_option (mr_parent_run_id r) \<union> set_option (mr_best_trial_run_id r). has_model d q"
  shows "db_ok (d\<lparr>model_runs := model_runs d @ [r]\<rparr>)"
proof -
  have hm: "has_model (d\<lparr>model_runs := model_runs d @ [r]\<rparr>) q \<longleftrightarrow> has_model d q \<or> q = mr_model_run_id r" for q
    by (auto simp: has_model_def)
  have "keys_unique (d\<lparr>model_runs := model_runs d @ [r]\<rparr>)"
    using assms(1,2) by (auto simp: db_ok_def keys_unique_def has_model_def)
  moreover have "references_ok (d\<lparr>model_runs := model_runs d @ [r]\<rparr>)"
    using assms(1,3,4) unfolding db_ok_def references_ok_def hm has_simps by simp
  ultimately show ?thesis
    by (simp add: db_ok_def)
qed

lemma number_rows_ids: "map tel_record_id (number_rows i rs) = map (\<lambda>k. i + int k) [0..<length rs]"
proof (induction rs arbitrary: i)
  case (Cons r rs)
  have "map (\<lambda>k. i + 1 + int k) [0..<length rs] = map (\<lambda>k. i + int k) (map Suc [0..<length rs])"
    by simp
  then show ?case
    using Cons.IH [of "i + 1"] by (simp add: upt_conv_Cons map_Suc_upt del: upt_Suc)
qed simp

lemma set_number_rows: "t \<in> set (number_rows i rs) \<Longrightarrow> i \<le> tel_record_id t \<and> tel_record_id t < i + int (length rs) \<and> tel_record t \<in> set rs"
  by (induction rs arbitrary: i) (auto, fastforce+)

lemma db_ok_insert_telemetry:
  assumes "db_ok d" "\<forall>r \<in> set records. has_dataset d (tr_run_id r)"
  shows "db_ok (d\<lparr>telemetry := telemetry d @ number_rows (next_record_id d) records,
           next_record_id := next_record_id d + int (length records)\<rparr>)"
proof -
  have "distinct (map tel_record_id (number_rows (next_record_id d) records))"
    by (simp add: number_rows_ids distinct_map inj_on_def)
  moreover have "tel_record_id ` set (telemetry d) \<inter> tel_record_id ` set (number_rows (next_record_id d) records) = {}"
    using assms(1) set_number_rows [of _ "next_record_id d" records] by (fastforce simp: db_ok_def keys_unique_def)
  ultimately have "distinct (map tel_record_id (telemetry d @ number_rows (next_record_id d) records))"
    using assms(1) by (simp add: db_ok_def keys_unique_def)
  moreover have "0 < tel_record_id t \<and> tel_record_id t < next_record_id d + int (length records)"
    if "t \<in> set (telemetry d @ number_rows (next_record_id d) records)" for t
    using that assms(1) set_number_rows [of t "next_record_id d" records] by (fastforce simp: db_ok_def keys_unique_def)
  ultimately show ?thesis
    using assms set_number_rows [of _ "next_record_id d" records]
    by (auto simp: db_ok_def keys_unique_def references_ok_def)
qed


lemma delete_dataset_rows_sel [simp]:
  "set (telemetry (delete_dataset_rows i d)) = {t \<in> set (telemetry d). tr_run_id (tel_record t) \<noteq> i}"
  "set (model_runs (delete_dataset_rows i d)) = {r \<in> set (model_runs d). mr_dataset_id r \<noteq> i}"
  "inference_runs (delete_dataset_rows i d) = inference_runs d"
  "set (score_jobs (delete_dataset_rows i d)) = {r \<in> set (score_jobs d). sj_dataset_id r \<noteq> i}"
  "set (scores (delete_dataset_rows i d)) = {r \<in> set (scores d). sc_dataset_id r \<noteq> i}"
  "has_dataset (delete_dataset_rows i d) q \<longleftrightarrow> has_dataset d q \<and> q \<noteq> i"
  by (auto simp: delete_dataset_rows_def has_dataset_def)

lemma db_ok_delete:
  assumes ok: "db_ok d" and free: "models_unreferenced i d"
  shows "db_ok (delete_dataset_rows i d)"
proof -
  let ?d = "delete_dataset_rows i d"
  have hm: "has_model ?d q" if "has_model d q" "q \<notin> dataset_models i d" for q
    using that by (auto simp: has_model_def dataset_models_def)
  have "keys_unique ?d"
    using ok by (simp add: db_ok_def keys_unique_def delete_dataset_rows_def distinct_map_filter)
  moreover have "references_ok ?d"
    unfolding references_ok_def delete_dataset_rows_sel
  proof (intro conjI ballI; (elim CollectE conjE)?)
    fix r q
    assume r: "r \<in> set (model_runs d)" "mr_dataset_id r \<noteq> i"
      and q: "q \<in> set_option (mr_parent_run_id r) \<union> set_option (mr_best_trial_run_id r)"
    have "has_model d q"
      using ok r(1) q unfolding db_ok_def references_ok_def by blast
    moreover have "q \<notin> dataset_models i d"
      using free r q unfolding models_unreferenced_def list_all_iff by blast
    ultimately show "has_model ?d q" by (rule hm)
  next
    fix r
    assume "r \<in> set (inference_runs d)"
    then show "has_model ?d (ir_model_run_id r)"
      using ok free by (intro hm) (simp_all add: db_ok_def references_ok_def models_unreferenced_def list_all_iff)
  next
    fix r
    assume "r \<in> set (score_jobs d)" "sj_dataset_id r \<noteq> i"
    then show "has_model ?d (sj_model_run_id r)"
      using ok free by (intro hm) (simp_all add: db_ok_def references_ok_def models_unreferenced_def list_all_iff)
  next
    fix r
    assume "r \<in> set (scores d)" "sc_dataset_id r \<noteq> i"
    then show "has_model ?d (sc_model_run_id r)"
      using ok free by (intro hm) (simp_all add: db_ok_def references_ok_def models_unreferenced_def list_all_iff)
  qed (use ok in \<open>simp_all add: db_ok_def references_ok_def\<close>)
  ultimately show ?thesis
    by (simp add: db_ok_def)
qed

section \<open>The store as a transition system\<close>

definition empty_db :: db where
  "empty_db = \<lparr>generation_runs = [], telemetry = [], alerts = [], model_runs = [], inference_runs = [], score_jobs = [],
     scores = [], next_record_id = 1, db_registry = empty_registry\<rparr>"

inductive db_step :: "db \<Rightarrow> db \<Rightarrow> bool" where
  "db_step d (CreateRun fault valid_ts now i config st rq d)"
| "db_step d (UpdateRunStatus fault now i st n err d)"
| "db_step d (snd (BatchInsertTelemetry fault records d))"
| "db_step d (InsertAlert fault alert d)"
| "db_step d (Heartbeat fault now jt i d)"
| "db_step d (ReconcileStaleJobs fault now ttl d)"
| "db_step d (snd (CreateModelRun fault now mid i name cfg rq hpo fp gv seed d))"
| "db_step d (snd (CreateHpoTrialRun fault now mid i name cfg rq parent idx params d))"
| "db_step d (UpdateModelRunStatus fault now mid st path err summary d)"
| "db_step d (snd (TryTransitionModelRunStatus fault mid e n d))"
| "db_step d (UpdateBestTrial fault parent best v name dir basis d)"
| "db_step d (UpdateTrialEligibility fault now mid el reason v src d)"
| "db_step d (UpdateParentErrorAggregates fault parent agg d)"
| "db_step d (snd (CreateInferenceRun fault iid mid d))"
| "db_step d (UpdateInferenceRunStatus fault iid st cnt details latency d)"
| "db_step d (snd (CreateScoreJob fault now jid i mid rq d))"
| "db_step d (UpdateScoreJob fault now jid st tot processed lst err d)"
| "db_step d (snd (TryTransitionScoreJobStatus fault now jid e n d))"
| "db_step d (snd (InsertDatasetScores fault ms i mid entries d))"
| "db_step d (snd (DeleteDatasetWithScores fault i d))"

lemma db_ok_models_simple:
  "db_ok d \<Longrightarrow> (\<And>r. mr_model_run_id (f r) = mr_model_run_id r) \<Longrightarrow> (\<And>r. mr_dataset_id (f r) = mr_dataset_id r) \<Longrightarrow>
   (\<And>r. mr_parent_run_id (f r) = mr_parent_run_id r) \<Longrightarrow> (\<And>r. mr_best_trial_run_id (f r) = mr_best_trial_run_id r) \<Longrightarrow>
   db_ok (d\<lparr>model_runs := update_where p f (model_runs d)\<rparr>)"
  by (rule db_ok_update_model) auto

lemma db_ok_reconcile: "db_ok d \<Longrightarrow> db_ok (ReconcileStaleJobs fault now ttl d)"
  unfolding ReconcileStaleJobs_def Let_def
proof (rule snd_transact_ok)
  fix msg
  assume ok: "db_ok d"
  let ?sj = "update_where (\<lambda>r. active (sj_status r) \<and> stale ttl now (sj_updated_at r))
              (\<lambda>r. r\<lparr>sj_status := ''FAILED'', sj_error := Some msg, sj_updated_at := now\<rparr>) (score_jobs d)"
  let ?mr = "update_where (\<lambda>r. active (mr_status r) \<and> stale ttl now (mr_updated_at r))
              (\<lambda>r. r\<lparr>mr_status := ''FAILED'', mr_error := Some msg, mr_updated_at := now\<rparr>) (model_runs d)"
  let ?gr = "update_where (\<lambda>r. active (gr_status r) \<and> stale ttl now (gr_updated_at r))
              (\<lambda>r. r\<lparr>gr_status := ''FAILED'', gr_error := Some msg, gr_updated_at := now\<rparr>) (generation_runs d)"
  have 1: "db_ok (d\<lparr>score_jobs := ?sj\<rparr>)"
    using ok by (rule db_ok_update_job) simp_all
  have 2: "db_ok (d\<lparr>score_jobs := ?sj, model_runs := ?mr\<rparr>)"
    using db_ok_models_simple [OF 1] by simp
  show "db_ok (d\<lparr>score_jobs := ?sj, model_runs := ?mr, generation_runs := ?gr\<rparr>)"
    using db_ok_update_generation [OF 2] by simp
qed

lemma db_ok_best_trial:
  assumes "db_ok d" "has_model d best \<or> \<not> has_model d parent" "\<And>r. mr_model_run_id (f r) = mr_model_run_id r"
    "\<And>r. mr_dataset_id (f r) = mr_dataset_id r" "\<And>r. mr_parent_run_id (f r) = mr_parent_run_id r"
    "\<And>r. mr_best_trial_run_id (f r) = Some best"
  shows "db_ok (update_model parent f d)"
proof (cases "has_model d parent")
  case True
  then show ?thesis
    unfolding update_model_def using assms by (intro db_ok_update_model) auto
next
  case False
  then have "update_where (\<lambda>r. mr_model_run_id r = parent) f (model_runs d) = model_runs d"
    unfolding update_where_def has_model_def by (intro map_idI) auto
  then show ?thesis
    using assms(1) by (simp add: update_model_def)
qed

lemma db_ok_insert_inference:
  assumes "db_ok d" "has_model d (ir_model_run_id r)" "ir_inference_id r \<notin> ir_inference_id ` set (inference_runs d)"
  shows "db_ok (d\<lparr>inference_runs := inference_runs d @ [r]\<rparr>)"
  using assms by (simp add: db_ok_def keys_unique_def references_ok_def ball_Un)

lemma db_ok_insert_job:
  assumes "db_ok d" "has_dataset d (sj_dataset_id r)" "has_model d (sj_model_run_id r)" "sj_job_id r \<notin> sj_job_id ` set (score_jobs d)"
  shows "db_ok (d\<lparr>score_jobs := score_jobs d @ [r]\<rparr>)"
  using assms by (auto simp: db_ok_def keys_unique_def references_ok_def)

lemma db_ok_insert_scores:
  assumes "db_ok d" "\<forall>r \<in> set rs. has_dataset d (sc_dataset_id r) \<and> has_model d (sc_model_run_id r)"
  shows "db_ok (d\<lparr>scores := scores d @ rs\<rparr>)"
  using assms by (auto simp: db_ok_def keys_unique_def references_ok_def)

lemma db_ok_step:
  assumes "db_ok d" "db_step d d'"
  shows "db_ok d'"
  using assms(2)
proof cases
  case (1 fault valid_ts now i config st rq)
  show ?thesis unfolding 1 CreateRun_def
    by (rule snd_transact_ok) (auto intro!: db_ok_insert_generation assms(1))
next
  case (2 fault now i st n err)
  show ?thesis unfolding 2 UpdateRunStatus_def
    by (rule snd_transact_ok) (auto intro!: db_ok_update_generation assms(1) simp: Let_def)
next
  case (3 fault records)
  show ?thesis unfolding 3 BatchInsertTelemetry_def
    by (cases "records = []") (auto intro!: snd_transact_ok [of _ _ db_ok] db_ok_insert_telemetry assms(1) simp: assms(1))
next
  case (4 fault alert)
  show ?thesis unfolding 4 InsertAlert_def
    by (rule snd_transact_ok) (simp_all add: assms(1))
next
  case (5 fault now jt i)
  show ?thesis unfolding 5 Heartbeat_def
    by (rule snd_transact_ok)
      (auto intro!: db_ok_update_generation db_ok_models_simple db_ok_update_job assms(1) split: JobType.split)
next
  case (6 fault now ttl)
  show ?thesis unfolding 6 by (rule db_ok_reconcile) (rule assms(1))
next
  case (7 fault now mid i name cfg rq hpo fp gv seed)
  show ?thesis unfolding 7 CreateModelRun_def
    by (rule snd_transact_ok) (auto intro!: db_ok_insert_model assms(1) simp: new_model_run_def)
next
  case (8 fault now mid i name cfg rq parent idx params)
  show ?thesis unfolding 8 CreateHpoTrialRun_def
    by (rule snd_transact_ok) (auto intro!: db_ok_insert_model assms(1) simp: new_model_run_def)
next
  case (9 fault now mid st path err summary)
  show ?thesis unfolding 9 UpdateModelRunStatus_def update_model_def
    by (rule snd_transact_ok) (auto intro!: db_ok_models_simple assms(1))
next
  case (10 fault mid e n)
  show ?thesis unfolding 10 TryTransitionModelRunStatus_def Let_def
    by (cases fault) (auto intro!: db_ok_models_simple assms(1))
next
  case (11 fault parent best v name dir basis)
  show ?thesis unfolding 11 UpdateBestTrial_def
    by (rule snd_transact_ok) (auto intro!: db_ok_best_trial assms(1))
next
  case (12 fault now mid el reason v src)
  show ?thesis unfolding 12 UpdateTrialEligibility_def update_model_def
    by (rule snd_transact_ok) (auto intro!: db_ok_models_simple assms(1))
next
  case (13 fault parent agg)
  show ?thesis unfolding 13 UpdateParentErrorAggregates_def update_model_def
    by (rule snd_transact_ok) (auto intro!: db_ok_models_simple assms(1))
next
  case (14 fault iid mid)
  show ?thesis unfolding 14 CreateInferenceRun_def
    by (rule snd_transact_ok) (auto intro!: db_ok_insert_inference assms(1))
next
  case (15 fault iid st cnt details latency)
  show ?thesis unfolding 15 UpdateInferenceRunStatus_def
    by (rule snd_transact_ok) (auto intro!: db_ok_update_inference assms(1))
next
  case (16 fault now jid i mid rq)
  show ?thesis unfolding 16 CreateScoreJob_def
    by (cases fault)
      (auto intro!: snd_transact_ok [of _ _ db_ok] db_ok_insert_job assms(1) simp: assms(1) split: option.split)
next
  case (17 fault now jid st tot processed lst err)
  show ?thesis unfolding 17 UpdateScoreJob_def
    by (rule snd_transact_ok) (auto intro!: db_ok_update_job assms(1) simp: Let_def)
next
  case (18 fault now jid e n)
  show ?thesis unfolding 18 TryTransitionScoreJobStatus_def Let_def
    by (cases fault) (auto intro!: db_ok_update_job assms(1))
next
  case (19 fault ms i mid entries)
  show ?thesis unfolding 19 InsertDatasetScores_def Let_def
    by (cases "entries = []") (auto intro!: snd_transact_ok [of _ _ db_ok] db_ok_insert_scores assms(1) simp: assms(1))
next
  case (20 fault i)
  show ?thesis unfolding 20 DeleteDatasetWithScores_def
    by (rule snd_transact_ok) (auto intro: db_ok_delete assms(1))
qed


interpretation run_store: inductive_invariant "\<lambda>d. d = empty_db" db_step db_ok
  by unfold_locales
    (simp add: empty_db_def db_ok_def keys_unique_def references_ok_def, rule db_ok_step)

lemma sweep_status:
  assumes "\<And>r. k (f r) = k r" "find (\<lambda>r. k r = i) rows = Some r"
  shows "find (\<lambda>r. k r = i) (update_where (\<lambda>r. active (st r) \<and> stale ttl now (upd r)) f rows)
    = Some (if active (st r) \<and> stale ttl now (upd r) then f r else r)"
  using assms(2) by (simp add: find_update_where [of k, OF assms(1)])

lemma swept_inactive:
  assumes "\<And>r. st (f r) = ''FAILED''"
  shows "\<forall>r \<in> set (update_where (\<lambda>r. active (st r) \<and> stale None now (upd r)) f rows). \<not> active (st r)"
  by (auto simp: update_where_def assms stale_def active_def)

lemma update_where_found:
  assumes "\<And>r. k (f r) = k r" "find (\<lambda>r. k r = i) rows = Some r"
  shows "find (\<lambda>r. k r = i) (update_where (\<lambda>r. k r = i) f rows) = Some (f r)"
proof -
  have "k r = i"
    using assms(2) by (auto simp: find_Some_iff)
  then show ?thesis
    using assms(2) by (simp add: find_update_where [of k, OF assms(1)])
qed

lemma find_distinct_key:
  "distinct (map k rows) \<Longrightarrow> r \<in> set rows \<Longrightarrow> find (\<lambda>q. k q = k r) rows = Some r"
  by (induction rows) (auto simp: rev_image_eqI)

lemma find_snoc: "find P (rows @ [r]) = (case find P rows of None \<Rightarrow> if P r then Some r else None | Some q \<Rightarrow> Some q)"
  by (induction rows) auto

lemma sweep_statuses:
  "find (\<lambda>r. mr_model_run_id r = i) (model_runs d) = Some r \<Longrightarrow>
     model_status (ReconcileStaleJobs None now limit d) i
       = Some (if active (mr_status r) \<and> stale limit now (mr_updated_at r) then ''FAILED'' else mr_status r)"
  "find (\<lambda>r. sj_job_id r = j) (score_jobs d) = Some s \<Longrightarrow>
     job_status (ReconcileStaleJobs None now limit d) j
       = Some (if active (sj_status s) \<and> stale limit now (sj_updated_at s) then ''FAILED'' else sj_status s)"
  "find (\<lambda>r. gr_run_id r = g) (generation_runs d) = Some q \<Longrightarrow>
     map_option gr_status (find (\<lambda>r. gr_run_id r = g) (generation_runs (ReconcileStaleJobs None now limit d)))
       = Some (if active (gr_status q) \<and> stale limit now (gr_updated_at q) then ''FAILED'' else gr_status q)"
  unfolding ReconcileStaleJobs_def Let_def transact_def model_status_def job_status_def
  by (simp_all add: sweep_status del: map_option_eq_Some)

definition ex_request :: GenerateRequest where
  "ex_request = \<lparr>rq_tier = ''A'', rq_host_count = 1, rq_start_time_iso = [], rq_end_time_iso = [],
     rq_interval_seconds = 60, rq_regions = [], rq_anomaly_config = None, rq_timing_config = None, rq_seed = 1,
     rq_request_id = []\<rparr>"

section \<open>Properties\<close>



text \<open>
  C5. Claiming a job is exclusive: in any reachable state of the store, of several callers that try
  to move the same model run, or the same score job, out of one status with
  \<^verbatim>\<open>TryTransition...Status\<close>, in any order and each to a status of its own choice, at most one is told
  that it succeeded, and exactly one if the row is in that status and some caller's statement
  reaches the server.
\<close>

theorem transition_single_winner:
  assumes "reachable (\<lambda>d. d = empty_db) db_step d"
    and "\<forall>c \<in> set callers. snd c \<noteq> expected"
    and "\<forall>c \<in> set claimers. snd c \<noteq> expected"
  shows "length (filter (\<lambda>b. b)
      (fst (contend (\<lambda>c. TryTransitionModelRunStatus (fst c) i expected (snd c)) callers d))) \<le> 1
    \<and> (model_status d i = Some expected \<longrightarrow> (\<exists>c \<in> set callers. fst c = None) \<longrightarrow>
        length (filter (\<lambda>b. b)
          (fst (contend (\<lambda>c. TryTransitionModelRunStatus (fst c) i expected (snd c)) callers d))) = 1)
    \<and> length (filter (\<lambda>b. b)
      (fst (contend (\<lambda>c. TryTransitionScoreJobStatus (fst (fst c)) (snd (fst c)) i expected (snd c)) claimers d))) \<le> 1
    \<and> (job_status d i = Some expected \<longrightarrow> (\<exists>c \<in> set claimers. fst (fst c) = None) \<longrightarrow>
        length (filter (\<lambda>b. b)
          (fst (contend (\<lambda>c. TryTransitionScoreJobStatus (fst (fst c)) (snd (fst c)) i expected (snd c)) claimers d))) = 1)"
proof -
  have "distinct (map mr_model_run_id (model_runs d))" "distinct (map sj_job_id (score_jobs d))"
    using run_store.reachable_inv [OF assms(1)] by (simp_all add: db_ok_def keys_unique_def)
  then show ?thesis
    using model_cas.single_winner [OF _ assms(2), of d i] job_cas.single_winner [OF _ assms(3), of d i] by blast
qed

theorem transition_single_winner_witness:
  "let d = snd (CreateModelRun None 6 ''m1'' ''d1'' ''n'' JNull ''r'' JNull [] [] None
     (CreateRun None (\<lambda>s. True) 5 ''d1'' ex_request ''PENDING'' ''r'' empty_db)) in
   length (filter (\<lambda>b. b) (fst (contend (\<lambda>c. TryTransitionModelRunStatus (fst c) ''m1'' ''PENDING'' (snd c))
     [(None, ''RUNNING''), (None, ''RUNNING''), (None, ''CANCELLED'')] d))) = 1"
proof -
  define d where "d = snd (CreateModelRun None 6 ''m1'' ''d1'' ''n'' JNull ''r'' JNull [] [] None
     (CreateRun None (\<lambda>s. True) 5 ''d1'' ex_request ''PENDING'' ''r'' empty_db))"
  have "reachable (\<lambda>d. d = empty_db) db_step d"
    unfolding d_def
    by (rule reachable_step [OF reachable_step [OF reachable_init]], simp, rule db_step.intros(1), rule db_step.intros(7))
  moreover have "model_status d ''m1'' = Some ''PENDING''"
    unfolding d_def model_status_def CreateModelRun_def CreateRun_def empty_db_def
    by (simp add: transact_def has_dataset_def has_model_def new_model_run_def)
  ultimately show ?thesis
    using transition_single_winner [of d "[(None, ''RUNNING''), (None, ''RUNNING''), (None, ''CANCELLED'')]" "''PENDING''" "[]" "''m1''"]
    unfolding d_def [symmetric] Let_def by simp
qed





text \<open>
  Deleting a dataset is all or nothing: it succeeds exactly when the server is reachable and no
  other row refers to one of the dataset's models. Then no generation run, telemetry row, alert,
  model run, score job or score of the dataset is left, and the rows of every other dataset are
  kept in order; otherwise nothing changes. Inference runs are never deleted, so one inference
  with a model of the dataset makes its deletion fail from then on.
\<close>

theorem DeleteDatasetWithScores_correct:
  "let (out, d') = DeleteDatasetWithScores fault i d in
     (out = Inr () \<longleftrightarrow> fault = None \<and> models_unreferenced i d)
   \<and> (out \<noteq> Inr () \<longrightarrow> d' = d)
   \<and> (out = Inr () \<longrightarrow>
       \<not> has_dataset d' i \<and> (\<forall>t \<in> set (telemetry d'). tr_run_id (tel_record t) \<noteq> i)
       \<and> (\<forall>a \<in> set (alerts d'). al_run_id a \<noteq> i) \<and> (\<forall>r \<in> set (model_runs d'). mr_dataset_id r \<noteq> i)
       \<and> (\<forall>r \<in> set (score_jobs d'). sj_dataset_id r \<noteq> i) \<and> (\<forall>r \<in> set (scores d'). sc_dataset_id r \<noteq> i)
       \<and> (\<forall>j. j \<noteq> i \<longrightarrow>
            filter (\<lambda>r. gr_run_id r = j) (generation_runs d') = filter (\<lambda>r. gr_run_id r = j) (generation_runs d)
          \<and> filter (\<lambda>t. tr_run_id (tel_record t) = j) (telemetry d') = filter (\<lambda>t. tr_run_id (tel_record t) = j) (telemetry d)
          \<and> filter (\<lambda>r. mr_dataset_id r = j) (model_runs d') = filter (\<lambda>r. mr_dataset_id r = j) (model_runs d)
          \<and> filter (\<lambda>r. sc_dataset_id r = j) (scores d') = filter (\<lambda>r. sc_dataset_id r = j) (scores d)))
   \<and> ((\<exists>r \<in> set (inference_runs d). \<exists>m \<in> set (model_runs d).
         mr_dataset_id m = i \<and> ir_model_run_id r = mr_model_run_id m) \<longrightarrow> out \<noteq> Inr ())"
proof -
  obtain out d' where x: "DeleteDatasetWithScores fault i d = (out, d')"
    by (metis prod.exhaust)
  have iff: "out = Inr () \<longleftrightarrow> fault = None \<and> models_unreferenced i d"
    and no: "out \<noteq> Inr () \<Longrightarrow> d' = d" and yes: "out = Inr () \<Longrightarrow> d' = delete_dataset_rows i d"
    using x by (auto simp: DeleteDatasetWithScores_def transact_def key_violation_def split: option.splits if_splits)
  have kept: "\<not> has_dataset (delete_dataset_rows i d) i \<and> (\<forall>a \<in> set (alerts (delete_dataset_rows i d)). al_run_id a \<noteq> i)
    \<and> (\<forall>j. j \<noteq> i \<longrightarrow>
        filter (\<lambda>r. gr_run_id r = j) (generation_runs (delete_dataset_rows i d)) = filter (\<lambda>r. gr_run_id r = j) (generation_runs d)
      \<and> filter (\<lambda>t. tr_run_id (tel_record t) = j) (telemetry (delete_dataset_rows i d)) = filter (\<lambda>t. tr_run_id (tel_record t) = j) (telemetry d)
      \<and> filter (\<lambda>r. mr_dataset_id r = j) (model_runs (delete_dataset_rows i d)) = filter (\<lambda>r. mr_dataset_id r = j) (model_runs d)
      \<and> filter (\<lambda>r. sc_dataset_id r = j) (scores (delete_dataset_rows i d)) = filter (\<lambda>r. sc_dataset_id r = j) (scores d))"
    unfolding delete_dataset_rows_sel
    by (auto simp: delete_dataset_rows_def intro!: filter_cong)
  have "\<not> models_unreferenced i d"
    if "r \<in> set (inference_runs d)" "m \<in> set (model_runs d)" "mr_dataset_id m = i" "ir_model_run_id r = mr_model_run_id m" for r m
    using that unfolding models_unreferenced_def dataset_models_def list_all_iff by blast
  then show ?thesis
    unfolding x Let_def prod.case using iff no yes kept by auto
qed

theorem DeleteDatasetWithScores_correct_witness:
  "let d = CreateRun None (\<lambda>s. True) 5 ''d1'' ex_request ''PENDING'' ''r'' empty_db in
     has_dataset d ''d1'' \<and> fst (DeleteDatasetWithScores None ''d1'' d) = Inr ()
     \<and> \<not> has_dataset (snd (DeleteDatasetWithScores None ''d1'' d)) ''d1''"
proof -
  define d where "d = CreateRun None (\<lambda>s. True) 5 ''d1'' ex_request ''PENDING'' ''r'' empty_db"
  have "has_dataset d ''d1''" "models_unreferenced ''d1'' d"
    by (simp_all add: d_def CreateRun_def transact_def has_dataset_def models_unreferenced_def empty_db_def)
  then show ?thesis
    using DeleteDatasetWithScores_correct [of None "''d1''" d]
    unfolding d_def [symmetric] Let_def by (simp add: case_prod_beta)
qed

text \<open>
  Score jobs are created once: as long as a job for a dataset and model is pending or running,
  creating it again, with any request, returns the same identifier and changes nothing; a new job
  starts PENDING at record 0 and is found by its identifier; an unknown dataset or model is refused.
\<close>

theorem CreateScoreJob_idempotent:
  assumes "reachable (\<lambda>d. d = empty_db) db_step d"
    and "CreateScoreJob None now jid i mid rq d = (out, d')"
  shows "(\<forall>k. out = Inr k \<longrightarrow> CreateScoreJob None now' jid' i mid rq' d' = (Inr k, d')
        \<and> (\<exists>r. find (\<lambda>r. sj_job_id r = k) (score_jobs d') = Some r \<and> sj_dataset_id r = i \<and> sj_model_run_id r = mid
            \<and> active (sj_status r) \<and> (k \<notin> sj_job_id ` set (score_jobs d) \<longrightarrow> sj_status r = ''PENDING'' \<and> sj_last_record_id r = 0)))
    \<and> (\<not> has_dataset d i \<or> \<not> has_model d mid \<longrightarrow> out = Inl key_violation \<and> d' = d)"
proof -
  have ok: "references_ok d" "distinct (map sj_job_id (score_jobs d))"
    using run_store.reachable_inv [OF assms(1)] by (simp_all add: db_ok_def keys_unique_def)
  let ?p = "\<lambda>r. sj_dataset_id r = i \<and> sj_model_run_id r = mid \<and> active (sj_status r)"
  show ?thesis
  proof (cases "find ?p (score_jobs d)")
    case (Some r)
    then have r: "r \<in> set (score_jobs d)" "?p r"
      by (auto simp: find_Some_iff)
    have "find (\<lambda>q. sj_job_id q = sj_job_id r) (score_jobs d) = Some r"
      using find_distinct_key [OF ok(2) r(1)] .
    moreover have "has_dataset d i" "has_model d mid"
      using ok(1) r unfolding references_ok_def by blast+
    ultimately show ?thesis
      using assms(2) Some r by (auto simp: CreateScoreJob_def)
  next
    case None
    let ?new = "\<lparr>sj_job_id = jid, sj_dataset_id = i, sj_model_run_id = mid, sj_status = ''PENDING'',
      sj_total_rows = 0, sj_processed_rows = 0, sj_last_record_id = 0, sj_error = None,
      sj_request_id = rq, sj_created_at = now, sj_updated_at = now, sj_completed_at = None\<rparr>"
    show ?thesis
    proof (cases "has_dataset d i \<and> has_model d mid \<and> jid \<notin> sj_job_id ` set (score_jobs d)")
      case True
      then have out: "out = Inr jid" "d' = d\<lparr>score_jobs := score_jobs d @ [?new]\<rparr>"
        using assms(2) None by (simp_all add: CreateScoreJob_def transact_def)
      have "find (\<lambda>r. sj_job_id r = jid) (score_jobs d) = None"
        using True by (force simp: find_None_iff)
      then have "find (\<lambda>r. sj_job_id r = jid) (score_jobs d') = Some ?new"
        by (simp add: out(2) find_snoc)
      moreover have again: "find ?p (score_jobs d') = Some ?new"
        using None by (simp add: out(2) find_snoc active_def)
      ultimately show ?thesis
        using True out(1) by (simp add: CreateScoreJob_def again active_def)
    next
      case False
      then show ?thesis
        using assms(2) None by (auto simp: CreateScoreJob_def transact_def)
    qed
  qed
qed

theorem CreateScoreJob_idempotent_witness:
  "let d = snd (CreateModelRun None 6 ''m1'' ''d1'' ''n'' JNull ''r'' JNull [] [] None
     (CreateRun None (\<lambda>s. True) 5 ''d1'' ex_request ''PENDING'' ''r'' empty_db));
       d' = snd (CreateScoreJob None 7 ''j1'' ''d1'' ''m1'' ''r1'' d) in
   CreateScoreJob None 8 ''j2'' ''d1'' ''m1'' ''r2'' d' = (Inr ''j1'', d')"
proof -
  define d where "d = snd (CreateModelRun None 6 ''m1'' ''d1'' ''n'' JNull ''r'' JNull [] [] None
     (CreateRun None (\<lambda>s. True) 5 ''d1'' ex_request ''PENDING'' ''r'' empty_db))"
  have r: "reachable (\<lambda>d. d = empty_db) db_step d"
    unfolding d_def
    by (rule reachable_step [OF reachable_step [OF reachable_init]], simp, rule db_step.intros(1), rule db_step.intros(7))
  have "fst (CreateScoreJob None 7 ''j1'' ''d1'' ''m1'' ''r1'' d) = Inr ''j1''"
    unfolding d_def CreateScoreJob_def CreateModelRun_def CreateRun_def empty_db_def
    by (simp add: transact_def has_dataset_def has_model_def new_model_run_def)
  then have "CreateScoreJob None 7 ''j1'' ''d1'' ''m1'' ''r1'' d = (Inr ''j1'', snd (CreateScoreJob None 7 ''j1'' ''d1'' ''m1'' ''r1'' d))"
    by (simp add: prod_eq_iff)
  from CreateScoreJob_idempotent [OF r this] show ?thesis
    unfolding d_def [symmetric] Let_def by simp
qed

end
