(* ===== verification/Strings.thy ===== *)
theory Strings
  imports Prelude
begin

text \<open>
  The pieces of \<^verbatim>\<open>std::string\<close> and of the number parsers of the C++ library that the sources use:
  \<^verbatim>\<open>find\<close>, \<^verbatim>\<open>substr\<close>, \<^verbatim>\<open>std::stoul\<close> and \<^verbatim>\<open>std::stoi\<close>. A parser that throws returns \<^term>\<open>None\<close>.
\<close>

definition is_space :: "char \<Rightarrow> bool" where
  "is_space c \<longleftrightarrow> c = CHR '' '' \<or> (9 \<le> (of_char c :: nat) \<and> (of_char c :: nat) \<le> 13)"

definition is_digit :: "char \<Rightarrow> bool" where
  "is_digit c \<longleftrightarrow> 48 \<le> (of_char c :: nat) \<and> (of_char c :: nat) \<le> 57"

definition digits_value :: "string \<Rightarrow> nat" where
  "digits_value ds = fold (\<lambda>c v. 10 * v + (of_char c - 48)) ds 0"

text \<open>
  What \<^verbatim>\<open>strtol\<close> reads in base 10: white space, an optional sign, and the longest run of digits; the
  rest of the string is ignored. The result is the sign and the magnitude.
\<close>

definition leading_number :: "string \<Rightarrow> (bool \<times> nat) option" where
  "leading_number s =
     (let s1 = dropWhile is_space s;
          signed = (s1 \<noteq> [] \<and> (hd s1 = CHR ''-'' \<or> hd s1 = CHR ''+''));
          negative = (s1 \<noteq> [] \<and> hd s1 = CHR ''-'');
          ds = takeWhile is_digit (if signed then tl s1 else s1)
      in if ds = [] then None else Some (negative, digits_value ds))"

definition stoul :: "string \<Rightarrow> size_t option" where
  "stoul s =
     (case leading_number s of
        None \<Rightarrow> None
      | Some (negative, v) \<Rightarrow>
          if 2 ^ 64 \<le> v then None else Some (if negative then - of_nat v else of_nat v))"

definition stoi :: "string \<Rightarrow> int option" where
  "stoi s =
     (case leading_number s of
        None \<Rightarrow> None
      | Some (negative, v) \<Rightarrow>
          let i = (if negative then - int v else int v) in
          if i < - (2 ^ 31) \<or> 2 ^ 31 \<le> i then None else Some i)"

text \<open>\<^verbatim>\<open>s.find(t) != npos\<close> and \<^verbatim>\<open>s.substr(0, n)\<close>.\<close>

primrec contains :: "string \<Rightarrow> string \<Rightarrow> bool" where
  "contains [] t = (t = [])"
| "contains (c # s) t = (take (length t) (c # s) = t \<or> contains s t)"

definition prefix_of :: "nat \<Rightarrow> string \<Rightarrow> string" where
  "prefix_of n s = take n s"

lemma contains_iff: "contains s t \<longleftrightarrow> (\<exists>u v. s = u @ t @ v)"
proof (induction s)
  case (Cons c s)
  have "take (length t) (c # s) = t \<longleftrightarrow> (\<exists>v. c # s = t @ v)"
    by (metis append_eq_conv_conj)
  moreover have "(\<exists>u v. c # s = u @ t @ v) \<longleftrightarrow> (\<exists>v. c # s = t @ v) \<or> (\<exists>u v. s = u @ t @ v)"
    by (auto simp: Cons_eq_append_conv)
  ultimately show ?case
    using Cons.IH by simp
qed auto

lemma contains_append [simp]: "contains (u @ t @ v) t" "contains (t @ v) t"
  by (auto simp: contains_iff)

lemma digit_char_simps [simp]:
  "d < 10 \<Longrightarrow> is_digit (digit_char d)" "d < 10 \<Longrightarrow> of_char (digit_char d) = 48 + d"
  by (simp_all add: is_digit_def digit_char_def)

lemma string_of_nat_digits: "list_all is_digit (string_of_nat n)" "string_of_nat n \<noteq> []"
  by (induction n rule: string_of_nat.induct) (subst string_of_nat.simps, simp)+

lemma digits_value_snoc: "digits_value (ds @ [c]) = 10 * digits_value ds + (of_char c - 48)"
  by (simp add: digits_value_def)

lemma digits_value_string_of_nat: "digits_value (string_of_nat n) = n"
proof (induction n rule: string_of_nat.induct)
  case (1 n)
  show ?case
  proof (cases "n < 10")
    case True
    then show ?thesis
      by (subst string_of_nat.simps) (simp add: digits_value_def)
  next
    case False
    then show ?thesis
      using 1 by (subst string_of_nat.simps) (simp add: digits_value_snoc)
  qed
qed

lemma leading_number_string_of_nat: "leading_number (string_of_nat n) = Some (False, n)"
proof -
  obtain c cs where s: "string_of_nat n = c # cs" "is_digit c"
    using string_of_nat_digits [of n] by (cases "string_of_nat n") auto
  have "\<not> is_space c" "c \<noteq> CHR ''-''" "c \<noteq> CHR ''+''"
    using s(2) by (auto simp: is_digit_def is_space_def)
  moreover have "takeWhile is_digit (string_of_nat n) = string_of_nat n"
    using string_of_nat_digits(1) [of n] by (simp add: list_all_iff)
  ultimately show ?thesis
    using digits_value_string_of_nat [of n] s(1) by (simp add: leading_number_def Let_def)
qed

lemma stoi_to_string: "0 \<le> i \<Longrightarrow> i < 2 ^ 31 \<Longrightarrow> stoi (to_string i) = Some i"
  by (simp add: stoi_def to_string_def leading_number_string_of_nat Let_def)

lemma stoul_to_string: "n < 2 ^ 64 \<Longrightarrow> stoul (to_string (int n)) = Some (of_nat n)"
  by (simp add: stoul_def to_string_def leading_number_string_of_nat)


lemma digit_chars:
  "digit_char 0 = CHR ''0''" "digit_char (Suc 0) = CHR ''1''" "digit_char 2 = CHR ''2''" "digit_char 3 = CHR ''3''"
  "digit_char 4 = CHR ''4''" "digit_char 5 = CHR ''5''" "digit_char 6 = CHR ''6''" "digit_char 7 = CHR ''7''"
  "digit_char 8 = CHR ''8''" "digit_char 9 = CHR ''9''"
  by code_simp+

end
