(* ===== verification/Keyset.thy ===== *)
theory Keyset
  imports Run_Store Pca_Trainer Strings
begin

text \<open>
  Reading a dataset in batches by record number, as \<^verbatim>\<open>TelemetryBatchIterator\<close>
  (\<^verbatim>\<open>src/src/training/telemetry_iterator.cpp\<close>) and \<^verbatim>\<open>DbClient::FetchScoringRowsAfterRecord\<close> do, and training
  on the rows of a dataset (\<^verbatim>\<open>TrainPcaFromDb\<close> of \<^verbatim>\<open>src/src/training/pca_trainer.cpp\<close>). The locale
  \<open>keyset_source\<close> is the contract of such a reader; the iterator and the scoring query are its
  instances, and the lemmas about cursors are proved once for both.
\<close>

section \<open>The contract of a keyset reader\<close>

lemma filter_after_last:
  fixes key :: "'r \<Rightarrow> int"
  assumes "sorted_wrt (<) (map key (xs @ ys))" "xs \<noteq> []"
  shows "filter (\<lambda>r. key (last xs) < key r) (xs @ ys) = ys"
proof -
  obtain zs z where xs: "xs = zs @ [z]"
    using assms(2) by (metis rev_exhaust)
  have "filter (\<lambda>r. key z < key r) zs = []" "filter (\<lambda>r. key z < key r) ys = ys"
    using assms(1) by (auto simp: xs sorted_wrt_append filter_empty_conv filter_id_conv)
  then show ?thesis
    by (simp add: xs)
qed

lemma filter_less_drop:
  fixes key :: "'r \<Rightarrow> int"
  assumes "sorted_wrt (<) (map key xs)"
  shows "filter (\<lambda>r. x < key r) xs = drop (length (filter (\<lambda>r. key r \<le> x) xs)) xs"
  using assms
proof (induction xs)
  case (Cons y xs)
  show ?case
  proof (cases "x < key y")
    case True
    then have "\<forall>r \<in> set xs. x < key r"
      using Cons.prems by auto
    then have "filter (\<lambda>r. x < key r) xs = xs" "filter (\<lambda>r. key r \<le> x) xs = []"
      by (auto simp: filter_id_conv filter_empty_conv)
    then show ?thesis
      using True by simp
  qed (use Cons in simp)
qed simp

locale keyset_source =
  fixes ok :: "'db \<Rightarrow> bool"
    and fetch :: "'db \<Rightarrow> int \<Rightarrow> nat \<Rightarrow> 'r list"
    and key :: "'r \<Rightarrow> int"
    and all_rows :: "'db \<Rightarrow> 'r list"
  assumes sorted_rows: "ok d \<Longrightarrow> sorted_wrt (<) (map key (all_rows d))"
    and fetch_spec: "ok d \<Longrightarrow> fetch d after n = take n (filter (\<lambda>r. after < key r) (all_rows d))"
    and keys_positive: "ok d \<Longrightarrow> r \<in> set (all_rows d) \<Longrightarrow> 0 < key r"
begin

text \<open>The cursor \<open>after\<close> stands behind the first \<open>k\<close> rows.\<close>

definition at_cursor :: "'db \<Rightarrow> int \<Rightarrow> nat \<Rightarrow> bool" where
  "at_cursor d after k \<longleftrightarrow> filter (\<lambda>r. after < key r) (all_rows d) = drop k (all_rows d)"

lemma cursor_start: "ok d \<Longrightarrow> at_cursor d 0 0"
  unfolding at_cursor_def drop_0 using keys_positive by (simp add: filter_id_conv)

lemma cursor_anywhere:
  "ok d \<Longrightarrow> at_cursor d x (length (filter (\<lambda>r. key r \<le> x) (all_rows d)))"
  unfolding at_cursor_def by (rule filter_less_drop) (rule sorted_rows)

lemma cursor_fetch: "ok d \<Longrightarrow> at_cursor d after k \<Longrightarrow> fetch d after n = take n (drop k (all_rows d))"
  by (simp add: fetch_spec at_cursor_def)

lemma cursor_advance:
  assumes "ok d" "at_cursor d after k" "fetch d after n \<noteq> []"
  shows "at_cursor d (key (last (fetch d after n))) (k + length (fetch d after n))"
proof -
  let ?b = "fetch d after n" and ?rs = "all_rows d"
  have b: "?b = take n (drop k ?rs)"
    using cursor_fetch [OF assms(1,2)] .
  have "take (k + length ?b) ?rs = take k ?rs @ ?b"
    unfolding b by (simp add: take_add min_def)
  then have "?rs = (take k ?rs @ ?b) @ drop (k + length ?b) ?rs"
    by (metis append_take_drop_id)
  then show ?thesis
    unfolding at_cursor_def
    using filter_after_last [of key "take k ?rs @ ?b" "drop (k + length ?b) ?rs"] sorted_rows [OF assms(1)] assms(3)
    by (metis append_is_Nil_conv last_appendR)
qed

lemma cursor_end: "ok d \<Longrightarrow> at_cursor d after k \<Longrightarrow> 0 < n \<Longrightarrow> fetch d after n = [] \<longleftrightarrow> length (all_rows d) \<le> k"
  by (simp add: cursor_fetch)

end

section \<open>The batch iterator\<close>

record TelemetryBatchIterator =
  it_dataset_id :: string
  it_batch_size :: nat
  it_last_record_id :: int
  it_total_processed :: nat

definition new_TelemetryBatchIterator :: "string \<Rightarrow> nat \<Rightarrow> TelemetryBatchIterator" where
  "new_TelemetryBatchIterator dataset_id batch_size =
     \<lparr>it_dataset_id = dataset_id, it_batch_size = batch_size, it_last_record_id = 0, it_total_processed = 0\<rparr>"

text \<open>Every exception inside \<^verbatim>\<open>NextBatch\<close> is logged and reported like the end of the data.\<close>

definition NextBatch :: "cpp_exception option \<Rightarrow> db \<Rightarrow> TelemetryBatchIterator \<Rightarrow> bool \<times> Vector list \<times> TelemetryBatchIterator" where
  "NextBatch fault d it =
     (if fault \<noteq> None then (False, [], it)
      else
        let res = rows_after (it_dataset_id it) (it_last_record_id it) (it_batch_size it) d in
        if res = [] then (False, [], it)
        else
          (True, map (\<lambda>t. FromRecord (tel_record t)) res,
           it\<lparr>it_last_record_id := tel_record_id (last res),
              it_total_processed := it_total_processed it + length res\<rparr>))"

definition Reset :: "TelemetryBatchIterator \<Rightarrow> TelemetryBatchIterator" where
  "Reset it = it\<lparr>it_last_record_id := 0, it_total_processed := 0\<rparr>"

definition TotalRowsProcessed :: "TelemetryBatchIterator \<Rightarrow> nat" where
  "TotalRowsProcessed it = it_total_processed it"

text \<open>
  One pass of \<^verbatim>\<open>for_each\<close>: the loop over \<^verbatim>\<open>NextBatch\<close>, with the number of batches, every tenth of which
  sends a heartbeat. \<open>fault k\<close> is what goes wrong in the \<open>k\<close>-th query of the pass; \<^term>\<open>None\<close> stands for a loop that has
  not ended within the given number of rounds.
\<close>

primrec read_batches ::
  "nat \<Rightarrow> (nat \<Rightarrow> cpp_exception option) \<Rightarrow> db \<Rightarrow> nat \<Rightarrow> TelemetryBatchIterator
     \<Rightarrow> (Vector list \<times> nat \<times> TelemetryBatchIterator) option" where
  "read_batches 0 fault d batch_count it = None"
| "read_batches (Suc n) fault d batch_count it =
     (case NextBatch (fault batch_count) d it of (has_more, batch, it1) \<Rightarrow>
        if has_more then
          map_option (\<lambda>(vs, cnt, it2). (batch @ vs, cnt, it2)) (read_batches n fault d (Suc batch_count) it1)
        else Some ([], batch_count, it1))"

definition for_each ::
  "nat \<Rightarrow> (nat \<Rightarrow> cpp_exception option) \<Rightarrow> db \<Rightarrow> TelemetryBatchIterator
     \<Rightarrow> (Vector list \<times> nat \<times> TelemetryBatchIterator) option" where
  "for_each fuel fault d it = read_batches fuel fault d 0 (Reset it)"

definition heartbeats :: "nat \<Rightarrow> nat" where
  "heartbeats batch_count = batch_count div 10"

text \<open>The three passes of the training each run the loop once; \<open>faults\<close> gives the failures of each pass.\<close>

definition TrainPcaFromDbBatched ::
  "nat \<Rightarrow> (nat \<Rightarrow> nat \<Rightarrow> cpp_exception option) \<Rightarrow> string \<Rightarrow> int \<Rightarrow> real \<Rightarrow> nat \<Rightarrow> db \<Rightarrow> PcaArtifact cpp option" where
  "TrainPcaFromDbBatched fuel faults dataset_id n_comp percentile batch_size d =
     (let it = new_TelemetryBatchIterator dataset_id batch_size in
      case for_each fuel (faults 0) d it of
        None \<Rightarrow> None
      | Some (pass1, cnt1, it1) \<Rightarrow>
          (case for_each fuel (faults 1) d it1 of
             None \<Rightarrow> None
           | Some (pass2, cnt2, it2) \<Rightarrow>
               (case for_each fuel (faults 2) d it2 of
                  None \<Rightarrow> None
                | Some (pass3, cnt3, it3) \<Rightarrow> Some (TrainPcaFromStream pass1 pass2 pass3 kSize n_comp percentile))))"

definition train_batch_size :: "string option \<Rightarrow> nat" where
  "train_batch_size env_batch_size =
     (case env_batch_size of
        None \<Rightarrow> 10000
      | Some s \<Rightarrow> (case stoul s of None \<Rightarrow> 10000 | Some n \<Rightarrow> unat n))"

definition TrainPcaFromDb ::
  "nat \<Rightarrow> (nat \<Rightarrow> nat \<Rightarrow> cpp_exception option) \<Rightarrow> string option \<Rightarrow> string \<Rightarrow> int \<Rightarrow> real \<Rightarrow> db \<Rightarrow> PcaArtifact cpp option" where
  "TrainPcaFromDb fuel faults env_batch_size dataset_id n_comp percentile d =
     TrainPcaFromDbBatched fuel faults dataset_id n_comp percentile (train_batch_size env_batch_size) d"

section \<open>The two readers meet the contract\<close>

definition dataset_rows :: "string \<Rightarrow> db \<Rightarrow> telemetry_row list" where
  "dataset_rows i d = sort_key tel_record_id (filter (\<lambda>t. tr_run_id (tel_record t) = i) (telemetry d))"

lemma filter_sort_key: "filter P (sort_key f xs) = sort_key f (filter P xs)"
  by (simp add: filter_sort)

lemma rows_after_dataset_rows:
  "rows_after i after n d = take n (filter (\<lambda>t. after < tel_record_id t) (dataset_rows i d))"
  by (simp add: rows_after_def dataset_rows_def filter_sort_key conj_commute)

lemma dataset_rows_sorted:
  assumes "db_ok d"
  shows "sorted_wrt (<) (map tel_record_id (dataset_rows i d))"
proof -
  have "distinct (map tel_record_id (filter (\<lambda>t. tr_run_id (tel_record t) = i) (telemetry d)))"
    using assms by (simp add: db_ok_def keys_unique_def distinct_map_filter)
  then have "distinct (map tel_record_id (dataset_rows i d))"
    by (metis dataset_rows_def distinct_map mset_sort set_sort mset_eq_imp_distinct_iff)
  then show ?thesis
    by (simp add: strict_sorted_iff dataset_rows_def)
qed

interpretation iterator_rows: keyset_source db_ok "\<lambda>d after n. rows_after i after n d" tel_record_id "dataset_rows i"
  for i :: string
proof (unfold_locales, goal_cases)
  case (1 d)
  then show ?case by (rule dataset_rows_sorted)
next
  case (2 d after n)
  show ?case by (rule rows_after_dataset_rows)
next
  case (3 d r)
  then show ?case by (auto simp: db_ok_def keys_unique_def dataset_rows_def)
qed

interpretation scoring_rows: keyset_source db_ok "\<lambda>d after n. map scoring_row (rows_after i after n d)" sr_record_id
    "\<lambda>d. map scoring_row (dataset_rows i d)"
  for i :: string
proof (unfold_locales, goal_cases)
  case (1 d)
  then show ?case using dataset_rows_sorted [of d i] by (simp add: scoring_row_def comp_def)
next
  case (2 d after n)
  show ?case by (simp add: rows_after_dataset_rows filter_map comp_def scoring_row_def take_map)
next
  case (3 d r)
  then show ?case by (auto simp: db_ok_def keys_unique_def dataset_rows_def scoring_row_def)
qed


section \<open>What a pass reads\<close>

text \<open>The rows a pass delivers when its query number \<open>k\<close> is the first to fail.\<close>

definition delivered :: "nat \<Rightarrow> nat option \<Rightarrow> 'r list \<Rightarrow> 'r list" where
  "delivered batch_size failed rs = (case failed of None \<Rightarrow> rs | Some k \<Rightarrow> take (k * batch_size) rs)"

definition fails_at :: "nat option \<Rightarrow> (nat \<Rightarrow> cpp_exception option) \<Rightarrow> bool" where
  "fails_at failed fault \<longleftrightarrow>
     (case failed of None \<Rightarrow> \<forall>k. fault k = None | Some k \<Rightarrow> fault k \<noteq> None \<and> (\<forall>j < k. fault j = None))"

lemma delivered_split:
  assumes "failed = None \<or> Suc c \<le> the failed"
  shows "take bs (drop (c * bs) L) @ drop (Suc c * bs) (delivered bs failed L) = drop (c * bs) (delivered bs failed L)"
proof -
  let ?D = "delivered bs failed L"
  have "take bs (drop (c * bs) ?D) = take bs (drop (c * bs) L)"
  proof (cases failed)
    case (Some f)
    then have "Suc c * bs \<le> f * bs"
      using assms by (intro mult_le_mono1) simp
    then show ?thesis
      using Some by (simp add: delivered_def drop_take min_def)
  qed (simp add: delivered_def)
  moreover have "drop (Suc c * bs) ?D = drop bs (drop (c * bs) ?D)"
    by (simp add: add.commute)
  ultimately show ?thesis
    by (metis append_take_drop_id)
qed

lemma read_batches_delivered:
  assumes "db_ok d" "0 < it_batch_size it" "fails_at failed fault"
    and "iterator_rows.at_cursor (it_dataset_id it) d (it_last_record_id it) (c * it_batch_size it)"
    and "failed = None \<or> c \<le> the failed"
    and "length (drop (c * it_batch_size it) (dataset_rows (it_dataset_id it) d)) < n"
  shows "\<exists>cnt it'. read_batches n fault d c it =
      Some (drop (c * it_batch_size it) (delivered (it_batch_size it) failed
              (map (\<lambda>t. FromRecord (tel_record t)) (dataset_rows (it_dataset_id it) d))), cnt, it')
    \<and> it_dataset_id it' = it_dataset_id it \<and> it_batch_size it' = it_batch_size it"
  using assms(2,4-6)
proof (induction n arbitrary: c it)
  case (Suc n)
  let ?i = "it_dataset_id it" and ?bs = "it_batch_size it"
  let ?rs = "dataset_rows ?i d" and ?vec = "\<lambda>t. FromRecord (tel_record t)"
  let ?res = "rows_after ?i (it_last_record_id it) ?bs d"
  have res: "?res = take ?bs (drop (c * ?bs) ?rs)"
    using iterator_rows.cursor_fetch [OF assms(1) Suc.prems(2)] .
  show ?case
  proof (cases "fault c = None")
    case False
    then have "failed = Some c"
      using assms(3) Suc.prems(3) by (auto simp: fails_at_def split: option.splits intro: le_neq_implies_less)
    then show ?thesis
      using False by (auto simp: NextBatch_def delivered_def)
  next
    case ok: True
    show ?thesis
    proof (cases "?res = []")
      case True
      then have "length ?rs \<le> c * ?bs"
        using iterator_rows.cursor_end [OF assms(1) Suc.prems(2,1)] by simp
      then have "drop (c * ?bs) (delivered ?bs failed (map ?vec ?rs)) = []"
        by (cases failed) (auto simp: delivered_def)
      then show ?thesis
        using ok True by (auto simp: NextBatch_def)
    next
      case False
      define it1 where "it1 = it\<lparr>it_last_record_id := tel_record_id (last ?res), it_total_processed := it_total_processed it + length ?res\<rparr>"
      have same: "it_dataset_id it1 = ?i" "it_batch_size it1 = ?bs"
        by (simp_all add: it1_def)
      have cur: "iterator_rows.at_cursor ?i d (tel_record_id (last ?res)) (c * ?bs + length ?res)"
        using iterator_rows.cursor_advance [OF assms(1) Suc.prems(2) False] .
      have "Suc c \<le> the failed" if "failed \<noteq> None"
        using that assms(3) ok Suc.prems(3) by (cases failed) (auto simp: fails_at_def le_less)
      then have next_le: "failed = None \<or> Suc c \<le> the failed" by blast
      have "drop (c * ?bs + length ?res) ?rs = drop (Suc c * ?bs) ?rs"
        unfolding res by (simp add: min_def add.commute)
      then have "iterator_rows.at_cursor (it_dataset_id it1) d (it_last_record_id it1) (Suc c * it_batch_size it1)"
        using cur by (simp add: it1_def iterator_rows.at_cursor_def)
      moreover have "length (drop (Suc c * it_batch_size it1) (dataset_rows (it_dataset_id it1) d)) < n"
        using Suc.prems(1,4) False res by (simp add: same)
      ultimately obtain cnt it' where "read_batches n fault d (Suc c) it1 =
          Some (drop (Suc c * ?bs) (delivered ?bs failed (map ?vec ?rs)), cnt, it')"
          "it_dataset_id it' = ?i" "it_batch_size it' = ?bs"
        using Suc.IH [of it1 "Suc c"] Suc.prems(1) next_le by (auto simp: same)
      moreover have "map ?vec ?res @ drop (Suc c * ?bs) (delivered ?bs failed (map ?vec ?rs)) = drop (c * ?bs) (delivered ?bs failed (map ?vec ?rs))"
        unfolding res take_map [symmetric] drop_map [symmetric] by (rule delivered_split) (rule next_le)
      ultimately show ?thesis
        using ok False by (auto simp: NextBatch_def it1_def Let_def)
    qed
  qed
qed simp


lemma for_each_delivered:
  assumes "db_ok d" "0 < it_batch_size it" "fails_at failed fault" "length (dataset_rows (it_dataset_id it) d) < fuel"
  obtains cnt it' where "for_each fuel fault d it =
      Some (delivered (it_batch_size it) failed (map (\<lambda>t. FromRecord (tel_record t)) (dataset_rows (it_dataset_id it) d)), cnt, it')"
    "it_dataset_id it' = it_dataset_id it" "it_batch_size it' = it_batch_size it"
proof -
  have "iterator_rows.at_cursor (it_dataset_id (Reset it)) d (it_last_record_id (Reset it)) (0 * it_batch_size (Reset it))"
    using iterator_rows.cursor_start [OF assms(1)] by (simp add: Reset_def)
  then show thesis
    using read_batches_delivered [of d "Reset it" failed fault 0 fuel] assms that
    by (auto simp: Reset_def for_each_def)
qed

section \<open>Properties\<close>

lemma training_delivers:
  assumes "reachable (\<lambda>d. d = empty_db) db_step d" and "0 < batch_size"
    and "length (dataset_rows i d) < fuel"
    and "\<forall>p < 3. fails_at (failed p) (faults p)"
  shows "let samples = map (\<lambda>t. FromRecord (tel_record t)) (dataset_rows i d) in
      mset samples = {# FromRecord (tel_record t). t \<in># mset (filter (\<lambda>t. tr_run_id (tel_record t) = i) (telemetry d)) #}
    \<and> TrainPcaFromDbBatched fuel faults i n_comp percentile batch_size d =
        Some (TrainPcaFromStream (delivered batch_size (failed 0) samples) (delivered batch_size (failed 1) samples)
               (delivered batch_size (failed 2) samples) kSize n_comp percentile)
    \<and> ((\<forall>p < 3. failed p = None) \<longrightarrow>
        TrainPcaFromDbBatched fuel faults i n_comp percentile batch_size d = Some (TrainPcaFromSamples samples n_comp percentile))"
proof -
  define samples where "samples = map (\<lambda>t. FromRecord (tel_record t)) (dataset_rows i d)"
  let ?it = "new_TelemetryBatchIterator i batch_size"
  have ok: "db_ok d"
    using run_store.reachable_inv [OF assms(1)] .
  have it: "it_dataset_id ?it = i" "it_batch_size ?it = batch_size"
    by (simp_all add: new_TelemetryBatchIterator_def)
  have pass: "\<exists>cnt it'. for_each fuel (faults p) d it = Some (delivered batch_size (failed p) samples, cnt, it')
      \<and> it_dataset_id it' = i \<and> it_batch_size it' = batch_size"
    if "p < 3" "it_dataset_id it = i" "it_batch_size it = batch_size" for p it
  proof -
    from that(1) assms(4) have "fails_at (failed p) (faults p)" by blast
    then show ?thesis
      using for_each_delivered [OF ok, of it "failed p" "faults p" fuel] that(2,3) assms(2,3) by (metis samples_def)
  qed
  obtain c1 it1 where p1: "for_each fuel (faults 0) d ?it = Some (delivered batch_size (failed 0) samples, c1, it1)"
      "it_dataset_id it1 = i" "it_batch_size it1 = batch_size"
    using pass [of 0 ?it] it by auto
  obtain c2 it2 where p2: "for_each fuel (faults 1) d it1 = Some (delivered batch_size (failed 1) samples, c2, it2)"
      "it_dataset_id it2 = i" "it_batch_size it2 = batch_size"
    using pass [of 1 it1] p1 by auto
  obtain c3 it3 where p3: "for_each fuel (faults 2) d it2 = Some (delivered batch_size (failed 2) samples, c3, it3)"
    using pass [of 2 it2] p2 by auto
  have "TrainPcaFromDbBatched fuel faults i n_comp percentile batch_size d =
        Some (TrainPcaFromStream (delivered batch_size (failed 0) samples) (delivered batch_size (failed 1) samples)
               (delivered batch_size (failed 2) samples) kSize n_comp percentile)"
    using p1(1) p2(1) p3 by (simp add: TrainPcaFromDbBatched_def Let_def)
  moreover have "mset samples = {# FromRecord (tel_record t). t \<in># mset (filter (\<lambda>t. tr_run_id (tel_record t) = i) (telemetry d)) #}"
    by (simp add: samples_def dataset_rows_def)
  ultimately show ?thesis
    unfolding samples_def [symmetric] Let_def by (simp add: TrainPcaFromSamples_def delivered_def)
qed

text \<open>
  C16. Training on a dataset reads it completely: for any batch size, in any reachable state of the
  store, the three passes end (one query more than the dataset has rows is enough) and the result
  is that of training on the feature vectors of exactly the telemetry rows of the dataset, each
  once, in the order of their record numbers. When a query of a pass fails the failure is not
  reported: that pass silently continues with the batches before it.
\<close>

theorem training_reads_dataset:
  assumes "reachable (\<lambda>d. d = empty_db) db_step d" and "0 < batch_size"
    and "length (dataset_rows i d) < fuel"
    and "\<forall>p < 3. fails_at (failed p) (faults p)"
  shows "let samples = map (\<lambda>t. FromRecord (tel_record t)) (dataset_rows i d) in
      mset samples = {# FromRecord (tel_record t). t \<in># mset (filter (\<lambda>t. tr_run_id (tel_record t) = i) (telemetry d)) #}
    \<and> TrainPcaFromDbBatched fuel faults i n_comp percentile batch_size d =
        Some (TrainPcaFromStream (delivered batch_size (failed 0) samples) (delivered batch_size (failed 1) samples)
               (delivered batch_size (failed 2) samples) kSize n_comp percentile)
    \<and> ((\<forall>p < 3. failed p = None) \<longrightarrow>
        TrainPcaFromDbBatched fuel faults i n_comp percentile batch_size d = Some (TrainPcaFromSamples samples n_comp percentile))"
  by (rule training_delivers [OF assms])

definition ex_record :: "real \<Rightarrow> TelemetryRecord" where
  "ex_record x = \<lparr>metric_timestamp = 0, ingestion_time = 0, tr_host_id = ''h'', tr_project_id = ''p'', tr_region = ''r'',
     tr_cpu_usage = x, tr_memory_usage = 1, tr_disk_utilization = 2, tr_network_rx_rate = 3, tr_network_tx_rate = 4,
     tr_labels_json = [], tr_run_id = ''d1'', tr_is_anomaly = False, tr_anomaly_type = []\<rparr>"

definition ex_dataset :: db where
  "ex_dataset = snd (BatchInsertTelemetry None [ex_record 7, ex_record 8]
     (CreateRun None (\<lambda>s. True) 5 ''d1'' ex_request ''RUNNING'' ''r'' empty_db))"

lemma ex_dataset_reachable: "reachable (\<lambda>d. d = empty_db) db_step ex_dataset"
  unfolding ex_dataset_def
  by (rule reachable_step [OF reachable_step [OF reachable_init]], simp, rule db_step.intros(1), rule db_step.intros(3))

lemma ex_dataset_rows:
  "dataset_rows ''d1'' ex_dataset = [\<lparr>tel_record_id = 1, tel_record = ex_record 7\<rparr>, \<lparr>tel_record_id = 2, tel_record = ex_record 8\<rparr>]"
  by (simp add: ex_dataset_def dataset_rows_def BatchInsertTelemetry_def CreateRun_def transact_def empty_db_def
      has_dataset_def ex_record_def)

theorem training_reads_dataset_witness:
  "TrainPcaFromDbBatched 3 (\<lambda>p k. if p = 0 \<and> k = 1 then Some (Broken_connection ''lost'') else None) ''d1'' 3 99 1 ex_dataset =
     Some (TrainPcaFromStream [[7, 1, 2, 3, 4]] [[7, 1, 2, 3, 4], [8, 1, 2, 3, 4]] [[7, 1, 2, 3, 4], [8, 1, 2, 3, 4]] kSize 3 99)"
proof -
  have fails: "\<forall>p < 3. fails_at (if p = 0 then Some 1 else None)
      (\<lambda>k. if p = (0::nat) \<and> k = 1 then Some (Broken_connection ''lost'') else None)"
    by (auto simp: fails_at_def)
  show ?thesis
    using training_reads_dataset [OF ex_dataset_reachable _ _ fails, of 1 "''d1''" 3 3 99]
    by (simp add: Let_def ex_dataset_rows delivered_def FromRecord_def ex_record_def)
qed

end
