(* ===== verification/Score_Job.thy ===== *)
theory Score_Job
  imports Keyset Model_Cache
begin

text \<open>
  The background job that scores a dataset with a model: the function that
  \<^verbatim>\<open>ApiServer::HandleScoreDatasetJob\<close> (\<^verbatim>\<open>src/src/api_server.cpp\<close>) hands to the job manager. It reads the
  dataset in batches, scores every row, stores the scores, and writes its progress to the job row
  after every batch. What can go wrong in each call, the clock and the stop flag are parameters;
  the log lines are not modelled.
\<close>

section \<open>The work function\<close>

record score_env =
  sv_fault :: "nat \<Rightarrow> cpp_exception option"
  sv_fetch_fault :: "nat \<Rightarrow> cpp_exception option"
  sv_insert_fault :: "nat \<Rightarrow> cpp_exception option"
  sv_update_fault :: "nat \<Rightarrow> cpp_exception option"
  sv_stop :: "nat \<Rightarrow> bool"
  sv_stop_end :: bool
  sv_now :: "nat \<Rightarrow> int"
  sv_elapsed_ms :: "nat \<Rightarrow> real"
  sv_time_text :: "int \<Rightarrow> string"
  sv_error_text :: "real \<Rightarrow> string"

record cache_env =
  cv_order :: "entries \<Rightarrow> entries"
  cv_sizeof :: size_t
  cv_artifacts :: artifact_env
  cv_now :: time_point

datatype loop_end = Ended | Raised cpp_exception | Still_running

definition score_batch_size :: nat where
  "score_batch_size = 5000"

definition score_rows :: "(real \<Rightarrow> string) \<Rightarrow> PcaModel \<Rightarrow> ScoringRow list \<Rightarrow> (int \<times> real \<times> bool) list cpp" where
  "score_rows fmt model rs =
     cmap (\<lambda>r. cbind (Score fmt (sr_features r) model)
                 (\<lambda>s. Inr (sr_record_id r, reconstruction_error s, ps_is_anomaly s))) rs"

text \<open>The loop; \<open>k\<close> counts its rounds, and it is cut off as \<open>Still_running\<close> after \<open>n\<close> of them.\<close>

fun score_loop ::
  "nat \<Rightarrow> score_env \<Rightarrow> PcaModel \<Rightarrow> string \<Rightarrow> string \<Rightarrow> string \<Rightarrow> int \<Rightarrow> nat \<Rightarrow> int \<Rightarrow> int \<Rightarrow> db
     \<Rightarrow> loop_end \<times> int \<times> int \<times> db" where
  "score_loop 0 env model dataset_id mid jid total_rows k processed last_record d = (Still_running, processed, last_record, d)"
| "score_loop (Suc n) env model dataset_id mid jid total_rows k processed last_record d =
     (if sv_stop env k then (Ended, processed, last_record, d)
      else
        (case FetchScoringRowsAfterRecord (sv_fetch_fault env k) dataset_id last_record score_batch_size d of
           Inl e \<Rightarrow> (Raised e, processed, last_record, d)
         | Inr rs \<Rightarrow>
             if rs = [] then (Ended, processed, last_record, d)
             else
               (case score_rows (sv_error_text env) model rs of
                  Inl e \<Rightarrow> (Raised e, processed, last_record, d)
                | Inr entries \<Rightarrow>
                    (case InsertDatasetScores (sv_insert_fault env k) (sv_elapsed_ms env k) dataset_id mid entries d of
                       (Inl e, d1) \<Rightarrow> (Raised e, processed, last_record, d1)
                     | (Inr u, d1) \<Rightarrow>
                         (let processed1 = processed + int (length rs); last1 = sr_record_id (last rs);
                              d2 = UpdateScoreJob (sv_update_fault env k) (sv_now env k) jid ''RUNNING'' total_rows processed1 last1 '''' d1
                          in score_loop n env model dataset_id mid jid total_rows (Suc k) processed1 last1 d2)))))"

definition job_progress :: "json \<Rightarrow> (int \<times> int \<times> int) cpp" where
  "job_progress info =
     cbind (jvalue jget_long info ''total_rows'' 0) (\<lambda>total.
     cbind (jvalue jget_long info ''processed_rows'' 0) (\<lambda>processed.
     cbind (jvalue jget_long info ''last_record_id'' 0) (\<lambda>last_record. Inr (total, processed, last_record))))"

datatype finish = Finished | Unfinished

text \<open>
  The part of the \<^verbatim>\<open>try\<close> block that follows the claim of the job: load the model, score, and write the
  final status. \<open>sv_fault\<close> numbers the calls outside the loop in the order of the code.
\<close>

definition score_job_scoring ::
  "nat \<Rightarrow> score_env \<Rightarrow> cache_env \<Rightarrow> string \<Rightarrow> string \<Rightarrow> string \<Rightarrow> int \<Rightarrow> int \<Rightarrow> int \<Rightarrow> PcaModelCache \<Rightarrow> db
     \<Rightarrow> finish outcome \<times> PcaModelCache \<times> db" where
  "score_job_scoring fuel env cenv dataset_id mid jid total_rows processed last_record c d =
     or_throw (jvalue jget_string (GetModelRun (sv_fault env 5) (sv_time_text env) mid d) ''artifact_path'' '''') (c, d) (\<lambda>path.
     if path = '''' then (Threw (Runtime_error ''Model artifact path missing''), c, d)
     else
       (case GetOrCreate (cv_order cenv) (cv_sizeof cenv) (cv_artifacts cenv) (cv_now cenv) mid path c of
          (Returned model, c1) \<Rightarrow>
            (case score_loop fuel env model dataset_id mid jid total_rows 0 processed last_record d of
               (Ended, processed1, last1, d3) \<Rightarrow>
                 (Returned Finished, c1,
                  UpdateScoreJob (sv_fault env 6) (sv_now env 2) jid (if sv_stop_end env then ''CANCELLED'' else ''COMPLETED'')
                    total_rows processed1 last1 '''' d3)
             | (Raised e, processed1, last1, d3) \<Rightarrow> (Threw e, c1, d3)
             | (Still_running, processed1, last1, d3) \<Rightarrow> (Returned Unfinished, c1, d3))
        | (Threw e, c1) \<Rightarrow> (Threw e, c1, d)
        | (Terminated, c1) \<Rightarrow> (Terminated, c1, d)
        | (Undefined, c1) \<Rightarrow> (Undefined, c1, d)))"

definition score_job_try ::
  "nat \<Rightarrow> score_env \<Rightarrow> cache_env \<Rightarrow> string \<Rightarrow> string \<Rightarrow> string \<Rightarrow> PcaModelCache \<times> db
     \<Rightarrow> finish outcome \<times> PcaModelCache \<times> db" where
  "score_job_try fuel env cenv dataset_id mid jid s =
     (case s of (c, d) \<Rightarrow>
      or_throw (job_progress (GetScoreJob (sv_fault env 0) (sv_time_text env) jid d)) (c, d) (\<lambda>(old_total, processed, last_record).
      or_throw (GetDatasetRecordCount (sv_fault env 1) dataset_id d) (c, d) (\<lambda>total.
      (case TryTransitionScoreJobStatus (sv_fault env 2) (sv_now env 0) jid ''PENDING'' ''RUNNING'' d of (won, d1) \<Rightarrow>
      or_throw (if won then Inr ''RUNNING''
                else jvalue jget_string (GetScoreJob (sv_fault env 3) (sv_time_text env) jid d1) ''status'' '''') (c, d1) (\<lambda>status.
      if status \<noteq> ''RUNNING'' then (Returned Finished, c, d1)
      else
        score_job_scoring fuel env cenv dataset_id mid jid total processed last_record c
          (UpdateScoreJob (sv_fault env 4) (sv_now env 1) jid ''RUNNING'' total processed last_record '''' d1))))))"

text \<open>The whole function: after an exception the job row is marked FAILED with the progress it holds.\<close>

definition score_job ::
  "nat \<Rightarrow> score_env \<Rightarrow> cache_env \<Rightarrow> string \<Rightarrow> string \<Rightarrow> string \<Rightarrow> PcaModelCache \<times> db
     \<Rightarrow> finish outcome \<times> PcaModelCache \<times> db" where
  "score_job fuel env cenv dataset_id mid jid s =
     (case score_job_try fuel env cenv dataset_id mid jid s of (out, c, d) \<Rightarrow>
        (case out of
           Threw e \<Rightarrow>
             or_throw (job_progress (GetScoreJob (sv_fault env 7) (sv_time_text env) jid d)) (c, d) (\<lambda>(total, processed, last_record).
               (Threw e, c, UpdateScoreJob (sv_fault env 8) (sv_now env 3) jid ''FAILED'' total processed last_record (what e) d))
         | _ \<Rightarrow> (out, c, d)))"


section \<open>What the loop has stored\<close>

definition score_of :: "(real \<Rightarrow> string) \<Rightarrow> PcaModel \<Rightarrow> telemetry_row \<Rightarrow> int \<times> real \<times> bool" where
  "score_of fmt model t =
     (case Score fmt (FromRecord (tel_record t)) model of
        Inr s \<Rightarrow> (tel_record_id t, reconstruction_error s, ps_is_anomaly s)
      | Inl e \<Rightarrow> (tel_record_id t, 0, False))"

definition score_entry :: "string \<Rightarrow> string \<Rightarrow> int \<times> real \<times> bool \<Rightarrow> score_row" where
  "score_entry dataset_id mid e =
     \<lparr>sc_dataset_id = dataset_id, sc_model_run_id = mid, sc_record_id = fst e,
      sc_reconstruction_error = fst (snd e), sc_predicted = snd (snd e)\<rparr>"

definition scorable :: "(real \<Rightarrow> string) \<Rightarrow> PcaModel \<Rightarrow> telemetry_row \<Rightarrow> bool" where
  "scorable fmt model t \<longleftrightarrow> (\<exists>s. Score fmt (FromRecord (tel_record t)) model = Inr s)"

lemma score_rows_of:
  "score_rows fmt model (map scoring_row ts) = (if \<forall>t \<in> set ts. scorable fmt model t then Inr (map (score_of fmt model) ts)
     else score_rows fmt model (map scoring_row ts))"
  unfolding score_rows_def cmap_map
  by (auto intro!: cmap_Inr simp: scoring_row_def score_of_def scorable_def)

lemma score_rows_Inr:
  "score_rows fmt model (map scoring_row ts) = Inr es \<Longrightarrow> (\<forall>t \<in> set ts. scorable fmt model t) \<and> es = map (score_of fmt model) ts"
  by (induction ts arbitrary: es)
    (auto simp: score_rows_def cbind_Inr_iff scoring_row_def scorable_def score_of_def)

lemma insert_scores_effect:
  assumes "InsertDatasetScores fault ms ds mid es d = (Inr u, d1)" "db_ok d"
  shows "db_ok d1 \<and> telemetry d1 = telemetry d \<and> score_jobs d1 = score_jobs d \<and> model_runs d1 = model_runs d
    \<and> generation_runs d1 = generation_runs d
    \<and> scores d1 = scores d @ map (score_entry ds mid) es"
proof -
  have "db_ok d1"
    using db_ok_step [OF assms(2) db_step.intros(19) [of _ fault ms ds mid es]] assms(1) by simp
  moreover have "(\<lambda>(rid, e, p). \<lparr>sc_dataset_id = ds, sc_model_run_id = mid, sc_record_id = rid,
      sc_reconstruction_error = e, sc_predicted = p\<rparr>) = score_entry ds mid"
    by (auto simp: score_entry_def fun_eq_iff)
  ultimately show ?thesis
    using assms(1) by (auto simp: InsertDatasetScores_def Let_def transact_def split: if_splits option.splits)
qed

lemma insert_scores_failed: "InsertDatasetScores fault ms ds mid es d = (Inl e, d1) \<Longrightarrow> d1 = d"
  by (auto simp: InsertDatasetScores_def Let_def transact_def split: if_splits option.splits)

lemma insert_scores_quiet:
  "es \<noteq> [] \<Longrightarrow> has_dataset d ds \<Longrightarrow> has_model d mid \<Longrightarrow> \<exists>d1. InsertDatasetScores None ms ds mid es d = (Inr (), d1)"
  by (simp add: InsertDatasetScores_def Let_def transact_def)

lemma update_job_effect [simp]:
  "telemetry (UpdateScoreJob f now jid st n p l e d) = telemetry d"
  "scores (UpdateScoreJob f now jid st n p l e d) = scores d"
  "model_runs (UpdateScoreJob f now jid st n p l e d) = model_runs d"
  "generation_runs (UpdateScoreJob f now jid st n p l e d) = generation_runs d"
  "has_dataset (UpdateScoreJob f now jid st n p l e d) = has_dataset d"
  "map sj_job_id (score_jobs (UpdateScoreJob f now jid st n p l e d)) = map sj_job_id (score_jobs d)"
  by (auto simp: UpdateScoreJob_def transact_def has_dataset_def fun_eq_iff update_where_def Let_def split: option.splits)

lemma update_job_ok: "db_ok d \<Longrightarrow> db_ok (UpdateScoreJob f now jid st n p l e d)"
  by (rule db_ok_step) (auto intro: db_step.intros)

lemma has_dataset_cong: "generation_runs d = generation_runs d' \<Longrightarrow> has_dataset d = has_dataset d'"
  by (simp add: has_dataset_def fun_eq_iff)

lemma dataset_rows_cong: "telemetry d = telemetry d' \<Longrightarrow> dataset_rows i d = dataset_rows i d'"
  by (simp add: dataset_rows_def)

text \<open>The state \<open>d'\<close> differs from \<open>d\<close> by the scores of the rows from number \<open>a\<close> to \<open>b\<close>.\<close>

definition scored_between ::
  "(real \<Rightarrow> string) \<Rightarrow> PcaModel \<Rightarrow> string \<Rightarrow> string \<Rightarrow> db \<Rightarrow> nat \<Rightarrow> nat \<Rightarrow> db \<Rightarrow> bool" where
  "scored_between fmt model ds mid d a b d' \<longleftrightarrow>
     db_ok d' \<and> telemetry d' = telemetry d \<and> model_runs d' = model_runs d \<and> generation_runs d' = generation_runs d
     \<and> map sj_job_id (score_jobs d') = map sj_job_id (score_jobs d)
     \<and> scores d' = scores d @ map (\<lambda>t. score_entry ds mid (score_of fmt model t)) (drop a (take b (dataset_rows ds d)))"

lemma scored_between_refl: "db_ok d \<Longrightarrow> scored_between fmt model ds mid d a a d"
  by (simp add: scored_between_def)

lemma scored_between_trans:
  assumes "scored_between fmt model ds mid d a b d1" "scored_between fmt model ds mid d1 b c d2" "a \<le> b" "b \<le> c"
  shows "scored_between fmt model ds mid d a c d2"
proof -
  have "drop a (take c L) = drop a (take b L) @ drop b (take c L)" for L :: "telemetry_row list"
    using take_add [of "b - a" "c - b" "drop a L"] assms(3,4) by (simp add: drop_take)
  moreover have "dataset_rows ds d1 = dataset_rows ds d"
    using assms(1) by (intro dataset_rows_cong) (simp add: scored_between_def)
  ultimately show ?thesis
    using assms(1,2) by (simp add: scored_between_def)
qed


lemma fetch_scoring:
  assumes "db_ok d" "scoring_rows.at_cursor ds d after a" "FetchScoringRowsAfterRecord fault ds after n d = Inr rs"
  shows "rs = map scoring_row (take n (drop a (dataset_rows ds d)))"
  using scoring_rows.cursor_fetch [OF assms(1,2), of n] assms(3)
  by (auto simp: FetchScoringRowsAfterRecord_def take_map drop_map split: option.splits)

lemma score_round:
  assumes ok: "db_ok d" and cur: "scoring_rows.at_cursor ds d after a" and a: "a \<le> length (dataset_rows ds d)"
    and rs: "FetchScoringRowsAfterRecord ff ds after n d = Inr rs" "rs \<noteq> []"
    and es: "score_rows fmt model rs = Inr es" and ins: "InsertDatasetScores fi ms ds mid es d = (Inr u, d1)"
  shows "scored_between fmt model ds mid d a (a + length rs) (UpdateScoreJob fu now jid st tot p l e d1)
    \<and> scoring_rows.at_cursor ds (UpdateScoreJob fu now jid st tot p l e d1) (sr_record_id (last rs)) (a + length rs)
    \<and> a + length rs \<le> length (dataset_rows ds d)"
proof -
  let ?ts = "take n (drop a (dataset_rows ds d))"
  have r: "rs = map scoring_row ?ts"
    using fetch_scoring [OF ok cur rs(1)] .
  note es' = score_rows_Inr [OF es [unfolded r]]
  note eff = insert_scores_effect [OF ins ok]
  have tel: "telemetry (UpdateScoreJob fu now jid st tot p l e d1) = telemetry d"
    using eff by simp
  have len: "length rs = length ?ts" "a + length rs \<le> length (dataset_rows ds d)"
    using r a by auto
  have "drop a (take (a + length rs) (dataset_rows ds d)) = ?ts"
    unfolding len(1) by (simp add: drop_take min_def)
  then have "scored_between fmt model ds mid d a (a + length rs) (UpdateScoreJob fu now jid st tot p l e d1)"
    using eff es' update_job_ok by (simp add: scored_between_def comp_def)
  moreover have "scoring_rows.at_cursor ds d (sr_record_id (last rs)) (a + length rs)"
  proof -
    have f: "map scoring_row (rows_after ds after n d) = rs"
      using rs(1) by (auto simp: FetchScoringRowsAfterRecord_def split: option.splits)
    show ?thesis
      using scoring_rows.cursor_advance [OF ok cur, of n] rs(2) unfolding f by blast
  qed
  then have "scoring_rows.at_cursor ds (UpdateScoreJob fu now jid st tot p l e d1) (sr_record_id (last rs)) (a + length rs)"
    unfolding scoring_rows.at_cursor_def dataset_rows_cong [OF tel] .
  ultimately show ?thesis
    using len(2) by blast
qed

text \<open>However the loop ends, it has scored a run of rows from where it started, and knows how many.\<close>

lemma score_loop_scored:
  assumes "db_ok d" "scoring_rows.at_cursor ds d after a" "a \<le> length (dataset_rows ds d)"
    and "score_loop n env model ds mid jid tot k p after d = (e, p', after', d')"
  shows "\<exists>b. a \<le> b \<and> b \<le> length (dataset_rows ds d) \<and> p' = p + int (b - a)
    \<and> scored_between (sv_error_text env) model ds mid d a b d' \<and> scoring_rows.at_cursor ds d' after' b
    \<and> (e = Ended \<longrightarrow> (\<forall>j. \<not> sv_stop env j) \<longrightarrow> b = length (dataset_rows ds d))"
  using assms
proof (induction n arbitrary: d after a k p)
  case 0
  then show ?case
    using scored_between_refl [OF "0.prems"(1), of "sv_error_text env" model ds mid a] by auto
next
  case (Suc n)
  have here: "?case" if "e \<noteq> Ended \<or> (\<exists>j. sv_stop env j) \<or> a = length (dataset_rows ds d)" "(p', after', d') = (p, after, d)"
    using that Suc.prems scored_between_refl [OF Suc.prems(1), of "sv_error_text env" model ds mid a] by auto
  show ?case
  proof (cases "sv_stop env k")
    case True
    then show ?thesis using Suc.prems(4) by (intro here) auto
  next
    case go: False
    show ?thesis
    proof (cases "FetchScoringRowsAfterRecord (sv_fetch_fault env k) ds after score_batch_size d")
      case (Inl x)
      then show ?thesis using Suc.prems(4) go by (intro here) auto
    next
      case (Inr rs)
      show ?thesis
      proof (cases "rs = []")
        case True
        then have "length (dataset_rows ds d) \<le> a"
          using fetch_scoring [OF Suc.prems(1,2) Inr] by (simp add: score_batch_size_def)
        then show ?thesis using Suc.prems(3,4) go Inr True by (intro here) auto
      next
        case rs: False
        show ?thesis
        proof (cases "score_rows (sv_error_text env) model rs")
          case (Inl x)
          then show ?thesis using Suc.prems(4) go Inr rs by (intro here) auto
        next
          case es: (Inr es)
          obtain o1 d1 where ins: "InsertDatasetScores (sv_insert_fault env k) (sv_elapsed_ms env k) ds mid es d = (o1, d1)"
            by (metis prod.exhaust)
          show ?thesis
          proof (cases o1)
            case (Inl x)
            then have "d1 = d" using ins insert_scores_failed by blast
            then show ?thesis using Suc.prems(4) go Inr rs es ins Inl by (intro here) auto
          next
            case o1: (Inr u)
            let ?d2 = "UpdateScoreJob (sv_update_fault env k) (sv_now env k) jid ''RUNNING'' tot (p + int (length rs)) (sr_record_id (last rs)) [] d1"
            have rnd: "scored_between (sv_error_text env) model ds mid d a (a + length rs) ?d2"
                "scoring_rows.at_cursor ds ?d2 (sr_record_id (last rs)) (a + length rs)" "a + length rs \<le> length (dataset_rows ds d)"
              using score_round [OF Suc.prems(1-3) Inr rs es] ins o1 by blast+
            have rows: "dataset_rows ds ?d2 = dataset_rows ds d"
              using rnd(1) by (intro dataset_rows_cong) (simp add: scored_between_def)
            have "score_loop n env model ds mid jid tot (Suc k) (p + int (length rs)) (sr_record_id (last rs)) ?d2 = (e, p', after', d')"
              using Suc.prems(4) go Inr rs es ins o1 by (simp add: Let_def)
            from Suc.IH [OF _ rnd(2) _ this] rnd(1,3) obtain b where b: "a + length rs \<le> b" "b \<le> length (dataset_rows ds d)"
                "p' = p + int (length rs) + int (b - (a + length rs))" "scored_between (sv_error_text env) model ds mid ?d2 (a + length rs) b d'"
                "scoring_rows.at_cursor ds d' after' b" "e = Ended \<longrightarrow> (\<forall>j. \<not> sv_stop env j) \<longrightarrow> b = length (dataset_rows ds d)"
              unfolding rows scored_between_def [of _ _ _ _ d a] by blast
            then show ?thesis
              using scored_between_trans [OF rnd(1) b(4)] by (intro exI [of _ b]) auto
          qed
        qed
      qed
    qed
  qed
qed


text \<open>Nothing fails and nobody stops the job.\<close>

definition quiet :: "score_env \<Rightarrow> bool" where
  "quiet env \<longleftrightarrow> (\<forall>k. sv_fault env k = None \<and> sv_fetch_fault env k = None \<and> sv_insert_fault env k = None
     \<and> sv_update_fault env k = None \<and> \<not> sv_stop env k) \<and> \<not> sv_stop_end env"

lemma score_loop_ends:
  assumes "quiet env" "db_ok d" "scoring_rows.at_cursor ds d after a" "a \<le> length (dataset_rows ds d)"
    and "\<forall>t \<in> set (dataset_rows ds d). scorable (sv_error_text env) model t"
    and "has_dataset d ds" "has_model d mid" "length (dataset_rows ds d) - a < n"
  shows "fst (score_loop n env model ds mid jid tot k p after d) = Ended"
  using assms(2-)
proof (induction n arbitrary: d after a k p)
  case (Suc n)
  let ?ts = "take score_batch_size (drop a (dataset_rows ds d))"
  have f: "sv_fetch_fault env k = None" "sv_insert_fault env k = None" "\<not> sv_stop env k"
    using assms(1) by (simp_all add: quiet_def)
  obtain rs where rs: "FetchScoringRowsAfterRecord (sv_fetch_fault env k) ds after score_batch_size d = Inr rs"
    unfolding f by (simp add: FetchScoringRowsAfterRecord_def)
  then have r: "rs = map scoring_row ?ts"
    using fetch_scoring [OF Suc.prems(1,2)] by blast
  show ?case
  proof (cases "rs = []")
    case True
    then show ?thesis using f rs by simp
  next
    case False
    have es: "score_rows (sv_error_text env) model rs = Inr (map (score_of (sv_error_text env) model) ?ts)"
      unfolding r by (subst score_rows_of) (use Suc.prems(4) in \<open>auto dest!: in_set_takeD in_set_dropD\<close>)
    obtain d1 where ins: "InsertDatasetScores (sv_insert_fault env k) (sv_elapsed_ms env k) ds mid (map (score_of (sv_error_text env) model) ?ts) d = (Inr (), d1)"
      unfolding f using insert_scores_quiet Suc.prems(5,6) False r by (metis list.map_disc_iff)
    let ?d2 = "UpdateScoreJob (sv_update_fault env k) (sv_now env k) jid ''RUNNING'' tot (p + int (length rs)) (sr_record_id (last rs)) [] d1"
    have rnd: "scored_between (sv_error_text env) model ds mid d a (a + length rs) ?d2"
        "scoring_rows.at_cursor ds ?d2 (sr_record_id (last rs)) (a + length rs)" "a + length rs \<le> length (dataset_rows ds d)"
      using score_round [OF Suc.prems(1-3) rs False es ins] by blast+
    have rows: "dataset_rows ds ?d2 = dataset_rows ds d" and keys: "has_dataset ?d2 = has_dataset d" "has_model ?d2 = has_model d"
      using rnd(1) by (auto simp: scored_between_def dataset_rows_def has_dataset_def has_model_def fun_eq_iff)
    have "db_ok ?d2"
      using rnd(1) by (simp add: scored_between_def)
    moreover have "length (dataset_rows ds d) - (a + length rs) < n"
      using Suc.prems(3,7) False rnd(3) by (cases rs) auto
    ultimately have "fst (score_loop n env model ds mid jid tot (Suc k) (p + int (length rs)) (sr_record_id (last rs)) ?d2) = Ended"
      using Suc.IH [OF _ rnd(2)] rnd(3) Suc.prems(4-6) unfolding rows keys by blast
    then show ?thesis
      using f rs False es ins by (simp add: Let_def)
  qed
qed simp


section \<open>The whole job\<close>

lemma job_progress_row:
  "find (\<lambda>r. sj_job_id r = jid) (score_jobs d) = Some r \<Longrightarrow>
     job_progress (GetScoreJob None ts jid d) = Inr (sj_total_rows r, sj_processed_rows r, sj_last_record_id r)"
  by (simp add: GetScoreJob_def score_job_json_def jobject_def job_progress_def)

lemma job_progress_Inr:
  assumes "job_progress (GetScoreJob fault ts jid d) = Inr x"
  shows "\<exists>r. find (\<lambda>r. sj_job_id r = jid) (score_jobs d) = Some r \<and> x = (sj_total_rows r, sj_processed_rows r, sj_last_record_id r)"
proof (cases "fault = None \<and> find (\<lambda>r. sj_job_id r = jid) (score_jobs d) \<noteq> None")
  case True
  then show ?thesis using job_progress_row assms by fastforce
next
  case False
  then have "GetScoreJob fault ts jid d = JNull"
    by (auto simp: GetScoreJob_def)
  then show ?thesis using assms by (simp add: job_progress_def)
qed

lemma model_artifact_path:
  assumes "find (\<lambda>m. mr_model_run_id m = mid) (model_runs d) = Some mrow" "mr_artifact_path mrow = Some path"
  shows "jvalue jget_string (GetModelRun None ts mid d) ''artifact_path'' [] = Inr path"
  using assms by (simp add: GetModelRun_def model_run_json_def jobject_def jtext_def)

lemma claim_effect:
  assumes "TryTransitionScoreJobStatus fault now jid e n d = (won, d1)"
  shows "telemetry d1 = telemetry d \<and> model_runs d1 = model_runs d \<and> generation_runs d1 = generation_runs d \<and> scores d1 = scores d
    \<and> map sj_job_id (score_jobs d1) = map sj_job_id (score_jobs d)"
  using assms by (auto simp: TryTransitionScoreJobStatus_def Let_def update_where_def split: option.splits)

lemma claim_ok: "db_ok d \<Longrightarrow> TryTransitionScoreJobStatus fault now jid e n d = (won, d1) \<Longrightarrow> db_ok d1"
  using db_ok_step db_step.intros(18) by (metis snd_conv)

lemma claim_won:
  "find (\<lambda>r. sj_job_id r = jid) (score_jobs d) = Some r \<Longrightarrow> sj_status r = e \<Longrightarrow>
     \<exists>d1. TryTransitionScoreJobStatus None now jid e n d = (True, d1)"
  by (auto simp: TryTransitionScoreJobStatus_def Let_def list_ex_iff find_Some_iff)

lemma find_key_iff: "find (\<lambda>r. k r = i) xs \<noteq> None \<longleftrightarrow> i \<in> set (map k xs)"
  by (induction xs) auto

lemma find_by_key:
  "map k xs = map k ys \<Longrightarrow> find (\<lambda>r. k r = i) xs \<noteq> None \<Longrightarrow> find (\<lambda>r. k r = i) ys \<noteq> None"
  unfolding find_key_iff by simp

lemma final_update:
  assumes "find (\<lambda>r. sj_job_id r = jid) (score_jobs d) \<noteq> None"
  shows "\<exists>r. find (\<lambda>r. sj_job_id r = jid) (score_jobs (UpdateScoreJob None now jid st n p l e d)) = Some r
    \<and> sj_status r = st \<and> sj_total_rows r = n \<and> sj_processed_rows r = p \<and> sj_last_record_id r = l"
proof -
  obtain r where "find (\<lambda>r. sj_job_id r = jid) (score_jobs d) = Some r"
    using assms by auto
  then show ?thesis
    by (simp add: UpdateScoreJob_def transact_def Let_def update_where_found)
qed


lemma count_rows: "GetDatasetRecordCount None ds d = Inr (int (length (dataset_rows ds d)))"
  by (simp add: GetDatasetRecordCount_def dataset_rows_def)

section \<open>Properties\<close>

text \<open>
  C15. A score job that nothing disturbs is complete: started PENDING at record 0 on a dataset whose
  rows the model can score, it ends (one round more than there are rows is enough), leaves the job
  COMPLETED with as many processed rows as the dataset has, and has added to the stored scores
  exactly one entry per row of the dataset, in the order of the record numbers, with the error and
  the verdict that the model gives for that row.
\<close>

theorem score_job_complete:
  assumes "reachable (\<lambda>d. d = empty_db) db_step d" and "quiet env"
    and "find (\<lambda>r. sj_job_id r = jid) (score_jobs d) = Some r"
    and "sj_status r = ''PENDING''" "sj_processed_rows r = 0" "sj_last_record_id r = 0"
    and "find (\<lambda>m. mr_model_run_id m = mid) (model_runs d) = Some mrow" "mr_artifact_path mrow = Some path" "path \<noteq> ''''"
    and "GetOrCreate (cv_order cenv) (cv_sizeof cenv) (cv_artifacts cenv) (cv_now cenv) mid path c = (Returned model, c1)"
    and "has_dataset d ds" and "\<forall>t \<in> set (dataset_rows ds d). scorable (sv_error_text env) model t"
    and "length (dataset_rows ds d) < fuel"
  shows "\<exists>d' r'. score_job fuel env cenv ds mid jid (c, d) = (Returned Finished, c1, d')
    \<and> scores d' = scores d @ map (\<lambda>t. score_entry ds mid (score_of (sv_error_text env) model t)) (dataset_rows ds d)
    \<and> find (\<lambda>r. sj_job_id r = jid) (score_jobs d') = Some r' \<and> sj_status r' = ''COMPLETED''
    \<and> sj_total_rows r' = int (length (dataset_rows ds d)) \<and> sj_processed_rows r' = int (length (dataset_rows ds d))
    \<and> telemetry d' = telemetry d"
proof -
  have ok: "db_ok d"
    using run_store.reachable_inv [OF assms(1)] .
  have quiet: "sv_fault env k = None" "\<not> sv_stop_end env" "\<not> sv_stop env k" for k
    using assms(2) by (simp_all add: quiet_def)
  let ?n = "int (length (dataset_rows ds d))"
  obtain d1 where claim: "TryTransitionScoreJobStatus None (sv_now env 0) jid ''PENDING'' ''RUNNING'' d = (True, d1)"
    using claim_won [OF assms(3,4)] by blast
  define d2 where "d2 = UpdateScoreJob None (sv_now env 1) jid ''RUNNING'' ?n 0 0 [] d1"
  note c = claim_effect [OF claim]
  have rows: "dataset_rows ds d2 = dataset_rows ds d" and keys: "has_dataset d2 = has_dataset d" "has_model d2 = has_model d"
    using c by (simp_all add: d2_def dataset_rows_def has_dataset_def has_model_def fun_eq_iff)
  have ok2: "db_ok d2"
    unfolding d2_def using update_job_ok claim_ok [OF ok claim] by blast
  have "has_model d mid"
    using assms(7) find_key_iff [of mr_model_run_id mid "model_runs d"] by (simp add: has_model_def)
  then have "fst (score_loop fuel env model ds mid jid ?n 0 0 0 d2) = Ended"
    using assms(11-13) by (intro score_loop_ends [OF assms(2) ok2 scoring_rows.cursor_start [OF ok2]]) (simp_all add: rows keys)
  then obtain p l d3 where loop: "score_loop fuel env model ds mid jid ?n 0 0 0 d2 = (Ended, p, l, d3)"
    by (cases "score_loop fuel env model ds mid jid ?n 0 0 0 d2") auto
  have end3: "p = ?n" "scored_between (sv_error_text env) model ds mid d2 0 (length (dataset_rows ds d)) d3"
    using score_loop_scored [OF ok2 scoring_rows.cursor_start [OF ok2] _ loop] quiet(3) unfolding rows by auto
  let ?d4 = "UpdateScoreJob None (sv_now env 2) jid ''COMPLETED'' ?n p l [] d3"
  have "jvalue jget_string (GetModelRun None (sv_time_text env) mid d2) ''artifact_path'' [] = Inr path"
    using model_artifact_path [of mid d2 mrow path] assms(7,8) c by (simp add: d2_def)
  then have "score_job_try fuel env cenv ds mid jid (c, d) = (Returned Finished, c1, ?d4)"
    unfolding score_job_try_def score_job_scoring_def
    using d2_def job_progress_row [OF assms(3)] assms(5,6,9,10) claim loop quiet count_rows by (simp add: Let_def)
  then have "score_job fuel env cenv ds mid jid (c, d) = (Returned Finished, c1, ?d4)"
    by (simp add: score_job_def)
  moreover have "map sj_job_id (score_jobs d3) = map sj_job_id (score_jobs d)"
    using end3(2) c by (simp add: scored_between_def d2_def)
  then have "find (\<lambda>r. sj_job_id r = jid) (score_jobs d3) \<noteq> None"
    using find_by_key [of sj_job_id "score_jobs d" "score_jobs d3" jid] assms(3) by simp
  note final_update [OF this, of "sv_now env 2" "''COMPLETED''" ?n p l "[]"]
  moreover have "scores ?d4 = scores d @ map (\<lambda>t. score_entry ds mid (score_of (sv_error_text env) model t)) (dataset_rows ds d)"
    "telemetry ?d4 = telemetry d"
    using end3(2) c rows by (simp_all add: scored_between_def d2_def)
  ultimately show ?thesis
    using end3(1) by blast
qed


lemma scored_between_update:
  "scored_between fmt model ds mid d a b d' \<Longrightarrow> scored_between fmt model ds mid d a b (UpdateScoreJob f now jid st n p l e d')"
  by (simp add: scored_between_def update_job_ok)

lemma scored_between_claim:
  "db_ok d \<Longrightarrow> TryTransitionScoreJobStatus f now jid e n d = (won, d1) \<Longrightarrow> scored_between fmt model ds mid d a a d1"
  using claim_effect claim_ok unfolding scored_between_def by fastforce


text \<open>What every way through the job leaves in the store.\<close>

definition job_trace :: "score_env \<Rightarrow> cache_env \<Rightarrow> string \<Rightarrow> string \<Rightarrow> PcaModelCache \<Rightarrow> db \<Rightarrow> nat \<Rightarrow> PcaModelCache \<times> db \<Rightarrow> bool" where
  "job_trace env cenv ds mid c d a s \<longleftrightarrow>
     (\<exists>b model. a \<le> b \<and> b \<le> length (dataset_rows ds d) \<and> scored_between (sv_error_text env) model ds mid d a b (snd s)
        \<and> (b = a \<or> (\<exists>path. GetOrCreate (cv_order cenv) (cv_sizeof cenv) (cv_artifacts cenv) (cv_now cenv) mid path c = (Returned model, fst s))))"

lemma job_trace_start: "scored_between fmt model ds mid d a a d' \<Longrightarrow> a \<le> length (dataset_rows ds d) \<Longrightarrow> job_trace env cenv ds mid c d a (c', d')"
  unfolding job_trace_def scored_between_def by auto

lemma job_trace_update: "job_trace env cenv ds mid c d a (c', d') \<Longrightarrow> job_trace env cenv ds mid c d a (c', UpdateScoreJob f now jid st n p l e d')"
  unfolding job_trace_def snd_conv fst_conv using scored_between_update by blast

lemma job_trace_loop:
  assumes "db_ok d" "scored_between fmt0 model0 ds mid d a a d2" "scoring_rows.at_cursor ds d after a" "a \<le> length (dataset_rows ds d)"
    and "GetOrCreate (cv_order cenv) (cv_sizeof cenv) (cv_artifacts cenv) (cv_now cenv) mid path c = (Returned model, c1)"
    and "score_loop n env model ds mid jid tot k p after d2 = (e, p', after', d3)"
  shows "job_trace env cenv ds mid c d a (c1, d3)"
proof -
  have tel: "telemetry d2 = telemetry d"
    using assms(2) by (simp add: scored_between_def)
  have rows: "dataset_rows ds d2 = dataset_rows ds d"
    using tel by (rule dataset_rows_cong)
  have start: "scored_between (sv_error_text env) model ds mid d a a d2"
    using assms(2) by (simp add: scored_between_def)
  then have "db_ok d2" "scoring_rows.at_cursor ds d2 after a"
    using assms(3) by (simp_all add: scored_between_def scoring_rows.at_cursor_def rows)
  from score_loop_scored [OF this _ assms(6)] obtain b where "a \<le> b" "b \<le> length (dataset_rows ds d)"
      "scored_between (sv_error_text env) model ds mid d2 a b d3"
    unfolding rows using assms(4) by blast
  then show ?thesis
    using scored_between_trans [OF start] assms(5) unfolding job_trace_def fst_conv snd_conv by blast
qed

lemma score_job_scoring_trace:
  assumes "db_ok d" "\<And>model. scored_between (sv_error_text env) model ds mid d a a d2" "scoring_rows.at_cursor ds d after a"
    "a \<le> length (dataset_rows ds d)"
  shows "job_trace env cenv ds mid c d a (snd (score_job_scoring fuel env cenv ds mid jid tot p after c d2))"
proof (cases "jvalue jget_string (GetModelRun (sv_fault env 5) (sv_time_text env) mid d2) ''artifact_path'' []")
  note here = job_trace_start [OF assms(2,4), of env cenv c]
  case path: (Inr path)
  obtain o1 c1 where g: "GetOrCreate (cv_order cenv) (cv_sizeof cenv) (cv_artifacts cenv) (cv_now cenv) mid path c = (o1, c1)"
    by (metis prod.exhaust)
  show ?thesis
  proof (cases o1)
    case (Returned model)
    obtain e p' l d3 where loop: "score_loop fuel env model ds mid jid tot 0 p after d2 = (e, p', l, d3)"
      by (metis prod.exhaust)
    have "job_trace env cenv ds mid c d a (c1, d3)"
      using job_trace_loop [OF assms(1) assms(2) assms(3,4) g [unfolded Returned] loop] .
    then show ?thesis
      using here path g Returned loop job_trace_update by (cases e) (simp_all add: score_job_scoring_def)
  qed (use here path g in \<open>simp_all add: score_job_scoring_def\<close>)
qed (use job_trace_start [OF assms(2,4), of env cenv c] in \<open>simp add: score_job_scoring_def\<close>)

lemma score_job_try_trace:
  assumes ok: "db_ok d" and r: "find (\<lambda>r. sj_job_id r = jid) (score_jobs d) = Some r"
    and a: "a = length (filter (\<lambda>t. tel_record_id t \<le> sj_last_record_id r) (dataset_rows ds d))"
  shows "job_trace env cenv ds mid c d a (snd (score_job_try fuel env cenv ds mid jid (c, d)))"
proof -
  have le: "a \<le> length (dataset_rows ds d)"
    by (simp add: a)
  have cur: "scoring_rows.at_cursor ds d (sj_last_record_id r) a"
    using scoring_rows.cursor_anywhere [OF ok, of ds "sj_last_record_id r"] by (simp add: a filter_map comp_def scoring_row_def)
  note start = job_trace_start [OF scored_between_refl [OF ok] le]
  obtain won d1 where claim: "TryTransitionScoreJobStatus (sv_fault env 2) (sv_now env 0) jid ''PENDING'' ''RUNNING'' d = (won, d1)"
    by (metis prod.exhaust)
  note at1 = scored_between_claim [OF ok claim]
  let ?status = "if won then Inr ''RUNNING'' else jvalue jget_string (GetScoreJob (sv_fault env 3) (sv_time_text env) jid d1) ''status'' []"
  show ?thesis
  proof (cases "job_progress (GetScoreJob (sv_fault env 0) (sv_time_text env) jid d)")
    case (Inr x)
    then have x: "x = (sj_total_rows r, sj_processed_rows r, sj_last_record_id r)"
      using job_progress_Inr r by fastforce
    show ?thesis
    proof (cases "GetDatasetRecordCount (sv_fault env 1) ds d")
      case cnt: (Inr tot)
      show ?thesis
      proof (cases ?status)
        case st: (Inr status)
        then show ?thesis
          using Inr x cnt claim job_trace_start [OF at1 le] score_job_scoring_trace [OF ok scored_between_update [OF at1] cur le]
          by (simp add: score_job_try_def)
      qed (use Inr x cnt claim job_trace_start [OF at1 le] in \<open>simp add: score_job_try_def\<close>)
    qed (use Inr x start in \<open>simp add: score_job_try_def\<close>)
  qed (use start in \<open>simp add: score_job_try_def\<close>)
qed

text \<open>
  C18. Whatever fails and whenever the job is stopped, one run of the job scores a contiguous block of
  the dataset that starts right after the checkpoint of the job row: no row after the checkpoint is
  skipped, none is scored twice by the run, each stored score is the model's, and nothing else is
  written to the scores or to the telemetry.
\<close>

theorem score_job_block:
  assumes "reachable (\<lambda>d. d = empty_db) db_step d"
    and "find (\<lambda>r. sj_job_id r = jid) (score_jobs d) = Some r"
    and "score_job fuel env cenv ds mid jid (c, d) = (out, c', d')"
  shows "\<exists>b model. length (filter (\<lambda>t. tel_record_id t \<le> sj_last_record_id r) (dataset_rows ds d)) \<le> b
    \<and> b \<le> length (dataset_rows ds d)
    \<and> scores d' = scores d @ map (\<lambda>t. score_entry ds mid (score_of (sv_error_text env) model t))
        (drop (length (filter (\<lambda>t. tel_record_id t \<le> sj_last_record_id r) (dataset_rows ds d))) (take b (dataset_rows ds d)))
    \<and> telemetry d' = telemetry d \<and> keys_unique d' \<and> references_ok d'"
proof -
  let ?a = "length (filter (\<lambda>t. tel_record_id t \<le> sj_last_record_id r) (dataset_rows ds d))"
  have ok: "db_ok d"
    using run_store.reachable_inv [OF assms(1)] .
  obtain out1 c1 d1 where body: "score_job_try fuel env cenv ds mid jid (c, d) = (out1, c1, d1)"
    by (metis prod.exhaust)
  have "job_trace env cenv ds mid c d ?a (c1, d1)"
    using score_job_try_trace [OF ok assms(2) refl, where env = env and cenv = cenv and mid = mid and c = c and fuel = fuel and ds = ds] body by simp
  then have "job_trace env cenv ds mid c d ?a (c', d')"
    using assms(3) body job_trace_update
    by (cases out1) (auto simp: score_job_def or_throw_def split: sum.splits)
  then show ?thesis
    unfolding job_trace_def scored_between_def db_ok_def by auto
qed


section \<open>A concrete job\<close>

definition ex_scoring_db :: db where
  "ex_scoring_db = snd (CreateScoreJob None 9 ''j1'' ''d1'' ''m1'' ''r''
     (UpdateModelRunStatus None 8 ''m1'' ''COMPLETED'' ''p'' [] JNull
       (snd (CreateModelRun None 6 ''m1'' ''d1'' ''n'' JNull ''r'' JNull [] [] None ex_dataset))))"

definition ex_score_env :: score_env where
  "ex_score_env = \<lparr>sv_fault = \<lambda>_. None, sv_fetch_fault = \<lambda>_. None, sv_insert_fault = \<lambda>_. None, sv_update_fault = \<lambda>_. None,
     sv_stop = \<lambda>_. False, sv_stop_end = False, sv_now = \<lambda>_. 10, sv_elapsed_ms = \<lambda>_. 1, sv_time_text = \<lambda>_. [], sv_error_text = \<lambda>_. []\<rparr>"

definition ex_cache_env :: cache_env where
  "ex_cache_env = \<lparr>cv_order = \<lambda>m. m, cv_sizeof = 128,
     cv_artifacts = \<lparr>file_text = \<lambda>_. None, parse_json = \<lambda>_. Inr JNull, file_size = \<lambda>_. None, elapsed_ms = 0\<rparr>, cv_now = 7\<rparr>"

lemma ex_scoring_reachable: "reachable (\<lambda>d. d = empty_db) db_step ex_scoring_db"
  unfolding ex_scoring_db_def
  by (rule reachable_step, rule reachable_step, rule reachable_step, rule ex_dataset_reachable)
    (rule db_step.intros(7), rule db_step.intros(9), rule db_step.intros(16))

lemmas ex_scoring_defs = ex_scoring_db_def CreateScoreJob_def UpdateModelRunStatus_def CreateModelRun_def ex_dataset_def
  BatchInsertTelemetry_def CreateRun_def transact_def empty_db_def has_dataset_def has_model_def new_model_run_def
  update_model_def update_where_def json_column_def jempty_def

lemma ex_scoring_rows:
  "dataset_rows ''d1'' ex_scoring_db = dataset_rows ''d1'' ex_dataset"
  "\<exists>r. find (\<lambda>r. sj_job_id r = ''j1'') (score_jobs ex_scoring_db) = Some r \<and> sj_status r = ''PENDING''
     \<and> sj_processed_rows r = 0 \<and> sj_last_record_id r = 0"
  "\<exists>m. find (\<lambda>m. mr_model_run_id m = ''m1'') (model_runs ex_scoring_db) = Some m \<and> mr_artifact_path m = Some ''p''"
  "has_dataset ex_scoring_db ''d1''"
  by (auto simp: ex_scoring_defs dataset_rows_def ex_record_def)

lemma ex_scorable: "scorable fmt ex_model \<lparr>tel_record_id = i, tel_record = ex_record x\<rparr>"
proof -
  have "\<exists>v. residual_of (cur_mean ex_model) (cur_scale ex_model) (components ex_model) (pca_mean ex_model) (FromRecord (ex_record x)) = Inr v"
    using residual_of_eq [of "FromRecord (ex_record x)" 5 "cur_mean ex_model" "cur_scale ex_model" "pca_mean ex_model" "components ex_model"]
    by (simp add: ex_model_def FromRecord_def)
  then show ?thesis
    by (auto simp: scorable_def Score_def Let_def)
qed

lemma ex_cache_hit:
  "\<exists>c1. GetOrCreate (cv_order ex_cache_env) (cv_sizeof ex_cache_env) (cv_artifacts ex_cache_env) (cv_now ex_cache_env) ''m1'' ''p'' ex_cache
     = (Returned ex_model, c1)"
  by (simp add: GetOrCreate_def cache_lookup_def ex_cache_def new_PcaModelCache_def ex_cache_env_def)

theorem score_job_complete_witness:
  "\<exists>c' d'. score_job 3 ex_score_env ex_cache_env ''d1'' ''m1'' ''j1'' (ex_cache, ex_scoring_db) = (Returned Finished, c', d')
     \<and> map sc_record_id (scores d') = [1, 2]"
proof -
  obtain r where r: "find (\<lambda>r. sj_job_id r = ''j1'') (score_jobs ex_scoring_db) = Some r" "sj_status r = ''PENDING''"
      "sj_processed_rows r = 0" "sj_last_record_id r = 0"
    using ex_scoring_rows(2) by blast
  obtain m where m: "find (\<lambda>m. mr_model_run_id m = ''m1'') (model_runs ex_scoring_db) = Some m" "mr_artifact_path m = Some ''p''"
    using ex_scoring_rows(3) by blast
  obtain c1 where c1: "GetOrCreate (cv_order ex_cache_env) (cv_sizeof ex_cache_env) (cv_artifacts ex_cache_env) (cv_now ex_cache_env) ''m1'' ''p'' ex_cache
      = (Returned ex_model, c1)"
    using ex_cache_hit by blast
  have q: "quiet ex_score_env"
    by (simp add: quiet_def ex_score_env_def)
  have "scores ex_scoring_db = []"
    by (simp add: ex_scoring_defs)
  then show ?thesis
    using score_job_complete [OF ex_scoring_reachable q r m _ c1 ex_scoring_rows(4), of 3]
    by (auto simp: ex_scoring_rows(1) ex_dataset_rows ex_scorable score_entry_def score_of_def split: sum.splits)
qed

theorem score_job_block_witness:
  "\<exists>out c' d'. score_job 3 ex_score_env ex_cache_env ''d1'' ''m1'' ''j1'' (ex_cache, ex_scoring_db) = (out, c', d')
     \<and> telemetry d' = telemetry ex_scoring_db"
proof -
  obtain r where r: "find (\<lambda>r. sj_job_id r = ''j1'') (score_jobs ex_scoring_db) = Some r"
    using ex_scoring_rows(2) by blast
  obtain out c' d' where run: "score_job 3 ex_score_env ex_cache_env ''d1'' ''m1'' ''j1'' (ex_cache, ex_scoring_db) = (out, c', d')"
    by (metis prod.exhaust)
  show ?thesis
    using score_job_block [OF ex_scoring_reachable r run] run by blast
qed

end
