(* ===== verification/Scorer.thy ===== *)
theory Scorer
  imports Alert_Manager Detector_A Pca_Model Strings
begin

text \<open>
  The scoring process, \<^verbatim>\<open>src/src/scorer_main.cpp\<close>: one process per shard feeds the records of its
  hosts through preprocessing, the statistical detector (one per host), the PCA detector behind a
  gate, and the alert manager. The hash of a host name, the clock at the start, the measured
  durations, the artifact file and the rendering of a \<^verbatim>\<open>double\<close> are parameters. The process's
  maps, its alert manager, the registry and the alerts it has reported are the state.
\<close>

section \<open>State and operations\<close>

record HostState =
  last_b_run :: time_point

record scorer =
  detectors_a :: "(string, DetectorA) std_map"
  host_states :: "(string, HostState) std_map"
  alert_manager :: AlertManager
  sc_registry :: MetricsRegistry
  sc_reported :: "Alert list"

record scorer_env =
  std_hash :: "string \<Rightarrow> size_t"
  sim_start :: time_point
  a_latency_ms :: "int \<Rightarrow> string \<Rightarrow> real"
  b_latency_ms :: "int \<Rightarrow> string \<Rightarrow> real"
  score_text :: "real \<Rightarrow> string"
  sc_artifacts :: artifact_env

text \<open>The configuration the process sets up before its loop.\<close>

definition scorer_config :: DetectorConfig where
  "scorer_config = default_DetectorConfig
     \<lparr>dc_preprocessing := \<lparr>log1p_network = False\<rparr>,
      dc_outliers := (dc_outliers default_DetectorConfig)\<lparr>robust_z_threshold := 3, enable_poison_mitigation := True\<rparr>,
      dc_gating := (dc_gating default_DetectorConfig)\<lparr>enable_gating := True, period_ms := 10000\<rparr>\<rparr>"

definition new_detector :: DetectorA where
  "new_detector = new_DetectorA (dc_window scorer_config) (dc_outliers scorer_config)"

text \<open>\<^verbatim>\<open>start_time + std::chrono::seconds(i)\<close> on the nanosecond clock.\<close>

definition tick_time :: "time_point \<Rightarrow> int \<Rightarrow> time_point" where
  "tick_time start i = start + i * 1000000000"

text \<open>The simulated record of a host, with the injected anomalies.\<close>

definition sim_record :: "time_point \<Rightarrow> int \<Rightarrow> string \<Rightarrow> TelemetryRecord" where
  "sim_record current_time i host =
     (let cpu0 = 50 + of_int (i mod 10);
          cpu1 = (if host = ''host-2'' then cpu0 + 20 else cpu0);
          cpu2 = (if host = ''host-1'' \<and> i = 50 then 200 else cpu1);
          cpu3 = (if host = ''host-2'' \<and> i = 60 then 220 else cpu2);
          broken = (host = ''host-1'' \<and> i = 70)
      in \<lparr>metric_timestamp = current_time, ingestion_time = 0, tr_host_id = host, tr_project_id = '''',
          tr_region = '''', tr_cpu_usage = (if broken then 80 else cpu3), tr_memory_usage = 60,
          tr_disk_utilization = 30, tr_network_rx_rate = (if broken then 0 else 100),
          tr_network_tx_rate = 50, tr_labels_json = '''', tr_run_id = ''sim-run-001'',
          tr_is_anomaly = False, tr_anomaly_type = ''''\<rparr>)"

text \<open>The detector of a host, created on first use.\<close>

definition detector_of :: "scorer \<Rightarrow> string \<Rightarrow> DetectorA" where
  "detector_of s host = (case map_get (detectors_a s) host of None \<Rightarrow> new_detector | Some d \<Rightarrow> d)"

definition host_state :: "scorer \<Rightarrow> string \<Rightarrow> HostState" where
  "host_state s host = (case map_get (host_states s) host of None \<Rightarrow> \<lparr>last_b_run = 0\<rparr> | Some st \<Rightarrow> st)"

text \<open>\<^verbatim>\<open>duration_cast<milliseconds>\<close> of a difference in nanoseconds truncates toward zero.\<close>

definition to_ms :: "int \<Rightarrow> int" where
  "to_ms d = (if 0 \<le> d then d div 1000000 else - ((- d) div 1000000))"

text \<open>Detector A on one vector, with its metrics.\<close>

definition detect_a :: "scorer_env \<Rightarrow> int \<Rightarrow> string \<Rightarrow> FeatureVector \<Rightarrow> scorer \<Rightarrow> AnomalyScore outcome \<times> scorer" where
  "detect_a env i host vec s =
     (case Update vec (detector_of s host) of
        Returned (sc, d) \<Rightarrow>
          (Returned sc,
           s\<lparr>detectors_a := map_put host d (detectors_a s),
             sc_registry := (if as_is_anomaly sc then Increment ''detector_a_anomalies_total'' [] 1 else (\<lambda>r. r))
               (RecordLatency ''detector_a_latency_ms'' [] (a_latency_ms env i host) (sc_registry s))\<rparr>)
      | Threw e \<Rightarrow> (Threw e, s)
      | Terminated \<Rightarrow> (Terminated, s)
      | Undefined \<Rightarrow> (Undefined, s))"

text \<open>The gate of detector B: whether it runs on this record, and the time of its last run.\<close>

definition gate_b :: "GatingConfig \<Rightarrow> time_point \<Rightarrow> string \<Rightarrow> bool \<Rightarrow> scorer \<Rightarrow> bool \<times> scorer" where
  "gate_b gating current_time host flag_a s =
     (if enable_gating gating then
        let h_state = host_state s host;
            ms_since = to_ms (current_time - last_b_run h_state);
            scheduled = (period_ms gating \<le> ms_since);
            run_b = (flag_a \<or> scheduled)
        in (run_b, s\<lparr>host_states := map_put host
                       (if run_b then \<lparr>last_b_run = current_time\<rparr> else h_state) (host_states s)\<rparr>)
      else (True, s))"

text \<open>Detector B: its flag, score and details, or the mark of a skipped evaluation.\<close>

definition detect_b ::
  "scorer_env \<Rightarrow> PcaModel \<Rightarrow> int \<Rightarrow> string \<Rightarrow> bool \<Rightarrow> FeatureVector \<Rightarrow> scorer \<Rightarrow> (bool \<times> real \<times> string) outcome \<times> scorer" where
  "detect_b env model i host run_b vec s =
     (if run_b then
        let s1 = s\<lparr>sc_registry := Increment ''detector_b_evaluations_total'' [] 1 (sc_registry s)\<rparr> in
        or_throw (Score (score_text env) vec model) s1 (\<lambda>res.
          let reg = RecordLatency ''detector_b_latency_ms'' [] (b_latency_ms env i host) (sc_registry s1) in
          if ps_is_anomaly res
          then (Returned (True, reconstruction_error res, ps_details res),
                s1\<lparr>sc_registry := Increment ''detector_b_anomalies_total'' [] 1 reg\<rparr>)
          else (Returned (False, 0, ''''), s1\<lparr>sc_registry := reg\<rparr>))
      else (Returned (False, -1, ''''), s))"

definition combined_details :: "bool \<Rightarrow> string \<Rightarrow> bool \<Rightarrow> bool \<Rightarrow> string \<Rightarrow> string" where
  "combined_details flag_a details_a run_b flag_b details_b =
     (if flag_a then ''[A:'' @ details_a @ ''] '' else '''') @
     (if run_b \<and> flag_b then ''[B:'' @ details_b @ ''] '' else '''') @
     (if \<not> run_b then ''[B:SKIPPED] '' else '''')"

definition raise_alerts :: "event \<Rightarrow> scorer \<Rightarrow> scorer" where
  "raise_alerts e s =
     (let (alerts, am) = Evaluate e (alert_manager s) in
      s\<lparr>alert_manager := am,
        sc_registry := fold (\<lambda>a. Increment ''alerts_total'' [] 1) alerts (sc_registry s),
        sc_reported := sc_reported s @ alerts\<rparr>)"

text \<open>The body of the host loop for a host of this shard.\<close>

definition score_host :: "scorer_env \<Rightarrow> PcaModel \<Rightarrow> int \<Rightarrow> string \<Rightarrow> scorer \<Rightarrow> unit outcome \<times> scorer" where
  "score_host env model i host s =
     (let current_time = tick_time (sim_start env) i;
          r = sim_record current_time i host;
          vec = Apply (dc_preprocessing scorer_config) (FromRecord r)
      in case detect_a env i host vec s of
        (Returned sc, s1) \<Rightarrow>
          let flag_a = as_is_anomaly sc;
              score_a = (if flag_a then max_z_score sc else 0);
              details_a = (if flag_a then as_details sc else '''');
              (run_b, s2) = gate_b (dc_gating scorer_config) current_time host flag_a s1
          in (case detect_b env model i host run_b vec s2 of
                (Returned (flag_b, score_b, details_b), s3) \<Rightarrow>
                  (Returned (),
                   raise_alerts
                     \<lparr>ev_host = host, ev_run = tr_run_id r, ev_ts = metric_timestamp r, ev_a_flag = flag_a,
                      ev_a_score = score_a, ev_b_flag = flag_b, ev_b_score = score_b,
                      ev_details = combined_details flag_a details_a run_b flag_b details_b\<rparr> s3)
              | (Threw e, s3) \<Rightarrow> (Threw e, s3)
              | (Terminated, s3) \<Rightarrow> (Terminated, s3)
              | (Undefined, s3) \<Rightarrow> (Undefined, s3))
      | (Threw e, s1) \<Rightarrow> (Threw e, s1)
      | (Terminated, s1) \<Rightarrow> (Terminated, s1)
      | (Undefined, s1) \<Rightarrow> (Undefined, s1))"

text \<open>The sharding test; both numbers are converted from \<^verbatim>\<open>int\<close> to \<^verbatim>\<open>size_t\<close>.\<close>

definition my_shard :: "scorer_env \<Rightarrow> int \<Rightarrow> int \<Rightarrow> string \<Rightarrow> bool" where
  "my_shard env shard_id num_shards host \<longleftrightarrow>
     std_hash env host mod (word_of_int num_shards :: size_t) = word_of_int shard_id"

primrec shard_host_loop ::
  "scorer_env \<Rightarrow> PcaModel \<Rightarrow> int \<Rightarrow> int \<Rightarrow> int \<Rightarrow> string list \<Rightarrow> scorer \<Rightarrow> unit outcome \<times> scorer" where
  "shard_host_loop env model shard_id num_shards i [] s = (Returned (), s)"
| "shard_host_loop env model shard_id num_shards i (host # hosts) s =
     (if num_shards = 0 then (Terminated, s)
      else if \<not> my_shard env shard_id num_shards host then shard_host_loop env model shard_id num_shards i hosts s
      else case score_host env model i host s of
             (Returned _, s1) \<Rightarrow> shard_host_loop env model shard_id num_shards i hosts s1
           | (Threw e, s1) \<Rightarrow> (Threw e, s1)
           | (Terminated, s1) \<Rightarrow> (Terminated, s1)
           | (Undefined, s1) \<Rightarrow> (Undefined, s1))"

definition sim_hosts :: "string list" where
  "sim_hosts = [''host-1'', ''host-2'']"

primrec scoring_loop ::
  "scorer_env \<Rightarrow> PcaModel \<Rightarrow> int \<Rightarrow> int \<Rightarrow> int list \<Rightarrow> scorer \<Rightarrow> unit outcome \<times> scorer" where
  "scoring_loop env model shard_id num_shards [] s = (Returned (), s)"
| "scoring_loop env model shard_id num_shards (i # is) s =
     (case shard_host_loop env model shard_id num_shards i sim_hosts
             (s\<lparr>sc_registry := Increment ''telemetry_records_total'' [] 1 (sc_registry s)\<rparr>) of
        (Returned _, s1) \<Rightarrow> scoring_loop env model shard_id num_shards is s1
      | (Threw e, s1) \<Rightarrow> (Threw e, s1)
      | (Terminated, s1) \<Rightarrow> (Terminated, s1)
      | (Undefined, s1) \<Rightarrow> (Undefined, s1))"

definition new_scorer :: "MetricsRegistry \<Rightarrow> scorer" where
  "new_scorer reg =
     \<lparr>detectors_a = map_put ''host-2'' new_detector (map_put ''host-1'' new_detector []), host_states = [],
      alert_manager = new_AlertManager 1 10, sc_registry = reg, sc_reported = []\<rparr>"

text \<open>The arguments after the program name; fewer than two of them leave one shard.\<close>

definition shard_args :: "string list \<Rightarrow> (int \<times> int) option" where
  "shard_args args =
     (case args of
        a # b # _ \<Rightarrow> (case (stoi a, stoi b) of (Some x, Some y) \<Rightarrow> Some (x, y) | _ \<Rightarrow> None)
      | _ \<Rightarrow> Some (0, 1))"

text \<open>
  The process: bad arguments end it with an uncaught exception, as does an exception of the loop;
  an artifact that cannot be loaded only disables detector B.
\<close>

definition scorer_main :: "scorer_env \<Rightarrow> string list \<Rightarrow> int outcome \<times> scorer" where
  "scorer_main env args =
     (case shard_args args of
        None \<Rightarrow> (Terminated, new_scorer empty_registry)
      | Some (shard_id, num_shards) \<Rightarrow>
          (case Load (sc_artifacts env) ''artifacts/pca/default/model.json'' (new_PcaModel, empty_registry) of
             (Undefined, model, reg) \<Rightarrow> (Undefined, new_scorer reg)
           | (Terminated, model, reg) \<Rightarrow> (Terminated, new_scorer reg)
           | (_, model, reg) \<Rightarrow>
               (case scoring_loop env model shard_id num_shards (map int [0..<100]) (new_scorer reg) of
                  (Returned _, s) \<Rightarrow> (Returned 0, s)
                | (Threw e, s) \<Rightarrow> (Terminated, s)
                | (Terminated, s) \<Rightarrow> (Terminated, s)
                | (Undefined, s) \<Rightarrow> (Undefined, s))))"


section \<open>One record\<close>

text \<open>A model that detector B can use: none, or one whose five entries of \<^verbatim>\<open>pca_mean_\<close> are there.\<close>

definition usable :: "PcaModel \<Rightarrow> bool" where
  "usable m \<longleftrightarrow> \<not> loaded m \<or> (model_shape m \<and> length (pca_mean m) = kSize)"

lemma usable_Score: "usable m \<Longrightarrow> length vec = kSize \<Longrightarrow> \<exists>res. Score fmt vec m = Inr res"
  using residual_of_eq [of vec kSize "cur_mean m" "cur_scale m" "pca_mean m" "components m"]
  by (auto simp: usable_def Score_def Let_def model_shape_def)

lemma read_artifact_loaded: "\<not> loaded m \<Longrightarrow> read_artifact j m = (Threw e, m') \<Longrightarrow> \<not> loaded m'"
  by (auto simp: read_artifact_def Let_def or_throw_def split: sum.splits if_splits)

lemma Load_loaded: "\<not> loaded m \<Longrightarrow> Load env path (m, reg) = (Threw e, m', reg') \<Longrightarrow> \<not> loaded m'"
  using read_artifact_loaded [of m]
  by (auto simp: Load_def Let_def or_throw_def split: sum.splits option.splits prod.splits if_splits)

lemma Load_usable:
  assumes "\<And>m r. Load env path (new_PcaModel, reg) = (Returned (), m, r) \<Longrightarrow> length (pca_mean m) = kSize"
    and "Load env path (new_PcaModel, reg) = (out, m, r)" and "\<And>u. out \<noteq> Returned u \<Longrightarrow> \<exists>e. out = Threw e"
  shows "usable m"
proof (cases out)
  case (Returned u)
  then obtain j where "read_artifact j new_PcaModel = (Returned (), m)"
    using assms(2) Load_Returned [of env path "(new_PcaModel, reg)" u m r] by auto
  then show ?thesis
    using assms(1) [of m r] assms(2) Returned read_artifact_shape [of j new_PcaModel "()" m] by (simp add: usable_def)
next
  case (Threw e)
  then show ?thesis
    using Load_loaded [of new_PcaModel] assms(2) by (auto simp: usable_def new_PcaModel_def)
qed (use assms(3) in auto)

definition detector_ready :: "DetectorA \<Rightarrow> bool" where
  "detector_ready d \<longleftrightarrow> win_config d = dc_window scorer_config"

lemma Update_ready:
  assumes "detector_ready d"
  shows "\<exists>sc d'. Update vec d = Returned (sc, d') \<and> detector_ready d'"
  using assms
  by (auto simp: Update_def Let_def detector_ready_def scorer_config_def default_DetectorConfig_def split: prod.splits)

text \<open>What a process knows about one host.\<close>

definition host_view :: "scorer \<Rightarrow> string \<Rightarrow> DetectorA \<times> HostState \<times> FusionState \<times> Alert list" where
  "host_view s h =
     (detector_of s h, host_state s h, fusion_state (alert_manager s) h, host_alerts h (sc_reported s))"

definition scorer_ok :: "scorer \<Rightarrow> bool" where
  "scorer_ok s \<longleftrightarrow> (\<forall>h. detector_ready (detector_of s h))
     \<and> hysteresis_threshold (alert_manager s) = 1 \<and> cooldown_s (alert_manager s) = 10"

text \<open>The state after a record with event \<open>e\<close> of a host.\<close>

definition scored :: "event \<Rightarrow> DetectorA \<Rightarrow> HostState \<Rightarrow> MetricsRegistry \<Rightarrow> scorer \<Rightarrow> scorer" where
  "scored e d st reg s = raise_alerts e
     (s\<lparr>detectors_a := map_put (ev_host e) d (detectors_a s), host_states := map_put (ev_host e) st (host_states s),
        sc_registry := reg\<rparr>)"

text \<open>The verdict of a host's detector A on the record of a tick.\<close>

definition a_flags :: "time_point \<Rightarrow> int \<Rightarrow> string \<Rightarrow> DetectorA \<Rightarrow> bool" where
  "a_flags start i host d =
     (case Update (Apply (dc_preprocessing scorer_config) (FromRecord (sim_record (tick_time start i) i host))) d of
        Returned (sc, _) \<Rightarrow> as_is_anomaly sc | _ \<Rightarrow> False)"

text \<open>
  A record is always processed to the end, and its event, the new state of the detector and of the gate
  depend only on what the process knows about the host.
\<close>

lemma score_host_scored:
  assumes "usable model" and "detector_ready d"
  shows "\<exists>e d1 st1. ev_host e = host \<and> ev_ts e = tick_time (sim_start env) i \<and> detector_ready d1
    \<and> st1 = (if a_flags (sim_start env) i host d \<or> 10000 \<le> to_ms (tick_time (sim_start env) i - last_b_run st)
              then \<lparr>last_b_run = tick_time (sim_start env) i\<rparr> else st)
    \<and> (\<forall>s. detector_of s host = d \<and> host_state s host = st \<longrightarrow>
         (\<exists>reg. score_host env model i host s = (Returned (), scored e d1 st1 reg s)))"
proof -
  let ?now = "tick_time (sim_start env) i"
  let ?vec = "Apply (dc_preprocessing scorer_config) (FromRecord (sim_record ?now i host))"
  obtain sc d1 where up: "Update ?vec d = Returned (sc, d1)" "detector_ready d1"
    using Update_ready [OF assms(2)] by blast
  obtain res where res: "Score (score_text env) ?vec model = Inr res"
    using usable_Score [OF assms(1), of ?vec "score_text env"] by auto
  have flag: "a_flags (sim_start env) i host d = as_is_anomaly sc"
    using up(1) by (simp add: a_flags_def)
  have ts: "metric_timestamp (sim_record ?now i host) = ?now"
    by (simp add: sim_record_def Let_def)
  let ?run = "as_is_anomaly sc \<or> 10000 \<le> to_ms (?now - last_b_run st)"
  let ?b = "if ?run then if ps_is_anomaly res then (True, reconstruction_error res, ps_details res) else (False, 0, '''')
            else (False, -1, '''')"
  let ?e = "\<lparr>ev_host = host, ev_run = tr_run_id (sim_record ?now i host), ev_ts = metric_timestamp (sim_record ?now i host),
      ev_a_flag = as_is_anomaly sc, ev_a_score = (if as_is_anomaly sc then max_z_score sc else 0),
      ev_b_flag = fst ?b, ev_b_score = fst (snd ?b),
      ev_details = combined_details (as_is_anomaly sc) (if as_is_anomaly sc then as_details sc else '''')
        ?run (fst ?b) (snd (snd ?b))\<rparr>"
  have gate: "enable_gating (dc_gating scorer_config)" "period_ms (dc_gating scorer_config) = 10000"
    by (simp_all add: scorer_config_def)
  have "\<exists>reg. score_host env model i host s =
      (Returned (), scored ?e d1 (if ?run then \<lparr>last_b_run = ?now\<rparr> else st) reg s)"
    if "detector_of s host = d" "host_state s host = st" for s
  proof -
    have st: "host_state (s\<lparr>detectors_a := x, sc_registry := y\<rparr>) host = st" for x y
      using that(2) by (simp add: host_state_def)
    have swap: "s\<lparr>detectors_a := x, sc_registry := y, host_states := z\<rparr> = s\<lparr>detectors_a := x, host_states := z, sc_registry := y\<rparr>" for x y z
      by simp
    show ?thesis
      unfolding score_host_def detect_a_def
      using up(1) res that(1) gate
      by (auto simp: Let_def gate_b_def detect_b_def scored_def st swap)
  qed
  then show ?thesis
    using up(2)
    by (intro exI [of _ ?e] exI [of _ d1] exI [of _ "if ?run then \<lparr>last_b_run = ?now\<rparr> else st"] conjI allI impI)
      (simp_all add: ts flag)
qed

lemma scored_views:
  "detector_of (scored e d st reg s) h = (if h = ev_host e then d else detector_of s h)"
  "host_state (scored e d st reg s) h = (if h = ev_host e then st else host_state s h)"
  "alert_manager (scored e d st reg s) = snd (Evaluate e (alert_manager s))"
  "sc_reported (scored e d st reg s) = sc_reported s @ fst (Evaluate e (alert_manager s))"
  by (simp_all add: scored_def raise_alerts_def detector_of_def host_state_def Let_def split_beta)

lemma score_host_returns:
  assumes "usable model" and "scorer_ok s"
  shows "\<exists>s1. score_host env model i host s = (Returned (), s1) \<and> scorer_ok s1
    \<and> (\<forall>h. h \<noteq> host \<longrightarrow> host_view s1 h = host_view s h)"
proof -
  obtain e d1 st1 reg where e: "ev_host e = host" "detector_ready d1"
      "score_host env model i host s = (Returned (), scored e d1 st1 reg s)"
    using score_host_scored [OF assms(1), of "detector_of s host" host env i "host_state s host"] assms(2)
    by (metis scorer_ok_def)
  moreover have "host_alerts h (fst (Evaluate e (alert_manager s))) = []" if "h \<noteq> host" for h
    using that e(1) by (simp add: Evaluate_alerts)
  ultimately show ?thesis
    using assms(2) by (auto simp: scorer_ok_def host_view_def scored_views Evaluate_other_host)
qed

text \<open>Two processes that know the same about a host know the same after its next record.\<close>

lemma score_host_view:
  assumes "usable model" and "scorer_ok s" and "scorer_ok s'" and "host_view s host = host_view s' host"
  shows "host_view (snd (score_host env model i host s)) host = host_view (snd (score_host env model i host s')) host"
proof -
  have same: "detector_of s' host = detector_of s host" "host_state s' host = host_state s host"
      "fusion_state (alert_manager s') host = fusion_state (alert_manager s) host"
      "host_alerts host (sc_reported s') = host_alerts host (sc_reported s)"
    using assms(4) by (simp_all add: host_view_def)
  obtain e d1 st1 where e: "ev_host e = host"
      "\<forall>s2. detector_of s2 host = detector_of s host \<and> host_state s2 host = host_state s host \<longrightarrow>
         (\<exists>reg. score_host env model i host s2 = (Returned (), scored e d1 st1 reg s2))"
    using score_host_scored [OF assms(1), of "detector_of s host" host env i "host_state s host"] assms(2)
    by (metis scorer_ok_def)
  obtain reg reg' where "score_host env model i host s = (Returned (), scored e d1 st1 reg s)"
      "score_host env model i host s' = (Returned (), scored e d1 st1 reg' s')"
    using e(2) same by blast
  moreover have "alerts_now e (alert_manager s') = alerts_now e (alert_manager s)"
    using assms(2,3) same e(1) by (simp add: alerts_now_def scorer_ok_def)
  ultimately show ?thesis
    using same e(1) Evaluate_state [of e "alert_manager s"] Evaluate_state [of e "alert_manager s'"]
    by (simp add: host_view_def scored_views Evaluate_alerts)
qed

section \<open>The loops\<close>

lemma host_view_registry [simp]: "host_view (s\<lparr>sc_registry := reg\<rparr>) h = host_view s h"
  by (simp add: host_view_def detector_of_def host_state_def)

lemma scorer_ok_registry [simp]: "scorer_ok (s\<lparr>sc_registry := reg\<rparr>) = scorer_ok s"
  by (simp add: scorer_ok_def detector_of_def)

lemma shard_host_loop_returns:
  assumes "usable model" and "n \<noteq> 0" and "scorer_ok s"
  shows "\<exists>s1. shard_host_loop env model k n i hosts s = (Returned (), s1) \<and> scorer_ok s1
    \<and> (\<forall>h. h \<notin> set hosts \<or> \<not> my_shard env k n h \<longrightarrow> host_view s1 h = host_view s h)"
  using assms(3)
proof (induction hosts arbitrary: s)
  case (Cons host hosts)
  show ?case
  proof (cases "my_shard env k n host")
    case True
    obtain s1 where s1: "score_host env model i host s = (Returned (), s1)" "scorer_ok s1"
        "\<forall>h. h \<noteq> host \<longrightarrow> host_view s1 h = host_view s h"
      using score_host_returns [OF assms(1) Cons.prems] by blast
    then show ?thesis
      using Cons.IH [OF s1(2)] assms(2) True by fastforce
  qed (use Cons assms(2) in fastforce)
qed simp

lemma scoring_loop_returns:
  assumes "usable model" and "n \<noteq> 0" and "scorer_ok s"
  shows "\<exists>s1. scoring_loop env model k n is s = (Returned (), s1) \<and> scorer_ok s1
    \<and> (\<forall>h. h \<notin> set sim_hosts \<or> \<not> my_shard env k n h \<longrightarrow> host_view s1 h = host_view s h)"
  using assms(3)
proof (induction "is" arbitrary: s)
  case (Cons i "is")
  let ?s0 = "s\<lparr>sc_registry := Increment ''telemetry_records_total'' [] 1 (sc_registry s)\<rparr>"
  obtain s1 where "shard_host_loop env model k n i sim_hosts ?s0 = (Returned (), s1)" "scorer_ok s1"
      "\<forall>h. h \<notin> set sim_hosts \<or> \<not> my_shard env k n h \<longrightarrow> host_view s1 h = host_view s h"
    using shard_host_loop_returns [OF assms(1,2), of ?s0 env k i sim_hosts] Cons.prems by auto
  then show ?case
    using Cons.IH [of s1] by auto
qed simp

text \<open>The shard of a host decides what happens to it; the other hosts and shards do not matter.\<close>

lemma shard_host_loop_view:
  assumes "usable model" and "n \<noteq> 0" and "m \<noteq> 0" and "my_shard env k n h" and "my_shard env j m h"
    and "scorer_ok s" and "scorer_ok s'" and "host_view s h = host_view s' h"
  shows "host_view (snd (shard_host_loop env model k n i hosts s)) h
    = host_view (snd (shard_host_loop env model j m i hosts s')) h"
  using assms(6-8)
proof (induction hosts arbitrary: s s')
  case (Cons host hosts)
  obtain s1 where s1: "score_host env model i host s = (Returned (), s1)" "scorer_ok s1"
      "\<forall>h. h \<noteq> host \<longrightarrow> host_view s1 h = host_view s h"
    using score_host_returns [OF assms(1) Cons.prems(1)] by blast
  obtain s1' where s1': "score_host env model i host s' = (Returned (), s1')" "scorer_ok s1'"
      "\<forall>h. h \<noteq> host \<longrightarrow> host_view s1' h = host_view s' h"
    using score_host_returns [OF assms(1) Cons.prems(2)] by blast
  have own: "host_view s1 h = host_view s1' h" if "h = host"
    using score_host_view [OF assms(1) Cons.prems(1,2), of host env i] Cons.prems(3) s1(1) s1'(1) that by simp
  show ?case
  proof (cases "h = host")
    case True
    then show ?thesis
      using Cons.IH [OF s1(2) s1'(2)] own s1(1) s1'(1) assms(2-5) by simp
  next
    case False
    define t where "t = (if my_shard env k n host then s1 else s)"
    define t' where "t' = (if my_shard env j m host then s1' else s')"
    have views: "host_view t h = host_view t' h"
      using s1(3) s1'(3) Cons.prems(3) False by (simp add: t_def t'_def)
    have ok: "scorer_ok t" "scorer_ok t'"
      using Cons.prems(1,2) s1(2) s1'(2) by (simp_all add: t_def t'_def)
    have "shard_host_loop env model k n i (host # hosts) s = shard_host_loop env model k n i hosts t"
        "shard_host_loop env model j m i (host # hosts) s' = shard_host_loop env model j m i hosts t'"
      using s1(1) s1'(1) assms(2,3) by (simp_all add: t_def t'_def)
    then show ?thesis
      using Cons.IH [OF ok views] by simp
  qed
qed simp

lemma scoring_loop_view:
  assumes "usable model" and "n \<noteq> 0" and "m \<noteq> 0" and "my_shard env k n h" and "my_shard env j m h"
    and "scorer_ok s" and "scorer_ok s'" and "host_view s h = host_view s' h"
  shows "host_view (snd (scoring_loop env model k n is s)) h = host_view (snd (scoring_loop env model j m is s')) h"
  using assms(6-8)
proof (induction "is" arbitrary: s s')
  case (Cons i "is")
  let ?tick = "\<lambda>s. s\<lparr>sc_registry := Increment ''telemetry_records_total'' [] 1 (sc_registry s)\<rparr>"
  obtain s1 where s1: "shard_host_loop env model k n i sim_hosts (?tick s) = (Returned (), s1)" "scorer_ok s1"
    using shard_host_loop_returns [OF assms(1,2), of "?tick s" env k i sim_hosts] Cons.prems by auto
  obtain s1' where s1': "shard_host_loop env model j m i sim_hosts (?tick s') = (Returned (), s1')" "scorer_ok s1'"
    using shard_host_loop_returns [OF assms(1,3), of "?tick s'" env j i sim_hosts] Cons.prems by auto
  have "host_view s1 h = host_view s1' h"
    using shard_host_loop_view [OF assms(1-5), of "?tick s" "?tick s'" i sim_hosts] Cons.prems s1 s1' by simp
  then show ?case
    using Cons.IH [OF s1(2) s1'(2)] s1(1) s1'(1) by simp
qed simp


section \<open>The process\<close>

lemma scorer_ok_new [simp]: "scorer_ok (new_scorer reg)"
  by (simp add: scorer_ok_def new_scorer_def detector_of_def detector_ready_def new_detector_def new_DetectorA_def)

text \<open>An artifact on which detector B can run: loading it returns or throws, and a returned load has five means.\<close>

definition artifact_usable :: "scorer_env \<Rightarrow> bool" where
  "artifact_usable env \<longleftrightarrow>
     (case Load (sc_artifacts env) ''artifacts/pca/default/model.json'' (new_PcaModel, empty_registry) of
        (Returned _, m, _) \<Rightarrow> length (pca_mean m) = kSize
      | (Threw _, _) \<Rightarrow> True
      | _ \<Rightarrow> False)"

lemma scorer_main_loop:
  assumes "artifact_usable env" and "shard_args args = Some (k, n)" and "n \<noteq> 0"
  shows "\<exists>s. scorer_main env args = (Returned 0, s) \<and> scorer_ok s
    \<and> (\<forall>h. h \<notin> set sim_hosts \<or> \<not> my_shard env k n h \<longrightarrow> host_alerts h (sc_reported s) = [])"
    and "\<exists>model reg. usable model \<and> (\<forall>args k n. shard_args args = Some (k, n) \<and> n \<noteq> 0 \<longrightarrow>
       snd (scorer_main env args) = snd (scoring_loop env model k n (map int [0..<100]) (new_scorer reg)))"
proof -
  obtain out model reg where load:
    "Load (sc_artifacts env) ''artifacts/pca/default/model.json'' (new_PcaModel, empty_registry) = (out, model, reg)"
    using prod_cases3 by blast
  have "usable model"
  proof (rule Load_usable [OF _ load])
    show "length (pca_mean m) = kSize"
      if "Load (sc_artifacts env) ''artifacts/pca/default/model.json'' (new_PcaModel, empty_registry) = (Returned (), m, r)" for m r
      using assms(1) that by (simp add: artifact_usable_def)
    show "\<exists>e. out = Threw e" if "out \<noteq> Returned u" for u
      using assms(1) load that by (cases out) (simp_all add: artifact_usable_def)
  qed
  note us = this
  have main: "scorer_main env args = (Returned 0, s)"
    if "shard_args args = Some (k, n)" "scoring_loop env model k n (map int [0..<100]) (new_scorer reg) = (Returned (), s)"
    for args k n s
    using assms(1) load that by (cases out) (simp_all add: artifact_usable_def scorer_main_def)
  note runs = scoring_loop_returns [OF us _ scorer_ok_new, where env = env]
  have none: "host_alerts h (sc_reported s) = []" if "host_view s h = host_view (new_scorer reg) h" for s h
    using that by (simp add: host_view_def new_scorer_def)
  obtain s where s: "scoring_loop env model k n (map int [0..<100]) (new_scorer reg) = (Returned (), s)" "scorer_ok s"
      "\<forall>h. h \<notin> set sim_hosts \<or> \<not> my_shard env k n h \<longrightarrow> host_view s h = host_view (new_scorer reg) h"
    using runs [OF assms(3), of k "map int [0..<100]" reg] by blast
  then show "\<exists>s. scorer_main env args = (Returned 0, s) \<and> scorer_ok s
    \<and> (\<forall>h. h \<notin> set sim_hosts \<or> \<not> my_shard env k n h \<longrightarrow> host_alerts h (sc_reported s) = [])"
    using main [OF assms(2) s(1)] none by blast
  have "snd (scorer_main env args) = snd (scoring_loop env model k n (map int [0..<100]) (new_scorer reg))"
    if "shard_args args = Some (k, n)" "n \<noteq> 0" for args k n
    using runs [OF that(2), of k "map int [0..<100]" reg] main [OF that(1)] by fastforce
  then show "\<exists>model reg. usable model \<and> (\<forall>args k n. shard_args args = Some (k, n) \<and> n \<noteq> 0 \<longrightarrow>
       snd (scorer_main env args) = snd (scoring_loop env model k n (map int [0..<100]) (new_scorer reg)))"
    using us by blast
qed

lemma my_shard_iff:
  assumes "0 \<le> k" and "k < n" and "n < 2 ^ 31"
  shows "my_shard env k n h \<longleftrightarrow> uint (std_hash env h) mod n = k"
proof -
  have "uint (word_of_int n :: size_t) = n" "uint (word_of_int k :: size_t) = k"
    using assms by (simp_all add: uint_word_of_int take_bit_int_eq_self)
  then show ?thesis
    unfolding my_shard_def by (simp add: word_uint_eq_iff uint_mod)
qed

lemma shard_args_to_string:
  "0 \<le> k \<Longrightarrow> k < n \<Longrightarrow> n < 2 ^ 31 \<Longrightarrow> shard_args [to_string k, to_string n] = Some (k, n)"
  by (simp add: shard_args_def stoi_to_string)

text \<open>
  C23. Sharding: with an artifact that detector B can run on, the simulation ends normally under any number of
  shards, and the processes split the alerts of the unsharded process: every host has exactly one
  shard that reports precisely the alerts the unsharded process reports for it, with the same scores
  and times, and all other shards report none.
\<close>

theorem sharding_transparent:
  assumes "artifact_usable env" and "0 < n" and "n < 2 ^ 31"
  shows "\<exists>whole. scorer_main env [] = (Returned 0, whole)
    \<and> (\<forall>h. \<exists>k \<in> {0..<n}. \<forall>j \<in> {0..<n}. \<exists>s. scorer_main env [to_string j, to_string n] = (Returned 0, s)
         \<and> host_alerts h (sc_reported s) = (if j = k then host_alerts h (sc_reported whole) else []))"
proof -
  have args: "shard_args [] = Some (0, 1)"
    by (simp add: shard_args_def)
  obtain model reg where us: "usable model" and run: "\<And>args k n. shard_args args = Some (k, n) \<Longrightarrow> n \<noteq> 0 \<Longrightarrow>
       snd (scorer_main env args) = snd (scoring_loop env model k n (map int [0..<100]) (new_scorer reg))"
    using scorer_main_loop(2) [OF assms(1) args] by auto
  obtain whole where whole: "scorer_main env [] = (Returned 0, whole)"
    using scorer_main_loop(1) [OF assms(1) args] by auto
  have shard: "\<exists>s. scorer_main env [to_string j, to_string n] = (Returned 0, s)
      \<and> host_alerts h (sc_reported s) = (if j = uint (std_hash env h) mod n then host_alerts h (sc_reported whole) else [])"
    if j: "j \<in> {0..<n}" for j h
  proof -
    have arg: "shard_args [to_string j, to_string n] = Some (j, n)" and n: "n \<noteq> 0"
      using j assms(3) by (simp_all add: shard_args_to_string)
    obtain s where s: "scorer_main env [to_string j, to_string n] = (Returned 0, s)"
        "\<not> my_shard env j n h \<longrightarrow> host_alerts h (sc_reported s) = []"
      using scorer_main_loop(1) [OF assms(1) arg n] by blast
    have "host_view s h = host_view whole h" if "my_shard env j n h"
      using scoring_loop_view [OF us n _ that, of 1 0 "new_scorer reg" "new_scorer reg" "map int [0..<100]"]
        run [OF arg n] run [OF args] s(1) whole my_shard_iff [of 0 1 env h] by simp
    then show ?thesis
      using s my_shard_iff [of j n env h] j assms(3) by (auto simp: host_view_def)
  qed
  have "uint (std_hash env h) mod n \<in> {0..<n}" for h
    using assms(2) by simp
  then show ?thesis
    using whole shard by blast
qed


definition ex_scorer_env :: scorer_env where
  "ex_scorer_env =
     \<lparr>std_hash = (\<lambda>h. of_nat (length h)), sim_start = 1700000000000000000, a_latency_ms = (\<lambda>_ _. 0),
      b_latency_ms = (\<lambda>_ _. 0), score_text = (\<lambda>_. ''''),
      sc_artifacts = \<lparr>file_text = \<lambda>_. None, parse_json = \<lambda>_. Inr JNull, file_size = \<lambda>_. None, elapsed_ms = 0\<rparr>\<rparr>"

theorem sharding_transparent_witness:
  "artifact_usable ex_scorer_env \<and>
   (\<exists>whole. scorer_main ex_scorer_env [] = (Returned 0, whole)
    \<and> (\<forall>h. \<exists>k \<in> {0..<3}. \<forall>j \<in> {0..<3}. \<exists>s. scorer_main ex_scorer_env [to_string j, to_string 3] = (Returned 0, s)
         \<and> host_alerts h (sc_reported s) = (if j = k then host_alerts h (sc_reported whole) else [])))"
proof -
  have "artifact_usable ex_scorer_env"
    by (simp add: artifact_usable_def ex_scorer_env_def Load_def)
  then show ?thesis
    using sharding_transparent [of ex_scorer_env 3] by simp
qed

section \<open>The gate of detector B\<close>

lemma shard_host_loop_own:
  assumes "usable model" and "n \<noteq> 0" and "my_shard env k n h" and "scorer_ok s" and "h \<in> set hosts" and "distinct hosts"
  shows "host_view (snd (shard_host_loop env model k n i hosts s)) h = host_view (snd (score_host env model i h s)) h"
  using assms(4-6)
proof (induction hosts arbitrary: s)
  case (Cons host hosts)
  obtain s1 where s1: "score_host env model i host s = (Returned (), s1)" "scorer_ok s1"
      "\<forall>h. h \<noteq> host \<longrightarrow> host_view s1 h = host_view s h"
    using score_host_returns [OF assms(1) Cons.prems(1)] by blast
  show ?case
  proof (cases "h = host")
    case True
    then show ?thesis
      using shard_host_loop_returns [OF assms(1,2) s1(2), of env k i hosts] s1(1) assms(2,3) Cons.prems(3) by auto
  next
    case False
    then show ?thesis
      using Cons.IH [OF Cons.prems(1)] Cons.IH [OF s1(2)] Cons.prems s1 assms(2)
        score_host_view [OF assms(1) s1(2) Cons.prems(1), of h env i] by auto
  qed
qed simp

lemma scoring_loop_append:
  "scoring_loop env model k n is s = (Returned (), s1) \<Longrightarrow>
     scoring_loop env model k n (is @ js) s = scoring_loop env model k n js s1"
  by (induction "is" arbitrary: s) (auto split: prod.splits outcome.splits)

lemma to_ms_seconds: "0 \<le> d \<Longrightarrow> 10000 \<le> to_ms d \<longleftrightarrow> 10000000000 \<le> d"
  by (auto simp: to_ms_def)

text \<open>One more tick, seen from a host of the shard.\<close>

lemma scoring_tick:
  assumes "usable model" and "n \<noteq> 0" and "my_shard env k n h" and "h \<in> set sim_hosts"
    and "scoring_loop env model k n (map int [0..<t]) (new_scorer reg) = (Returned (), s0)" and "scorer_ok s0"
  shows "\<exists>s. scoring_loop env model k n (map int [0..<Suc t]) (new_scorer reg) = (Returned (), s) \<and> scorer_ok s
    \<and> host_state s h = (if a_flags (sim_start env) (int t) h (detector_of s0 h)
          \<or> 10000 \<le> to_ms (tick_time (sim_start env) (int t) - last_b_run (host_state s0 h))
        then \<lparr>last_b_run = tick_time (sim_start env) (int t)\<rparr> else host_state s0 h)"
proof -
  let ?s1 = "s0\<lparr>sc_registry := Increment ''telemetry_records_total'' [] 1 (sc_registry s0)\<rparr>"
  obtain s where s: "shard_host_loop env model k n (int t) sim_hosts ?s1 = (Returned (), s)" "scorer_ok s"
    using shard_host_loop_returns [OF assms(1,2), of ?s1 env k "int t" sim_hosts] assms(6) by auto
  have "host_view s h = host_view (snd (score_host env model (int t) h ?s1)) h"
    using shard_host_loop_own [OF assms(1-3) _ assms(4), of ?s1 "int t"] assms(6) s(1)
    by (simp add: sim_hosts_def)
  moreover have "detector_of ?s1 h = detector_of s0 h \<and> host_state ?s1 h = host_state s0 h"
    by (simp add: detector_of_def host_state_def)
  moreover have "detector_ready (detector_of s0 h)"
    using assms(6) by (simp add: scorer_ok_def)
  ultimately obtain e d1 st1 regs where "ev_host e = h" "host_view s h = host_view (scored e d1 st1 regs ?s1) h"
      "st1 = (if a_flags (sim_start env) (int t) h (detector_of s0 h)
          \<or> 10000 \<le> to_ms (tick_time (sim_start env) (int t) - last_b_run (host_state s0 h))
        then \<lparr>last_b_run = tick_time (sim_start env) (int t)\<rparr> else host_state s0 h)"
    using score_host_scored [OF assms(1), of "detector_of s0 h" h env "int t" "host_state s0 h"] by (metis snd_conv)
  then have "host_state s h = (if a_flags (sim_start env) (int t) h (detector_of s0 h)
          \<or> 10000 \<le> to_ms (tick_time (sim_start env) (int t) - last_b_run (host_state s0 h))
        then \<lparr>last_b_run = tick_time (sim_start env) (int t)\<rparr> else host_state s0 h)"
    by (simp add: host_view_def scored_views)
  then show ?thesis
    using scoring_loop_append [OF assms(5), of "[int t]"] s by auto
qed

lemma gate_recent:
  assumes "usable model" and "n \<noteq> 0" and "my_shard env k n h" and "h \<in> set sim_hosts" and "10000000000 \<le> sim_start env"
  shows "\<exists>s. scoring_loop env model k n (map int [0..<t]) (new_scorer reg) = (Returned (), s) \<and> scorer_ok s
    \<and> (if t = 0 then last_b_run (host_state s h) = 0
       else last_b_run (host_state s h) \<le> tick_time (sim_start env) (int t - 1)
         \<and> tick_time (sim_start env) (int t - 1) - last_b_run (host_state s h) < 10000000000)"
proof (induction t)
  case 0
  have "last_b_run (host_state (new_scorer reg) h) = 0"
    by (simp add: host_state_def new_scorer_def)
  then show ?case
    by simp
next
  case (Suc t)
  obtain s0 where s0: "scoring_loop env model k n (map int [0..<t]) (new_scorer reg) = (Returned (), s0)" "scorer_ok s0"
      "if t = 0 then last_b_run (host_state s0 h) = 0
       else last_b_run (host_state s0 h) \<le> tick_time (sim_start env) (int t - 1)
         \<and> tick_time (sim_start env) (int t - 1) - last_b_run (host_state s0 h) < 10000000000"
    using Suc.IH by blast
  have "last_b_run (host_state s0 h) \<le> tick_time (sim_start env) (int t)"
    using s0(3) assms(5) by (cases "t = 0") (simp_all add: tick_time_def)
  then show ?case
    using scoring_tick [OF assms(1-4) s0(1,2)] by (auto simp: to_ms_seconds)
qed



end
