(* ===== verification/Iso_Time.thy ===== *)
theory Iso_Time
  imports Strings Features
begin

text \<open>
  Times and their ISO text: \<^verbatim>\<open>src/src/time_resolution.h\<close>, \<^verbatim>\<open>FormatServerTime\<close> of \<^verbatim>\<open>src/src/api_server.cpp\<close> and
  \<^verbatim>\<open>ParseTime\<close> of \<^verbatim>\<open>src/src/generator.cpp\<close>. Of the library, \<^verbatim>\<open>gmtime\<close> and \<^verbatim>\<open>timegm\<close> are the proleptic Gregorian
  calendar in UTC, computed over years that begin in March; \<^verbatim>\<open>std::put_time\<close> prints and \<^verbatim>\<open>std::get_time\<close>
  reads every field in its full width (four digits for the year, two for the others), and reading
  stops at the first field or character that does not fit, keeping the fields read before it.
\<close>

section \<open>The calendar\<close>

record tm =
  tm_year :: int
  tm_mon :: int
  tm_mday :: int
  tm_hour :: int
  tm_min :: int
  tm_sec :: int

text \<open>\<^verbatim>\<open>std::tm tm = {}\<close>; the year is counted from 0 here, the month from 0.\<close>

definition zero_tm :: tm where
  "zero_tm = \<lparr>tm_year = 1900, tm_mon = 0, tm_mday = 0, tm_hour = 0, tm_min = 0, tm_sec = 0\<rparr>"

text \<open>Days before the March of a year, and before a month counted from March.\<close>

definition year_start :: "int \<Rightarrow> int" where
  "year_start y = 365 * y + y div 4 - y div 100 + y div 400"

definition month_start :: "int \<Rightarrow> int" where
  "month_start mp = (153 * mp + 2) div 5"

definition days_from_civil :: "int \<Rightarrow> int \<Rightarrow> int \<Rightarrow> int" where
  "days_from_civil y mon d =
     (let y' = (if mon \<le> 1 then y - 1 else y); mp = (mon + 10) mod 12 in
      year_start y' + month_start mp + d - 1 - 719468)"

definition timegm :: "tm \<Rightarrow> int" where
  "timegm t = days_from_civil (tm_year t) (tm_mon t) (tm_mday t) * 86400 + tm_hour t * 3600 + tm_min t * 60 + tm_sec t"

definition march_year :: "int \<Rightarrow> int" where
  "march_year n = (let y = 400 * n div 146097 in if year_start (y + 1) \<le> n then y + 1 else y)"

definition gmtime :: "int \<Rightarrow> tm" where
  "gmtime secs =
     (let n = secs div 86400 + 719468; s = secs mod 86400;
          y = march_year n; doy = n - year_start y; mp = (5 * doy + 2) div 153
      in \<lparr>tm_year = (if mp < 10 then y else y + 1), tm_mon = (mp + 2) mod 12,
          tm_mday = doy - month_start mp + 1, tm_hour = s div 3600, tm_min = s mod 3600 div 60, tm_sec = s mod 60\<rparr>)"

lemma div_bounds: "0 < k \<Longrightarrow> k * (x div k) \<le> x \<and> x \<le> k * (x div k) + (k - 1)" for x k :: int
  using mult_div_mod_eq [of k x] pos_mod_bound [of k x] pos_mod_sign [of k x] by linarith

lemma year_start_bounds: "146097 * y - 699 \<le> 400 * year_start y" "400 * year_start y \<le> 146097 * y + 396"
  using div_bounds [of 4 y] div_bounds [of 100 y] div_bounds [of 400 y] unfolding year_start_def by simp_all

lemma march_year_bounds: "year_start (march_year n) \<le> n \<and> n < year_start (march_year n + 1)"
proof -
  define y where "y = 400 * n div 146097"
  have y: "146097 * y \<le> 400 * n" "400 * n \<le> 146097 * y + 146096"
    using div_bounds [of 146097 "400 * n"] unfolding y_def by simp_all
  have "year_start y \<le> n" "n < year_start (y + 2)"
    using y year_start_bounds(2) [of y] year_start_bounds(1) [of "y + 2"] unfolding distrib_left by linarith+
  then show ?thesis
    unfolding march_year_def Let_def y_def [symmetric] by (auto simp: add.assoc)
qed

lemma year_length: "year_start (y + 1) - year_start y \<le> 366"
proof -
  have div400: "x div 400 = x div 100 div 4" for x :: int
    by (simp add: zdiv_zmult2_eq)
  define b b' where "b = y div 100" and "b' = (y + 1) div 100"
  have "b' = b \<or> b' = b + 1"
    using div_bounds [of 100 y] div_bounds [of 100 "y + 1"] unfolding b_def b'_def by linarith
  then have "b' div 4 - b div 4 \<le> b' - b"
    using div_bounds [of 4 b] div_bounds [of 4 b'] by linarith
  moreover define a a' where "a = y div 4" and "a' = (y + 1) div 4"
  have "a' - a \<le> 1"
    using div_bounds [of 4 y] div_bounds [of 4 "y + 1"] unfolding a_def a'_def by linarith
  ultimately show ?thesis
    unfolding year_start_def div400 b_def [symmetric] b'_def [symmetric] a_def [symmetric] a'_def [symmetric] distrib_left by linarith
qed

lemma month_bounds:
  assumes "0 \<le> doy" "doy \<le> 365"
  shows "0 \<le> (5 * doy + 2) div 153" "(5 * doy + 2) div 153 \<le> 11"
    "month_start ((5 * doy + 2) div 153) \<le> doy" "doy \<le> month_start ((5 * doy + 2) div 153) + 30"
proof -
  define q where "q = (5 * doy + 2) div 153"
  have q: "153 * q \<le> 5 * doy + 2" "5 * doy + 2 \<le> 153 * q + 152"
    using div_bounds [of 153 "5 * doy + 2"] unfolding q_def by simp_all
  have m: "5 * month_start q \<le> 153 * q + 2" "153 * q + 2 \<le> 5 * month_start q + 4"
    using div_bounds [of 5 "153 * q + 2"] unfolding month_start_def by simp_all
  show "0 \<le> (5 * doy + 2) div 153" "(5 * doy + 2) div 153 \<le> 11"
    "month_start ((5 * doy + 2) div 153) \<le> doy" "doy \<le> month_start ((5 * doy + 2) div 153) + 30"
    using q m assms unfolding q_def [symmetric] by linarith+
qed

lemma clock_fields:
  fixes s :: int
  assumes "0 \<le> s" "s < 86400"
  shows "s div 3600 * 3600 + s mod 3600 div 60 * 60 + s mod 60 = s" "0 \<le> s div 3600" "s div 3600 \<le> 23"
    "0 \<le> s mod 3600 div 60" "s mod 3600 div 60 \<le> 59" "0 \<le> s mod 60" "s mod 60 \<le> 59"
proof -
  have "s mod 60 = s mod 3600 mod 60"
    by (simp add: mod_mod_cancel)
  then show "s div 3600 * 3600 + s mod 3600 div 60 * 60 + s mod 60 = s"
    using div_mult_mod_eq [of s 3600] div_mult_mod_eq [of "s mod 3600" 60] by linarith
  have m: "0 \<le> s mod 3600" "s mod 3600 < 3600" by simp_all
  show "0 \<le> s div 3600" "s div 3600 \<le> 23" "0 \<le> s mod 3600 div 60" "s mod 3600 div 60 \<le> 59" "0 \<le> s mod 60" "s mod 60 \<le> 59"
    using div_bounds [of 3600 s] div_bounds [of 60 "s mod 3600"] div_bounds [of 60 s] m assms
      pos_mod_sign [of 60 s] pos_mod_bound [of 60 s] by linarith+
qed

text \<open>\<^verbatim>\<open>gmtime\<close> gives fields in their ranges and \<^verbatim>\<open>timegm\<close> inverts it, for every time before and after 1970.\<close>

definition valid_tm :: "tm \<Rightarrow> bool" where
  "valid_tm t \<longleftrightarrow> 0 \<le> tm_mon t \<and> tm_mon t \<le> 11 \<and> 1 \<le> tm_mday t \<and> tm_mday t \<le> 31 \<and> 0 \<le> tm_hour t \<and> tm_hour t \<le> 23
     \<and> 0 \<le> tm_min t \<and> tm_min t \<le> 59 \<and> 0 \<le> tm_sec t \<and> tm_sec t \<le> 59"

lemma gmtime_correct: "timegm (gmtime secs) = secs \<and> valid_tm (gmtime secs)"
proof -
  define n where "n = secs div 86400 + 719468"
  define s where "s = secs mod 86400"
  define y where "y = march_year n"
  define doy where "doy = n - year_start y"
  define mp where "mp = (5 * doy + 2) div 153"
  have doy: "0 \<le> doy" "doy \<le> 365"
    using march_year_bounds [of n] year_length [of y] by (simp_all add: doy_def y_def)
  note mp = month_bounds [OF doy, folded mp_def]
  have s: "0 \<le> s" "s < 86400" and secs: "secs = (n - 719468) * 86400 + s"
    by (simp_all add: s_def n_def)
  have g: "gmtime secs = \<lparr>tm_year = (if mp < 10 then y else y + 1), tm_mon = (mp + 2) mod 12,
          tm_mday = doy - month_start mp + 1, tm_hour = s div 3600, tm_min = s mod 3600 div 60, tm_sec = s mod 60\<rparr>"
    by (simp add: gmtime_def Let_def n_def s_def y_def doy_def mp_def)
  have mon: "((mp + 2) mod 12 + 10) mod 12 = mp" "(mp + 2) mod 12 \<le> 1 \<longleftrightarrow> 10 \<le> mp"
  proof -
    have "mp \<in> {0, 1, 2, 3, 4, 5, 6, 7, 8, 9, 10, 11}"
      using mp(1,2) by simp presburger
    then show "((mp + 2) mod 12 + 10) mod 12 = mp" "(mp + 2) mod 12 \<le> 1 \<longleftrightarrow> 10 \<le> mp"
      by auto
  qed
  have "days_from_civil (tm_year (gmtime secs)) (tm_mon (gmtime secs)) (tm_mday (gmtime secs)) = n - 719468"
    using mon by (simp add: g days_from_civil_def Let_def doy_def)
  then have "timegm (gmtime secs) = (n - 719468) * 86400 + (tm_hour (gmtime secs) * 3600 + tm_min (gmtime secs) * 60 + tm_sec (gmtime secs))"
    by (simp add: timegm_def)
  also have "tm_hour (gmtime secs) * 3600 + tm_min (gmtime secs) * 60 + tm_sec (gmtime secs) = s"
    using clock_fields(1) [OF s] by (simp add: g)
  finally have "timegm (gmtime secs) = secs"
    using secs by simp
  moreover have "valid_tm (gmtime secs)"
    using mp clock_fields(2-) [OF s] unfolding g valid_tm_def by simp
  ultimately show ?thesis by blast
qed


section \<open>Reading and printing\<close>

datatype directive = F_Y | F_m | F_d | F_H | F_M | F_S | Lit char

definition iso_format :: "directive list" where
  "iso_format = [F_Y, Lit CHR ''-'', F_m, Lit CHR ''-'', F_d, Lit CHR ''T'', F_H, Lit CHR '':'', F_M, Lit CHR '':'', F_S]"

definition zulu_format :: "directive list" where
  "zulu_format = iso_format @ [Lit CHR ''Z'']"

definition pad2 :: "int \<Rightarrow> string" where
  "pad2 n = [digit_char (nat (n div 10)), digit_char (nat (n mod 10))]"

fun put_directive :: "tm \<Rightarrow> directive \<Rightarrow> string" where
  "put_directive t F_Y = to_string (tm_year t)"
| "put_directive t F_m = pad2 (tm_mon t + 1)"
| "put_directive t F_d = pad2 (tm_mday t)"
| "put_directive t F_H = pad2 (tm_hour t)"
| "put_directive t F_M = pad2 (tm_min t)"
| "put_directive t F_S = pad2 (tm_sec t)"
| "put_directive t (Lit c) = [c]"

definition put_time :: "tm \<Rightarrow> directive list \<Rightarrow> string" where
  "put_time t fs = concat (map (put_directive t) fs)"

definition read_number :: "nat \<Rightarrow> int \<Rightarrow> int \<Rightarrow> string \<Rightarrow> (int \<times> string) option" where
  "read_number width lo hi s =
     (let ds = take width s; v = int (digits_value ds) in
      if length ds = width \<and> list_all is_digit ds \<and> lo \<le> v \<and> v \<le> hi then Some (v, drop width s) else None)"

fun read_directive :: "directive \<Rightarrow> string \<Rightarrow> tm \<Rightarrow> (string \<times> tm) option" where
  "read_directive F_Y s t = map_option (\<lambda>(v, s'). (s', t\<lparr>tm_year := v\<rparr>)) (read_number 4 0 9999 s)"
| "read_directive F_m s t = map_option (\<lambda>(v, s'). (s', t\<lparr>tm_mon := v - 1\<rparr>)) (read_number 2 1 12 s)"
| "read_directive F_d s t = map_option (\<lambda>(v, s'). (s', t\<lparr>tm_mday := v\<rparr>)) (read_number 2 1 31 s)"
| "read_directive F_H s t = map_option (\<lambda>(v, s'). (s', t\<lparr>tm_hour := v\<rparr>)) (read_number 2 0 23 s)"
| "read_directive F_M s t = map_option (\<lambda>(v, s'). (s', t\<lparr>tm_min := v\<rparr>)) (read_number 2 0 59 s)"
| "read_directive F_S s t = map_option (\<lambda>(v, s'). (s', t\<lparr>tm_sec := v\<rparr>)) (read_number 2 0 60 s)"
| "read_directive (Lit c) s t = (case s of [] \<Rightarrow> None | x # s' \<Rightarrow> if x = c then Some (s', t) else None)"

primrec read_directives :: "directive list \<Rightarrow> string \<Rightarrow> tm \<Rightarrow> bool \<times> tm" where
  "read_directives [] s t = (True, t)"
| "read_directives (f # fs) s t =
     (case read_directive f s t of None \<Rightarrow> (False, t) | Some (s', t') \<Rightarrow> read_directives fs s' t')"

definition get_time :: "directive list \<Rightarrow> string \<Rightarrow> tm \<Rightarrow> bool \<times> tm" where
  "get_time fs s t = read_directives fs (dropWhile is_space s) t"

text \<open>Time points are counts of nanoseconds; \<^verbatim>\<open>to_time_t\<close> rounds towards zero.\<close>

definition to_time_t :: "time_point \<Rightarrow> int" where
  "to_time_t tp = (if 0 \<le> tp then tp div 1000000000 else - ((- tp) div 1000000000))"

definition from_time_t :: "int \<Rightarrow> time_point" where
  "from_time_t secs = secs * 1000000000"

section \<open>The functions of the sources\<close>

definition ParseTime :: "string \<Rightarrow> time_point" where
  "ParseTime text = from_time_t (timegm (snd (get_time zulu_format text zero_tm)))"

definition ParseIsoTime :: "string \<Rightarrow> time_point option" where
  "ParseIsoTime text =
     (if text = '''' then None
      else
        let trimmed = (if last text = CHR ''Z'' then butlast text else text) in
        (case get_time iso_format trimmed zero_tm of (ok, t) \<Rightarrow>
           if \<not> ok then None else Some (from_time_t (timegm t))))"

definition FormatIsoTime :: "time_point \<Rightarrow> string" where
  "FormatIsoTime tp = put_time (gmtime (to_time_t tp)) zulu_format"

definition FormatServerTime :: "time_point \<Rightarrow> string" where
  "FormatServerTime now = put_time (gmtime (to_time_t now)) zulu_format"

definition PreviousPeriodWindow :: "string \<Rightarrow> string \<Rightarrow> (string \<times> string) option" where
  "PreviousPeriodWindow start_time end_time =
     (case (ParseIsoTime start_time, ParseIsoTime end_time) of
        (Some start, Some stop) \<Rightarrow>
          if stop \<le> start then None
          else
            let duration = stop - start; baseline_end = start; baseline_start = baseline_end - duration in
            Some (FormatIsoTime baseline_start, FormatIsoTime baseline_end)
      | _ \<Rightarrow> None)"

definition SelectBucketSeconds :: "string \<Rightarrow> string \<Rightarrow> int" where
  "SelectBucketSeconds start_time end_time =
     (case (ParseIsoTime start_time, ParseIsoTime end_time) of
        (Some start, Some stop) \<Rightarrow>
          let seconds = to_time_t (stop - start) in
          if seconds \<le> 6 * 3600 then 300
          else if seconds \<le> 2 * 86400 then 3600
          else if seconds \<le> 30 * 86400 then 21600
          else if seconds \<le> 180 * 86400 then 86400
          else 604800
      | _ \<Rightarrow> 3600)"

definition BucketLabel :: "int \<Rightarrow> string" where
  "BucketLabel bucket_seconds =
     (if bucket_seconds = 300 then ''5m''
      else if bucket_seconds = 3600 then ''1h''
      else if bucket_seconds = 21600 then ''6h''
      else if bucket_seconds = 86400 then ''1d''
      else if bucket_seconds = 604800 then ''7d''
      else to_string bucket_seconds @ ''s'')"


section \<open>Printing and reading back\<close>

lemma read_pad2:
  assumes "0 \<le> n" "n \<le> 99" "lo \<le> n" "n \<le> hi"
  shows "read_number 2 lo hi (pad2 n @ rest) = Some (n, rest)"
proof -
  have d: "nat (n div 10) < 10" "nat (n mod 10) < 10"
    using assms(1,2) div_bounds [of 10 n] by (simp_all add: nat_less_iff)
  then have "digits_value (pad2 n) = 10 * nat (n div 10) + nat (n mod 10)"
    by (simp add: digits_value_def pad2_def)
  then have "int (digits_value (pad2 n)) = n"
    using assms(1) mult_div_mod_eq [of 10 n] by (simp add: pos_imp_zdiv_nonneg_iff)
  moreover have "list_all is_digit (pad2 n)" "take 2 (pad2 n @ rest) = pad2 n" "drop 2 (pad2 n @ rest) = rest"
    using d by (simp_all add: pad2_def)
  ultimately show ?thesis
    using assms by (simp add: read_number_def Let_def pad2_def)
qed

lemma length_year: "1000 \<le> n \<Longrightarrow> n \<le> 9999 \<Longrightarrow> length (string_of_nat n) = 4"
proof -
  assume n: "1000 \<le> n" "n \<le> 9999"
  then have "n div 10 div 10 div 10 < 10" "\<not> n div 10 div 10 < 10" "\<not> n div 10 < 10" "\<not> n < 10"
    by auto
  then show ?thesis
    by (simp add: string_of_nat.simps [of n] string_of_nat.simps [of "n div 10"] string_of_nat.simps [of "n div 10 div 10"]
        string_of_nat.simps [of "n div 10 div 10 div 10"])
qed

lemma read_year:
  assumes "1000 \<le> y" "y \<le> 9999"
  shows "read_number 4 0 9999 (to_string y @ rest) = Some (y, rest)"
proof -
  have len: "length (to_string y) = 4" and v: "int (digits_value (to_string y)) = y"
    using assms length_year [of "nat y"] by (simp_all add: to_string_def digits_value_string_of_nat nat_le_iff le_nat_iff)
  moreover have "list_all is_digit (to_string y)"
    using assms string_of_nat_digits by (simp add: to_string_def)
  moreover have "take 4 (to_string y @ rest) = to_string y" "drop 4 (to_string y @ rest) = rest"
    using len by simp_all
  ultimately show ?thesis
    using assms by (simp add: read_number_def Let_def)
qed

lemma skip_no_space:
  assumes "1000 \<le> y"
  shows "dropWhile is_space (to_string y @ x) = to_string y @ x"
proof -
  have "\<not> is_space (hd (to_string y))" "to_string y \<noteq> []"
    using assms string_of_nat_digits [of "nat y"]
    by (auto simp: to_string_def list_all_iff is_digit_def is_space_def dest!: bspec [OF _ hd_in_set])
  then show ?thesis
    by (cases "to_string y") auto
qed

lemma get_put_iso:
  assumes "valid_tm t" "1000 \<le> tm_year t" "tm_year t \<le> 9999"
  shows "get_time iso_format (put_time t iso_format @ rest) t0 = (True, t)"
  using assms unfolding valid_tm_def
  by (simp add: get_time_def put_time_def iso_format_def skip_no_space read_year read_pad2)


lemma get_put_zulu:
  assumes "valid_tm t" "1000 \<le> tm_year t" "tm_year t \<le> 9999"
  shows "get_time zulu_format (put_time t zulu_format) t0 = (True, t)"
  using assms unfolding valid_tm_def
  by (simp add: get_time_def put_time_def zulu_format_def iso_format_def skip_no_space read_year read_pad2)

lemma put_zulu: "put_time t zulu_format = put_time t iso_format @ ''Z''"
  by (simp add: put_time_def zulu_format_def)

lemma to_from_time_t [simp]: "to_time_t (from_time_t secs) = secs"
  by (auto simp: to_time_t_def from_time_t_def)

definition four_digit_year :: "int \<Rightarrow> bool" where
  "four_digit_year secs \<longleftrightarrow> 1000 \<le> tm_year (gmtime secs) \<and> tm_year (gmtime secs) \<le> 9999"

lemma parse_format:
  "four_digit_year secs \<Longrightarrow> ParseIsoTime (FormatIsoTime (from_time_t secs)) = Some (from_time_t secs)"
  using gmtime_correct [of secs] get_put_iso [of "gmtime secs" "[]"]
  by (simp add: ParseIsoTime_def FormatIsoTime_def four_digit_year_def put_zulu)

lemma ParseIsoTime_seconds: "ParseIsoTime s = Some tp \<Longrightarrow> \<exists>secs. tp = from_time_t secs"
  by (auto simp: ParseIsoTime_def Let_def split: if_splits prod.splits)

section \<open>Properties\<close>



text \<open>
  The comparison window of an analytics request: for two readable times in order, the previous
  period is the interval of the same length that ends where the requested one starts; for any
  other pair there is none. The bucket width chosen for the interval yields at most 180 buckets
  for intervals up to 180 days, and every width the code chooses has its own label.
\<close>

theorem previous_window_correct:
  assumes "ParseIsoTime s = Some (from_time_t a)" "ParseIsoTime e = Some (from_time_t b)"
    and "four_digit_year a" "four_digit_year (a - (b - a))"
  shows "(a < b \<longrightarrow> (\<exists>ws we. PreviousPeriodWindow s e = Some (ws, we) \<and> ParseIsoTime we = Some (from_time_t a)
        \<and> ParseIsoTime ws = Some (from_time_t (a - (b - a)))))
    \<and> (b \<le> a \<longrightarrow> PreviousPeriodWindow s e = None)
    \<and> (0 \<le> b - a \<longrightarrow> b - a \<le> 180 * 86400 \<longrightarrow> (b - a) div SelectBucketSeconds s e \<le> 180)
    \<and> BucketLabel (SelectBucketSeconds s e) \<in> {''5m'', ''1h'', ''6h'', ''1d'', ''7d''}"
proof -
  have diff: "from_time_t b - from_time_t a = from_time_t (b - a)"
    by (simp add: from_time_t_def left_diff_distrib)
  have sub: "from_time_t a - from_time_t (b - a) = from_time_t (a - (b - a))"
    by (simp add: from_time_t_def left_diff_distrib)
  have le: "from_time_t b \<le> from_time_t a \<longleftrightarrow> b \<le> a"
    by (simp add: from_time_t_def)
  have "SelectBucketSeconds s e = (if b - a \<le> 21600 then 300 else if b - a \<le> 172800 then 3600
      else if b - a \<le> 2592000 then 21600 else if b - a \<le> 15552000 then 86400 else 604800)"
    using assms(1,2) by (simp add: SelectBucketSeconds_def diff Let_def)
  then show ?thesis
    using assms parse_format by (auto simp: PreviousPeriodWindow_def Let_def diff sub le BucketLabel_def)
qed


theorem previous_window_correct_witness:
  "\<exists>ws we. PreviousPeriodWindow (FormatIsoTime (from_time_t 1767225600)) (FormatIsoTime (from_time_t 1767312000)) = Some (ws, we)
     \<and> ParseIsoTime ws = Some (from_time_t 1767139200)"
proof -
  have "march_year 739922 = 2025" "march_year 739923 = 2025" "march_year 739921 = 2025" "year_start 2025 = 739616"
    by (simp_all add: march_year_def year_start_def Let_def)
  then have y: "four_digit_year 1767225600" "four_digit_year 1767312000" "four_digit_year 1767139200"
    by (simp_all add: four_digit_year_def gmtime_def)
  show ?thesis
    using previous_window_correct [OF parse_format [OF y(1)] parse_format [OF y(2)] y(1)] y(3) by auto
qed

end
