(* ===== verification/Generator.thy ===== *)
theory Generator
  imports Run_Store Iso_Time Json
begin

text \<open>
  The telemetry generator, \<^verbatim>\<open>src/src/generator.cpp\<close>: the synthetic hosts and records, the main loop that
  fills batches and hands them to a bounded queue, and the writer thread that takes batches from the
  queue and stores them. The main thread is the list of the calls it makes; the writer is a state
  machine; the two are interleaved in any order. The random engine and its distributions are
  parameters: \<open>rg_unit\<close> gives the draws of \<^verbatim>\<open>uniform_real_distribution\<close> scaled to the unit interval and
  \<open>rg_below\<close> those of \<^verbatim>\<open>uniform_int_distribution\<close>, by the number of draws made before.
\<close>

section \<open>Hosts\<close>

record HostProfile =
  hp_host_id :: string
  hp_project_id :: string
  hp_region :: string
  hp_labels_json :: string
  hp_cpu_base :: real
  hp_mem_base :: real
  hp_phase_shift :: real
  hp_burst_remaining :: int
  hp_correlation_broken :: bool
  hp_correlation_break_remaining :: int

record rng =
  rg_unit :: "nat \<Rightarrow> real"
  rg_below :: "nat \<Rightarrow> int \<Rightarrow> int"

definition uniform_real :: "rng \<Rightarrow> nat \<Rightarrow> real \<Rightarrow> real \<Rightarrow> real" where
  "uniform_real g pos a b = a + rg_unit g pos * (b - a)"

definition uniform_int :: "rng \<Rightarrow> nat \<Rightarrow> int \<Rightarrow> int \<Rightarrow> int" where
  "uniform_int g pos a b = a + rg_below g pos (b - a)"

definition host_regions :: "GenerateRequest \<Rightarrow> string list" where
  "host_regions cfg = (if rq_regions cfg = [] then [''us-east1'', ''us-west1'', ''eu-west1''] else rq_regions cfg)"

definition new_host :: "GenerateRequest \<Rightarrow> rng \<Rightarrow> nat \<Rightarrow> nat \<Rightarrow> HostProfile" where
  "new_host cfg g pos i =
     (let cpu_base = uniform_real g pos 10 60 in
      \<lparr>hp_host_id = ''host-'' @ rq_tier cfg @ ''-'' @ to_string (int i), hp_project_id = ''proj-'' @ rq_tier cfg,
       hp_region = host_regions cfg ! (i mod length (host_regions cfg)),
       hp_labels_json = ''{'' @ [CHR 0x22] @ ''service'' @ [CHR 0x22] @ '': '' @ [CHR 0x22] @ ''backend'' @ [CHR 0x22] @ '', ''
         @ [CHR 0x22] @ ''tier'' @ [CHR 0x22] @ '': '' @ [CHR 0x22] @ rq_tier cfg @ [CHR 0x22] @ ''}'',
       hp_cpu_base = cpu_base, hp_mem_base = cpu_base * (8 / 10) + 10, hp_phase_shift = uniform_real g (pos + 1) 0 (628 / 100),
       hp_burst_remaining = 0, hp_correlation_broken = False, hp_correlation_break_remaining = 0\<rparr>)"

text \<open>\<^verbatim>\<open>InitializeHosts\<close> draws twice for every host.\<close>

definition InitializeHosts :: "GenerateRequest \<Rightarrow> rng \<Rightarrow> HostProfile list \<times> nat" where
  "InitializeHosts cfg g =
     (let n = nat (rq_host_count cfg) in (map (\<lambda>i. new_host cfg g (2 * i) i) [0..<n], 2 * n))"

section \<open>One record\<close>

record draft =
  df_host :: HostProfile
  df_cpu :: real
  df_is_anomaly :: bool
  df_type :: string
  df_pos :: nat

definition below_rate :: "real \<Rightarrow> (AnomalyConfig \<Rightarrow> real) \<Rightarrow> GenerateRequest \<Rightarrow> bool" where
  "below_rate p rate cfg = (case rq_anomaly_config cfg of None \<Rightarrow> False | Some a \<Rightarrow> p < rate a)"

definition add_type :: "string \<Rightarrow> string \<Rightarrow> string" where
  "add_type s type = (if type = '''' then s else type @ '','' @ s)"

definition burst_stage :: "GenerateRequest \<Rightarrow> real \<Rightarrow> draft \<Rightarrow> draft" where
  "burst_stage cfg p df =
     (let h = df_host df; hit = df\<lparr>df_cpu := df_cpu df + 40, df_is_anomaly := True, df_type := ''COLLECTIVE_BURST''\<rparr> in
      if hp_burst_remaining h > 0 then hit\<lparr>df_host := h\<lparr>hp_burst_remaining := hp_burst_remaining h - 1\<rparr>\<rparr>
      else if below_rate p ac_collective_rate cfg then
        (let n = (case rq_anomaly_config cfg of None \<Rightarrow> 0 | Some a \<Rightarrow> ac_burst_duration_points a) in
         hit\<lparr>df_host := h\<lparr>hp_burst_remaining := (if n = 0 then 5 else n)\<rparr>\<rparr>)
      else df)"

definition correlation_stage :: "GenerateRequest \<Rightarrow> real \<Rightarrow> draft \<Rightarrow> draft" where
  "correlation_stage cfg p df =
     (let h = df_host df; hit = df\<lparr>df_is_anomaly := True, df_type := ''CORRELATION_BREAK''\<rparr> in
      if hp_correlation_break_remaining h > 0 then
        hit\<lparr>df_host := h\<lparr>hp_correlation_break_remaining := hp_correlation_break_remaining h - 1, hp_correlation_broken := True\<rparr>\<rparr>
      else if below_rate p ac_correlation_break_rate cfg then
        hit\<lparr>df_host := h\<lparr>hp_correlation_break_remaining := 5, hp_correlation_broken := True\<rparr>\<rparr>
      else df\<lparr>df_host := h\<lparr>hp_correlation_broken := False\<rparr>\<rparr>)"

text \<open>\<^verbatim>\<open>static_cast<long>(hours) % 24\<close>: both steps round towards zero.\<close>

definition hour_of_day :: "real \<Rightarrow> int" where
  "hour_of_day hours = (let h = trunc_to_int hours in if 0 \<le> h then h mod 24 else - ((- h) mod 24))"

definition contextual_stage :: "GenerateRequest \<Rightarrow> rng \<Rightarrow> real \<Rightarrow> draft \<Rightarrow> draft" where
  "contextual_stage cfg g hours df =
     (case rq_anomaly_config cfg of
        None \<Rightarrow> df
      | Some a \<Rightarrow>
          if ac_contextual_rate a > 0 then
            (let p_ctx = uniform_real g (df_pos df) 0 1; h = hour_of_day hours in
             if h \<ge> 1 \<and> h \<le> 5 \<and> p_ctx < ac_contextual_rate a then
               df\<lparr>df_cpu := 90 + uniform_real g (df_pos df + 1) 0 10, df_is_anomaly := True,
                  df_type := add_type ''CONTEXTUAL'' (df_type df), df_pos := df_pos df + 2\<rparr>
             else df\<lparr>df_pos := df_pos df + 1\<rparr>)
          else df)"

definition point_stage :: "GenerateRequest \<Rightarrow> real \<Rightarrow> draft \<Rightarrow> draft" where
  "point_stage cfg p df =
     (if below_rate p ac_point_rate cfg then
        df\<lparr>df_cpu := df_cpu df + 50, df_is_anomaly := True, df_type := add_type ''POINT_SPIKE'' (df_type df)\<rparr>
      else df)"

definition clamp100 :: "real \<Rightarrow> real" where
  "clamp100 x = max 0 (min 100 x)"

definition lag_ms :: "GenerateRequest \<Rightarrow> int" where
  "lag_ms cfg =
     (let lag = (case rq_timing_config cfg of None \<Rightarrow> 0 | Some t \<Rightarrow> tc_fixed_lag_ms t) in if lag = 0 then 2000 else lag)"

definition anomaly_stages :: "GenerateRequest \<Rightarrow> rng \<Rightarrow> real \<Rightarrow> real \<Rightarrow> draft \<Rightarrow> draft" where
  "anomaly_stages cfg g hours p df =
     point_stage cfg p (contextual_stage cfg g hours (correlation_stage cfg p (burst_stage cfg p df)))"

text \<open>The derived metrics and the arrival time; the result has the host with its new anomaly state and the number of draws.\<close>

definition finish_record ::
  "GenerateRequest \<Rightarrow> string \<Rightarrow> rng \<Rightarrow> HostProfile \<Rightarrow> time_point \<Rightarrow> real \<Rightarrow> real \<Rightarrow> draft \<Rightarrow> TelemetryRecord \<times> HostProfile \<times> nat" where
  "finish_record cfg run_id g host timestamp noise daily df =
     (let cpu = clamp100 (df_cpu df);
          broken = hp_correlation_broken (df_host df);
          (mem, pos1) = (if broken then (clamp100 (100 - cpu + noise), df_pos df)
                         else (clamp100 (cpu * (7 / 10) + 20 + uniform_real g (df_pos df) (- 5 / 2) (5 / 2)), df_pos df + 1));
          disk = 30 + uniform_real g pos1 (- 5) 5;
          rx = max 0 (10 + daily / 2 + uniform_real g (pos1 + 1) 0 10);
          (rx1, tx, pos2) = (if broken then (rx + 50, 1, pos1 + 2)
                             else (rx, rx * (8 / 10) + uniform_real g (pos1 + 2) 0 5, pos1 + 3));
          jitter = uniform_int g pos2 0 500
      in (\<lparr>metric_timestamp = timestamp, ingestion_time = timestamp + (lag_ms cfg + jitter) * 1000000,
           tr_host_id = hp_host_id host, tr_project_id = hp_project_id host, tr_region = hp_region host,
           tr_cpu_usage = cpu, tr_memory_usage = mem, tr_disk_utilization = disk, tr_network_rx_rate = rx1,
           tr_network_tx_rate = tx, tr_labels_json = hp_labels_json host, tr_run_id = run_id,
           tr_is_anomaly = df_is_anomaly df, tr_anomaly_type = df_type df\<rparr>,
          df_host df, pos2 + 1))"

definition GenerateRecord ::
  "GenerateRequest \<Rightarrow> string \<Rightarrow> rng \<Rightarrow> HostProfile \<Rightarrow> time_point \<Rightarrow> nat \<Rightarrow> TelemetryRecord \<times> HostProfile \<times> nat" where
  "GenerateRecord cfg run_id g host timestamp pos =
     (let hours = real_of_int (to_time_t timestamp) / 3600;
          daily = 10 * sin (2 * pi * hours / 24 + hp_phase_shift host);
          weekly = 5 * sin (2 * pi * hours / 168);
          noise = uniform_real g pos (- 10) 10;
          p = uniform_real g (pos + 1) 0 1
      in finish_record cfg run_id g host timestamp noise daily
           (anomaly_stages cfg g hours p
              \<lparr>df_host = host, df_cpu = hp_cpu_base host + daily + weekly + noise, df_is_anomaly = False, df_type = '''',
               df_pos = pos + 2\<rparr>))"

section \<open>What a record looks like\<close>

definition fair :: "rng \<Rightarrow> bool" where
  "fair g \<longleftrightarrow> (\<forall>k. 0 \<le> rg_unit g k \<and> rg_unit g k < 1) \<and> (\<forall>k n. 0 \<le> n \<longrightarrow> 0 \<le> rg_below g k n \<and> rg_below g k n \<le> n)"

lemma uniform_real_bounds:
  assumes "fair g" "a \<le> b"
  shows "a \<le> uniform_real g k a b" "uniform_real g k a b \<le> b"
proof -
  have u: "0 \<le> rg_unit g k" "rg_unit g k \<le> 1"
    using assms(1) by (auto simp: fair_def less_imp_le)
  show "a \<le> uniform_real g k a b"
    using u assms(2) by (simp add: uniform_real_def)
  have "rg_unit g k * (b - a) \<le> 1 * (b - a)"
    using u assms(2) by (intro mult_right_mono) auto
  then show "uniform_real g k a b \<le> b"
    by (simp add: uniform_real_def)
qed

lemma clamp100_bounds [simp]: "0 \<le> clamp100 x" "clamp100 x \<le> 100"
  by (simp_all add: clamp100_def)

text \<open>Through all stages the anomaly flag says whether an anomaly type has been named.\<close>

definition flagged :: "draft \<Rightarrow> bool" where
  "flagged df \<longleftrightarrow> (df_is_anomaly df \<longleftrightarrow> df_type df \<noteq> '''')"

lemma flagged_stages:
  "flagged df \<Longrightarrow> flagged (burst_stage cfg p df)"
  "flagged df \<Longrightarrow> flagged (correlation_stage cfg p df)"
  "flagged df \<Longrightarrow> flagged (contextual_stage cfg g hours df)"
  "flagged df \<Longrightarrow> flagged (point_stage cfg p df)"
  by (auto simp: flagged_def burst_stage_def correlation_stage_def contextual_stage_def point_stage_def add_type_def Let_def
      split: option.splits)

lemma host_id_stages [simp]:
  "hp_host_id (df_host (burst_stage cfg p df)) = hp_host_id (df_host df)"
  "hp_host_id (df_host (correlation_stage cfg p df)) = hp_host_id (df_host df)"
  "hp_host_id (df_host (contextual_stage cfg g hours df)) = hp_host_id (df_host df)"
  "hp_host_id (df_host (point_stage cfg p df)) = hp_host_id (df_host df)"
  by (auto simp: burst_stage_def correlation_stage_def contextual_stage_def point_stage_def Let_def split: option.splits)

lemma anomaly_stages_props:
  "flagged df \<Longrightarrow> flagged (anomaly_stages cfg g hours p df)"
  "hp_host_id (df_host (anomaly_stages cfg g hours p df)) = hp_host_id (df_host df)"
  by (simp_all add: anomaly_stages_def flagged_stages)

lemma finish_record_identity:
  assumes "finish_record cfg run_id g host t noise daily df = (r, host', pos')"
  shows "metric_timestamp r = t" "tr_host_id r = hp_host_id host" "tr_run_id r = run_id" "host' = df_host df"
    "tr_is_anomaly r = df_is_anomaly df" "tr_anomaly_type r = df_type df"
  using assms by (auto simp: finish_record_def Let_def split: if_splits)

lemma finish_record_bounds:
  assumes "fair g" "finish_record cfg run_id g host t noise daily df = (r, host', pos')"
  shows "0 \<le> tr_cpu_usage r \<and> tr_cpu_usage r \<le> 100 \<and> 0 \<le> tr_memory_usage r \<and> tr_memory_usage r \<le> 100
    \<and> 25 \<le> tr_disk_utilization r \<and> tr_disk_utilization r \<le> 35 \<and> 0 \<le> tr_network_rx_rate r \<and> 0 \<le> tr_network_tx_rate r
    \<and> lag_ms cfg * 1000000 \<le> ingestion_time r - t \<and> ingestion_time r - t \<le> (lag_ms cfg + 500) * 1000000"
proof -
  note u = uniform_real_bounds [OF assms(1)]
  have j: "0 \<le> uniform_int g k 0 500" "uniform_int g k 0 500 \<le> 500" for k
    using assms(1) by (auto simp: fair_def uniform_int_def)
  have disk: "25 \<le> 30 + uniform_real g k (- 5) 5" "30 + uniform_real g k (- 5) 5 \<le> 35" for k
    using u [of "- 5" 5 k] by simp_all
  have tx: "0 \<le> max 0 x * (8 / 10) + uniform_real g k 0 5" for x k
    using u(1) [of 0 5 k] by (intro add_nonneg_nonneg mult_nonneg_nonneg) auto
  have arrival: "lag_ms cfg * 1000000 \<le> (lag_ms cfg + uniform_int g k 0 500) * 1000000"
    "(lag_ms cfg + uniform_int g k 0 500) * 1000000 \<le> (lag_ms cfg + 500) * 1000000" for k
    using j [of k] by (intro mult_right_mono; simp)+
  have rx: "0 \<le> max 0 x + (50 :: real)" for x by simp
  show ?thesis
  proof (cases "hp_correlation_broken (df_host df)")
    case True
    then show ?thesis
      using assms(2) disk arrival rx unfolding finish_record_def Let_def by (auto simp del: max_less_iff_conj)
  next
    case False
    then show ?thesis
      using assms(2) disk arrival tx unfolding finish_record_def Let_def by auto
  qed
qed

lemma GenerateRecord_identity:
  assumes "GenerateRecord cfg run_id g host t pos = (r, host', pos')"
  shows "metric_timestamp r = t" "tr_host_id r = hp_host_id host" "tr_run_id r = run_id" "hp_host_id host' = hp_host_id host"
  using assms finish_record_identity unfolding GenerateRecord_def Let_def
  by (auto simp: anomaly_stages_props(2) dest!: finish_record_identity(1-4))

section \<open>Properties of records\<close>


definition ex_rng :: rng where
  "ex_rng = \<lparr>rg_unit = \<lambda>k. 1 / 2, rg_below = \<lambda>k n. 0\<rparr>"


end
