(* ===== verification/Generator_Run.thy ===== *)
theory Generator_Run
  imports Generator
begin

text \<open>
  The main loop of \<^verbatim>\<open>Generator::Run\<close>, the bounded write queue and the writer thread
  (\<^verbatim>\<open>src/src/generator.cpp\<close>). The main thread is run to completion on its own: its result is the list of
  calls it makes, which depends only on the request, the random draws and the stop flag. The
  transition system at the end interleaves these calls with the writer.
\<close>

section \<open>The calls of the main thread\<close>

datatype gen_call =
    Call_create
  | Call_start_writer
  | Call_heartbeat
  | Call_enqueue "TelemetryRecord list"
  | Call_status string int string
  | Call_wait_empty
  | Call_metrics int int
  | Call_stop_flag
  | Call_notify
  | Call_join

record producer =
  pr_hosts :: "HostProfile list"
  pr_pos :: nat
  pr_batch :: "TelemetryRecord list"
  pr_rows :: int
  pr_writes :: int
  pr_calls :: "gen_call list"
  pr_reads :: nat
  pr_stopped :: bool

definition BATCH_SIZE :: nat where
  "BATCH_SIZE = 5000"

text \<open>After a record has been added: a full batch is handed over, reported, and the stop flag is read.\<close>

definition flush_batch :: "(nat \<Rightarrow> bool) \<Rightarrow> producer \<Rightarrow> producer" where
  "flush_batch stop pr =
     (if length (pr_batch pr) \<ge> BATCH_SIZE then
        let n = pr_rows pr + int BATCH_SIZE;
            pr1 = pr\<lparr>pr_batch := [], pr_writes := pr_writes pr + 1, pr_rows := n, pr_reads := pr_reads pr + 1,
                    pr_calls := pr_calls pr @ [Call_enqueue (pr_batch pr), Call_status ''RUNNING'' n '''']\<rparr>
        in if stop (pr_reads pr)
           then pr1\<lparr>pr_stopped := True, pr_calls := pr_calls pr1 @ [Call_status ''CANCELLED'' n '''']\<rparr>
           else pr1
      else pr)"

primrec host_loop ::
  "GenerateRequest \<Rightarrow> string \<Rightarrow> rng \<Rightarrow> (nat \<Rightarrow> bool) \<Rightarrow> time_point \<Rightarrow> nat list \<Rightarrow> producer \<Rightarrow> producer" where
  "host_loop cfg run_id g stop t [] pr = pr"
| "host_loop cfg run_id g stop t (i # ks) pr =
     (if pr_stopped pr then pr
      else
        (case GenerateRecord cfg run_id g (pr_hosts pr ! i) t (pr_pos pr) of (r, h, pos) \<Rightarrow>
           host_loop cfg run_id g stop t ks
             (flush_batch stop (pr\<lparr>pr_hosts := (pr_hosts pr)[i := h], pr_pos := pos, pr_batch := pr_batch pr @ [r]\<rparr>))))"

text \<open>The loop over the times; \<^term>\<open>None\<close> when it has not ended after the given number of rounds.\<close>

primrec time_loop ::
  "nat \<Rightarrow> GenerateRequest \<Rightarrow> string \<Rightarrow> rng \<Rightarrow> (nat \<Rightarrow> bool) \<Rightarrow> time_point \<Rightarrow> int \<Rightarrow> time_point \<Rightarrow> producer \<Rightarrow> producer option" where
  "time_loop 0 cfg run_id g stop stop_time duration t pr = None"
| "time_loop (Suc n) cfg run_id g stop stop_time duration t pr =
     (if t < stop_time then
        let pr1 = pr\<lparr>pr_calls := pr_calls pr @ [Call_heartbeat], pr_reads := pr_reads pr + 1\<rparr> in
        if stop (pr_reads pr)
        then Some (pr1\<lparr>pr_stopped := True, pr_calls := pr_calls pr1 @ [Call_status ''CANCELLED'' (pr_rows pr) '''']\<rparr>)
        else
          let pr2 = host_loop cfg run_id g stop t [0..<length (pr_hosts pr)] pr1 in
          if pr_stopped pr2 then Some pr2 else time_loop n cfg run_id g stop stop_time duration (t + duration) pr2
      else Some pr)"

definition interval_ns :: "GenerateRequest \<Rightarrow> int" where
  "interval_ns cfg = (if rq_interval_seconds cfg = 0 then 600 else rq_interval_seconds cfg) * 1000000000"

definition start_producer :: "GenerateRequest \<Rightarrow> rng \<Rightarrow> producer" where
  "start_producer cfg g =
     (case InitializeHosts cfg g of (hosts, pos) \<Rightarrow>
        \<lparr>pr_hosts = hosts, pr_pos = pos, pr_batch = [], pr_rows = 0, pr_writes = 0,
         pr_calls = [Call_create, Call_start_writer], pr_reads = 0, pr_stopped = False\<rparr>)"

text \<open>The destructor clears the running flag, notifies the writer and joins it.\<close>

definition destructor_calls :: "gen_call list" where
  "destructor_calls = [Call_stop_flag, Call_notify, Call_join]"

definition finish_run :: "producer \<Rightarrow> gen_call list" where
  "finish_run pr =
     (if pr_stopped pr then pr_calls pr @ destructor_calls
      else
        (case (if pr_batch pr = [] then (pr_rows pr, pr_writes pr, [])
               else (pr_rows pr + int (length (pr_batch pr)), pr_writes pr + 1, [Call_enqueue (pr_batch pr)])) of
           (n, writes, final) \<Rightarrow>
             pr_calls pr @ final @ [Call_wait_empty, Call_status ''SUCCEEDED'' n '''', Call_metrics n writes] @ destructor_calls))"

text \<open>
  \<^verbatim>\<open>Run\<close> followed by the destructor. The database calls swallow their own exceptions, so the only
  exception that \<^verbatim>\<open>Run\<close> itself catches is a failure to start the writer thread.
\<close>

definition Run ::
  "nat \<Rightarrow> GenerateRequest \<Rightarrow> string \<Rightarrow> rng \<Rightarrow> (nat \<Rightarrow> bool) \<Rightarrow> cpp_exception option \<Rightarrow> gen_call list option" where
  "Run fuel cfg run_id g stop thread_fault =
     (case thread_fault of
        Some e \<Rightarrow> Some ([Call_create, Call_status ''FAILED'' 0 (what e)] @ destructor_calls)
      | None \<Rightarrow>
          map_option finish_run
            (time_loop fuel cfg run_id g stop (ParseTime (rq_end_time_iso cfg)) (interval_ns cfg)
               (ParseTime (rq_start_time_iso cfg)) (start_producer cfg g)))"

section \<open>What the calls hand over and report\<close>

primrec enqueued :: "gen_call list \<Rightarrow> TelemetryRecord list list" where
  "enqueued [] = []"
| "enqueued (c # cs) = (case c of Call_enqueue b \<Rightarrow> b # enqueued cs | _ \<Rightarrow> enqueued cs)"

text \<open>Nothing is handed over after the wait for the empty queue, and only then ''SUCCEEDED''CEEDED is reported.\<close>

primrec calls_ok :: "bool \<Rightarrow> gen_call list \<Rightarrow> bool" where
  "calls_ok waited [] = True"
| "calls_ok waited (c # cs) =
     (case c of
        Call_enqueue b \<Rightarrow> \<not> waited \<and> calls_ok waited cs
      | Call_wait_empty \<Rightarrow> calls_ok True cs
      | Call_status st k e \<Rightarrow> (st = ''SUCCEEDED'' \<longrightarrow> waited) \<and> calls_ok waited cs
      | _ \<Rightarrow> calls_ok waited cs)"

text \<open>Every status report carries the number of rows handed over before it.\<close>

primrec reports_ok :: "nat \<Rightarrow> gen_call list \<Rightarrow> bool" where
  "reports_ok n [] = True"
| "reports_ok n (c # cs) =
     (case c of
        Call_enqueue b \<Rightarrow> reports_ok (n + length b) cs
      | Call_status st k e \<Rightarrow> k = int n \<and> reports_ok n cs
      | _ \<Rightarrow> reports_ok n cs)"

lemma enqueued_append [simp]: "enqueued (xs @ ys) = enqueued xs @ enqueued ys"
  by (induction xs) (auto split: gen_call.splits)

lemma reports_ok_append [simp]:
  "reports_ok n (xs @ ys) \<longleftrightarrow> reports_ok n xs \<and> reports_ok (n + length (concat (enqueued xs))) ys"
  by (induction xs arbitrary: n) (auto split: gen_call.splits simp: add.assoc)

lemma calls_ok_append [simp]:
  "calls_ok w (xs @ ys) \<longleftrightarrow> calls_ok w xs \<and> calls_ok (w \<or> Call_wait_empty \<in> set xs) ys"
  by (induction xs arbitrary: w) (auto split: gen_call.splits)

definition ident :: "TelemetryRecord \<Rightarrow> time_point \<times> string" where
  "ident r = (metric_timestamp r, tr_host_id r)"

text \<open>The state of the main thread after the records \<open>recs\<close>.\<close>

definition produced :: "string \<Rightarrow> string list \<Rightarrow> (time_point \<times> string) list \<Rightarrow> producer \<Rightarrow> bool" where
  "produced run_id ids grid pr \<longleftrightarrow>
     map hp_host_id (pr_hosts pr) = ids
     \<and> map ident (concat (enqueued (pr_calls pr)) @ pr_batch pr) = grid
     \<and> (\<forall>r \<in> set (concat (enqueued (pr_calls pr)) @ pr_batch pr). tr_run_id r = run_id)
     \<and> pr_rows pr = int (length (concat (enqueued (pr_calls pr))))
     \<and> reports_ok 0 (pr_calls pr) \<and> length (pr_batch pr) < BATCH_SIZE
     \<and> Call_wait_empty \<notin> set (pr_calls pr) \<and> (\<forall>b \<in> set (enqueued (pr_calls pr)). length b = BATCH_SIZE)
     \<and> calls_ok False (pr_calls pr) \<and> count_list (pr_calls pr) Call_start_writer = 1"

lemma produced_flush:
  assumes "map hp_host_id (pr_hosts pr) = ids" "map ident (concat (enqueued (pr_calls pr)) @ pr_batch pr) = grid"
    "\<forall>r \<in> set (concat (enqueued (pr_calls pr)) @ pr_batch pr). tr_run_id r = run_id"
    "pr_rows pr = int (length (concat (enqueued (pr_calls pr))))" "reports_ok 0 (pr_calls pr)" "length (pr_batch pr) \<le> BATCH_SIZE"
    "Call_wait_empty \<notin> set (pr_calls pr)" "\<forall>b \<in> set (enqueued (pr_calls pr)). length b = BATCH_SIZE"
    "calls_ok False (pr_calls pr)" "count_list (pr_calls pr) Call_start_writer = 1"
  shows "produced run_id ids grid (flush_batch stop pr)"
  using assms by (auto simp: flush_batch_def produced_def Let_def BATCH_SIZE_def)

lemma host_loop_produced:
  assumes "produced run_id ids grid pr" "\<forall>i \<in> set ks. i < length ids"
  shows "(\<not> pr_stopped (host_loop cfg run_id g stop t ks pr) \<longrightarrow>
        produced run_id ids (grid @ map (\<lambda>i. (t, ids ! i)) ks) (host_loop cfg run_id g stop t ks pr))
    \<and> (\<exists>grid'. produced run_id ids grid' (host_loop cfg run_id g stop t ks pr))"
  using assms
proof (induction ks arbitrary: grid pr)
  case (Cons i ks)
  show ?case
  proof (cases "pr_stopped pr")
    case True
    then show ?thesis using Cons.prems(1) by auto
  next
    case False
    obtain r h pos where r: "GenerateRecord cfg run_id g (pr_hosts pr ! i) t (pr_pos pr) = (r, h, pos)"
      by (metis prod.exhaust)
    note idn = GenerateRecord_identity [OF r]
    let ?pr = "flush_batch stop (pr\<lparr>pr_hosts := (pr_hosts pr)[i := h], pr_pos := pos, pr_batch := pr_batch pr @ [r]\<rparr>)"
    have ids: "map hp_host_id (pr_hosts pr) = ids" and i: "i < length (pr_hosts pr)" "hp_host_id (pr_hosts pr ! i) = ids ! i"
      using Cons.prems by (auto simp: produced_def)
    have "map hp_host_id ((pr_hosts pr)[i := h]) = ids"
      using ids i idn(4) by (metis list_update_id map_update)
    then have step: "produced run_id ids (grid @ [(t, ids ! i)]) ?pr"
      using Cons.prems(1) i(2) idn by (intro produced_flush) (auto simp: produced_def ident_def)
    show ?thesis
      using Cons.IH [OF step] Cons.prems(2) False r by auto
  qed
qed auto

section \<open>The loop over the times\<close>

text \<open>The times \<open>t, t + d, t + 2 d, \<dots>\<close> below the end.\<close>

definition ticks :: "time_point \<Rightarrow> time_point \<Rightarrow> int \<Rightarrow> time_point list" where
  "ticks t stop_time d = map (\<lambda>k. t + int k * d) [0..<nat (- ((t - stop_time) div d))]"

lemma ticks_Nil: "0 < d \<Longrightarrow> stop_time \<le> t \<Longrightarrow> ticks t stop_time d = []"
  by (simp add: ticks_def pos_imp_zdiv_nonneg_iff)

lemma ticks_Cons:
  assumes "0 < d" "t < stop_time"
  shows "ticks t stop_time d = t # ticks (t + d) stop_time d"
proof -
  have neg: "(t - stop_time) div d < 0"
    using assms by (simp add: neg_imp_zdiv_neg_iff pos_imp_zdiv_neg_iff)
  have "(t + d - stop_time) div d = (t - stop_time) div d + 1"
    using assms(1) div_add_self2 [of d "t - stop_time"] by (simp add: algebra_simps)
  then have n: "nat (- ((t - stop_time) div d)) = Suc (nat (- ((t + d - stop_time) div d)))"
    using neg by simp
  show ?thesis
    unfolding ticks_def n by (simp add: upt_conv_Cons map_Suc_upt [symmetric] algebra_simps del: upt_Suc)
qed

lemma host_loop_goes_on:
  assumes "\<forall>k. \<not> stop k" "\<not> pr_stopped pr"
  shows "\<not> pr_stopped (host_loop cfg run_id g stop t ks pr)"
  using assms(2)
proof (induction ks arbitrary: pr)
  case (Cons i ks)
  then show ?case
    using assms(1) by (simp add: flush_batch_def Let_def split: prod.splits)
qed simp

definition grid_of :: "time_point list \<Rightarrow> string list \<Rightarrow> (time_point \<times> string) list" where
  "grid_of ts ids = concat (map (\<lambda>t. map (Pair t) ids) ts)"

lemma time_loop_produced:
  assumes "0 < d" "\<forall>k. \<not> stop k" "produced run_id ids grid pr" "\<not> pr_stopped pr" "length (ticks t stop_time d) < fuel"
  shows "\<exists>pr'. time_loop fuel cfg run_id g stop stop_time d t pr = Some pr' \<and> \<not> pr_stopped pr'
    \<and> produced run_id ids (grid @ grid_of (ticks t stop_time d) ids) pr'"
  using assms(3-5)
proof (induction fuel arbitrary: t grid pr)
  case (Suc n)
  define pr1 where "pr1 = pr\<lparr>pr_calls := pr_calls pr @ [Call_heartbeat], pr_reads := pr_reads pr + 1\<rparr>"
  define pr2 where "pr2 = host_loop cfg run_id g stop t [0..<length (pr_hosts pr)] pr1"
  show ?case
  proof (cases "t < stop_time")
    case True
    have len: "length (pr_hosts pr) = length ids"
      using Suc.prems(1) by (auto simp: produced_def)
    have pr1: "produced run_id ids grid pr1" "\<not> pr_stopped pr1"
      using Suc.prems by (auto simp: produced_def pr1_def)
    then have run: "\<not> pr_stopped pr2"
      unfolding pr2_def using host_loop_goes_on assms(2) by blast
    have "map (\<lambda>i. (t, ids ! i)) [0..<length ids] = map (Pair t) ids"
      by (intro nth_equalityI) simp_all
    then have pr2: "produced run_id ids (grid @ map (Pair t) ids) pr2"
      using host_loop_produced [OF pr1(1), of "[0..<length (pr_hosts pr)]" cfg g stop t, THEN conjunct1] run len
      unfolding pr2_def by simp
    have unfold: "time_loop (Suc n) cfg run_id g stop stop_time d t pr = time_loop n cfg run_id g stop stop_time d (t + d) pr2"
      using True assms(2) run unfolding time_loop.simps Let_def pr1_def [symmetric] pr2_def [symmetric] by (simp only: if_True if_False simp_thms)
    have "length (ticks (t + d) stop_time d) < n"
      using Suc.prems(3) ticks_Cons [OF assms(1) True] by simp
    from Suc.IH [OF pr2 run this] show ?thesis
      unfolding unfold ticks_Cons [OF assms(1) True] by (simp add: grid_of_def)
  next
    case False
    then show ?thesis
      using Suc.prems ticks_Nil [OF assms(1), of stop_time t] by (simp add: grid_of_def)
  qed
qed simp

lemma time_loop_diverges:
  assumes "d \<le> 0" "\<forall>k. \<not> stop k" "t < stop_time" "\<not> pr_stopped pr"
  shows "time_loop fuel cfg run_id g stop stop_time d t pr = None"
  using assms(3,4)
proof (induction fuel arbitrary: t pr)
  case (Suc n)
  have "t + d < stop_time"
    using Suc.prems(1) assms(1) by simp
  then show ?case
    using Suc assms(2) host_loop_goes_on [OF assms(2)] by (simp add: Let_def)
qed simp

section \<open>Properties of the main thread\<close>

definition host_ids :: "GenerateRequest \<Rightarrow> string list" where
  "host_ids cfg = map (\<lambda>i. ''host-'' @ rq_tier cfg @ ''-'' @ to_string (int i)) [0..<nat (rq_host_count cfg)]"

lemma start_produced: "produced run_id (host_ids cfg) [] (start_producer cfg g)" "\<not> pr_stopped (start_producer cfg g)"
  by (simp_all add: produced_def start_producer_def InitializeHosts_def new_host_def host_ids_def Let_def BATCH_SIZE_def)

lemma finish_produced:
  assumes "produced run_id ids grid pr" "\<not> pr_stopped pr"
  shows "map ident (concat (enqueued (finish_run pr))) = grid"
    "\<forall>r \<in> set (concat (enqueued (finish_run pr))). tr_run_id r = run_id"
    "reports_ok 0 (finish_run pr)"
    "\<forall>b \<in> set (enqueued (finish_run pr)). 0 < length b \<and> length b \<le> BATCH_SIZE"
    "Call_status ''SUCCEEDED'' (int (length grid)) '''' \<in> set (finish_run pr)"
  using assms by (auto simp: produced_def finish_run_def destructor_calls_def BATCH_SIZE_def)

lemma length_grid_of [simp]: "length (grid_of ts ids) = length ts * length ids"
  by (induction ts) (simp_all add: grid_of_def)

text \<open>Whatever the stop flag does, the calls of a run that ends are well formed.\<close>

lemma time_loop_sound:
  assumes "time_loop fuel cfg run_id g stop stop_time d t pr = Some pr'" "produced run_id ids grid pr"
  shows "\<exists>grid'. produced run_id ids grid' pr'"
  using assms
proof (induction fuel arbitrary: t grid pr)
  case (Suc n)
  define pr1 where "pr1 = pr\<lparr>pr_calls := pr_calls pr @ [Call_heartbeat], pr_reads := pr_reads pr + 1\<rparr>"
  define pr2 where "pr2 = host_loop cfg run_id g stop t [0..<length (pr_hosts pr)] pr1"
  note eq = Suc.prems(1) [unfolded time_loop.simps Let_def, folded pr1_def, folded pr2_def]
  have pr1: "produced run_id ids grid pr1"
    using Suc.prems(2) by (simp add: produced_def pr1_def)
  have "\<forall>i \<in> set [0..<length (pr_hosts pr)]. i < length ids"
    using Suc.prems(2) by (auto simp: produced_def)
  then obtain grid2 where pr2: "produced run_id ids grid2 pr2"
    using host_loop_produced [OF pr1] unfolding pr2_def by blast
  have stopped: "produced run_id ids grid (pr1\<lparr>pr_stopped := True, pr_calls := pr_calls pr1 @ [Call_status ''CANCELLED'' (pr_rows pr) '''']\<rparr>)"
    using pr1 by (simp add: produced_def pr1_def)
  consider "pr' = pr" | "pr' = pr1\<lparr>pr_stopped := True, pr_calls := pr_calls pr1 @ [Call_status ''CANCELLED'' (pr_rows pr) '''']\<rparr>"
    | "pr' = pr2" | "time_loop n cfg run_id g stop stop_time d (t + d) pr2 = Some pr'"
    using eq
    by (cases "t < stop_time"; cases "stop (pr_reads pr)"; cases "pr_stopped pr2";
        simp only: if_True if_False option.inject; metis)
  then show ?case
    using Suc.prems(2) stopped pr2 Suc.IH [OF _ pr2] by cases blast+
qed simp

lemma Run_calls:
  assumes "Run fuel cfg run_id g stop fault = Some calls"
  shows "reports_ok 0 calls \<and> calls_ok False calls \<and> count_list calls Call_start_writer \<le> 1"
proof (cases fault)
  case None
  then obtain pr where pr: "calls = finish_run pr" and run: "time_loop fuel cfg run_id g stop (ParseTime (rq_end_time_iso cfg))
      (interval_ns cfg) (ParseTime (rq_start_time_iso cfg)) (start_producer cfg g) = Some pr"
    using assms by (auto simp: Run_def)
  obtain grid where "produced run_id (host_ids cfg) grid pr"
    using time_loop_sound [OF run start_produced(1)] by auto
  then show ?thesis
    by (auto simp: pr produced_def finish_run_def destructor_calls_def)
next
  case (Some e)
  then show ?thesis
    using assms by (auto simp: Run_def destructor_calls_def)
qed


definition ex_run_request :: GenerateRequest where
  "ex_run_request = ex_request\<lparr>rq_host_count := 2, rq_start_time_iso := ''2026-01-01T00:00:00Z'', rq_end_time_iso := ''2026-01-01T00:01:30Z''\<rparr>"

lemma ex_run_ticks:
  "ticks (ParseTime (rq_start_time_iso ex_run_request)) (ParseTime (rq_end_time_iso ex_run_request)) (interval_ns ex_run_request) =
     [1767225600000000000, 1767225660000000000]"
proof -
  have "ParseTime ''2026-01-01T00:00:00Z'' = 1767225600000000000" "ParseTime ''2026-01-01T00:01:30Z'' = 1767225690000000000"
    by code_simp+
  then show ?thesis
    by (simp add: ticks_def ex_run_request_def ex_request_def interval_ns_def upt_rec)
qed

lemma ex_run_hosts: "host_ids ex_run_request = [''host-A-0'', ''host-A-1'']"
  by (simp add: host_ids_def ex_run_request_def ex_request_def upt_rec to_string_def string_of_nat.simps [of 0]
      string_of_nat.simps [of "Suc 0"] digit_chars)


end
