(* ===== verification/Generator_Writer.thy ===== *)
theory Generator_Writer
  imports Generator_Run
begin

text \<open>
  The generator as two threads (\<^verbatim>\<open>src/src/generator.cpp\<close>): the main thread makes the calls of
  \<^verbatim>\<open>Run\<close> one after the other, the writer thread takes batches from the bounded queue and stores
  them, in any interleaving and with any failures of the database. A step of the writer is the code
  between two points where the other thread can interfere: the test of \<^verbatim>\<open>writer_running_\<close>, the
  critical section up to the pop or to the evaluation of the wait predicate, falling asleep (which
  releases the mutex), the insertion. The destructor stores the flag and notifies without the mutex,
  so these are steps of their own. Spurious wake-ups are steps. No other client changes the
  telemetry table of the store meanwhile.
\<close>

section \<open>State\<close>

datatype writer_pc =
    No_writer
  | Head
  | Ready
  | Blocking
  | Sleeping
  | Inserting "TelemetryRecord list"
  | Exited

text \<open>The history of the calls made, of the batches written (with the outcome) and dropped is kept beside the state of the code.\<close>

record generation =
  gn_todo :: "gen_call list"
  gn_queue :: "TelemetryRecord list list"
  gn_max :: nat
  gn_running :: bool
  gn_writer :: writer_pc
  gn_db :: db
  gn_made :: "gen_call list"
  gn_written :: "(TelemetryRecord list \<times> bool) list"
  gn_dropped :: "TelemetryRecord list list"

definition notify :: "generation \<Rightarrow> generation" where
  "notify s = s\<lparr>gn_writer := (if gn_writer s = Sleeping then Ready else gn_writer s)\<rparr>"

definition EnqueueBatch :: "TelemetryRecord list \<Rightarrow> generation \<Rightarrow> generation" where
  "EnqueueBatch batch s =
     (if length (gn_queue s) \<ge> gn_max s then s\<lparr>gn_dropped := gn_dropped s @ [batch]\<rparr>
      else notify (s\<lparr>gn_queue := gn_queue s @ [batch]\<rparr>))"

text \<open>\<open>GENERATOR_WRITE_QUEUE_SIZE\<close>, or 100 when it is not set or not a number.\<close>

definition queue_limit :: "string option \<Rightarrow> nat" where
  "queue_limit env = (case env of None \<Rightarrow> 100 | Some v \<Rightarrow> (case stoul v of None \<Rightarrow> 100 | Some n \<Rightarrow> unat n))"

definition mutex_free :: "generation \<Rightarrow> bool" where
  "mutex_free s \<longleftrightarrow> gn_writer s \<noteq> Blocking"

section \<open>Steps\<close>

fun call_enabled :: "gen_call \<Rightarrow> generation \<Rightarrow> bool" where
  "call_enabled (Call_enqueue b) s = mutex_free s"
| "call_enabled Call_wait_empty s = (mutex_free s \<and> gn_queue s = [])"
| "call_enabled Call_join s = (gn_writer s = No_writer \<or> gn_writer s = Exited)"
| "call_enabled c s = True"

fun do_call ::
  "(string \<Rightarrow> bool) \<Rightarrow> GenerateRequest \<Rightarrow> string \<Rightarrow> cpp_exception option \<Rightarrow> int \<Rightarrow> gen_call \<Rightarrow> generation \<Rightarrow> generation" where
  "do_call valid_ts cfg run_id fault now Call_create s =
     s\<lparr>gn_db := CreateRun fault valid_ts now run_id cfg ''RUNNING'' (rq_request_id cfg) (gn_db s)\<rparr>"
| "do_call valid_ts cfg run_id fault now Call_start_writer s = s\<lparr>gn_running := True, gn_writer := Head\<rparr>"
| "do_call valid_ts cfg run_id fault now Call_heartbeat s = s\<lparr>gn_db := Heartbeat fault now Generation run_id (gn_db s)\<rparr>"
| "do_call valid_ts cfg run_id fault now (Call_enqueue b) s = EnqueueBatch b s"
| "do_call valid_ts cfg run_id fault now (Call_status st n e) s =
     s\<lparr>gn_db := UpdateRunStatus fault now run_id st n e (gn_db s)\<rparr>"
| "do_call valid_ts cfg run_id fault now Call_stop_flag s = s\<lparr>gn_running := False\<rparr>"
| "do_call valid_ts cfg run_id fault now Call_notify s = notify s"
| "do_call valid_ts cfg run_id fault now c s = s"

text \<open>One round of \<^verbatim>\<open>WriterLoop\<close> in steps; \<^term>\<open>None\<close> when the writer cannot move by itself.\<close>

fun WriterLoop :: "cpp_exception option \<Rightarrow> generation \<Rightarrow> generation option" where
  "WriterLoop fault s =
     (case gn_writer s of
        Head \<Rightarrow> Some (s\<lparr>gn_writer := (if gn_running s then Ready else Exited)\<rparr>)
      | Ready \<Rightarrow>
          (case gn_queue s of
             [] \<Rightarrow> Some (s\<lparr>gn_writer := (if gn_running s then Blocking else Exited)\<rparr>)
           | b # bs \<Rightarrow> Some (s\<lparr>gn_queue := bs, gn_writer := Inserting b\<rparr>))
      | Blocking \<Rightarrow> Some (s\<lparr>gn_writer := Sleeping\<rparr>)
      | Inserting b \<Rightarrow>
          (case BatchInsertTelemetry fault b (gn_db s) of
             (Inr u, d) \<Rightarrow> Some (s\<lparr>gn_db := d, gn_writer := Head, gn_written := gn_written s @ [(b, True)]\<rparr>)
           | (Inl e, d) \<Rightarrow> Some (s\<lparr>gn_db := d, gn_writer := Head, gn_written := gn_written s @ [(b, False)]\<rparr>))
      | _ \<Rightarrow> None)"

inductive gen_step :: "(string \<Rightarrow> bool) \<Rightarrow> GenerateRequest \<Rightarrow> string \<Rightarrow> generation \<Rightarrow> generation \<Rightarrow> bool"
  for valid_ts cfg run_id where
  main_step: "gn_todo s = c # cs \<Longrightarrow> call_enabled c s \<Longrightarrow>
     gen_step valid_ts cfg run_id s
       (do_call valid_ts cfg run_id fault now c (s\<lparr>gn_todo := cs, gn_made := gn_made s @ [c]\<rparr>))"
| writer_step: "WriterLoop fault s = Some t \<Longrightarrow> gen_step valid_ts cfg run_id s t"
| spurious_wakeup: "gn_writer s = Sleeping \<Longrightarrow> gen_step valid_ts cfg run_id s (s\<lparr>gn_writer := Ready\<rparr>)"

definition gen_init :: "gen_call list \<Rightarrow> nat \<Rightarrow> db \<Rightarrow> generation" where
  "gen_init calls m d =
     \<lparr>gn_todo = calls, gn_queue = [], gn_max = m, gn_running = False, gn_writer = No_writer, gn_db = d, gn_made = [],
      gn_written = [], gn_dropped = []\<rparr>"

section \<open>Accounting\<close>

text \<open>The batch the writer has taken from the queue and not yet finished.\<close>

definition in_flight :: "generation \<Rightarrow> TelemetryRecord list list" where
  "in_flight s = (case gn_writer s of Inserting b \<Rightarrow> [b] | _ \<Rightarrow> [])"

text \<open>Batches accepted by the queue, in the order in which they leave it.\<close>

definition accepted :: "generation \<Rightarrow> TelemetryRecord list list" where
  "accepted s = map fst (gn_written s) @ in_flight s @ gn_queue s"

definition stored :: "generation \<Rightarrow> TelemetryRecord list list" where
  "stored s = map fst (filter snd (gn_written s))"

definition failed :: "generation \<Rightarrow> TelemetryRecord list list" where
  "failed s = map fst (filter (\<lambda>e. \<not> snd e) (gn_written s))"

definition gen_inv :: "gen_call list \<Rightarrow> nat \<Rightarrow> db \<Rightarrow> generation \<Rightarrow> bool" where
  "gen_inv calls m d0 s \<longleftrightarrow>
     gn_made s @ gn_todo s = calls \<and> calls_ok False calls \<and> count_list calls Call_start_writer \<le> 1 \<and> gn_max s = m \<and> length (gn_queue s) \<le> m
     \<and> enqueued (gn_made s) \<in> shuffles (accepted s) (gn_dropped s)
     \<and> map tel_record (telemetry (gn_db s)) = map tel_record (telemetry d0) @ concat (stored s)
     \<and> (Call_wait_empty \<in> set (gn_made s) \<longrightarrow> gn_queue s = [])
     \<and> (Call_start_writer \<in> set (gn_todo s) \<longrightarrow> gn_writer s = No_writer)"

lemma shuffles_snoc:
  "zs \<in> shuffles xs ys \<Longrightarrow> zs @ [z] \<in> shuffles (xs @ [z]) ys"
  "zs \<in> shuffles xs ys \<Longrightarrow> zs @ [z] \<in> shuffles xs (ys @ [z])"
proof -
  show first: "zs \<in> shuffles xs ys \<Longrightarrow> zs @ [z] \<in> shuffles (xs @ [z]) ys" for zs xs ys
  proof (induction xs ys arbitrary: zs rule: shuffles.induct)
    case (1 ys)
    then show ?case
      by (induction ys arbitrary: zs) (auto simp: Cons_in_shuffles_iff)
  qed (auto simp: Cons_in_shuffles_iff)
  show "zs \<in> shuffles xs ys \<Longrightarrow> zs @ [z] \<in> shuffles xs (ys @ [z])"
    using first [of zs ys xs] by (simp add: shuffles_commutes)
qed

lemma telemetry_unchanged [simp]:
  "telemetry (CreateRun fault valid_ts now i cfg st rq d) = telemetry d"
  "telemetry (UpdateRunStatus fault now i st n e d) = telemetry d"
  "telemetry (Heartbeat fault now jt i d) = telemetry d"
  by (auto simp: CreateRun_def UpdateRunStatus_def Heartbeat_def transact_def split: option.splits JobType.splits)

lemma tel_record_number_rows [simp]: "map tel_record (number_rows i rs) = rs"
  by (induction rs arbitrary: i) simp_all

lemma insert_telemetry:
  assumes "BatchInsertTelemetry fault b d = (res, d')"
  shows "map tel_record (telemetry d') = map tel_record (telemetry d) @ (case res of Inl e \<Rightarrow> [] | Inr u \<Rightarrow> b)"
  using assms by (auto simp: BatchInsertTelemetry_def transact_def split: if_splits option.splits)


lemma gen_inv_main:
  assumes "gen_inv calls m d0 s" "gn_todo s = c # cs" "call_enabled c s"
  shows "gen_inv calls m d0 (do_call valid_ts cfg run_id fault now c (s\<lparr>gn_todo := cs, gn_made := gn_made s @ [c]\<rparr>))"
proof (cases "\<exists>b. c = Call_enqueue b")
  case True
  then obtain b where c: "c = Call_enqueue b" by blast
  have ok: "Call_wait_empty \<notin> set (gn_made s)"
    using assms(1,2) unfolding gen_inv_def c by force
  have sh: "enqueued (gn_made s) @ [b] \<in> shuffles (accepted s @ [b]) (gn_dropped s)"
    "enqueued (gn_made s) @ [b] \<in> shuffles (accepted s) (gn_dropped s @ [b])"
    using assms(1) by (auto simp: gen_inv_def intro: shuffles_snoc)
  have "gn_writer s = Sleeping \<Longrightarrow> in_flight s = []"
    by (simp add: in_flight_def)
  then show ?thesis
    using assms(1,2) ok sh
    by (auto simp: gen_inv_def c EnqueueBatch_def notify_def accepted_def stored_def in_flight_def)
next
  case False
  let ?t = "do_call valid_ts cfg run_id fault now c s"
  have start: "Call_start_writer \<notin> set cs" if "c = Call_start_writer"
    using assms(1,2) that by (auto simp: gen_inv_def count_list_0_iff)
  have idle: "gn_writer s = No_writer" if "Call_start_writer \<in> set (c # cs)"
    using assms(1,2) that unfolding gen_inv_def by metis
  have keep: "gn_writer ?t = gn_writer s" if "gn_writer s = No_writer" "c \<noteq> Call_start_writer"
    using that False by (cases c) (auto simp: notify_def)
  have upd: "gen_inv calls m d0 (s\<lparr>gn_todo := cs, gn_made := gn_made s @ [c], gn_db := d, gn_running := r, gn_writer := w\<rparr>)"
    if "telemetry d = telemetry (gn_db s)" "in_flight (s\<lparr>gn_writer := w\<rparr>) = in_flight s"
      "Call_start_writer \<in> set cs \<Longrightarrow> w = No_writer" for d w r
    using assms that False by (cases c) (auto simp: gen_inv_def accepted_def stored_def in_flight_def)
  have "gen_inv calls m d0 (s\<lparr>gn_todo := cs, gn_made := gn_made s @ [c], gn_db := gn_db ?t, gn_running := gn_running ?t,
      gn_writer := gn_writer ?t\<rparr>)"
  proof (rule upd)
    show "telemetry (gn_db ?t) = telemetry (gn_db s)"
      using False by (cases c) (auto simp: notify_def)
    show "in_flight (s\<lparr>gn_writer := gn_writer ?t\<rparr>) = in_flight s"
      using False idle by (cases c) (auto simp: notify_def in_flight_def)
    show "Call_start_writer \<in> set cs \<Longrightarrow> gn_writer ?t = No_writer"
      using start idle keep by auto
  qed
  moreover have "do_call valid_ts cfg run_id fault now c (s\<lparr>gn_todo := cs, gn_made := gn_made s @ [c]\<rparr>) =
      s\<lparr>gn_todo := cs, gn_made := gn_made s @ [c], gn_db := gn_db ?t, gn_running := gn_running ?t, gn_writer := gn_writer ?t\<rparr>"
    using False by (cases c) (auto simp: notify_def)
  ultimately show ?thesis
    by simp
qed

lemma gen_inv_writer:
  assumes "gen_inv calls m d0 s" "WriterLoop fault s = Some t"
  shows "gen_inv calls m d0 t"
proof (cases "gn_writer s")
  case (Inserting b)
  obtain res d where res: "BatchInsertTelemetry fault b (gn_db s) = (res, d)"
    by fastforce
  show ?thesis
    using assms Inserting res insert_telemetry [OF res]
    by (cases res) (auto simp: gen_inv_def accepted_def stored_def in_flight_def)
next
  case Ready
  then show ?thesis
    using assms by (cases "gn_queue s") (auto simp: gen_inv_def accepted_def stored_def in_flight_def)
qed (use assms in \<open>auto simp: gen_inv_def accepted_def stored_def in_flight_def\<close>)

interpretation generation: inductive_invariant "\<lambda>s. s = gen_init calls m d0 \<and> calls_ok False calls \<and> count_list calls Call_start_writer \<le> 1"
  "gen_step valid_ts cfg run_id" "gen_inv calls m d0"
  for calls m d0 valid_ts cfg run_id
proof (unfold_locales, goal_cases)
  case (1 s)
  then show ?case
    by (auto simp: gen_inv_def gen_init_def accepted_def stored_def in_flight_def)
next
  case (2 s t)
  from 2(2,1) show ?case
  proof (induction rule: gen_step.induct)
    case (spurious_wakeup s)
    then show ?case
      by (auto simp: gen_inv_def accepted_def stored_def in_flight_def)
  qed (auto intro: gen_inv_main gen_inv_writer)
qed


lemma calls_ok_True: "calls_ok True cs \<Longrightarrow> enqueued cs = []"
  by (induction cs) (auto split: gen_call.splits)

lemma succeeded_total:
  assumes "reports_ok k cs" "calls_ok w cs" "Call_status ''SUCCEEDED'' n e \<in> set cs"
  shows "n = int (k + length (concat (enqueued cs))) \<and> (w \<or> Call_wait_empty \<in> set cs)"
  using assms
proof (induction cs arbitrary: k w)
  case (Cons c cs)
  show ?case
  proof (cases "c = Call_status ''SUCCEEDED'' n e")
    case True
    then show ?thesis
      using Cons.prems calls_ok_True [of cs] by auto
  next
    case False
    then have "Call_status ''SUCCEEDED'' n e \<in> set cs"
      using Cons.prems(3) by auto
    with Cons show ?thesis
      by (cases c) (auto simp: add.assoc)
  qed
qed simp

lemma rows_shuffles: "zs \<in> shuffles xs ys \<Longrightarrow> length (concat zs) = length (concat xs) + length (concat ys)"
  by (induction xs ys arbitrary: zs rule: shuffles.induct) (auto simp: Cons_in_shuffles_iff)

lemma rows_written: "length (concat (map fst ws)) = length (concat (map fst (filter snd ws))) + length (concat (map fst (filter (\<lambda>e. \<not> snd e) ws)))"
  by (induction ws) auto

section \<open>Properties\<close>

text \<open>
  C19. Where the batches of a run go, whatever the interleaving of the two threads and the failures of
  the database: the queue never exceeds its limit; every batch handed over was either dropped
  because the queue was full or accepted, and the accepted ones leave the queue in the order in which they came;
  the telemetry table has grown by exactly the rows of the batches whose insertion succeeded, in
  order, none twice. When a run reports SUCCEEDED with a number of rows, the queue is empty, and
  the number counts the rows stored, and also those of the batches that were dropped, that failed to
  be inserted, or that the writer still has in hand.
\<close>

theorem generation_accounting:
  assumes "Run fuel cfg run_id g stop fault = Some calls"
    "reachable (\<lambda>s. s = gen_init calls m d0) (gen_step valid_ts cfg run_id) s"
  shows "length (gn_queue s) \<le> m
    \<and> enqueued (gn_made s) \<in> shuffles (map fst (gn_written s) @ in_flight s @ gn_queue s) (gn_dropped s)
    \<and> map tel_record (telemetry (gn_db s)) = map tel_record (telemetry d0) @ concat (stored s)
    \<and> (\<forall>n e. Call_status ''SUCCEEDED'' n e \<in> set (gn_made s) \<longrightarrow>
        gn_queue s = [] \<and>
        n = int (length (concat (stored s)) + length (concat (failed s)) + length (concat (gn_dropped s))
                 + length (concat (in_flight s))))"
proof -
  note calls = Run_calls [OF assms(1)]
  have init: "(\<lambda>s. s = gen_init calls m d0) =
      (\<lambda>s. s = gen_init calls m d0 \<and> calls_ok False calls \<and> count_list calls Call_start_writer \<le> 1)"
    using calls by auto
  have inv: "gen_inv calls m d0 s"
    by (rule generation.reachable_inv [OF assms(2) [unfolded init]])
  then have sh: "enqueued (gn_made s) \<in> shuffles (map fst (gn_written s) @ in_flight s @ gn_queue s) (gn_dropped s)"
    by (simp add: gen_inv_def accepted_def)
  have made: "reports_ok 0 (gn_made s)" "calls_ok False (gn_made s)"
    using inv calls by (auto simp: gen_inv_def)
  have "gn_queue s = [] \<and> n = int (length (concat (stored s)) + length (concat (failed s)) + length (concat (gn_dropped s))
                 + length (concat (in_flight s)))" if "Call_status ''SUCCEEDED'' n e \<in> set (gn_made s)" for n e
  proof -
    have q: "gn_queue s = []"
      using succeeded_total [OF made that] inv by (simp add: gen_inv_def)
    have n: "n = int (length (concat (enqueued (gn_made s))))"
      using succeeded_total [OF made that] by simp
    have "length (concat (enqueued (gn_made s))) =
        length (concat (map fst (gn_written s))) + length (concat (in_flight s)) + length (concat (gn_dropped s))"
      using rows_shuffles [OF sh] q by simp
    then show ?thesis
      using q n rows_written [of "gn_written s"] by (simp add: stored_def failed_def)
  qed
  then show ?thesis
    using inv sh by (simp add: gen_inv_def)
qed


subsection \<open>Schedules\<close>

text \<open>A schedule names the thread that moves next, the main thread by \<^term>\<open>True\<close>; no database call fails.\<close>

fun schedule :: "(string \<Rightarrow> bool) \<Rightarrow> GenerateRequest \<Rightarrow> string \<Rightarrow> bool list \<Rightarrow> generation \<Rightarrow> generation option" where
  "schedule valid_ts cfg run_id [] s = Some s"
| "schedule valid_ts cfg run_id (False # es) s =
     (case WriterLoop None s of None \<Rightarrow> None | Some t \<Rightarrow> schedule valid_ts cfg run_id es t)"
| "schedule valid_ts cfg run_id (True # es) s =
     (case gn_todo s of
        [] \<Rightarrow> None
      | c # cs \<Rightarrow>
          if call_enabled c s
          then schedule valid_ts cfg run_id es (do_call valid_ts cfg run_id None 0 c (s\<lparr>gn_todo := cs, gn_made := gn_made s @ [c]\<rparr>))
          else None)"

lemma schedule_reachable:
  "schedule valid_ts cfg run_id es s = Some t \<Longrightarrow> reachable init (gen_step valid_ts cfg run_id) s \<Longrightarrow>
   reachable init (gen_step valid_ts cfg run_id) t"
  by (induction valid_ts cfg run_id es s rule: schedule.induct)
    (auto simp del: WriterLoop.simps split: option.splits list.splits if_splits intro: reachable_step main_step writer_step)

definition ex_one_request :: GenerateRequest where
  "ex_one_request = ex_request\<lparr>rq_start_time_iso := ''2026-01-01T00:00:00Z'', rq_end_time_iso := ''2026-01-01T00:00:30Z''\<rparr>"

definition ex_one_record :: TelemetryRecord where
  "ex_one_record = fst (GenerateRecord ex_one_request ''d1'' ex_rng (new_host ex_one_request ex_rng 0 0) 1767225600000000000 2)"

lemma ex_one_run:
  "Run 2 ex_one_request ''d1'' ex_rng (\<lambda>k. False) None =
     Some [Call_create, Call_start_writer, Call_heartbeat, Call_enqueue [ex_one_record], Call_wait_empty,
           Call_status ''SUCCEEDED'' 1 '''', Call_metrics 1 1, Call_stop_flag, Call_notify, Call_join]"
proof -
  have t: "ParseTime ''2026-01-01T00:00:00Z'' = 1767225600000000000" "ParseTime ''2026-01-01T00:00:30Z'' = 1767225630000000000"
    by code_simp+
  obtain r h p where r: "GenerateRecord ex_one_request ''d1'' ex_rng (new_host ex_one_request ex_rng 0 0) 1767225600000000000 2 = (r, h, p)"
    by (metis prod.exhaust)
  have cfg: "rq_host_count ex_one_request = 1" "rq_start_time_iso ex_one_request = ''2026-01-01T00:00:00Z''"
    "rq_end_time_iso ex_one_request = ''2026-01-01T00:00:30Z''" "interval_ns ex_one_request = 60000000000"
    by (simp_all add: ex_one_request_def ex_request_def interval_ns_def)
  show ?thesis
    by (simp add: Run_def numeral_2_eq_2 cfg t start_producer_def InitializeHosts_def Let_def r [unfolded numeral_2_eq_2] flush_batch_def BATCH_SIZE_def
        finish_run_def destructor_calls_def ex_one_record_def)
qed

lemma ex_no_rows_run:
  "Run 1 ex_request ''d1'' ex_rng (\<lambda>k. False) None =
     Some [Call_create, Call_start_writer, Call_wait_empty, Call_status ''SUCCEEDED'' 0 '''', Call_metrics 0 0,
           Call_stop_flag, Call_notify, Call_join]"
  by (simp add: Run_def ex_request_def start_producer_def InitializeHosts_def Let_def finish_run_def destructor_calls_def)

definition ex_early :: generation where
  "ex_early = the (schedule (\<lambda>s. True) ex_one_request ''d1'' [True, True, True, False, False, False, True, False, True, True]
     (gen_init [Call_create, Call_start_writer, Call_heartbeat, Call_enqueue [ex_one_record], Call_wait_empty,
           Call_status ''SUCCEEDED'' 1 '''', Call_metrics 1 1, Call_stop_flag, Call_notify, Call_join] 100 empty_db))"


lemma ex_early_state:
  "schedule (\<lambda>s. True) ex_one_request ''d1'' [True, True, True, False, False, False, True, False, True, True]
     (gen_init [Call_create, Call_start_writer, Call_heartbeat, Call_enqueue [ex_one_record], Call_wait_empty,
           Call_status ''SUCCEEDED'' 1 '''', Call_metrics 1 1, Call_stop_flag, Call_notify, Call_join] 100 empty_db) = Some ex_early
   \<and> in_flight ex_early = [[ex_one_record]] \<and> telemetry (gn_db ex_early) = [] \<and> Call_status ''SUCCEEDED'' 1 '''' \<in> set (gn_made ex_early)"
  by (simp add: ex_early_def gen_init_def EnqueueBatch_def mutex_free_def notify_def in_flight_def empty_db_def)

theorem generation_accounting_witness:
  "(1 :: int) = int (length (concat (stored ex_early)) + length (concat (failed ex_early)) + length (concat (gn_dropped ex_early))
                 + length (concat (in_flight ex_early)))
   \<and> in_flight ex_early = [[ex_one_record]] \<and> telemetry (gn_db ex_early) = []"
proof -
  have "reachable (\<lambda>s. s = gen_init [Call_create, Call_start_writer, Call_heartbeat, Call_enqueue [ex_one_record], Call_wait_empty,
           Call_status ''SUCCEEDED'' 1 '''', Call_metrics 1 1, Call_stop_flag, Call_notify, Call_join] 100 empty_db)
      (gen_step (\<lambda>s. True) ex_one_request ''d1'') ex_early"
    by (rule schedule_reachable [OF conjunct1 [OF ex_early_state] reachable_init]) simp
  note acc = generation_accounting [OF ex_one_run this, THEN conjunct2, THEN conjunct2, THEN conjunct2, rule_format, THEN conjunct2]
  have "(1 :: int) = int (length (concat (stored ex_early)) + length (concat (failed ex_early)) + length (concat (gn_dropped ex_early))
                 + length (concat (in_flight ex_early)))"
    by (rule acc [of 1 "''''"]) (simp add: ex_early_state)
  then show ?thesis
    using ex_early_state by blast
qed

text \<open>
  The destructor of the generator may hang: it clears \<^verbatim>\<open>writer_running_\<close> and notifies without
  holding the mutex, so when this happens between the writer's evaluation of the wait predicate and its
  falling asleep, the notification is lost. The state is reached even by a run that generates no
  rows: the main thread waits in \<^verbatim>\<open>join\<close>, the writer sleeps with the flag already cleared, and
  nothing can happen any more except a spurious wake-up of the condition variable.
\<close>

theorem destructor_may_hang:
  "\<exists>calls s. Run 1 ex_request ''d1'' ex_rng (\<lambda>k. False) None = Some calls
     \<and> reachable (\<lambda>s. s = gen_init calls 100 empty_db) (gen_step (\<lambda>s. True) ex_request ''d1'') s
     \<and> gn_todo s = [Call_join] \<and> \<not> gn_running s \<and> gn_writer s = Sleeping
     \<and> {t. gen_step (\<lambda>s. True) ex_request ''d1'' s t} = {s\<lparr>gn_writer := Ready\<rparr>}"
proof -
  let ?calls = "[Call_create, Call_start_writer, Call_wait_empty, Call_status ''SUCCEEDED'' 0 '''', Call_metrics 0 0,
           Call_stop_flag, Call_notify, Call_join]"
  obtain s where s: "schedule (\<lambda>s. True) ex_request ''d1''
      [True, True, True, True, True, False, False, True, True, False] (gen_init ?calls 100 empty_db) = Some s"
    "gn_todo s = [Call_join]" "\<not> gn_running s" "gn_writer s = Sleeping"
    by (simp add: gen_init_def mutex_free_def notify_def)
  have r: "reachable (\<lambda>s. s = gen_init ?calls 100 empty_db) (gen_step (\<lambda>s. True) ex_request ''d1'') s"
    by (rule schedule_reachable [OF s(1) reachable_init]) simp
  have "{t. gen_step (\<lambda>s. True) ex_request ''d1'' s t} = {s\<lparr>gn_writer := Ready\<rparr>}"
    using s(2-4) by (auto simp: gen_step.simps)
  with r s ex_no_rows_run show ?thesis
    by blast
qed

end
