(* ===== verification/Api_Common.thy ===== *)
theory Api_Common
  imports Json Strings Metrics_Registry
begin

text \<open>
  What the request handlers of \<^verbatim>\<open>src/src/api_server.cpp\<close> share: the error codes, the classification of
  exceptions, the responses, the query parameters, and the metadata of truncated and paginated
  results. Log lines and the request log are output only and not modelled. \<open>hr_rid\<close> is what
  \<^verbatim>\<open>GetRequestId\<close> returns for the request: its \<^verbatim>\<open>X-Request-ID\<close> header, or a new UUID.
\<close>

section \<open>Error codes\<close>

definition kErrHttpBadRequest :: string where "kErrHttpBadRequest = ''E_HTTP_BAD_REQUEST''"
definition kErrHttpNotFound :: string where "kErrHttpNotFound = ''E_HTTP_NOT_FOUND''"
definition kErrHttpInvalidArgument :: string where "kErrHttpInvalidArgument = ''E_HTTP_INVALID_ARGUMENT''"
definition kErrHttpResourceExhausted :: string where "kErrHttpResourceExhausted = ''E_HTTP_RESOURCE_EXHAUSTED''"
definition kErrDbConnectFailed :: string where "kErrDbConnectFailed = ''E_DB_CONNECT_FAILED''"
definition kErrDbQueryFailed :: string where "kErrDbQueryFailed = ''E_DB_QUERY_FAILED''"
definition kErrDbInsertFailed :: string where "kErrDbInsertFailed = ''E_DB_INSERT_FAILED''"
definition kErrTrainNoData :: string where "kErrTrainNoData = ''E_TRAIN_NO_DATA''"
definition kErrTrainArtifactWriteFailed :: string where "kErrTrainArtifactWriteFailed = ''E_TRAIN_ARTIFACT_WRITE_FAILED''"
definition kErrModelLoadFailed :: string where "kErrModelLoadFailed = ''E_MODEL_LOAD_FAILED''"
definition kErrInferScoreFailed :: string where "kErrInferScoreFailed = ''E_INFER_SCORE_FAILED''"
definition kErrInternal :: string where "kErrInternal = ''E_INTERNAL''"
definition kErrHttpMissingField :: string where "kErrHttpMissingField = ''E_HTTP_MISSING_FIELD''"
definition kErrHttpJsonParseError :: string where "kErrHttpJsonParseError = ''E_HTTP_JSON_PARSE_ERROR''"

lemmas error_code_defs =
  kErrHttpBadRequest_def kErrHttpNotFound_def kErrHttpInvalidArgument_def kErrHttpResourceExhausted_def kErrDbConnectFailed_def
  kErrDbQueryFailed_def kErrDbInsertFailed_def kErrTrainNoData_def kErrTrainArtifactWriteFailed_def kErrModelLoadFailed_def
  kErrInferScoreFailed_def kErrInternal_def kErrHttpMissingField_def kErrHttpJsonParseError_def

text \<open>The handlers of the re-thrown exception are tried in order; a JSON type error reaches the last one.\<close>

fun ClassifyHttpError :: "cpp_exception \<Rightarrow> string" where
  "ClassifyHttpError (Json_parse_error m) = kErrHttpJsonParseError"
| "ClassifyHttpError (Json_out_of_range m) = kErrHttpMissingField"
| "ClassifyHttpError (Invalid_argument m) = kErrHttpInvalidArgument"
| "ClassifyHttpError (Out_of_range m) = kErrHttpInvalidArgument"
| "ClassifyHttpError (Broken_connection m) = kErrDbConnectFailed"
| "ClassifyHttpError (Sql_error m) = kErrDbQueryFailed"
| "ClassifyHttpError e =
     (if contains (what e) ''count must be'' \<or> contains (what e) ''Must be'' \<or> contains (what e) ''Too many''
      then kErrHttpInvalidArgument else kErrInternal)"

definition ClassifyTrainError :: "string \<Rightarrow> string" where
  "ClassifyTrainError msg =
     (if contains msg ''Cancelled'' then ''E_CANCELLED''
      else if contains msg ''Not enough samples'' \<or> contains msg ''No samples'' then kErrTrainNoData
      else if contains msg ''Failed to open output path'' then kErrTrainArtifactWriteFailed
      else kErrInternal)"

section \<open>Requests and responses\<close>

record HttpRequest =
  hr_body :: string
  hr_params :: "(string, string) std_map"
  hr_match :: string
  hr_rid :: string

record HttpResponse =
  rs_status :: int
  rs_body :: json

definition SendJson :: "json \<Rightarrow> int \<Rightarrow> string \<Rightarrow> HttpResponse" where
  "SendJson j status request_id =
     \<lparr>rs_status = status,
      rs_body = (if request_id \<noteq> '''' \<and> \<not> jcontains j ''request_id'' then jset ''request_id'' (JStr request_id) j else j)\<rparr>"

definition error_json :: "string \<Rightarrow> string \<Rightarrow> string \<Rightarrow> json" where
  "error_json message code request_id =
     (let j = jset2 ''error'' ''code'' (JStr code) (jset2 ''error'' ''message'' (JStr message) JNull) in
      if request_id \<noteq> '''' then jset2 ''error'' ''request_id'' (JStr request_id) j else j)"

definition SendError :: "string \<Rightarrow> int \<Rightarrow> string \<Rightarrow> string \<Rightarrow> MetricsRegistry \<Rightarrow> HttpResponse \<times> MetricsRegistry" where
  "SendError message status code request_id reg =
     (SendJson (error_json message code request_id) status request_id,
      Increment ''http_errors_total'' [(''code'', code), (''status'', to_string status)] 1 reg)"

definition GetIntParam :: "HttpRequest \<Rightarrow> string \<Rightarrow> int \<Rightarrow> int" where
  "GetIntParam req key def =
     (case map_get (hr_params req) key of
        None \<Rightarrow> def
      | Some v \<Rightarrow> (case stoi v of None \<Rightarrow> def | Some i \<Rightarrow> i))"

definition GetStrParam :: "HttpRequest \<Rightarrow> string \<Rightarrow> string" where
  "GetStrParam req key = (case map_get (hr_params req) key of None \<Rightarrow> '''' | Some v \<Rightarrow> v)"

text \<open>\<^verbatim>\<open>GetDoubleParam\<close>; what \<^verbatim>\<open>std::stod\<close> reads is a parameter.\<close>

definition GetDoubleParam :: "(string \<Rightarrow> real option) \<Rightarrow> HttpRequest \<Rightarrow> string \<Rightarrow> real \<Rightarrow> real" where
  "GetDoubleParam stod req key def =
     (case map_get (hr_params req) key of
        None \<Rightarrow> def
      | Some v \<Rightarrow> (case stod v of None \<Rightarrow> def | Some x \<Rightarrow> x))"

section \<open>Result metadata\<close>

definition IsTruncated :: "int \<Rightarrow> int \<Rightarrow> int option \<Rightarrow> bool" where
  "IsTruncated returned limit total_distinct =
     (if returned \<le> 0 \<or> limit \<le> 0 then False
      else case total_distinct of Some n \<Rightarrow> n > returned | None \<Rightarrow> False)"

record ResponseMetaArgs =
  ma_limit :: int
  ma_returned :: int
  ma_truncated :: bool
  ma_total_distinct :: "int option"
  ma_reason :: string
  ma_bins_requested :: "int option"
  ma_bins_returned :: "int option"

definition BuildResponseMeta :: "ResponseMetaArgs \<Rightarrow> json" where
  "BuildResponseMeta args =
     (let m1 = jset ''truncated'' (JBool (ma_truncated args)) (jset ''returned'' (JInt (ma_returned args))
                 (jset ''limit'' (JInt (ma_limit args)) JNull));
          m2 = jset ''total_distinct'' (case ma_total_distinct args of Some n \<Rightarrow> JInt n | None \<Rightarrow> JNull) m1;
          m3 = jset ''reason'' (JStr (ma_reason args)) m2;
          m4 = (case ma_bins_requested args of Some n \<Rightarrow> jset ''bins_requested'' (JInt n) m3 | None \<Rightarrow> m3)
      in case ma_bins_returned args of Some n \<Rightarrow> jset ''bins_returned'' (JInt n) m4 | None \<Rightarrow> m4)"

definition HasMore :: "int \<Rightarrow> int \<Rightarrow> int \<Rightarrow> int option \<Rightarrow> bool" where
  "HasMore limit offset returned total_rows =
     (case total_rows of Some n \<Rightarrow> offset + returned < n | None \<Rightarrow> returned \<ge> limit)"

section \<open>Facts about errors\<close>

text \<open>The codes a client can rely on: a request is to blame exactly for these classes.\<close>

definition client_error :: "string \<Rightarrow> bool" where
  "client_error code \<longleftrightarrow> code \<in> {kErrHttpJsonParseError, kErrHttpMissingField, kErrHttpInvalidArgument, kErrHttpBadRequest}"

lemma SendError_status [simp]: "rs_status (fst (SendError m st c r reg)) = st"
  by (simp add: SendError_def SendJson_def)

lemma SendJson_status [simp]: "rs_status (SendJson j st r) = st"
  by (simp add: SendJson_def)

end
