(* ===== verification/Train_Job.thy ===== *)
theory Train_Job
  imports Api_Common Keyset
begin

text \<open>
  The background job that trains a model: the function that \<^verbatim>\<open>ApiServer::RunPcaTraining\<close>
  (\<^verbatim>\<open>src/src/api_server.cpp\<close>) hands to the job manager. It claims the model run, trains on the dataset, writes
  the artifact and records the result in the model run. The failures of every call, the clock, the
  stop flag and the files are parameters; \<open>tv_between\<close> is what the heartbeats of the training and other
  clients do to the store while the job trains.
\<close>

section \<open>The work function\<close>

record train_env =
  tv_fault :: "nat \<Rightarrow> cpp_exception option"
  tv_mkdir :: "cpp_exception option"
  tv_fuel :: nat
  tv_read_faults :: "nat \<Rightarrow> nat \<Rightarrow> cpp_exception option"
  tv_batch_size :: "string option"
  tv_between :: "db \<Rightarrow> db"
  tv_stop :: bool
  tv_dump :: "json \<Rightarrow> string"
  tv_writable :: "string \<Rightarrow> bool"
  tv_written :: "int option"
  tv_now :: "nat \<Rightarrow> int"
  tv_time_text :: "int \<Rightarrow> string"

record train_state =
  ts_db :: db
  ts_files :: "string \<Rightarrow> string option"
  ts_registry :: MetricsRegistry

datatype train_end = Train_ended | Train_unfinished

definition output_path :: "string \<Rightarrow> string" where
  "output_path mid = ''artifacts/pca/'' @ mid @ ''/model.json''"

text \<open>The \<^verbatim>\<open>try\<close> block.\<close>

definition train_try ::
  "train_env \<Rightarrow> string \<Rightarrow> string \<Rightarrow> int \<Rightarrow> real \<Rightarrow> train_state \<Rightarrow> train_end outcome \<times> train_state" where
  "train_try env mid dataset_id n_comp percentile s =
     (case tv_mkdir env of
        Some e \<Rightarrow> (Threw e, s)
      | None \<Rightarrow>
          (let s1 = s\<lparr>ts_db := tv_between env (ts_db s)\<rparr> in
           case TrainPcaFromDb (tv_fuel env) (tv_read_faults env) (tv_batch_size env) dataset_id n_comp percentile (ts_db s) of
             None \<Rightarrow> (Returned Train_unfinished, s1)
           | Some (Inl e) \<Rightarrow> (Threw e, s1)
           | Some (Inr art) \<Rightarrow>
               if tv_stop env then
                 (Returned Train_ended,
                  s1\<lparr>ts_db := UpdateModelRunStatus (tv_fault env 2) (tv_now env 0) mid ''CANCELLED'' '''' '''' JNull (ts_db s1)\<rparr>)
               else
                 (case WriteArtifactJson (tv_dump env) (tv_writable env) (tv_written env) art (output_path mid) (ts_files s1, ts_registry s1) of
                    (Returned u, fs, reg) \<Rightarrow>
                      (Returned Train_ended,
                       s1\<lparr>ts_files := fs, ts_registry := reg,
                          ts_db := UpdateTrialEligibility (tv_fault env 3) (tv_now env 1) mid True '''' (art_threshold art) ''evaluation_artifact_v1''
                            (UpdateModelRunStatus (tv_fault env 2) (tv_now env 0) mid ''COMPLETED'' (output_path mid) '''' JNull (ts_db s1))\<rparr>)
                  | (Threw e, fs, reg) \<Rightarrow> (Threw e, s1)
                  | (Terminated, fs, reg) \<Rightarrow> (Terminated, s1)
                  | (Undefined, fs, reg) \<Rightarrow> (Undefined, s1))))"

definition train_error_summary :: "string \<Rightarrow> json" where
  "train_error_summary msg = jobject
     [(''code'', JStr (ClassifyTrainError msg)), (''message'', JStr (prefix_of 200 msg)), (''stage'', JStr ''train'')]"

text \<open>The whole function: the claim before the \<^verbatim>\<open>try\<close> block and the handler after it, which throws on.\<close>

definition train_job ::
  "train_env \<Rightarrow> string \<Rightarrow> string \<Rightarrow> int \<Rightarrow> real \<Rightarrow> train_state \<Rightarrow> train_end outcome \<times> train_state" where
  "train_job env mid dataset_id n_comp percentile s =
     (case TryTransitionModelRunStatus (tv_fault env 0) mid ''PENDING'' ''RUNNING'' (ts_db s) of (won, d1) \<Rightarrow>
      or_throw (if won then Inr ''RUNNING''
                else jvalue jget_string (GetModelRun (tv_fault env 1) (tv_time_text env) mid d1) ''status'' ''UNKNOWN'')
        (s\<lparr>ts_db := d1\<rparr>) (\<lambda>status.
      if status \<noteq> ''RUNNING'' then (Returned Train_ended, s\<lparr>ts_db := d1\<rparr>)
      else
        (case train_try env mid dataset_id n_comp percentile (s\<lparr>ts_db := d1\<rparr>) of
           (Threw e, s2) \<Rightarrow>
             (Threw e,
              s2\<lparr>ts_db := UpdateTrialEligibility (tv_fault env 3) (tv_now env 1) mid False ''FAILED'' 0 ''''
                (UpdateModelRunStatus (tv_fault env 2) (tv_now env 0) mid ''FAILED'' '''' (what e) (train_error_summary (what e)) (ts_db s2))\<rparr>)
         | r \<Rightarrow> r)))"

section \<open>Rows of the model table\<close>

definition model_row :: "string \<Rightarrow> db \<Rightarrow> model_run option" where
  "model_row mid d = find (\<lambda>r. mr_model_run_id r = mid) (model_runs d)"

lemma find_update_model:
  assumes "\<And>r. mr_model_run_id (f r) = mr_model_run_id r"
  shows "find (\<lambda>r. mr_model_run_id r = mid) (update_where (\<lambda>r. mr_model_run_id r = mid' \<and> P r) f rs) =
    map_option (\<lambda>r. if mid = mid' \<and> P r then f r else r) (find (\<lambda>r. mr_model_run_id r = mid) rs)"
  using assms by (induction rs) (auto simp: update_where_def)

lemma model_row_update:
  "(\<And>r. mr_model_run_id (f r) = mr_model_run_id r) \<Longrightarrow>
     model_row mid (update_model mid' f d) = (if mid = mid' then map_option f (model_row mid d) else model_row mid d)"
  using find_update_model [where P = "\<lambda>r. True" and f = f]
  by (auto simp: model_row_def update_model_def option.map_ident)

definition finish_status :: "int \<Rightarrow> string \<Rightarrow> string \<Rightarrow> string \<Rightarrow> json \<Rightarrow> model_run \<Rightarrow> model_run" where
  "finish_status now status path err summary r =
     (if status = ''COMPLETED'' then
        r\<lparr>mr_status := status, mr_artifact_path := Some path, mr_completed_at := Some now, mr_updated_at := now\<rparr>
      else if status = ''FAILED'' \<or> status = ''CANCELLED'' \<or> status = ''CANCELED'' then
        r\<lparr>mr_status := status, mr_error := Some err, mr_error_summary := json_column summary,
          mr_completed_at := Some now, mr_updated_at := now\<rparr>
      else r\<lparr>mr_status := status, mr_updated_at := now\<rparr>)"

lemma model_row_UpdateModelRunStatus:
  "model_row mid (UpdateModelRunStatus None now mid' st path err summary d) =
     (if mid = mid' then map_option (finish_status now st path err summary) (model_row mid d) else model_row mid d)"
  unfolding UpdateModelRunStatus_def finish_status_def [abs_def] transact_def
  by (simp add: model_row_update)

lemma model_row_UpdateTrialEligibility:
  "model_row mid (UpdateTrialEligibility None now mid' el reason v src d) =
     (if mid = mid' then map_option (\<lambda>r. r\<lparr>mr_is_eligible := el, mr_eligibility_reason := Some reason,
          mr_selection_metric_value := Some v, mr_selection_metric_source := text_column src,
          mr_selection_metric_computed_at := Some now\<rparr>) (model_row mid d) else model_row mid d)"
  by (simp add: UpdateTrialEligibility_def transact_def model_row_update)

lemma model_row_unique:
  assumes "distinct (map mr_model_run_id (model_runs d))" "model_row mid d = Some r"
  shows "r' \<in> set (model_runs d) \<and> mr_model_run_id r' = mid \<longleftrightarrow> r' = r"
proof -
  have r: "r \<in> set (model_runs d)" "mr_model_run_id r = mid"
    using assms(2) by (auto simp: model_row_def find_Some_iff)
  then show ?thesis
    using inj_onD [OF distinct_map [THEN iffD1, THEN conjunct2, OF assms(1)]] by blast
qed

lemma TryTransition_row:
  assumes "distinct (map mr_model_run_id (model_runs d))" "model_row mid d = Some r"
    and "TryTransitionModelRunStatus None mid ''PENDING'' ''RUNNING'' d = (won, d1)"
  shows "won \<longleftrightarrow> mr_status r = ''PENDING''"
    "model_row mid d1 = Some (if mr_status r = ''PENDING'' then r\<lparr>mr_status := ''RUNNING''\<rparr> else r)"
    "mr_status r \<noteq> ''PENDING'' \<Longrightarrow> d1 = d"
proof -
  have d1: "d1 = d\<lparr>model_runs := update_where (\<lambda>r. mr_model_run_id r = mid \<and> mr_status r = ''PENDING'')
      (\<lambda>r. r\<lparr>mr_status := ''RUNNING''\<rparr>) (model_runs d)\<rparr>"
    and won: "won = list_ex (\<lambda>r. mr_model_run_id r = mid \<and> mr_status r = ''PENDING'') (model_runs d)"
    using assms(3) by (auto simp: TryTransitionModelRunStatus_def Let_def)
  show w: "won \<longleftrightarrow> mr_status r = ''PENDING''"
    using model_row_unique [OF assms(1,2)] unfolding won list_ex_iff by metis
  show "model_row mid d1 = Some (if mr_status r = ''PENDING'' then r\<lparr>mr_status := ''RUNNING''\<rparr> else r)"
    using assms(2) find_update_model [of "\<lambda>r. r\<lparr>mr_status := ''RUNNING''\<rparr>" mid mid "\<lambda>r. mr_status r = ''PENDING''" "model_runs d"]
    by (simp add: d1 model_row_def)
  show "d1 = d" if "mr_status r \<noteq> ''PENDING''"
  proof -
    have "update_where (\<lambda>r. mr_model_run_id r = mid \<and> mr_status r = ''PENDING'') (\<lambda>r. r\<lparr>mr_status := ''RUNNING''\<rparr>) (model_runs d) = model_runs d"
      unfolding update_where_def using that model_row_unique [OF assms(1,2)] by (intro map_idI) metis
    then show ?thesis by (simp add: d1)
  qed
qed

lemma GetModelRun_status:
  assumes "model_row mid d = Some r"
  shows "jvalue jget_string (GetModelRun None ts mid d) ''status'' dflt = Inr (mr_status r)"
  using assms by (simp add: GetModelRun_def model_row_def model_run_json_def jobject_def)

section \<open>How the job ends\<close>

text \<open>The store after the claim, and the exception that ends the \<^verbatim>\<open>try\<close> block, if any.\<close>

definition claimed :: "string \<Rightarrow> db \<Rightarrow> db" where
  "claimed mid d = snd (TryTransitionModelRunStatus None mid ''PENDING'' ''RUNNING'' d)"

definition train_failure :: "train_env \<Rightarrow> string \<Rightarrow> PcaArtifact cpp \<Rightarrow> cpp_exception option" where
  "train_failure env mid res =
     (case tv_mkdir env of
        Some e \<Rightarrow> Some e
      | None \<Rightarrow>
          (case res of
             Inl e \<Rightarrow> Some e
           | Inr art \<Rightarrow>
               if tv_stop env \<or> tv_writable env (output_path mid) then None
               else Some (Runtime_error (''Failed to open output path: '' @ output_path mid))))"

definition run_failed :: "string \<Rightarrow> cpp_exception \<Rightarrow> model_run \<Rightarrow> bool" where
  "run_failed mid e r \<longleftrightarrow>
     mr_model_run_id r = mid \<and> mr_status r = ''FAILED'' \<and> mr_error r = Some (what e) \<and> mr_error_summary r = Some (train_error_summary (what e))
     \<and> \<not> mr_is_eligible r \<and> mr_eligibility_reason r = Some ''FAILED''"

definition run_completed :: "string \<Rightarrow> PcaArtifact \<Rightarrow> model_run \<Rightarrow> bool" where
  "run_completed mid art r \<longleftrightarrow>
     mr_model_run_id r = mid \<and> mr_status r = ''COMPLETED'' \<and> mr_artifact_path r = Some (output_path mid)
     \<and> mr_is_eligible r \<and> mr_selection_metric_value r = Some (art_threshold art)"

lemma model_row_id: "model_row mid d = Some r \<Longrightarrow> mr_model_run_id r = mid"
  by (auto simp: model_row_def find_Some_iff)

lemma train_job_claimed:
  assumes "distinct (map mr_model_run_id (model_runs (ts_db s)))" "model_row mid (ts_db s) = Some r" "\<forall>k. tv_fault env k = None"
  shows "mr_status r \<in> {''PENDING'', ''RUNNING''} \<Longrightarrow>
      train_job env mid ds n p s =
        (case train_try env mid ds n p (s\<lparr>ts_db := claimed mid (ts_db s)\<rparr>) of
           (Threw e, s2) \<Rightarrow>
             (Threw e,
              s2\<lparr>ts_db := UpdateTrialEligibility None (tv_now env 1) mid False ''FAILED'' 0 ''''
                (UpdateModelRunStatus None (tv_now env 0) mid ''FAILED'' '''' (what e) (train_error_summary (what e)) (ts_db s2))\<rparr>)
         | r \<Rightarrow> r)"
    "mr_status r \<notin> {''PENDING'', ''RUNNING''} \<Longrightarrow> train_job env mid ds n p s = (Returned Train_ended, s)"
proof -
  obtain won d1 where t: "TryTransitionModelRunStatus None mid ''PENDING'' ''RUNNING'' (ts_db s) = (won, d1)"
    by fastforce
  note row = TryTransition_row [OF assms(1,2) t]
  have st: "jvalue jget_string (GetModelRun None (tv_time_text env) mid d1) ''status'' ''UNKNOWN'' =
      Inr (if mr_status r = ''PENDING'' then ''RUNNING'' else mr_status r)"
    using GetModelRun_status [OF row(2)] by simp
  have f: "tv_fault env k = None" for k
    using assms(3) by blast
  have d1: "claimed mid (ts_db s) = d1"
    by (simp add: claimed_def t)
  show "train_job env mid ds n p s =
        (case train_try env mid ds n p (s\<lparr>ts_db := claimed mid (ts_db s)\<rparr>) of
           (Threw e, s2) \<Rightarrow>
             (Threw e,
              s2\<lparr>ts_db := UpdateTrialEligibility None (tv_now env 1) mid False ''FAILED'' 0 ''''
                (UpdateModelRunStatus None (tv_now env 0) mid ''FAILED'' '''' (what e) (train_error_summary (what e)) (ts_db s2))\<rparr>)
         | r \<Rightarrow> r)" if "mr_status r \<in> {''PENDING'', ''RUNNING''}"
    using that row(1) st unfolding train_job_def d1 f by (cases won) (auto simp: t)
  show "train_job env mid ds n p s = (Returned Train_ended, s)" if "mr_status r \<notin> {''PENDING'', ''RUNNING''}"
    using that row st unfolding train_job_def f by (auto simp: t)
qed


lemma model_row_claimed:
  assumes "distinct (map mr_model_run_id (model_runs d))" "model_row mid d = Some r"
  shows "\<exists>r'. model_row mid (claimed mid d) = Some r'"
proof -
  obtain won d1 where t: "TryTransitionModelRunStatus None mid ''PENDING'' ''RUNNING'' d = (won, d1)"
    by fastforce
  show ?thesis
    using TryTransition_row(2) [OF assms t] by (simp add: claimed_def t)
qed

lemma failed_row:
  assumes "model_row mid d = Some r"
  shows "\<exists>r'. model_row mid (UpdateTrialEligibility None now1 mid False ''FAILED'' 0 ''''
      (UpdateModelRunStatus None now0 mid ''FAILED'' '''' (what e) (train_error_summary (what e)) d)) = Some r' \<and> run_failed mid e r'"
proof -
  have "json_column (train_error_summary m) = Some (train_error_summary m)" for m
    by (simp add: json_column_def jempty_def train_error_summary_def jobject_def)
  then show ?thesis
    using assms model_row_id [OF assms]
    by (simp add: model_row_UpdateTrialEligibility model_row_UpdateModelRunStatus finish_status_def run_failed_def)
qed

lemma completed_row:
  assumes "model_row mid d = Some r"
  shows "\<exists>r'. model_row mid (UpdateTrialEligibility None now1 mid True '''' (art_threshold art) src
      (UpdateModelRunStatus None now0 mid ''COMPLETED'' (output_path mid) '''' JNull d)) = Some r' \<and> run_completed mid art r'"
  using assms model_row_id [OF assms]
  by (simp add: model_row_UpdateTrialEligibility model_row_UpdateModelRunStatus finish_status_def run_completed_def)

lemma train_job_ends:
  assumes "reachable (\<lambda>d. d = empty_db) db_step (ts_db s)" "model_row mid (ts_db s) = Some r" "\<forall>k. tv_fault env k = None"
    and "TrainPcaFromDb (tv_fuel env) (tv_read_faults env) (tv_batch_size env) ds n p (claimed mid (ts_db s)) = Some res"
    and "model_row mid (tv_between env (claimed mid (ts_db s))) = Some r1"
    and "train_job env mid ds n p s = (out, s')"
  shows "if mr_status r \<notin> {''PENDING'', ''RUNNING''} then out = Returned Train_ended \<and> s' = s
    else case train_failure env mid res of
        Some e \<Rightarrow> out = Threw e \<and> ts_files s' = ts_files s \<and> (\<exists>r'. model_row mid (ts_db s') = Some r' \<and> run_failed mid e r')
      | None \<Rightarrow> out = Returned Train_ended \<and> (\<exists>art. res = Inr art \<and>
          (if tv_stop env
           then ts_files s' = ts_files s \<and> (\<exists>r'. model_row mid (ts_db s') = Some r' \<and> mr_status r' = ''CANCELLED'')
           else ts_files s' = (ts_files s)(output_path mid \<mapsto> tv_dump env (artifact_json art))
             \<and> (\<exists>r'. model_row mid (ts_db s') = Some r' \<and> run_completed mid art r')))"
proof (cases "mr_status r \<in> {''PENDING'', ''RUNNING''}")
  case True
  have dist: "distinct (map mr_model_run_id (model_runs (ts_db s)))"
    using run_store.reachable_inv [OF assms(1)] by (simp add: db_ok_def keys_unique_def)
  have f: "tv_fault env k = None" for k
    using assms(3) by blast
  obtain r0 where r0: "model_row mid (claimed mid (ts_db s)) = Some r0"
    using model_row_claimed [OF dist assms(2)] by blast
  note job = train_job_claimed(1) [OF dist assms(2,3) True, of ds n p, unfolded assms(6) train_try_def]
  show ?thesis
  proof (cases "tv_mkdir env")
    case (Some e)
    then show ?thesis
      using job failed_row [OF r0] True by (simp add: train_failure_def)
  next
    case mk: None
    show ?thesis
    proof (cases res)
      case (Inl e)
      then show ?thesis
        using job mk assms(4) failed_row [OF assms(5)] True by (simp add: train_failure_def)
    next
      case (Inr art)
      show ?thesis
      proof (cases "tv_stop env")
        case True
        then show ?thesis
          using job mk assms(4,5) Inr \<open>mr_status r \<in> _\<close>
          by (simp add: train_failure_def f model_row_UpdateModelRunStatus finish_status_def)
      next
        case False
        note go = this \<open>mr_status r \<in> _\<close> mk assms(4) Inr
        show ?thesis
        proof (cases "tv_writable env (output_path mid)")
          case True
          then show ?thesis
            using job go completed_row [OF assms(5)] by (simp add: train_failure_def f WriteArtifactJson_def Let_def)
        next
          case False
          then show ?thesis
            using job go failed_row [OF assms(5), of _ _ "Runtime_error (''Failed to open output path: '' @ output_path mid)"]
            by (simp add: train_failure_def f WriteArtifactJson_def Let_def)
        qed
      qed
    qed
  qed
next
  case False
  have dist: "distinct (map mr_model_run_id (model_runs (ts_db s)))"
    using run_store.reachable_inv [OF assms(1)] by (simp add: db_ok_def keys_unique_def)
  show ?thesis
    using train_job_claimed(2) [OF dist assms(2,3) False] assms(6) False by simp
qed

lemma claimed_reachable: "reachable (\<lambda>d. d = empty_db) db_step d \<Longrightarrow> reachable (\<lambda>d. d = empty_db) db_step (claimed mid d)"
  unfolding claimed_def by (erule reachable_step) (rule db_step.intros(10))

lemma dataset_rows_claimed [simp]: "dataset_rows i (claimed mid d) = dataset_rows i d"
  by (simp add: dataset_rows_def claimed_def TryTransitionModelRunStatus_def Let_def)

lemma train_claimed:
  assumes "reachable (\<lambda>d. d = empty_db) db_step d" "\<forall>q k. faults q k = None" "0 < train_batch_size bs"
    and "length (dataset_rows ds d) < fuel"
  shows "TrainPcaFromDb fuel faults bs ds n p (claimed mid d) =
    Some (TrainPcaFromSamples (map (\<lambda>t. FromRecord (tel_record t)) (dataset_rows ds d)) n p)"
proof -
  have "\<forall>q < 3. fails_at ((\<lambda>_. None) q) (faults q)"
    using assms(2) by (simp add: fails_at_def)
  from training_delivers [OF claimed_reachable [OF assms(1)] assms(3) _ this, of ds mid fuel n p] assms(4) show ?thesis
    by (auto simp: TrainPcaFromDb_def Let_def)
qed

section \<open>Properties\<close>


definition ex_train_env :: train_env where
  "ex_train_env = \<lparr>tv_fault = \<lambda>k. None, tv_mkdir = None, tv_fuel = 3, tv_read_faults = \<lambda>q k. None, tv_batch_size = None,
     tv_between = \<lambda>d. d, tv_stop = False, tv_dump = \<lambda>j. ''artifact'', tv_writable = \<lambda>s. True, tv_written = None,
     tv_now = \<lambda>k. 9, tv_time_text = \<lambda>t. ''time''\<rparr>"

definition ex_train_db :: db where
  "ex_train_db = snd (CreateModelRun None 5 ''m1'' ''d1'' ''model'' JNull ''r'' JNull '''' '''' None ex_dataset)"

definition ex_train_state :: train_state where
  "ex_train_state = \<lparr>ts_db = ex_train_db, ts_files = \<lambda>s. None, ts_registry = empty_registry\<rparr>"

lemma ex_train_reachable: "reachable (\<lambda>d. d = empty_db) db_step ex_train_db"
  unfolding ex_train_db_def by (rule reachable_step [OF ex_dataset_reachable db_step.intros(7)])

lemma ex_train_row: "model_row ''m1'' ex_train_db = Some ((new_model_run 5 ''m1'' ''d1'' ''model'' ''r'' JNull)\<lparr>mr_hpo_config := None,
    mr_candidate_fingerprint := None, mr_generator_version := None, mr_seed_used := None\<rparr>)"
  by (simp add: ex_train_db_def ex_dataset_def CreateModelRun_def BatchInsertTelemetry_def CreateRun_def transact_def empty_db_def
      has_dataset_def has_model_def ex_record_def model_row_def new_model_run_def json_column_def jempty_def text_column_def)

lemma ex_train_claimed:
  "model_row ''m1'' (claimed ''m1'' ex_train_db) \<noteq> None" "dataset_rows ''d1'' (claimed ''m1'' ex_train_db) = dataset_rows ''d1'' ex_dataset"
  using model_row_claimed [OF _ ex_train_row] run_store.reachable_inv [OF ex_train_reachable]
  by (auto simp: db_ok_def keys_unique_def dataset_rows_def claimed_def TryTransitionModelRunStatus_def Let_def ex_train_db_def
      CreateModelRun_def transact_def)



text \<open>
  C17. Training works end to end: a PENDING model run for a dataset of at least two rows, with one to
  five components, no failures and no cancellation, ends COMPLETED whatever the batch size and
  whatever happens to the row meanwhile; the artifact file holds the serialised artifact of training on the feature vectors of
  exactly the rows of the dataset, and the threshold of that artifact is recorded as the metric of
  the run.
\<close>

theorem train_job_complete:
  assumes "reachable (\<lambda>d. d = empty_db) db_step (ts_db s)" "model_row mid (ts_db s) = Some r" "mr_status r = ''PENDING''"
    and "\<forall>k. tv_fault env k = None" "tv_mkdir env = None" "\<forall>q k. tv_read_faults env q k = None" "\<not> tv_stop env"
    and "tv_writable env (output_path mid)" "0 < train_batch_size (tv_batch_size env)"
    and "length (dataset_rows ds (ts_db s)) < tv_fuel env" "2 \<le> length (dataset_rows ds (ts_db s))" "1 \<le> k" "k \<le> kSize"
    and "model_row mid (tv_between env (claimed mid (ts_db s))) = Some r1"
  shows "\<exists>art s' r'. train_job env mid ds (int k) p s = (Returned Train_ended, s')
    \<and> TrainPcaFromSamples (map (\<lambda>t. FromRecord (tel_record t)) (dataset_rows ds (ts_db s))) (int k) p = Inr art
    \<and> ts_files s' = (ts_files s)(output_path mid \<mapsto> tv_dump env (artifact_json art))
    \<and> model_row mid (ts_db s') = Some r' \<and> run_completed mid art r'"
proof -
  let ?xs = "map (\<lambda>t. FromRecord (tel_record t)) (dataset_rows ds (ts_db s))"
  obtain art where art: "TrainPcaFromSamples ?xs (int k) p = Inr art"
    using train_samples [OF assms(12,13), of ?xs p] assms(11) by auto
  obtain out s' where run: "train_job env mid ds (int k) p s = (out, s')"
    by fastforce
  have "TrainPcaFromDb (tv_fuel env) (tv_read_faults env) (tv_batch_size env) ds (int k) p (claimed mid (ts_db s)) = Some (Inr art)"
    using train_claimed [OF assms(1,6,9,10)] art by simp
  from train_job_ends [OF assms(1,2,4) this assms(14) run] show ?thesis
    using assms(3,5,7,8) art run by (auto simp: train_failure_def)
qed

theorem train_job_complete_witness:
  "\<exists>s' r'. train_job ex_train_env ''m1'' ''d1'' 2 95 ex_train_state = (Returned Train_ended, s')
     \<and> ts_files s' ''artifacts/pca/m1/model.json'' = Some ''artifact'' \<and> model_row ''m1'' (ts_db s') = Some r' \<and> mr_status r' = ''COMPLETED''"
proof -
  have db: "ts_db ex_train_state = ex_train_db"
    by (simp add: ex_train_state_def)
  obtain r1 where r1: "model_row ''m1'' (claimed ''m1'' ex_train_db) = Some r1"
    using ex_train_claimed(1) by blast
  have n: "dataset_rows ''d1'' ex_train_db = dataset_rows ''d1'' ex_dataset"
    using ex_train_claimed(2) by simp
  show ?thesis
    using train_job_complete [of ex_train_state "''m1''" _ ex_train_env "''d1''" 2 r1 95] ex_train_reachable ex_train_row r1
    by (auto simp: db n ex_dataset_rows ex_train_env_def new_model_run_def train_batch_size_def kSize_def run_completed_def output_path_def)
qed

end
