(* ===== verification/Api_Jobs.thy ===== *)
theory Api_Jobs
  imports Train_Job Hpo Job_Manager Model_Cache
begin

text \<open>
  The handlers of \<^verbatim>\<open>src/src/api_server.cpp\<close> that start and cancel background jobs: \<^verbatim>\<open>POST /train\<close> with
  and without a hyper-parameter search, the rerun of failed trials, \<^verbatim>\<open>POST /jobs/score_dataset\<close>, and the two \<^verbatim>\<open>DELETE\<close> handlers. A
  handler maps the state of the server to a response and the new state; an exception that leaves
  the handler's \<^verbatim>\<open>try\<close> block is turned into a response as the code does. The function handed to the
  job manager is recorded as a \<open>work\<close>; the functions themselves are \<open>train_job\<close> (\<open>Train_Job\<close>),
  \<open>score_job\<close> (\<open>Score_Job\<close>) and \<open>tuning_job\<close> (\<open>Tuning\<close>).
\<close>

section \<open>State\<close>

record TuningTask =
  tt_parent_run_id :: string
  tt_name :: string
  tt_dataset_id :: string
  tt_rid :: string
  tt_trials :: "TrainingConfig list"
  tt_max_concurrency :: int

datatype work =
    Train_work string string int real
  | Tuning_work TuningTask
  | Score_work string string string

record api =
  ap_db :: db
  ap_jobs :: JobManager
  ap_work :: "(string \<times> work) list"
  ap_cache :: PcaModelCache
  ap_registry :: MetricsRegistry

text \<open>The library functions and services a handler uses, and the failures of its calls to the store.\<close>

record api_env =
  av_parse :: "string \<Rightarrow> json cpp"
  av_dump :: "json \<Rightarrow> string"
  av_hash :: "string \<Rightarrow> size_t"
  av_draw :: "nat \<Rightarrow> nat \<Rightarrow> nat \<Rightarrow> nat"
  av_clock :: int
  av_now :: int
  av_uuid :: "nat \<Rightarrow> string"
  av_fault :: "nat \<Rightarrow> cpp_exception option"
  av_time_text :: "int \<Rightarrow> string"

definition send_error :: "string \<Rightarrow> int \<Rightarrow> string \<Rightarrow> string \<Rightarrow> api \<Rightarrow> HttpResponse outcome \<times> api" where
  "send_error message status code rid a =
     (case SendError message status code rid (ap_registry a) of (resp, reg) \<Rightarrow> (Returned resp, a\<lparr>ap_registry := reg\<rparr>))"

definition submit :: "string \<Rightarrow> string \<Rightarrow> work \<Rightarrow> api \<Rightarrow> unit outcome \<times> api" where
  "submit job_id rid w a =
     (case StartJob job_id rid (ap_jobs a) of
        (Returned u, m) \<Rightarrow> (Returned (), a\<lparr>ap_jobs := m, ap_work := ap_work a @ [(job_id, w)]\<rparr>)
      | (out, m) \<Rightarrow> (out, a\<lparr>ap_jobs := m\<rparr>))"

text \<open>Go on after a call that may throw or end the process.\<close>

definition after :: "'a outcome \<times> 's \<Rightarrow> ('a \<Rightarrow> 's \<Rightarrow> 'b outcome \<times> 's) \<Rightarrow> 'b outcome \<times> 's" where
  "after m k =
     (case m of
        (Returned x, s) \<Rightarrow> k x s
      | (Threw e, s) \<Rightarrow> (Threw e, s)
      | (Terminated, s) \<Rightarrow> (Terminated, s)
      | (Undefined, s) \<Rightarrow> (Undefined, s))"

lemma after_simps [simp]:
  "after (Returned x, s) k = k x s" "after (Threw e, s) k = (Threw e, s)" "after (Terminated, s) k = (Terminated, s)"
  "after (Undefined, s) k = (Undefined, s)"
  by (simp_all add: after_def)

definition RunPcaTraining :: "string \<Rightarrow> string \<Rightarrow> int \<Rightarrow> real \<Rightarrow> string \<Rightarrow> api \<Rightarrow> unit outcome \<times> api" where
  "RunPcaTraining mid dataset_id n_comp pct rid a = submit (''train-'' @ mid) rid (Train_work mid dataset_id n_comp pct) a"

definition OrchestrateTuning :: "TuningTask \<Rightarrow> api \<Rightarrow> unit outcome \<times> api" where
  "OrchestrateTuning task a = submit (''tuning-'' @ tt_parent_run_id task) (tt_rid task) (Tuning_work task) a"

section \<open>POST /train\<close>

definition train_params :: "json \<Rightarrow> (string \<times> string \<times> int \<times> real) cpp" where
  "train_params j =
     cbind (cbind (jrequire j ''dataset_id'') jget_string) (\<lambda>dataset_id.
     cbind (jvalue jget_string j ''name'' ''pca_default'') (\<lambda>name.
     cbind (jvalue jget_int j ''n_components'' 3) (\<lambda>n_comp.
     cbind (jvalue jget_double j ''percentile'' (995 / 10)) (\<lambda>pct. Inr (dataset_id, name, n_comp, pct)))))"

text \<open>A member that the code reads only if it is present.\<close>

definition jopt :: "(json \<Rightarrow> 'a cpp) \<Rightarrow> json \<Rightarrow> string \<Rightarrow> 'a \<Rightarrow> 'a cpp" where
  "jopt get j k dflt = (if jcontains j k then cbind (jat j k) get else Inr dflt)"

definition parse_hpo :: "json \<Rightarrow> HpoConfig cpp" where
  "parse_hpo c =
     cbind (jvalue jget_string c ''algorithm'' ''grid'') (\<lambda>algorithm.
     cbind (jvalue jget_int c ''max_trials'' 10) (\<lambda>max_trials.
     cbind (jvalue jget_int c ''max_concurrency'' 2) (\<lambda>max_concurrency.
     cbind (jopt (\<lambda>v. cbind (jget_int v) (\<lambda>i. Inr (Some i))) c ''seed'' None) (\<lambda>seed.
     cbind (jopt Inr c ''search_space'' (JObj [])) (\<lambda>ss.
     cbind (jopt jget_ints ss ''n_components'' []) (\<lambda>ns.
     cbind (jopt jget_vector ss ''percentile'' []) (\<lambda>ps.
       Inr \<lparr>hpo_algorithm = algorithm, hpo_max_trials = max_trials, hpo_max_concurrency = max_concurrency, hpo_seed = seed,
            hpo_n_components = ns, hpo_percentile = ps\<rparr>)))))))"

definition training_config :: "string \<Rightarrow> int \<Rightarrow> real \<Rightarrow> json" where
  "training_config dataset_id n_comp pct = jobject
     [(''dataset_id'', JStr dataset_id), (''n_components'', JInt n_comp), (''percentile'', JReal pct),
      (''feature_set'', JStr ''cpu,mem,disk,rx,tx'')]"

definition hpo_errors_json :: "HpoValidationError list \<Rightarrow> json" where
  "hpo_errors_json errs =
     jset2 ''error'' ''field_errors'' (JArr (map (\<lambda>e. jobject [(''field'', JStr (ve_field e)), (''message'', JStr (ve_message e))]) errs))
       (jset2 ''error'' ''code'' (JStr kErrHttpInvalidArgument)
         (jset2 ''error'' ''message'' (JStr ''Invalid HPO configuration'') JNull))"

fun cap_reason :: "HpoCapReason \<Rightarrow> string" where
  "cap_reason NONE = ''NONE''"
| "cap_reason MAX_TRIALS = ''MAX_TRIALS''"
| "cap_reason GRID_CAP = ''GRID_CAP''"

definition preflight_json :: "HpoPreflight \<Rightarrow> json" where
  "preflight_json p = jobject
     [(''estimated_candidates'', JInt (estimated_candidates p)), (''effective_trials'', JInt (effective_trials p)),
      (''capped_by'', JStr (cap_reason (capped_by p)))]"

definition train_response :: "string \<Rightarrow> HpoConfig option \<Rightarrow> json" where
  "train_response mid hpo =
     (let resp = jobject [(''model_run_id'', JStr mid), (''status'', JStr ''PENDING'')] in
      case hpo of None \<Rightarrow> resp | Some h \<Rightarrow> jset ''hpo_preflight'' (preflight_json (PreflightHpoConfig h)) resp)"

text \<open>
  The model run is created, then its job is started. \<open>hpo\<close> is the validated search configuration with
  its document; an empty document does not pass the validation.
\<close>

definition train_create ::
  "api_env \<Rightarrow> string \<Rightarrow> string \<Rightarrow> string \<Rightarrow> int \<Rightarrow> real \<Rightarrow> (json \<times> HpoConfig) option \<Rightarrow> api \<Rightarrow> HttpResponse outcome \<times> api" where
  "train_create env rid dataset_id name n_comp pct hpo a =
     (case (case hpo of
              None \<Rightarrow> CreateModelRun (av_fault env 0) (av_now env) (av_uuid env 0) dataset_id name (training_config dataset_id n_comp pct) rid
                        (JObj []) '''' '''' None (ap_db a)
            | Some (c, h) \<Rightarrow> CreateModelRun (av_fault env 0) (av_now env) (av_uuid env 0) dataset_id name (training_config dataset_id n_comp pct) rid
                        c (ComputeCandidateFingerprint (av_dump env) (av_hash env) h) kHpoGeneratorVersion (hpo_seed h) (ap_db a)) of
        (Inl e, d) \<Rightarrow> (Threw e, a\<lparr>ap_db := d\<rparr>)
      | (Inr mid, d) \<Rightarrow>
          (let a1 = a\<lparr>ap_db := d\<rparr> in
           if mid = '''' then send_error ''Failed to create model run in DB'' 500 kErrDbInsertFailed rid a1
           else
             after (case hpo of
                      None \<Rightarrow> RunPcaTraining mid dataset_id n_comp pct rid a1
                    | Some (c, h) \<Rightarrow>
                        OrchestrateTuning
                          \<lparr>tt_parent_run_id = mid, tt_name = name, tt_dataset_id = dataset_id, tt_rid = rid,
                           tt_trials = GenerateTrials (av_draw env) (av_clock env) h dataset_id,
                           tt_max_concurrency = clamp (hpo_max_concurrency h) 1 10\<rparr> a1)
               (\<lambda>u a2. (Returned (SendJson (train_response mid (map_option snd hpo)) 202 rid), a2))))"

definition train_try_block :: "api_env \<Rightarrow> HttpRequest \<Rightarrow> api \<Rightarrow> HttpResponse outcome \<times> api" where
  "train_try_block env req a =
     (let rid = hr_rid req in
      or_throw (av_parse env (hr_body req)) a (\<lambda>j.
      or_throw (train_params j) a (\<lambda>(dataset_id, name, n_comp, pct).
      if n_comp \<le> 0 \<or> n_comp > 5 then send_error ''n_components must be between 1 and 5'' 400 kErrHttpBadRequest rid a
      else if pct < 50 \<or> pct \<ge> 100 then send_error ''percentile must be between 50.0 and 99.99'' 400 kErrHttpBadRequest rid a
      else if \<not> jcontains j ''hpo_config'' then train_create env rid dataset_id name n_comp pct None a
      else
        or_throw (jat j ''hpo_config'') a (\<lambda>c.
        or_throw (parse_hpo c) a (\<lambda>h.
        if ValidateHpoConfig h \<noteq> [] then (Returned (SendJson (hpo_errors_json (ValidateHpoConfig h)) 400 rid), a)
        else train_create env rid dataset_id name n_comp pct (Some (c, h)) a)))))"

definition train_error_status :: "cpp_exception \<Rightarrow> string \<times> int" where
  "train_error_status e =
     (if contains (what e) ''Job queue full'' then (kErrHttpResourceExhausted, 503)
      else (ClassifyHttpError e, if client_error (ClassifyHttpError e) then 400 else 500))"

definition HandleTrainModel :: "api_env \<Rightarrow> HttpRequest \<Rightarrow> api \<Rightarrow> HttpResponse outcome \<times> api" where
  "HandleTrainModel env req a =
     (case train_try_block env req a of
        (Threw e, a1) \<Rightarrow>
          (case train_error_status e of (code, status) \<Rightarrow> send_error (''Error: '' @ what e) status code (hr_rid req) a1)
      | r \<Rightarrow> r)"

section \<open>What a training request leaves behind\<close>

definition untouched :: "api \<Rightarrow> api \<Rightarrow> bool" where
  "untouched a a' \<longleftrightarrow> ap_db a' = ap_db a \<and> ap_jobs a' = ap_jobs a \<and> ap_work a' = ap_work a"

lemma untouched_refl [simp]: "untouched a a"
  by (simp add: untouched_def)

text \<open>One new PENDING model run, and one new job that works on it with parameters in range.\<close>

definition train_accepted :: "api_env \<Rightarrow> api \<Rightarrow> api \<Rightarrow> bool" where
  "train_accepted env a a' \<longleftrightarrow>
     (\<exists>jid w row ds. ap_work a' = ap_work a @ [(jid, w)] \<and> model_runs (ap_db a') = model_runs (ap_db a) @ [row]
        \<and> mr_status row = ''PENDING'' \<and> mr_dataset_id row = ds \<and> has_dataset (ap_db a) ds \<and> \<not> has_model (ap_db a) (mr_model_run_id row)
        \<and> (\<exists>info. map_get (jobs (ap_jobs a')) jid = Some info \<and> ji_status info = RUNNING)
        \<and> ((\<exists>n p. jid = ''train-'' @ mr_model_run_id row \<and> w = Train_work (mr_model_run_id row) ds n p
               \<and> 1 \<le> n \<and> n \<le> 5 \<and> 50 \<le> p \<and> p < 100)
           \<or> (\<exists>h task. jid = ''tuning-'' @ mr_model_run_id row \<and> w = Tuning_work task \<and> tt_parent_run_id task = mr_model_run_id row
               \<and> tt_dataset_id task = ds \<and> ValidateHpoConfig h = [] \<and> tt_trials task = GenerateTrials (av_draw env) (av_clock env) h ds
               \<and> 1 \<le> tt_max_concurrency task \<and> tt_max_concurrency task \<le> 10)))"

definition job_refused :: "cpp_exception \<Rightarrow> bool" where
  "job_refused e \<longleftrightarrow> e = Runtime_error ''JobManager is stopping'' \<or> e = Runtime_error ''Job queue full: max concurrent jobs reached''"

lemma StartJob_results:
  assumes "StartJob jid rid m = (out, m')"
  obtains (started) info where "out = Returned ()" "map_get (jobs m') jid = Some info" "ji_status info = RUNNING"
  | (refused) e where "out = Threw e" "job_refused e"
  | (terminated) "out = Terminated"
  using assms by (auto simp: StartJob_def Let_def job_refused_def split: if_splits)

lemma submit_cases:
  assumes "submit jid rid w a = (out, a')"
  obtains (started) info where "out = Returned ()" "map_get (jobs (ap_jobs a')) jid = Some info" "ji_status info = RUNNING"
      "ap_work a' = ap_work a @ [(jid, w)]" "ap_db a' = ap_db a"
  | (refused) e where "out = Threw e" "job_refused e" "ap_work a' = ap_work a" "ap_db a' = ap_db a"
  | (terminated) "out = Terminated" "ap_work a' = ap_work a" "ap_db a' = ap_db a"
proof -
  obtain o1 m where s: "StartJob jid rid (ap_jobs a) = (o1, m)"
    by fastforce
  then show thesis
    by (cases rule: StartJob_results) (use assms that s in \<open>auto simp: submit_def\<close>)
qed

lemma CreateModelRun_cases:
  assumes "CreateModelRun fault now mid ds name cfg rid hpo fp ver seed d = (out, d')"
  obtains (created) row where "out = Inr mid" "model_runs d' = model_runs d @ [row]" "mr_status row = ''PENDING''" "mr_model_run_id row = mid"
      "mr_dataset_id row = ds" "has_dataset d ds" "\<not> has_model d mid" "fault = None"
  | (failed) e where "out = Inl e" "d' = d"
  using assms by (auto simp: CreateModelRun_def transact_def new_model_run_def split: option.splits if_splits)

text \<open>The possible results of a handler's \<^verbatim>\<open>try\<close> block; only the refusal of the job leaves a new row behind an exception.\<close>

definition train_post :: "api_env \<Rightarrow> api \<Rightarrow> HttpResponse outcome \<times> api \<Rightarrow> bool" where
  "train_post env a r \<longleftrightarrow>
     (case r of (out, a') \<Rightarrow>
        (case out of
           Returned resp \<Rightarrow>
             (rs_status resp = 202 \<and> train_accepted env a a') \<or> (rs_status resp = 400 \<and> untouched a a')
             \<or> (rs_status resp = 500 \<and> ap_work a' = ap_work a)
         | Threw e \<Rightarrow> untouched a a' \<or> (job_refused e \<and> ap_work a' = ap_work a)
         | Terminated \<Rightarrow> ap_work a' = ap_work a
         | Undefined \<Rightarrow> False))"

lemma train_post_throw: "train_post env a (Threw e, a)"
  by (simp add: train_post_def)

lemma train_post_error: "st = 400 \<Longrightarrow> train_post env a (send_error m st c rid a)"
  by (auto simp: send_error_def train_post_def untouched_def SendError_def)

lemma train_create_post:
  assumes "1 \<le> n" "n \<le> 5" "50 \<le> p" "p < 100" "\<And>c h. hpo = Some (c, h) \<Longrightarrow> ValidateHpoConfig h = []"
  shows "train_post env a (train_create env rid ds name n p hpo a)"
proof -
  define created where "created = (case hpo of
              None \<Rightarrow> CreateModelRun (av_fault env 0) (av_now env) (av_uuid env 0) ds name (training_config ds n p) rid
                        (JObj []) '''' '''' None (ap_db a)
            | Some (c, h) \<Rightarrow> CreateModelRun (av_fault env 0) (av_now env) (av_uuid env 0) ds name (training_config ds n p) rid
                        c (ComputeCandidateFingerprint (av_dump env) (av_hash env) h) kHpoGeneratorVersion (hpo_seed h) (ap_db a))"
  obtain out d where c: "created = (out, d)"
    by fastforce
  obtain hp fp ver seed where c': "CreateModelRun (av_fault env 0) (av_now env) (av_uuid env 0) ds name (training_config ds n p) rid
      hp fp ver seed (ap_db a) = (out, d)"
    using c unfolding created_def by (cases hpo) auto
  note unfold = train_create_def [of env rid ds name n p hpo a, folded created_def, unfolded c]
  show ?thesis
  using c' proof (cases rule: CreateModelRun_cases)
    case (failed e)
    then show ?thesis
      by (simp add: unfold train_post_def untouched_def)
  next
    case (created row)
    define a1 where "a1 = a\<lparr>ap_db := d\<rparr>"
    have acc: "train_post env a (after (submit jid rid w a1) (\<lambda>u a2. (Returned (SendJson resp 202 rid), a2)))"
      if jw: "(\<exists>n p. jid = ''train-'' @ mr_model_run_id row \<and> w = Train_work (mr_model_run_id row) ds n p
               \<and> 1 \<le> n \<and> n \<le> 5 \<and> 50 \<le> p \<and> p < 100)
           \<or> (\<exists>h task. jid = ''tuning-'' @ mr_model_run_id row \<and> w = Tuning_work task \<and> tt_parent_run_id task = mr_model_run_id row
               \<and> tt_dataset_id task = ds \<and> ValidateHpoConfig h = [] \<and> tt_trials task = GenerateTrials (av_draw env) (av_clock env) h ds
               \<and> 1 \<le> tt_max_concurrency task \<and> tt_max_concurrency task \<le> 10)" for jid w resp
    proof -
      obtain o2 a2 where s: "submit jid rid w a1 = (o2, a2)"
        by fastforce
      then show ?thesis
      proof (cases rule: submit_cases)
        case (started info)
        then have "train_accepted env a a2"
          unfolding train_accepted_def using created jw
          by (intro exI [of _ jid] exI [of _ w] exI [of _ row] exI [of _ ds]) (simp add: a1_def)
        then show ?thesis
          using s started by (simp add: train_post_def)
      qed (use s in \<open>auto simp: train_post_def a1_def\<close>)
    qed
    have err: "train_post env a (send_error m 500 code rid a1)" for m code
      by (auto simp: send_error_def train_post_def SendError_def a1_def)
    show ?thesis
    proof (cases hpo)
      case None
      have j: "(\<exists>n' p'. ''train-'' @ av_uuid env 0 = ''train-'' @ mr_model_run_id row
          \<and> Train_work (av_uuid env 0) ds n p = Train_work (mr_model_run_id row) ds n' p' \<and> 1 \<le> n' \<and> n' \<le> 5 \<and> 50 \<le> p' \<and> p' < 100)"
        using created assms by auto
      show ?thesis
        using acc [OF disjI1 [OF j]] err created None
        unfolding unfold by (simp add: Let_def a1_def [symmetric] RunPcaTraining_def)
    next
      case (Some ch)
      obtain c h where ch: "ch = (c, h)" by fastforce
      define task where "task = \<lparr>tt_parent_run_id = av_uuid env 0, tt_name = name, tt_dataset_id = ds, tt_rid = rid,
                           tt_trials = GenerateTrials (av_draw env) (av_clock env) h ds,
                           tt_max_concurrency = clamp (hpo_max_concurrency h) 1 10\<rparr>"
      have j: "\<exists>h' task'. ''tuning-'' @ av_uuid env 0 = ''tuning-'' @ mr_model_run_id row \<and> Tuning_work task = Tuning_work task'
          \<and> tt_parent_run_id task' = mr_model_run_id row
          \<and> tt_dataset_id task' = ds \<and> ValidateHpoConfig h' = [] \<and> tt_trials task' = GenerateTrials (av_draw env) (av_clock env) h' ds
          \<and> 1 \<le> tt_max_concurrency task' \<and> tt_max_concurrency task' \<le> 10"
        using created assms(5) Some ch by (intro exI [of _ h] exI [of _ task]) (simp add: task_def clamp_def)
      show ?thesis
        using acc [OF disjI2 [OF j]] err created Some ch
        unfolding unfold by (simp add: Let_def a1_def [symmetric] OrchestrateTuning_def task_def [symmetric])
    qed
  qed
qed

lemmas or_throw_post = or_throw_rule [where P = "train_post env a" for env a, OF train_post_throw]

lemma train_try_block_post: "train_post env a (train_try_block env req a)"
proof -
  have hpo: "train_post env a (if ValidateHpoConfig h \<noteq> [] then (Returned (SendJson (hpo_errors_json (ValidateHpoConfig h)) 400 rid), a)
        else train_create env rid ds name n p (Some (c, h)) a)"
    if "1 \<le> n" "n \<le> 5" "50 \<le> p" "p < 100" for rid ds name n p c h
    using train_create_post [OF that, of "Some (c, h)"] by (simp add: train_post_def)
  have "train_post env a
      (if n \<le> 0 \<or> n > 5 then send_error ''n_components must be between 1 and 5'' 400 kErrHttpBadRequest rid a
      else if p < 50 \<or> p \<ge> 100 then send_error ''percentile must be between 50.0 and 99.99'' 400 kErrHttpBadRequest rid a
      else if \<not> jcontains j ''hpo_config'' then train_create env rid ds name n p None a
      else
        or_throw (jat j ''hpo_config'') a (\<lambda>c.
        or_throw (parse_hpo c) a (\<lambda>h.
        if ValidateHpoConfig h \<noteq> [] then (Returned (SendJson (hpo_errors_json (ValidateHpoConfig h)) 400 rid), a)
        else train_create env rid ds name n p (Some (c, h)) a)))" for j ds name n p rid
  proof (cases "n \<le> 0 \<or> n > 5 \<or> p < 50 \<or> p \<ge> 100")
    case True
    then show ?thesis
      using train_post_error [OF refl] by auto
  next
    case False
    then have r: "1 \<le> n" "n \<le> 5" "50 \<le> p" "p < 100"
      by auto
    show ?thesis
      using False train_create_post [OF r, of None] by (auto intro!: or_throw_post hpo [OF r])
  qed
  then show ?thesis
    unfolding train_try_block_def Let_def by (intro or_throw_post) (clarsimp split del: if_split)
qed


section \<open>Properties of POST /train\<close>

lemma refused_status:
  "job_refused e \<Longrightarrow> train_error_status e = (kErrHttpResourceExhausted, 503) \<or> train_error_status e = (kErrInternal, 500)"
  by (auto simp: job_refused_def train_error_status_def client_error_def error_code_defs)

lemma train_error_status_range: "snd (train_error_status e) \<in> {400, 500, 503}"
  by (auto simp: train_error_status_def)

text \<open>
  C20. What a training request can do, for any body, any state of the server and any failure of the
  store: it is answered with 202, 400, 500 or 503 (or the process ends because the job identifier is still
  in use). 202 means that exactly one model run was created, PENDING, for an existing dataset, and that
  exactly one job was started for it, RUNNING in the job manager, with a number of components and
  a percentile in range, or with the trials generated from a valid search configuration. Any other
  answer starts no job, and 400 leaves the store and the job manager unchanged.
\<close>

theorem HandleTrainModel_safe:
  assumes "HandleTrainModel env req a = (out, a')"
  shows "case out of
      Returned resp \<Rightarrow>
        rs_status resp \<in> {202, 400, 500, 503}
        \<and> (rs_status resp = 202 \<longrightarrow> train_accepted env a a')
        \<and> (rs_status resp \<noteq> 202 \<longrightarrow> ap_work a' = ap_work a)
        \<and> (rs_status resp = 400 \<longrightarrow> untouched a a')
    | Terminated \<Rightarrow> ap_work a' = ap_work a
    | _ \<Rightarrow> False"
proof -
  obtain o1 a1 where t: "train_try_block env req a = (o1, a1)"
    by fastforce
  note post = train_try_block_post [of env a req, unfolded t train_post_def prod.case]
  show ?thesis
  proof (cases o1)
    case (Threw e)
    obtain code st where cs: "train_error_status e = (code, st)"
      by fastforce
    have "st \<in> {400, 500, 503}"
      using train_error_status_range [of e] cs by simp
    moreover have "st = 400 \<Longrightarrow> untouched a a1"
      using post refused_status [of e] cs by (auto simp: Threw)
    moreover have "ap_work a1 = ap_work a"
      using post by (auto simp: Threw untouched_def)
    moreover have "out = Returned (fst (SendError (''Error: '' @ what e) st code (hr_rid req) (ap_registry a1)))"
        "untouched a1 a'"
      using assms t cs by (auto simp: HandleTrainModel_def Threw send_error_def untouched_def split: prod.splits)
    ultimately show ?thesis
      by (auto simp: untouched_def)
  qed (use assms t post in \<open>auto simp: HandleTrainModel_def untouched_def\<close>)
qed


definition ex_api_env :: api_env where
  "ex_api_env = \<lparr>av_parse = \<lambda>s. Inr (JObj [(''dataset_id'', JStr ''d1'')]), av_dump = \<lambda>j. ''doc'', av_hash = \<lambda>s. 7, av_draw = \<lambda>s k n. 0,
     av_clock = 5, av_now = 6, av_uuid = \<lambda>k. ''m1'', av_fault = \<lambda>k. None, av_time_text = \<lambda>t. ''time''\<rparr>"

definition ex_api :: api where
  "ex_api = \<lparr>ap_db = ex_dataset, ap_jobs = new_JobManager, ap_work = [], ap_cache = new_PcaModelCache 100 536870912 3600 empty_registry, ap_registry = empty_registry\<rparr>"

definition ex_http_request :: HttpRequest where
  "ex_http_request = \<lparr>hr_body = ''body'', hr_params = [], hr_match = '''', hr_rid = ''r1''\<rparr>"

lemma ex_dataset_keys: "has_dataset ex_dataset ''d1''" "\<not> has_model ex_dataset mid"
  by (simp_all add: ex_dataset_def BatchInsertTelemetry_def CreateRun_def transact_def empty_db_def has_dataset_def has_model_def ex_record_def)

text \<open>
  A valid training request is served: with an existing dataset, parameters in range (3 components and
  percentile 99.5 by default) and no search, the new model run is answered with 202 when the
  job manager starts the job. When the job queue is full the answer is 503, but the model run has
  already been created: it stays PENDING although no job will ever work on it.
\<close>

theorem HandleTrainModel_accepts:
  assumes "av_parse env (hr_body req) = Inr j" "train_params j = Inr (ds, name, n, p)" "1 \<le> n" "n \<le> 5" "50 \<le> p" "p < 100"
    and "\<not> jcontains j ''hpo_config''" "av_fault env 0 = None" "has_dataset (ap_db a) ds" "\<not> has_model (ap_db a) (av_uuid env 0)"
    and "av_uuid env 0 \<noteq> ''''" "StartJob (''train-'' @ av_uuid env 0) (hr_rid req) (ap_jobs a) = (answer, m)"
  shows "(answer = Returned () \<longrightarrow>
        (\<exists>a'. HandleTrainModel env req a = (Returned (SendJson (train_response (av_uuid env 0) None) 202 (hr_rid req)), a')
           \<and> ap_jobs a' = m \<and> ap_work a' = ap_work a @ [(''train-'' @ av_uuid env 0, Train_work (av_uuid env 0) ds n p)]
           \<and> (\<exists>row. model_runs (ap_db a') = model_runs (ap_db a) @ [row] \<and> mr_status row = ''PENDING'' \<and> mr_model_run_id row = av_uuid env 0)))
    \<and> (answer = Threw (Runtime_error ''Job queue full: max concurrent jobs reached'') \<longrightarrow>
        (\<exists>resp a'. HandleTrainModel env req a = (Returned resp, a') \<and> rs_status resp = 503 \<and> ap_work a' = ap_work a
           \<and> (\<exists>row. model_runs (ap_db a') = model_runs (ap_db a) @ [row] \<and> mr_status row = ''PENDING'' \<and> mr_model_run_id row = av_uuid env 0)))"
proof -
  obtain out d where c: "CreateModelRun (av_fault env 0) (av_now env) (av_uuid env 0) ds name (training_config ds n p) (hr_rid req)
      (JObj []) '''' '''' None (ap_db a) = (out, d)"
    by fastforce
  from c assms(8-10) obtain row where row: "out = Inr (av_uuid env 0)" "model_runs d = model_runs (ap_db a) @ [row]"
      "mr_status row = ''PENDING''" "mr_model_run_id row = av_uuid env 0"
    by (auto simp: CreateModelRun_def transact_def new_model_run_def)
  have t: "train_try_block env req a =
      after (submit (''train-'' @ av_uuid env 0) (hr_rid req) (Train_work (av_uuid env 0) ds n p) (a\<lparr>ap_db := d\<rparr>))
        (\<lambda>u a2. (Returned (SendJson (train_response (av_uuid env 0) None) 202 (hr_rid req)), a2))"
    using assms(1-7,11) c row(1) by (simp add: train_try_block_def train_create_def Let_def RunPcaTraining_def)
  show ?thesis
    using t assms(12) row
    by (auto simp: HandleTrainModel_def submit_def train_error_status_def send_error_def SendError_def)
qed

theorem HandleTrainModel_safe_witness:
  "\<exists>resp a'. HandleTrainModel ex_api_env ex_http_request ex_api = (Returned resp, a') \<and> rs_status resp \<in> {202, 400, 500, 503}"
proof -
  obtain out a' where r: "HandleTrainModel ex_api_env ex_http_request ex_api = (out, a')"
    by fastforce
  have "out \<noteq> Terminated"
    using r by (auto simp: HandleTrainModel_def train_try_block_def train_create_def ex_api_env_def ex_api_def ex_http_request_def train_params_def
        CreateModelRun_def transact_def ex_dataset_keys RunPcaTraining_def submit_def StartJob_def CleanupFinishedThreads_def new_JobManager_def
        send_error_def SendError_def Let_def split: prod.splits)
  then show ?thesis
    using HandleTrainModel_safe [OF r] r by (cases out) auto
qed

theorem HandleTrainModel_accepts_witness:
  "\<exists>resp a'. HandleTrainModel ex_api_env ex_http_request (ex_api\<lparr>ap_jobs := new_JobManager\<lparr>max_jobs := 0\<rparr>\<rparr>) = (Returned resp, a')
     \<and> rs_status resp = 503 \<and> ap_work a' = []"
proof -
  obtain m where m: "StartJob ''train-m1'' ''r1'' (new_JobManager\<lparr>max_jobs := 0\<rparr>) =
      (Threw (Runtime_error ''Job queue full: max concurrent jobs reached''), m)"
    by (simp add: StartJob_def CleanupFinishedThreads_def new_JobManager_def Let_def)
  show ?thesis
    using HandleTrainModel_accepts [of ex_api_env ex_http_request "JObj [(''dataset_id'', JStr ''d1'')]" "''d1''" "''pca_default''" 3 "995 / 10"
        "ex_api\<lparr>ap_jobs := new_JobManager\<lparr>max_jobs := 0\<rparr>\<rparr>" _ m] m
    by (auto simp: ex_api_env_def ex_api_def ex_http_request_def train_params_def ex_dataset_keys)
qed

end
