(* ===== verification/Tuning.thy ===== *)
theory Tuning
  imports Api_Jobs
begin

text \<open>
  The background job that runs a hyper-parameter search: the function that \<^verbatim>\<open>ApiServer::OrchestrateTuning\<close>
  (\<^verbatim>\<open>src/src/api_server.cpp\<close>) hands to the job manager. It creates one model run per trial, then
  starts their training jobs, at most \<^verbatim>\<open>max_concurrency\<close> at a time, and polls the store until all have ended.
  What the trial jobs, other clients and the job manager's workers do during a round is the parameter \<open>uv_between\<close>.
\<close>

section \<open>The work function\<close>

record tuning_env =
  uv_claim_fault :: "cpp_exception option"
  uv_get_fault :: "cpp_exception option"
  uv_trial_fault :: "nat \<Rightarrow> cpp_exception option"
  uv_uuid :: "nat \<Rightarrow> string"
  uv_stop :: "nat \<Rightarrow> bool"
  uv_cancel_fault :: "cpp_exception option"
  uv_beat_fault :: "nat \<Rightarrow> cpp_exception option"
  uv_between :: "nat \<Rightarrow> db \<times> JobManager \<Rightarrow> db \<times> JobManager"
  uv_poll_fault :: "nat \<Rightarrow> string \<Rightarrow> cpp_exception option"
  uv_now :: "nat \<Rightarrow> int"
  uv_time_text :: "int \<Rightarrow> string"

datatype tuning_end = Tuning_skipped | Tuning_done | Tuning_cancelled | Tuning_running

type_synonym active_trials = "(string, bool) std_map"

definition trial_params :: "TrainingConfig \<Rightarrow> json" where
  "trial_params c = jobject [(''n_components'', JInt (tc_n_components c)), (''percentile'', JReal (tc_percentile c))]"

fun create_trials :: "tuning_env \<Rightarrow> TuningTask \<Rightarrow> nat \<Rightarrow> TrainingConfig list \<Rightarrow> string list \<Rightarrow> db \<Rightarrow> string list cpp \<times> db" where
  "create_trials env task idx [] ids d = (Inr ids, d)"
| "create_trials env task idx (c # cs) ids d =
     (case CreateHpoTrialRun (uv_trial_fault env idx) (uv_now env 0) (uv_uuid env idx) (tt_dataset_id task)
             (tt_name task @ ''_trial_'' @ to_string (int idx)) (training_config (tt_dataset_id task) (tc_n_components c) (tc_percentile c))
             (tt_rid task) (tt_parent_run_id task) (int idx) (trial_params c) d of
        (Inl e, d1) \<Rightarrow> (Inl e, d1)
      | (Inr tid, d1) \<Rightarrow> create_trials env task (Suc idx) cs (if tid = '''' then ids else ids @ [tid]) d1)"

definition max_active :: "TuningTask \<Rightarrow> nat" where
  "max_active task = unat (word_of_int (tt_max_concurrency task) :: size_t)"

text \<open>Start new trials up to the concurrency limit; \<open>nxt\<close> is the number of the next one.\<close>

function start_trials ::
  "TuningTask \<Rightarrow> string list \<Rightarrow> nat \<Rightarrow> active_trials \<Rightarrow> api \<Rightarrow> (nat \<times> active_trials) outcome \<times> api" where
  "start_trials task ids nxt act a =
     (if nxt < length ids \<and> length act < max_active task then
        after (RunPcaTraining (ids ! nxt) (tt_dataset_id task) (tc_n_components (tt_trials task ! nxt))
                 (tc_percentile (tt_trials task ! nxt)) (tt_rid task) a)
          (\<lambda>u a1. start_trials task ids (Suc nxt) (map_put (ids ! nxt) True act) a1)
      else (Returned (nxt, act), a))"
  by pat_completeness auto
termination
  by (relation "measure (\<lambda>(task, ids, nxt, act, a). length ids - nxt)") auto

declare start_trials.simps [simp del]

definition trial_ended :: "string \<Rightarrow> bool" where
  "trial_ended st \<longleftrightarrow> st = ''COMPLETED'' \<or> st = ''FAILED'' \<or> st = ''CANCELLED''"

primrec poll_trials :: "(string \<Rightarrow> cpp_exception option) \<Rightarrow> (int \<Rightarrow> string) \<Rightarrow> db \<Rightarrow> active_trials \<Rightarrow> active_trials cpp" where
  "poll_trials fault ts d [] = Inr []"
| "poll_trials fault ts d (e # act) =
     cbind (cbind (jat (GetModelRun (fault (fst e)) ts (fst e) d) ''status'') jget_string) (\<lambda>st.
     cbind (poll_trials fault ts d act) (\<lambda>rest. Inr (if trial_ended st then rest else e # rest)))"

text \<open>The loop; \<open>k\<close> counts its rounds, and it is cut off after \<open>n\<close> of them.\<close>

fun tuning_loop ::
  "nat \<Rightarrow> tuning_env \<Rightarrow> TuningTask \<Rightarrow> string list \<Rightarrow> nat \<Rightarrow> nat \<Rightarrow> active_trials \<Rightarrow> api \<Rightarrow> tuning_end outcome \<times> api" where
  "tuning_loop 0 env task ids k nxt act a = (Returned Tuning_running, a)"
| "tuning_loop (Suc n) env task ids k nxt act a =
     (if nxt < length ids \<or> act \<noteq> [] then
        if uv_stop env k then
          (Returned Tuning_cancelled,
           a\<lparr>ap_db := UpdateModelRunStatus (uv_cancel_fault env) (uv_now env 1) (tt_parent_run_id task) ''CANCELLED'' '''' '''' JNull (ap_db a)\<rparr>)
        else
          after (start_trials task ids nxt act a) (\<lambda>(nxt1, act1) a1.
            (case uv_between env k (Heartbeat (uv_beat_fault env k) (uv_now env (2 + k)) ModelRun (tt_parent_run_id task) (ap_db a1), ap_jobs a1) of
               (d2, m2) \<Rightarrow>
                 (let a2 = a1\<lparr>ap_db := d2, ap_jobs := m2\<rparr> in
                  or_throw (poll_trials (uv_poll_fault env k) (uv_time_text env) d2 act1) a2 (\<lambda>act2.
                    tuning_loop n env task ids (Suc k) nxt1 act2 a2))))
      else (Returned Tuning_done, a))"

definition tuning_job :: "nat \<Rightarrow> tuning_env \<Rightarrow> TuningTask \<Rightarrow> api \<Rightarrow> tuning_end outcome \<times> api" where
  "tuning_job fuel env task a =
     (case TryTransitionModelRunStatus (uv_claim_fault env) (tt_parent_run_id task) ''PENDING'' ''RUNNING'' (ap_db a) of (won, d1) \<Rightarrow>
      or_throw (if won then Inr ''RUNNING''
                else jvalue jget_string (GetModelRun (uv_get_fault env) (uv_time_text env) (tt_parent_run_id task) d1) ''status'' '''')
        (a\<lparr>ap_db := d1\<rparr>) (\<lambda>status.
      if status \<noteq> ''RUNNING'' then (Returned Tuning_skipped, a\<lparr>ap_db := d1\<rparr>)
      else
        (case create_trials env task 0 (tt_trials task) [] d1 of
           (Inl e, d2) \<Rightarrow> (Threw e, a\<lparr>ap_db := d2\<rparr>)
         | (Inr ids, d2) \<Rightarrow> tuning_loop fuel env task ids 0 0 [] (a\<lparr>ap_db := d2\<rparr>))))"

section \<open>Which trials are started\<close>

definition trial_work :: "TuningTask \<Rightarrow> string list \<Rightarrow> nat \<Rightarrow> string \<times> work" where
  "trial_work task ids i =
     (''train-'' @ ids ! i,
      Train_work (ids ! i) (tt_dataset_id task) (tc_n_components (tt_trials task ! i)) (tc_percentile (tt_trials task ! i)))"

text \<open>After the trials below \<open>nxt\<close> have been started, exactly these have been submitted, and at most the limit is active.\<close>

definition started_upto :: "TuningTask \<Rightarrow> string list \<Rightarrow> (string \<times> work) list \<Rightarrow> nat \<Rightarrow> active_trials \<Rightarrow> api \<Rightarrow> bool" where
  "started_upto task ids w0 nxt act a \<longleftrightarrow>
     nxt \<le> length ids \<and> ap_work a = w0 @ map (trial_work task ids) [0..<nxt] \<and> length act \<le> max_active task
     \<and> fst ` set act \<subseteq> set (take nxt ids)"

lemma length_map_put: "length (map_put k v m) \<le> Suc (length m)"
  by (induction m) auto

lemma start_trials_started:
  assumes "started_upto task ids w0 nxt act a" "start_trials task ids nxt act a = (out, a')"
  shows "case out of
      Returned (nxt', act') \<Rightarrow> started_upto task ids w0 nxt' act' a' \<and> nxt \<le> nxt'
    | _ \<Rightarrow> \<exists>n \<le> length ids. nxt \<le> n \<and> ap_work a' = w0 @ map (trial_work task ids) [0..<n]"
  using assms
proof (induction task ids nxt act a rule: start_trials.induct)
  case (1 task ids nxt act a)
  note unfold = start_trials.simps [of task ids nxt act a]
  show ?case
  proof (cases "nxt < length ids \<and> length act < max_active task")
    case False
    then have "out = Returned (nxt, act)" "a' = a"
      using 1(3) unfolding unfold if_not_P [OF False] by simp_all
    then show ?thesis
      using 1(2) by simp
  next
    case True
    obtain o1 a1 where s: "RunPcaTraining (ids ! nxt) (tt_dataset_id task) (tc_n_components (tt_trials task ! nxt))
        (tc_percentile (tt_trials task ! nxt)) (tt_rid task) a = (o1, a1)"
      by fastforce
    have rec: "after (o1, a1) (\<lambda>u a1. start_trials task ids (Suc nxt) (map_put (ids ! nxt) True act) a1) = (out, a')"
      using 1(3) unfolding unfold if_P [OF True] s .
    from s [unfolded RunPcaTraining_def] show ?thesis
    proof (cases rule: submit_cases)
      case (started info)
      have "fst ` set (map_put (ids ! nxt) True act) \<subseteq> set (take (Suc nxt) ids)"
        using 1(2) True by (auto simp: started_upto_def take_Suc_conv_app_nth)
      then have "started_upto task ids w0 (Suc nxt) (map_put (ids ! nxt) True act) a1"
        using 1(2) True started(4) length_map_put [of "ids ! nxt" True act] by (auto simp: started_upto_def trial_work_def)
      from 1(1) [OF True this] rec started(1) show ?thesis
        using length_map_put [of "ids ! nxt" True act] by (auto split: outcome.splits)
    qed (use 1(2) True rec in \<open>auto simp: started_upto_def intro!: exI [of _ nxt]\<close>)
  qed
qed

lemma poll_trials_subset:
  "poll_trials fault ts d act = Inr act' \<Longrightarrow> set act' \<subseteq> set act \<and> length act' \<le> length act"
  by (induction act arbitrary: act') (fastforce simp: cbind_Inr_iff split: if_splits)+

lemma tuning_loop_started:
  assumes "started_upto task ids w0 nxt act a" "tuning_loop n env task ids k nxt act a = (out, a')"
  shows "\<exists>m \<le> length ids. nxt \<le> m \<and> ap_work a' = w0 @ map (trial_work task ids) [0..<m] \<and> (out = Returned Tuning_done \<longrightarrow> m = length ids)"
  using assms
proof (induction n arbitrary: k nxt act a)
  case 0
  then show ?case
    by (auto simp: started_upto_def)
next
  case (Suc n)
  consider (stop) "uv_stop env k" "nxt < length ids \<or> act \<noteq> []" | (idle) "\<not> (nxt < length ids \<or> act \<noteq> [])"
    | (go) "\<not> uv_stop env k" "nxt < length ids \<or> act \<noteq> []"
    by blast
  then show ?case
  proof cases
    case stop
    then show ?thesis
      using Suc.prems by (intro exI [of _ nxt]) (auto simp: started_upto_def)
  next
    case idle
    then show ?thesis
      using Suc.prems by (intro exI [of _ nxt]) (auto simp: started_upto_def)
  next
    case go
    obtain o1 a1 where s: "start_trials task ids nxt act a = (o1, a1)"
      by fastforce
    note st = start_trials_started [OF Suc.prems(1) s]
    show ?thesis
    proof (cases "\<exists>x. o1 = Returned x")
      case True
      then obtain nxt1 act1 where o1: "o1 = Returned (nxt1, act1)"
        by fastforce
      obtain d2 m2 where b: "uv_between env k (Heartbeat (uv_beat_fault env k) (uv_now env (2 + k)) ModelRun (tt_parent_run_id task) (ap_db a1), ap_jobs a1) = (d2, m2)"
        by fastforce
      let ?a2 = "a1\<lparr>ap_db := d2, ap_jobs := m2\<rparr>"
      have run: "or_throw (poll_trials (uv_poll_fault env k) (uv_time_text env) d2 act1) ?a2 (\<lambda>act2.
          tuning_loop n env task ids (Suc k) nxt1 act2 ?a2) = (out, a')"
        using Suc.prems(2) go by (simp add: s o1 b [simplified] Let_def)
      have st1: "started_upto task ids w0 nxt1 act1 ?a2" "nxt \<le> nxt1"
        using st by (auto simp: o1 started_upto_def)
      show ?thesis
      proof (cases "poll_trials (uv_poll_fault env k) (uv_time_text env) d2 act1")
        case (Inl e)
        then show ?thesis
          using run st1 by (intro exI [of _ nxt1]) (auto simp: started_upto_def)
      next
        case (Inr act2)
        have "started_upto task ids w0 nxt1 act2 ?a2"
          using st1(1) poll_trials_subset [OF Inr] by (auto simp: started_upto_def)
        from Suc.IH [OF this] run Inr st1(2) show ?thesis
          by fastforce
      qed
    next
      case False
      then show ?thesis
        using st Suc.prems(2) go by (cases o1) (auto simp: s)
    qed
  qed
qed


lemma create_trials_ids:
  assumes "\<forall>i. uv_uuid env i \<noteq> ''''" "create_trials env task idx cs ids d = (Inr ids', d')"
  shows "ids' = ids @ map (uv_uuid env) [idx..<idx + length cs]"
  using assms(2)
proof (induction cs arbitrary: idx ids d)
  case (Cons c cs)
  obtain out d1 where c: "CreateHpoTrialRun (uv_trial_fault env idx) (uv_now env 0) (uv_uuid env idx) (tt_dataset_id task)
             (tt_name task @ ''_trial_'' @ to_string (int idx)) (training_config (tt_dataset_id task) (tc_n_components c) (tc_percentile c))
             (tt_rid task) (tt_parent_run_id task) (int idx) (trial_params c) d = (out, d1)"
    by fastforce
  show ?case
  proof (cases out)
    case (Inl e)
    then show ?thesis using Cons.prems c by simp
  next
    case (Inr tid)
    then have "tid = uv_uuid env idx"
      using c by (auto simp: CreateHpoTrialRun_def transact_def split: option.splits if_splits)
    then show ?thesis
      using Cons.IH [of "Suc idx" "ids @ [tid]" d1] Cons.prems c Inr assms(1) by (simp add: upt_conv_Cons del: upt_Suc)
  qed
qed simp

section \<open>Properties\<close>

definition trial_ids :: "tuning_env \<Rightarrow> TuningTask \<Rightarrow> string list" where
  "trial_ids env task = map (uv_uuid env) [0..<length (tt_trials task)]"

text \<open>
  C21. The trials of a search are started in order, each at most once and each with its own number of
  components and percentile, whatever happens in between: the jobs a tuning job
  submits are those of the first \<open>m\<close> trials, and when it ends normally, of all trials. No two of
  them are started for the same trial, however the rounds, failures and cancellations interleave.
\<close>

theorem tuning_starts_trials_in_order:
  assumes "\<forall>i. uv_uuid env i \<noteq> ''''" "tuning_job fuel env task a = (out, a')"
  shows "\<exists>m \<le> length (tt_trials task).
      ap_work a' = ap_work a @ map (trial_work task (trial_ids env task)) [0..<m]
    \<and> (out = Returned Tuning_done \<longrightarrow> m = length (tt_trials task))"
proof -
  obtain won d1 where t: "TryTransitionModelRunStatus (uv_claim_fault env) (tt_parent_run_id task) ''PENDING'' ''RUNNING'' (ap_db a) = (won, d1)"
    by fastforce
  obtain r d2 where c: "create_trials env task 0 (tt_trials task) [] d1 = (r, d2)"
    by fastforce
  consider (none) "ap_work a' = ap_work a" "out \<noteq> Returned Tuning_done"
    | (loop) ids where "r = Inr ids" "tuning_loop fuel env task ids 0 0 [] (a\<lparr>ap_db := d2\<rparr>) = (out, a')"
    using assms(2) unfolding tuning_job_def t prod.case c
    by (cases r) (auto simp: or_throw_def split: if_splits sum.splits)
  then show ?thesis
  proof cases
    case none
    then show ?thesis by (intro exI [of _ 0]) simp
  next
    case (loop ids)
    then have ids: "ids = trial_ids env task"
      using create_trials_ids [OF assms(1), of task 0 "tt_trials task" "[]" d1 ids d2] c by (simp add: trial_ids_def)
    have "started_upto task ids (ap_work a) 0 [] (a\<lparr>ap_db := d2\<rparr>)"
      by (simp add: started_upto_def)
    from tuning_loop_started [OF this loop(2)] show ?thesis
      by (auto simp: ids trial_ids_def)
  qed
qed


subsection \<open>More trials than the job manager has room for\<close>

lemma StartJob_fresh:
  assumes "jm_reachable m" "\<not> stopping m" "current_jobs m < max_jobs m" "\<not> running m jid"
  shows "\<exists>m1. StartJob jid rid m = (Returned (), m1) \<and> jm_reachable m1 \<and> \<not> stopping m1 \<and> max_jobs m1 = max_jobs m
    \<and> current_jobs m1 = current_jobs m + 1 \<and> (\<forall>j. running m1 j \<longleftrightarrow> j = jid \<or> running m j)"
proof -
  have inv: "jm_inv m" by (rule jm.reachable_inv [OF assms(1)])
  have eq: "StartJob jid rid m = (Returned (), started jid rid (CleanupFinishedThreads m))"
    using assms(2-4) cleaned_thread_iff_running [OF inv assms(2), of jid] by (simp add: StartJob_cases not_le)
  then have "jm_reachable (started jid rid (CleanupFinishedThreads m))"
    using reachable_step [OF assms(1) start] by simp
  then show ?thesis
    using eq assms(2) by (simp add: running_started) (simp add: started_def)
qed

lemma StartJob_full:
  "\<not> stopping m \<Longrightarrow> \<not> current_jobs m < max_jobs m \<Longrightarrow>
     \<exists>m1. StartJob jid rid m = (Threw (Runtime_error ''Job queue full: max concurrent jobs reached''), m1)"
  by (simp add: StartJob_cases not_less)

lemma length_map_put_fresh: "k \<notin> fst ` set m \<Longrightarrow> length (map_put k v m) = Suc (length m)"
  by (induction m) auto

lemma start_trials_overload:
  assumes "jm_reachable (ap_jobs a)" "\<not> stopping (ap_jobs a)" "unat (max_jobs (ap_jobs a)) = unat (current_jobs (ap_jobs a)) + free"
    and "distinct ids" "\<forall>i. nxt \<le> i \<and> i < length ids \<longrightarrow> \<not> running (ap_jobs a) (''train-'' @ ids ! i)"
    and "nxt + free < length ids" "length act + free < max_active task" "fst ` set act \<subseteq> set (take nxt ids)"
  shows "\<exists>a'. start_trials task ids nxt act a = (Threw (Runtime_error ''Job queue full: max concurrent jobs reached''), a')
    \<and> ap_work a' = ap_work a @ map (trial_work task ids) [nxt..<nxt + free] \<and> ap_db a' = ap_db a"
  using assms
proof (induction free arbitrary: nxt act a)
  case 0
  obtain m1 where m1: "StartJob (''train-'' @ ids ! nxt) (tt_rid task) (ap_jobs a) =
      (Threw (Runtime_error ''Job queue full: max concurrent jobs reached''), m1)"
    using StartJob_full [OF 0(2)] 0(3) by (auto simp: word_less_nat_alt)
  have "nxt < length ids \<and> length act < max_active task"
    using 0(6,7) by simp
  then show ?case
    by (subst start_trials.simps) (simp add: RunPcaTraining_def submit_def m1 [simplified])
next
  case (Suc free)
  have here: "nxt < length ids \<and> length act < max_active task"
    using Suc.prems(6,7) by simp
  have room: "current_jobs (ap_jobs a) < max_jobs (ap_jobs a)"
    using Suc.prems(3) by (simp add: word_less_nat_alt)
  obtain m1 where m1: "StartJob (''train-'' @ ids ! nxt) (tt_rid task) (ap_jobs a) = (Returned (), m1)" "jm_reachable m1" "\<not> stopping m1"
      "max_jobs m1 = max_jobs (ap_jobs a)" "current_jobs m1 = current_jobs (ap_jobs a) + 1"
      "\<forall>j. running m1 j \<longleftrightarrow> j = ''train-'' @ ids ! nxt \<or> running (ap_jobs a) j"
    using StartJob_fresh [OF Suc.prems(1,2) room, of "''train-'' @ ids ! nxt" "tt_rid task"] Suc.prems(5) here by blast
  define a1 where "a1 = a\<lparr>ap_jobs := m1, ap_work := ap_work a @ [trial_work task ids nxt]\<rparr>"
  define act1 where "act1 = map_put (ids ! nxt) True act"
  have step: "start_trials task ids nxt act a = start_trials task ids (Suc nxt) act1 a1"
    using here by (subst start_trials.simps) (simp add: RunPcaTraining_def submit_def m1(1) [simplified] a1_def act1_def trial_work_def)
  have unused: "ids ! nxt \<notin> fst ` set act"
    using Suc.prems(4,8) here by (auto simp: in_set_conv_nth nth_eq_iff_index_eq dest!: subsetD)
  have cur: "unat (current_jobs (ap_jobs a) + 1) = Suc (unat (current_jobs (ap_jobs a)))"
    using room by (simp add: unat_size_t_Suc word_less_nat_alt)
  have "\<exists>a'. start_trials task ids (Suc nxt) act1 a1 = (Threw (Runtime_error ''Job queue full: max concurrent jobs reached''), a')
    \<and> ap_work a' = ap_work a1 @ map (trial_work task ids) [Suc nxt..<Suc nxt + free] \<and> ap_db a' = ap_db a1"
  proof (rule Suc.IH)
    show "jm_reachable (ap_jobs a1)" "\<not> stopping (ap_jobs a1)" "distinct ids" "Suc nxt + free < length ids"
      using m1 Suc.prems by (simp_all add: a1_def)
    show "unat (max_jobs (ap_jobs a1)) = unat (current_jobs (ap_jobs a1)) + free"
      using m1 Suc.prems(3) cur by (simp add: a1_def)
    show "\<forall>i. Suc nxt \<le> i \<and> i < length ids \<longrightarrow> \<not> running (ap_jobs a1) (''train-'' @ ids ! i)"
      using m1(6) Suc.prems(4,5) here by (auto simp: a1_def nth_eq_iff_index_eq)
    show "length act1 + free < max_active task"
      using Suc.prems(7) length_map_put_fresh [OF unused] by (simp add: act1_def)
    show "fst ` set act1 \<subseteq> set (take (Suc nxt) ids)"
      using Suc.prems(8) here by (auto simp: act1_def take_Suc_conv_app_nth)
  qed
  then show ?case
    by (auto simp: step a1_def upt_conv_Cons simp del: upt_Suc)
qed


lemma create_trials_ok:
  assumes "\<forall>i. uv_trial_fault env i = None" "\<forall>i. uv_uuid env i \<noteq> ''''" "has_dataset d (tt_dataset_id task)" "has_model d (tt_parent_run_id task)"
    and "distinct (map (uv_uuid env) [idx..<idx + length cs])" "\<forall>i. idx \<le> i \<and> i < idx + length cs \<longrightarrow> \<not> has_model d (uv_uuid env i)"
  shows "\<exists>d' rs. create_trials env task idx cs ids d = (Inr (ids @ map (uv_uuid env) [idx..<idx + length cs]), d')
    \<and> model_runs d' = model_runs d @ rs"
  using assms(3-6)
proof (induction cs arbitrary: idx ids d)
  case (Cons c cs)
  obtain d1 row where d1: "CreateHpoTrialRun (uv_trial_fault env idx) (uv_now env 0) (uv_uuid env idx) (tt_dataset_id task)
             (tt_name task @ ''_trial_'' @ to_string (int idx)) (training_config (tt_dataset_id task) (tc_n_components c) (tc_percentile c))
             (tt_rid task) (tt_parent_run_id task) (int idx) (trial_params c) d = (Inr (uv_uuid env idx), d1)"
      "model_runs d1 = model_runs d @ [row]" "mr_model_run_id row = uv_uuid env idx" "generation_runs d1 = generation_runs d"
    using Cons.prems assms(1) by (auto simp: CreateHpoTrialRun_def transact_def new_model_run_def)
  have hm: "has_model d1 x \<longleftrightarrow> has_model d x \<or> x = uv_uuid env idx" for x
    using d1 by (auto simp: has_model_def)
  have hd: "has_dataset d1 = has_dataset d"
    using d1(4) by (simp add: has_dataset_def fun_eq_iff)
  have upt: "[idx..<idx + length (c # cs)] = idx # [Suc idx..<Suc idx + length cs]"
    by (simp add: upt_conv_Cons del: upt_Suc)
  have "\<exists>d' rs. create_trials env task (Suc idx) cs (ids @ [uv_uuid env idx]) d1 =
      (Inr ((ids @ [uv_uuid env idx]) @ map (uv_uuid env) [Suc idx..<Suc idx + length cs]), d') \<and> model_runs d' = model_runs d1 @ rs"
  proof (rule Cons.IH)
    show "has_dataset d1 (tt_dataset_id task)" "has_model d1 (tt_parent_run_id task)"
      using Cons.prems(1,2) hm hd by simp_all
    show "distinct (map (uv_uuid env) [Suc idx..<Suc idx + length cs])"
      using Cons.prems(3) unfolding upt by simp
    have "uv_uuid env idx \<notin> uv_uuid env ` set [Suc idx..<Suc idx + length cs]"
      using Cons.prems(3) unfolding upt by simp
    then have "uv_uuid env i \<noteq> uv_uuid env idx" if "Suc idx \<le> i" "i < Suc idx + length cs" for i
      using that by (metis atLeastLessThan_iff atLeastLessThan_upt imageI)
    then show "\<forall>i. Suc idx \<le> i \<and> i < Suc idx + length cs \<longrightarrow> \<not> has_model d1 (uv_uuid env i)"
      using Cons.prems(4) hm by auto
  qed
  then show ?case
    using d1(1,2) assms(2) unfolding upt by auto
qed simp

text \<open>
  A search fails when it may run more trials at a time than the job manager has free places: if
  both the number of trials and \<^verbatim>\<open>max_concurrency\<close> exceed the \<open>free\<close> places, the tuning job starts as many
  trials as there are places and then ends with the exception of the full queue. The model run of the search
  stays RUNNING although nothing works on it any more, and the other trials are never started. The
  server never raises the limit of four jobs, of which the tuning job itself takes one, while \<^verbatim>\<open>max_concurrency\<close>
  may be up to ten.
\<close>

theorem tuning_overload:
  assumes "reachable (\<lambda>d. d = empty_db) db_step (ap_db a)" "model_row (tt_parent_run_id task) (ap_db a) = Some r"
    and "mr_status r = ''PENDING''" "has_dataset (ap_db a) (tt_dataset_id task)"
    and "uv_claim_fault env = None" "\<forall>i. uv_trial_fault env i = None" "\<not> uv_stop env 0"
    and "\<forall>i. uv_uuid env i \<noteq> ''''" "distinct (trial_ids env task)" "\<forall>i. \<not> has_model (ap_db a) (uv_uuid env i)"
    and "jm_reachable (ap_jobs a)" "\<not> stopping (ap_jobs a)" "\<forall>i. \<not> running (ap_jobs a) (''train-'' @ uv_uuid env i)"
    and "unat (max_jobs (ap_jobs a)) = unat (current_jobs (ap_jobs a)) + free"
    and "free < length (tt_trials task)" "free < max_active task"
  shows "\<exists>a' r'. tuning_job (Suc n) env task a = (Threw (Runtime_error ''Job queue full: max concurrent jobs reached''), a')
    \<and> ap_work a' = ap_work a @ map (trial_work task (trial_ids env task)) [0..<free]
    \<and> model_row (tt_parent_run_id task) (ap_db a') = Some r' \<and> mr_status r' = ''RUNNING''"
proof -
  let ?p = "tt_parent_run_id task" and ?ids = "trial_ids env task"
  have dist: "distinct (map mr_model_run_id (model_runs (ap_db a)))"
    using run_store.reachable_inv [OF assms(1)] by (simp add: db_ok_def keys_unique_def)
  obtain won d1 where t: "TryTransitionModelRunStatus None ?p ''PENDING'' ''RUNNING'' (ap_db a) = (won, d1)"
    by fastforce
  have row: "won" "model_row ?p d1 = Some (r\<lparr>mr_status := ''RUNNING''\<rparr>)"
    using TryTransition_row [OF dist assms(2) t] assms(3) by simp_all
  have keep: "generation_runs d1 = generation_runs (ap_db a)" "map mr_model_run_id (model_runs d1) = map mr_model_run_id (model_runs (ap_db a))"
    using t by (auto simp: TryTransitionModelRunStatus_def Let_def update_where_def)
  have hm: "has_model d1 x \<longleftrightarrow> has_model (ap_db a) x" for x
    using arg_cong [OF keep(2), of set] by (auto simp: has_model_def)
  have hd: "has_dataset d1 (tt_dataset_id task)"
    using assms(4) keep(1) by (simp add: has_dataset_def)
  have hp: "has_model d1 ?p"
    using row(2) unfolding has_model_def model_row_def find_Some_iff by (metis imageI nth_mem)
  obtain d2 rs where c: "create_trials env task 0 (tt_trials task) [] d1 = (Inr ?ids, d2)" "model_runs d2 = model_runs d1 @ rs"
    using create_trials_ok [OF assms(6,8) hd hp, of 0 "tt_trials task" "[]"] assms(9,10) hm by (auto simp: trial_ids_def)
  have row2: "model_row ?p d2 = Some (r\<lparr>mr_status := ''RUNNING''\<rparr>)"
    using row(2) c(2) by (auto simp: model_row_def find_Some_iff nth_append intro: exI)
  have nr: "\<forall>i. 0 \<le> i \<and> i < length ?ids \<longrightarrow> \<not> running (ap_jobs a) (''train-'' @ ?ids ! i)"
    using assms(13) by (simp add: trial_ids_def)
  obtain a' where a': "start_trials task ?ids 0 [] (a\<lparr>ap_db := d2\<rparr>) = (Threw (Runtime_error ''Job queue full: max concurrent jobs reached''), a')"
      "ap_work a' = ap_work a @ map (trial_work task ?ids) [0..<free]" "ap_db a' = d2"
    using start_trials_overload [of "a\<lparr>ap_db := d2\<rparr>" free ?ids 0 "[]" task] assms(9,11,12,14-16) nr by (auto simp: trial_ids_def)
  have ne: "0 < length ?ids"
    using assms(15) by (auto simp: trial_ids_def)
  have "tuning_job (Suc n) env task a = (Threw (Runtime_error ''Job queue full: max concurrent jobs reached''), a')"
    using row(1) ne assms(5,7) by (simp add: tuning_job_def t c a')
  then show ?thesis
    using a' row2 by auto
qed


definition ex_tuning_task :: TuningTask where
  "ex_tuning_task = \<lparr>tt_parent_run_id = ''m1'', tt_name = ''search'', tt_dataset_id = ''d1'', tt_rid = ''r1'',
     tt_trials = map (\<lambda>n. new_trial ''d1'' n 95) [1, 2, 3, 4, 5], tt_max_concurrency = 4\<rparr>"

definition ex_tuning_env :: tuning_env where
  "ex_tuning_env = \<lparr>uv_claim_fault = None, uv_get_fault = None, uv_trial_fault = \<lambda>i. None, uv_uuid = \<lambda>i. replicate (Suc i) CHR ''t'',
     uv_stop = \<lambda>k. False, uv_cancel_fault = None, uv_beat_fault = \<lambda>k. None, uv_between = \<lambda>k s. s, uv_poll_fault = \<lambda>k i. None,
     uv_now = \<lambda>k. 9, uv_time_text = \<lambda>t. ''time''\<rparr>"

definition ex_tuning_api :: api where
  "ex_tuning_api = ex_api\<lparr>ap_db := ex_train_db, ap_jobs := one_job\<rparr>"

theorem tuning_overload_witness:
  "\<exists>a' r'. tuning_job 1 ex_tuning_env ex_tuning_task ex_tuning_api = (Threw (Runtime_error ''Job queue full: max concurrent jobs reached''), a')
     \<and> length (ap_work a') = 3 \<and> model_row ''m1'' (ap_db a') = Some r' \<and> mr_status r' = ''RUNNING''"
proof -
  have db: "ap_db ex_tuning_api = ex_train_db" "ap_jobs ex_tuning_api = one_job" "ap_work ex_tuning_api = []"
    by (simp_all add: ex_tuning_api_def ex_api_def)
  have keys: "has_dataset ex_train_db ''d1''" "\<not> has_model ex_train_db (replicate (Suc i) CHR ''t'')" for i
    using ex_dataset_keys
    by (auto simp: ex_train_db_def CreateModelRun_def transact_def has_dataset_def has_model_def new_model_run_def)
  have dist: "distinct (trial_ids ex_tuning_env ex_tuning_task)"
    by (simp add: trial_ids_def ex_tuning_env_def ex_tuning_task_def distinct_map inj_on_def)
  have room: "unat (max_jobs one_job) = unat (current_jobs one_job) + 3"
    by simp
  have lim: "3 < length (tt_trials ex_tuning_task)" "3 < max_active ex_tuning_task"
    by (simp_all add: ex_tuning_task_def max_active_def)
  have "\<not> stopping one_job"
    by (simp add: one_job_def started_def new_JobManager_def)
  then show ?thesis
    using tuning_overload [of ex_tuning_api ex_tuning_task _ ex_tuning_env 3 0, unfolded db, OF ex_train_reachable] ex_train_row keys dist room lim
      reachable_one_job
    by (auto simp: ex_tuning_task_def ex_tuning_env_def new_model_run_def)
qed

theorem tuning_starts_trials_in_order_witness:
  "\<exists>out a' m. tuning_job 1 ex_tuning_env ex_tuning_task ex_tuning_api = (out, a') \<and> m \<le> 5
     \<and> ap_work a' = map (trial_work ex_tuning_task (trial_ids ex_tuning_env ex_tuning_task)) [0..<m]"
proof -
  obtain out a' where r: "tuning_job 1 ex_tuning_env ex_tuning_task ex_tuning_api = (out, a')"
    by fastforce
  have "\<forall>i. uv_uuid ex_tuning_env i \<noteq> ''''" "length (tt_trials ex_tuning_task) = 5" "ap_work ex_tuning_api = []"
    by (simp_all add: ex_tuning_env_def ex_tuning_task_def ex_tuning_api_def ex_api_def)
  then show ?thesis
    using tuning_starts_trials_in_order [OF _ r] r by auto
qed

end
