(* ===== verification/Job_Reconciler.thy ===== *)
theory Job_Reconciler
  imports Run_Store
begin

text \<open>
  The recovery of orphaned jobs, \<^verbatim>\<open>src/src/job_reconciler.{h,cpp}\<close>: a sweep of all active jobs at start-up
  and a background thread that sweeps the stale ones. The owner of the object calls its methods one
  after the other; the sweeper thread runs between any two steps of the owner. \<^verbatim>\<open>Stop\<close> is three steps,
  the store to \<^verbatim>\<open>running_\<close>, the notification and the join, and the timed wait of the sweeper is split at its
  tests of the predicate, since \<^verbatim>\<open>running_\<close> is changed without holding the mutex of the condition variable.
\<close>

section \<open>State and steps\<close>

datatype sweeper_pc =
    Loop_test
  | Wait_test
  | Falling_asleep
  | Asleep
  | Woken
  | Sweeping
  | Exited

datatype owner_pc = Idle | Stop_stored | Stop_notified

record reconciler =
  running :: bool
  sweeper_thread :: "sweeper_pc option"
  owner :: owner_pc
  stale_ttl :: int
  rc_db :: db

definition new_JobReconciler :: "int \<Rightarrow> db \<Rightarrow> reconciler" where
  "new_JobReconciler ttl d =
     \<lparr>running = False, sweeper_thread = None, owner = Idle, stale_ttl = ttl, rc_db = d\<rparr>"

definition ReconcileStartup :: "cpp_exception option \<Rightarrow> int \<Rightarrow> reconciler \<Rightarrow> reconciler" where
  "ReconcileStartup fault now s = s\<lparr>rc_db := ReconcileStaleJobs fault now None (rc_db s)\<rparr>"

definition RunSweep :: "cpp_exception option \<Rightarrow> int \<Rightarrow> reconciler \<Rightarrow> reconciler" where
  "RunSweep fault now s = s\<lparr>rc_db := ReconcileStaleJobs fault now (Some (stale_ttl s)) (rc_db s)\<rparr>"

text \<open>
  The events: the calls of the owner, the steps of the sweeper thread, and the transactions of the
  other users of the database.
\<close>

datatype rc_event =
    Startup "cpp_exception option" int
  | Start
  | Stop_store
  | Stop_notify
  | Stop_join
  | Test_running
  | Test_predicate
  | Block
  | Timeout
  | Spurious_wakeup
  | Sweep "cpp_exception option" int
  | Other "db \<Rightarrow> db"

text \<open>
  An event that cannot happen in a state has no successor; \<^verbatim>\<open>join\<close> waits for the thread to end.
  A woken thread tests the predicate; after a timeout it tests it a last time and sweeps when the
  reconciler is still running.
\<close>

fun rc_step :: "rc_event \<Rightarrow> reconciler \<Rightarrow> reconciler option" where
  "rc_step (Startup fault now) s = (if owner s = Idle then Some (ReconcileStartup fault now s) else None)"
| "rc_step Start s =
     (if owner s \<noteq> Idle then None
      else if running s then Some s
      else Some (s\<lparr>running := True, sweeper_thread := Some Loop_test\<rparr>))"
| "rc_step Stop_store s =
     (if owner s = Idle then Some (s\<lparr>running := False, owner := Stop_stored\<rparr>) else None)"
| "rc_step Stop_notify s =
     (if owner s = Stop_stored
      then Some (s\<lparr>owner := Stop_notified,
                   sweeper_thread := (if sweeper_thread s = Some Asleep then Some Wait_test else sweeper_thread s)\<rparr>)
      else None)"
| "rc_step Stop_join s =
     (if owner s = Stop_notified \<and> sweeper_thread s \<in> {None, Some Exited}
      then Some (s\<lparr>owner := Idle, sweeper_thread := None\<rparr>) else None)"
| "rc_step Test_running s =
     (if sweeper_thread s = Some Loop_test
      then Some (s\<lparr>sweeper_thread := Some (if running s then Wait_test else Exited)\<rparr>) else None)"
| "rc_step Test_predicate s =
     (case sweeper_thread s of
        Some Wait_test \<Rightarrow> Some (s\<lparr>sweeper_thread := Some (if running s then Falling_asleep else Exited)\<rparr>)
      | Some Woken \<Rightarrow> Some (s\<lparr>sweeper_thread := Some (if running s then Sweeping else Exited)\<rparr>)
      | _ \<Rightarrow> None)"
| "rc_step Block s =
     (if sweeper_thread s = Some Falling_asleep then Some (s\<lparr>sweeper_thread := Some Asleep\<rparr>) else None)"
| "rc_step Timeout s =
     (if sweeper_thread s = Some Asleep then Some (s\<lparr>sweeper_thread := Some Woken\<rparr>) else None)"
| "rc_step Spurious_wakeup s =
     (if sweeper_thread s = Some Asleep then Some (s\<lparr>sweeper_thread := Some Wait_test\<rparr>) else None)"
| "rc_step (Sweep fault now) s =
     (if sweeper_thread s = Some Sweeping
      then Some ((RunSweep fault now s)\<lparr>sweeper_thread := Some Loop_test\<rparr>) else None)"
| "rc_step (Other f) s = Some (s\<lparr>rc_db := f (rc_db s)\<rparr>)"

primrec rc_run :: "rc_event list \<Rightarrow> reconciler \<Rightarrow> reconciler option" where
  "rc_run [] s = Some s"
| "rc_run (e # es) s = (case rc_step e s of None \<Rightarrow> None | Some s1 \<Rightarrow> rc_run es s1)"

section \<open>Stopping\<close>

fun is_sweep :: "rc_event \<Rightarrow> bool" where
  "is_sweep (Sweep _ _) = True"
| "is_sweep _ = False"

fun sweeper_event :: "rc_event \<Rightarrow> bool" where
  "sweeper_event Test_running = True"
| "sweeper_event Test_predicate = True"
| "sweeper_event Block = True"
| "sweeper_event Timeout = True"
| "sweeper_event Spurious_wakeup = True"
| "sweeper_event (Sweep _ _) = True"
| "sweeper_event _ = False"

definition sweeps :: "rc_event list \<Rightarrow> nat" where
  "sweeps es = length (filter is_sweep es)"

text \<open>How many steps the sweeper can still make once the reconciler is not running.\<close>

fun steps_left :: "sweeper_pc option \<Rightarrow> nat" where
  "steps_left (Some Falling_asleep) = 3"
| "steps_left (Some Sweeping) = 2"
| "steps_left (Some Asleep) = 2"
| "steps_left (Some Loop_test) = 1"
| "steps_left (Some Wait_test) = 1"
| "steps_left (Some Woken) = 1"
| "steps_left _ = 0"

text \<open>The thread exists while the reconciler runs, and the owner is inside \<^verbatim>\<open>Stop\<close> only after its store.\<close>

definition rc_inv :: "reconciler \<Rightarrow> bool" where
  "rc_inv s \<longleftrightarrow>
     (running s \<longrightarrow> sweeper_thread s \<notin> {None, Some Exited} \<and> owner s = Idle)
     \<and> (\<not> running s \<and> owner s = Idle \<longrightarrow> sweeper_thread s = None)"


lemma rc_inv_new [simp]: "rc_inv (new_JobReconciler ttl d)"
  by (simp add: rc_inv_def new_JobReconciler_def)

lemma rc_inv_step:
  assumes "rc_inv s" and "rc_step e s = Some t"
  shows "rc_inv t"
  using assms
  by (cases e) (auto simp: rc_inv_def ReconcileStartup_def RunSweep_def split: if_splits option.splits sweeper_pc.splits)

lemma rc_run_Cons: "rc_run (e # es) s = Some t \<longleftrightarrow> (\<exists>s1. rc_step e s = Some s1 \<and> rc_run es s1 = Some t)"
  by (simp split: option.splits)

lemma rc_inv_run: "rc_inv s \<Longrightarrow> rc_run es s = Some t \<Longrightarrow> rc_inv t"
  by (induction es arbitrary: s) (auto simp: rc_run_Cons intro: rc_inv_step simp del: rc_run.simps(2))

text \<open>Once \<^verbatim>\<open>running_\<close> is off, every step of the sweeper brings it nearer to its end, and a sweep needs one already begun.\<close>

definition sweep_left :: "reconciler \<Rightarrow> nat" where
  "sweep_left s = (if sweeper_thread s = Some Sweeping then 1 else 0)"

lemma stopped_step:
  assumes "\<not> running s" and "e \<noteq> Start" and "rc_step e s = Some t"
  shows "\<not> running t" and "steps_left (sweeper_thread t) + (if sweeper_event e then 1 else 0) \<le> steps_left (sweeper_thread s)"
    and "sweep_left t + (if is_sweep e then 1 else 0) \<le> sweep_left s"
  using assms
  by (cases e; auto simp: sweep_left_def ReconcileStartup_def RunSweep_def split: if_splits option.splits sweeper_pc.splits)+

lemma stopped_run:
  assumes "\<not> running s" and "Start \<notin> set es" and "rc_run es s = Some t"
  shows "\<not> running t \<and> steps_left (sweeper_thread t) + length (filter sweeper_event es) \<le> steps_left (sweeper_thread s)
    \<and> sweep_left t + sweeps es \<le> sweep_left s"
  using assms
proof (induction es arbitrary: s)
  case (Cons e es)
  obtain s1 where s1: "rc_step e s = Some s1" "rc_run es s1 = Some t"
    using Cons.prems(3) by (auto simp: rc_run_Cons simp del: rc_run.simps(2))
  have "\<not> running s1" and a: "steps_left (sweeper_thread s1) + (if sweeper_event e then 1 else 0) \<le> steps_left (sweeper_thread s)"
    and b: "sweep_left s1 + (if is_sweep e then 1 else 0) \<le> sweep_left s"
    using stopped_step [OF Cons.prems(1) _ s1(1)] Cons.prems(2) by auto
  then show ?case
    using Cons.IH [of s1] Cons.prems(2) s1(2) by (auto simp: sweeps_def)
qed (simp add: sweeps_def)

lemma no_thread_run:
  assumes "\<not> running s" and "sweeper_thread s = None" and "Start \<notin> set es" and "rc_run es s = Some t"
  shows "sweeper_thread t = None"
  using assms
proof (induction es arbitrary: s)
  case (Cons e es)
  obtain s1 where s1: "rc_step e s = Some s1" "rc_run es s1 = Some t"
    using Cons.prems(4) by (auto simp: rc_run_Cons simp del: rc_run.simps(2))
  have "sweeper_thread s1 = None" "\<not> running s1"
    using s1(1) Cons.prems(1-3) by (cases e; auto simp: ReconcileStartup_def split: if_splits)+
  then show ?case
    using Cons.IH [of s1] Cons.prems(3) s1(2) by simp
qed simp

lemma sweeper_enabled: "sweeper_thread s = Some pc \<Longrightarrow> pc \<noteq> Exited \<Longrightarrow> \<exists>e. sweeper_event e \<and> rc_step e s \<noteq> None"
  by (cases pc; fastforce intro: exI [of _ Test_running] exI [of _ Test_predicate] exI [of _ Block] exI [of _ Timeout] exI [of _ "Sweep None 0"])

section \<open>Properties\<close>

text \<open>
  C27. Stopping the sweeper: after any history, from the moment \<^verbatim>\<open>Stop\<close> has cleared \<^verbatim>\<open>running_\<close> until the next
  start, whatever the interleaving, at most one more sweep happens, and only if it had begun; the
  thread makes at most three more steps and can always make one until it has ended, so the join is
  reached; and a reconciler whose \<^verbatim>\<open>Stop\<close> has returned has no thread and sweeps no more.
\<close>

theorem stop_quiesces:
  assumes "rc_run past (new_JobReconciler ttl d) = Some s" and "\<not> running s"
    and "rc_run es s = Some t" and "Start \<notin> set es"
  shows "sweeps es \<le> (if sweeper_thread s = Some Sweeping then 1 else 0)
    \<and> length (filter sweeper_event es) \<le> 3
    \<and> (sweeper_thread t \<in> {None, Some Exited} \<or> (\<exists>e. sweeper_event e \<and> rc_step e t \<noteq> None))
    \<and> (owner s = Idle \<longrightarrow> sweeper_thread t = None \<and> sweeps es = 0)"
proof -
  have inv: "rc_inv s"
    using rc_inv_run [OF rc_inv_new assms(1)] .
  have stop: "\<not> running t" "steps_left (sweeper_thread t) + length (filter sweeper_event es) \<le> steps_left (sweeper_thread s)"
      "sweep_left t + sweeps es \<le> sweep_left s"
    using stopped_run [OF assms(2,4,3)] by auto
  have "sweeper_thread t \<in> {None, Some Exited} \<or> (\<exists>e. sweeper_event e \<and> rc_step e t \<noteq> None)"
    using sweeper_enabled [of t] by (cases "sweeper_thread t") auto
  moreover have "steps_left (sweeper_thread s) \<le> 3"
    by (cases "sweeper_thread s" rule: steps_left.cases) simp_all
  moreover have "sweeper_thread t = None \<and> sweeps es = 0" if "owner s = Idle"
  proof -
    have none: "sweeper_thread s = None"
      using inv assms(2) that by (simp add: rc_inv_def)
    then show ?thesis
      using no_thread_run [OF assms(2) none assms(4,3)] stop(3) by (simp add: sweep_left_def)
  qed
  ultimately show ?thesis
    using stop(2,3) by (auto simp: sweep_left_def split: if_splits)
qed

theorem stop_quiesces_witness:
  "\<exists>s t. rc_run [Start, Test_running, Test_predicate, Block, Timeout, Test_predicate, Stop_store]
        (new_JobReconciler 600 empty_db) = Some s
    \<and> rc_run [Sweep None 50, Stop_notify, Test_running, Stop_join] s = Some t
    \<and> sweeps [Sweep None 50, Stop_notify, Test_running, Stop_join] \<le> 1 \<and> owner t = Idle"
proof -
  let ?past = "[Start, Test_running, Test_predicate, Block, Timeout, Test_predicate, Stop_store]"
  let ?es = "[Sweep None 50, Stop_notify, Test_running, Stop_join]"
  obtain s t where "rc_run ?past (new_JobReconciler 600 empty_db) = Some s" "\<not> running s"
      "rc_run ?es s = Some t" "owner t = Idle"
    by (simp add: new_JobReconciler_def RunSweep_def)
  then show ?thesis
    using stop_quiesces [of ?past 600 empty_db s ?es t] by (auto split: if_splits)
qed

text \<open>
  The notification can be lost: it may come after the sweeper has read \<^verbatim>\<open>running_\<close> and before it blocks, and
  then only the end of the interval wakes it, while \<^verbatim>\<open>Stop\<close> waits.
\<close>

lemma stop_notification_lost:
  "\<exists>s. rc_run [Start, Test_running, Test_predicate, Stop_store, Stop_notify, Block] (new_JobReconciler 600 empty_db) = Some s
    \<and> \<not> running s \<and> owner s = Stop_notified \<and> sweeper_thread s = Some Asleep
    \<and> {e. rc_step e s \<noteq> None} = {Timeout, Spurious_wakeup} \<union> range Other"
proof -
  obtain s where s: "rc_run [Start, Test_running, Test_predicate, Stop_store, Stop_notify, Block]
      (new_JobReconciler 600 empty_db) = Some s" "\<not> running s" "owner s = Stop_notified" "sweeper_thread s = Some Asleep"
    by (simp add: new_JobReconciler_def)
  have "rc_step e s \<noteq> None \<longleftrightarrow> e \<in> {Timeout, Spurious_wakeup} \<union> range Other" for e
    using s by (cases e) auto
  then show ?thesis
    using s by blast
qed

end
