(* ===== verification/Routes.thy ===== *)
theory Routes
  imports Prelude "HOL-Library.Char_ord"
begin

text \<open>
  The routes of the HTTP server: the required table of \<^verbatim>\<open>src/src/route_registry.cpp\<close>, the registrations of
  \<^verbatim>\<open>ApiServer::Initialize\<close> in \<^verbatim>\<open>src/src/api_server.cpp\<close> in their order, and how a path is matched. The patterns are regular
  expressions of literal characters and groups \<^verbatim>\<open>([...]+)\<close>; \<open>matches\<close> is the meaning of such an expression and
  \<open>regex_match\<close> the matcher without backtracking that is enough for the patterns of the server.
\<close>

section \<open>Patterns\<close>

datatype pat = Lit char | Group "(char \<times> char) list"

definition in_class :: "(char \<times> char) list \<Rightarrow> char \<Rightarrow> bool" where
  "in_class rs c \<longleftrightarrow> (\<exists>(a, b) \<in> set rs. a \<le> c \<and> c \<le> b)"

text \<open>The inside of a bracket: ranges and single characters, up to the closing bracket.\<close>

fun parse_class :: "string \<Rightarrow> ((char \<times> char) list \<times> string) option" where
  "parse_class [] = None"
| "parse_class (a # s) =
     (if a = CHR '']'' then Some ([], s)
      else case s of
        m # b # t \<Rightarrow>
          if m = CHR ''-'' \<and> b \<noteq> CHR '']'' then map_option (\<lambda>(rs, u). ((a, b) # rs, u)) (parse_class t)
          else map_option (\<lambda>(rs, u). ((a, a) # rs, u)) (parse_class s)
      | _ \<Rightarrow> map_option (\<lambda>(rs, u). ((a, a) # rs, u)) (parse_class s))"

lemmas parse_class_Cons = parse_class.simps(2)

declare parse_class.simps(2) [simp del]

lemma parse_class_step:
  assumes "parse_class (a # s) = Some (rs, u)"
  shows "s = u \<or> (\<exists>v rs'. parse_class v = Some (rs', u) \<and> (v = s \<or> (\<exists>m b. s = m # b # v)))"
  using assms unfolding parse_class_Cons [of a s] by (auto split: list.splits if_splits)

lemma parse_class_shorter: "parse_class s = Some (rs, u) \<Longrightarrow> length u < length s"
proof (induction "length s" arbitrary: s rs rule: less_induct)
  case less
  then obtain a t where s: "s = a # t" by (cases s) auto
  from parse_class_step less.prems [unfolded s]
  consider "t = u" | v rs' where "parse_class v = Some (rs', u)" "v = t \<or> (\<exists>m b. t = m # b # v)" by blast
  then show ?case
  proof cases
    case 2
    with less.hyps [of v rs'] s show ?thesis by auto
  qed (simp add: s)
qed

definition parse_group :: "string \<Rightarrow> ((char \<times> char) list \<times> string) option" where
  "parse_group s =
     (case s of
        o1 # t \<Rightarrow>
          if o1 = CHR ''['' then
            (case parse_class t of
               Some (rs, p # q # u) \<Rightarrow> if p = CHR ''+'' \<and> q = CHR '')'' then Some (rs, u) else None
             | _ \<Rightarrow> None)
          else None
      | [] \<Rightarrow> None)"

lemma parse_group_shorter: "parse_group s = Some (rs, u) \<Longrightarrow> length u < length s"
  by (auto simp: parse_group_def dest!: parse_class_shorter split: list.splits option.splits if_splits)

function parse_pattern :: "string \<Rightarrow> pat list option" where
  "parse_pattern s =
     (case s of
        [] \<Rightarrow> Some []
      | c # t \<Rightarrow>
          if c = CHR ''('' then
            (case parse_group t of None \<Rightarrow> None | Some (rs, u) \<Rightarrow> map_option (\<lambda>ps. Group rs # ps) (parse_pattern u))
          else map_option (\<lambda>ps. Lit c # ps) (parse_pattern t))"
  by auto
termination
  by (relation "measure length") (auto dest!: parse_group_shorter)

declare parse_pattern.simps [simp del]

text \<open>The meaning of a pattern, with the texts of its groups.\<close>

inductive matches :: "pat list \<Rightarrow> string \<Rightarrow> string list \<Rightarrow> bool" where
  nil: "matches [] [] []"
| lit: "matches ps s cs \<Longrightarrow> matches (Lit c # ps) (c # s) cs"
| group: "w \<noteq> [] \<Longrightarrow> \<forall>c \<in> set w. in_class rs c \<Longrightarrow> matches ps s cs \<Longrightarrow> matches (Group rs # ps) (w @ s) (w # cs)"

inductive_cases matchesE [elim!]: "matches [] s cs" "matches (Lit c # ps) s cs" "matches (Group rs # ps) s cs"

fun regex_match :: "pat list \<Rightarrow> string \<Rightarrow> string list option" where
  "regex_match [] s = (if s = [] then Some [] else None)"
| "regex_match (Lit c # ps) s = (case s of [] \<Rightarrow> None | d # t \<Rightarrow> if c = d then regex_match ps t else None)"
| "regex_match (Group rs # ps) s =
     (let w = takeWhile (in_class rs) s in
      if w = [] then None else map_option (\<lambda>cs. w # cs) (regex_match ps (dropWhile (in_class rs) s)))"

section \<open>Tables\<close>

record RouteSpec =
  rt_method :: string
  rt_pattern :: string
  rt_handler_name :: string

definition route :: "string \<Rightarrow> string \<Rightarrow> string \<Rightarrow> RouteSpec" where
  "route m p h = \<lparr>rt_method = m, rt_pattern = p, rt_handler_name = h\<rparr>"

definition kRequiredRoutes :: "RouteSpec list" where
  "kRequiredRoutes =
     [route ''POST'' ''/datasets'' ''CreateDataset'',
      route ''GET'' ''/datasets'' ''ListDatasets'',
      route ''GET'' ''/datasets/([a-zA-Z0-9-]+)'' ''GetDataset'',
      route ''GET'' ''/datasets/([a-zA-Z0-9-]+)/summary'' ''GetDatasetSummary'',
      route ''GET'' ''/datasets/([a-zA-Z0-9-]+)/topk'' ''GetDatasetTopK'',
      route ''GET'' ''/datasets/([a-zA-Z0-9-]+)/timeseries'' ''GetDatasetTimeSeries'',
      route ''GET'' ''/datasets/([a-zA-Z0-9-]+)/histogram'' ''GetDatasetHistogram'',
      route ''GET'' ''/datasets/([a-zA-Z0-9-]+)/samples'' ''GetDatasetSamples'',
      route ''GET'' ''/datasets/([a-zA-Z0-9-]+)/records/([0-9]+)'' ''GetDatasetRecord'',
      route ''GET'' ''/datasets/([a-zA-Z0-9-]+)/metrics/([a-zA-Z0-9_]+)/stats'' ''GetMetricStats'',
      route ''GET'' ''/datasets/([a-zA-Z0-9-]+)/metrics/summary'' ''GetMetricsSummary'',
      route ''GET'' ''/datasets/([a-zA-Z0-9-]+)/models'' ''GetDatasetModels'',
      route ''GET'' ''/models/([a-zA-Z0-9-]+)'' ''GetModel'',
      route ''GET'' ''/models/([a-zA-Z0-9-]+)/datasets/scored'' ''GetModelScoredDatasets'',
      route ''GET'' ''/scores'' ''GetScores'',
      route ''POST'' ''/inference'' ''RunInference'',
      route ''GET'' ''/inference_runs'' ''ListInferenceRuns'',
      route ''GET'' ''/inference_runs/([a-zA-Z0-9-]+)'' ''GetInferenceRun'',
      route ''POST'' ''/jobs/score_dataset'' ''CreateScoreJob'',
      route ''GET'' ''/jobs'' ''ListJobs'',
      route ''GET'' ''/jobs/([a-zA-Z0-9-]+)/progress'' ''GetJobProgress'',
      route ''GET'' ''/jobs/([a-zA-Z0-9-]+)'' ''GetJob'',
      route ''GET'' ''/models/([a-zA-Z0-9-]+)/eval'' ''GetModelEval'',
      route ''GET'' ''/models/([a-zA-Z0-9-]+)/error_distribution'' ''GetModelErrorDist'',
      route ''GET'' ''/healthz'' ''HealthCheck'',
      route ''GET'' ''/readyz'' ''ReadyCheck'',
      route ''GET'' ''/metrics'' ''Metrics'',
      route ''GET'' ''/schema/metrics'' ''GetMetricsSchema'',
      route ''POST'' ''/train'' ''StartTrain'',
      route ''GET'' ''/train/([a-zA-Z0-9-]+)'' ''GetTrainStatus'',
      route ''DELETE'' ''/train/([a-zA-Z0-9-]+)'' ''CancelTrain'',
      route ''GET'' ''/models'' ''ListModels'',
      route ''GET'' ''/models/([a-zA-Z0-9-]+)/trials'' ''GetHpoTrials'',
      route ''POST'' ''/models/([a-zA-Z0-9-]+)/rerun_failed'' ''RerunFailedTrials'',
      route ''DELETE'' ''/jobs/([a-zA-Z0-9-]+)'' ''CancelJob'']"

text \<open>
  The registrations of \<^verbatim>\<open>Initialize\<close>, in their order. The last component is the member function that is called; the
  handlers written as lambdas have the names of their definitions in this development.
\<close>

definition registered_routes :: "RouteSpec list" where
  "registered_routes =
     [route ''POST'' ''/datasets'' ''HandleGenerateData'',
      route ''GET'' ''/datasets'' ''HandleListDatasets'',
      route ''GET'' ''/datasets/([a-zA-Z0-9-]+)'' ''HandleGetDataset'',
      route ''GET'' ''/datasets/([a-zA-Z0-9-]+)/summary'' ''HandleDatasetSummary'',
      route ''GET'' ''/datasets/([a-zA-Z0-9-]+)/topk'' ''HandleDatasetTopK'',
      route ''GET'' ''/datasets/([a-zA-Z0-9-]+)/timeseries'' ''HandleDatasetTimeSeries'',
      route ''GET'' ''/datasets/([a-zA-Z0-9-]+)/histogram'' ''HandleDatasetHistogram'',
      route ''GET'' ''/datasets/([a-zA-Z0-9-]+)/samples'' ''HandleGetDatasetSamples'',
      route ''GET'' ''/datasets/([a-zA-Z0-9-]+)/records/([0-9]+)'' ''HandleGetDatasetRecord'',
      route ''GET'' ''/datasets/([a-zA-Z0-9-]+)/metrics/([a-zA-Z0-9_]+)/stats'' ''HandleGetDatasetMetricStats'',
      route ''GET'' ''/datasets/([a-zA-Z0-9-]+)/metrics/summary'' ''HandleGetDatasetMetricsSummary'',
      route ''GET'' ''/datasets/([a-zA-Z0-9-]+)/models'' ''HandleGetDatasetModels'',
      route ''GET'' ''/models/([a-zA-Z0-9-]+)'' ''HandleGetModelDetail'',
      route ''GET'' ''/models/([a-zA-Z0-9-]+)/datasets/scored'' ''HandleGetModelScoredDatasets'',
      route ''GET'' ''/scores'' ''HandleGetScores'',
      route ''POST'' ''/inference'' ''HandleInference'',
      route ''GET'' ''/inference_runs'' ''HandleListInferenceRuns'',
      route ''GET'' ''/inference_runs/([a-zA-Z0-9-]+)'' ''HandleGetInferenceRun'',
      route ''POST'' ''/jobs/score_dataset'' ''HandleScoreDatasetJob'',
      route ''GET'' ''/jobs'' ''HandleListJobs'',
      route ''GET'' ''/jobs/([a-zA-Z0-9-]+)/progress'' ''HandleGetJobProgress'',
      route ''GET'' ''/jobs/([a-zA-Z0-9-]+)'' ''HandleGetJobStatus'',
      route ''DELETE'' ''/jobs/([a-zA-Z0-9-]+)'' ''HandleDeleteJob'',
      route ''GET'' ''/models/([a-zA-Z0-9-]+)/eval'' ''HandleModelEval'',
      route ''GET'' ''/models/([a-zA-Z0-9-]+)/error_distribution'' ''HandleModelErrorDistribution'',
      route ''GET'' ''/models/([a-zA-Z0-9-]+)/trials'' ''HandleListTrials'',
      route ''POST'' ''/models/([a-zA-Z0-9-]+)/rerun_failed'' ''HandleRerunFailed'',
      route ''GET'' ''/healthz'' ''HandleHealthz'',
      route ''GET'' ''/readyz'' ''HandleReadyz'',
      route ''GET'' ''/metrics'' ''HandleMetrics'',
      route ''GET'' ''/schema/metrics'' ''HandleMetricsSchema'',
      route ''POST'' ''/train'' ''HandleTrainModel'',
      route ''GET'' ''/train/([a-zA-Z0-9-]+)'' ''HandleGetTrainStatus'',
      route ''DELETE'' ''/train/([a-zA-Z0-9-]+)'' ''HandleDeleteTrain'',
      route ''GET'' ''/models'' ''HandleListModels'']"

text \<open>\<^verbatim>\<open>ValidateRoutes\<close> compares the size of the table with 35 and otherwise only logs.\<close>

definition ValidateRoutes :: "RouteSpec list \<Rightarrow> bool" where
  "ValidateRoutes rs \<longleftrightarrow> length rs = 35"

text \<open>A route and a request path: the texts of the groups, which the handler reads as \<^verbatim>\<open>req.matches\<close>.\<close>

definition route_matches :: "RouteSpec \<Rightarrow> string \<Rightarrow> string \<Rightarrow> string list \<Rightarrow> bool" where
  "route_matches r verb path cs \<longleftrightarrow>
     rt_method r = verb \<and> (case parse_pattern (rt_pattern r) of None \<Rightarrow> False | Some ps \<Rightarrow> matches ps path cs)"

definition route_match :: "RouteSpec \<Rightarrow> string \<Rightarrow> string \<Rightarrow> string list option" where
  "route_match r verb path =
     (if rt_method r = verb then case parse_pattern (rt_pattern r) of None \<Rightarrow> None | Some ps \<Rightarrow> regex_match ps path else None)"

section \<open>Patterns without backtracking\<close>

fun separated :: "pat list \<Rightarrow> bool" where
  "separated [] = True"
| "separated (Lit c # ps) = separated ps"
| "separated (Group rs # ps) = ((case ps of [] \<Rightarrow> True | Lit c # _ \<Rightarrow> \<not> in_class rs c | Group _ # _ \<Rightarrow> False) \<and> separated ps)"

lemma matches_run:
  assumes "separated (Group rs # ps)" "matches ps s cs" "w \<noteq> []" "\<forall>c \<in> set w. in_class rs c"
  shows "takeWhile (in_class rs) (w @ s) = w" "dropWhile (in_class rs) (w @ s) = s"
proof -
  have "s = [] \<or> \<not> in_class rs (hd s)"
    using assms by (cases ps rule: separated.cases) auto
  then show "takeWhile (in_class rs) (w @ s) = w" "dropWhile (in_class rs) (w @ s) = s"
    using assms(4) by (cases s; simp add: takeWhile_append2 dropWhile_append2)+
qed

lemma matches_regex_match: "matches ps s cs \<Longrightarrow> separated ps \<Longrightarrow> regex_match ps s = Some cs"
proof (induction rule: matches.induct)
  case (group w rs ps s cs)
  from matches_run [OF group.prems group.hyps(3) group.hyps(1,2)] group show ?case by (simp add: Let_def)
qed simp_all

lemma regex_match_matches: "regex_match ps s = Some cs \<Longrightarrow> matches ps s cs"
proof (induction ps s arbitrary: cs rule: regex_match.induct)
  case (3 rs ps s)
  let ?w = "takeWhile (in_class rs) s" and ?t = "dropWhile (in_class rs) s"
  from 3 obtain cs' where "?w \<noteq> []" "matches ps ?t cs'" "cs = ?w # cs'"
    by (auto simp: Let_def split: if_splits)
  moreover have "\<forall>c \<in> set ?w. in_class rs c" by (auto dest: set_takeWhileD)
  ultimately show ?case using matches.group [of ?w rs ps ?t cs'] by simp
qed (auto intro: matches.intros split: if_splits list.splits)

lemma regex_match_correct: "separated ps \<Longrightarrow> matches ps s cs \<longleftrightarrow> regex_match ps s = Some cs"
  using matches_regex_match regex_match_matches by blast

section \<open>Disjoint patterns\<close>

text \<open>What is left of a pattern from its next slash on.\<close>

fun skip_segment :: "pat list \<Rightarrow> pat list option" where
  "skip_segment [] = Some []"
| "skip_segment (Lit c # ps) = (if c = CHR ''/'' then Some (Lit c # ps) else skip_segment ps)"
| "skip_segment (Group rs # ps) = (if in_class rs (CHR ''/'') then None else skip_segment ps)"

lemma skip_segment_le: "Some qs = skip_segment ps \<Longrightarrow> length qs \<le> length ps"
  by (induction ps rule: skip_segment.induct) (auto split: if_splits)

lemma skip_segment_matches:
  "matches ps s cs \<Longrightarrow> skip_segment ps = Some qs \<Longrightarrow> \<exists>ds. matches qs (dropWhile (\<lambda>c. c \<noteq> CHR ''/'') s) ds"
proof (induction rule: matches.induct)
  case (group w rs ps s cs)
  then have "\<forall>c \<in> set w. c \<noteq> CHR ''/''" by (auto split: if_splits)
  with group show ?case by (auto simp: dropWhile_append2 split: if_splits)
qed (auto intro: matches.intros split: if_splits)

function disjoint_pats :: "pat list \<Rightarrow> pat list \<Rightarrow> bool" where
  "disjoint_pats [] [] = False"
| "disjoint_pats [] (q # qs) = True"
| "disjoint_pats (p # ps) [] = True"
| "disjoint_pats (Lit a # ps) (Lit b # qs) = (a \<noteq> b \<or> disjoint_pats ps qs)"
| "disjoint_pats (Lit a # ps) (Group rs # qs) =
     (case (skip_segment (Lit a # ps), skip_segment (Group rs # qs)) of
        (Some ps', Some qs') \<Rightarrow> disjoint_pats ps' qs' | _ \<Rightarrow> False)"
| "disjoint_pats (Group rs # ps) (q # qs) =
     (case (skip_segment (Group rs # ps), skip_segment (q # qs)) of
        (Some ps', Some qs') \<Rightarrow> disjoint_pats ps' qs' | _ \<Rightarrow> False)"
  by pat_completeness auto
termination
  by (relation "measure (\<lambda>(ps, qs). length ps + length qs)")
    (force dest: skip_segment_le split: if_splits)+

lemma matches_nonempty: "matches (p # ps) [] cs \<Longrightarrow> False"
  by (cases p) auto

lemma disjoint_pats_sound: "disjoint_pats ps qs \<Longrightarrow> matches ps s cs \<Longrightarrow> matches qs s ds \<Longrightarrow> False"
proof (induction ps qs arbitrary: s cs ds rule: disjoint_pats.induct)
  case (5 a ps rs qs)
  then obtain ps' qs' where "skip_segment (Lit a # ps) = Some ps'" "skip_segment (Group rs # qs) = Some qs'"
      "disjoint_pats ps' qs'"
    by (auto simp del: skip_segment.simps split: option.splits)
  with 5 show ?case by (metis skip_segment_matches)
next
  case (6 rs ps q qs)
  then obtain ps' qs' where "skip_segment (Group rs # ps) = Some ps'" "skip_segment (q # qs) = Some qs'"
      "disjoint_pats ps' qs'"
    by (auto simp del: skip_segment.simps split: option.splits)
  with 6 show ?case by (metis skip_segment_matches)
qed (auto dest: matches_nonempty)

section \<open>Tables of routes\<close>

definition routes_disjoint :: "RouteSpec \<Rightarrow> RouteSpec \<Rightarrow> bool" where
  "routes_disjoint r r' \<longleftrightarrow> rt_method r \<noteq> rt_method r' \<or>
     (case (parse_pattern (rt_pattern r), parse_pattern (rt_pattern r')) of
        (Some ps, Some qs) \<Rightarrow> disjoint_pats ps qs | _ \<Rightarrow> False)"

definition route_simple :: "RouteSpec \<Rightarrow> bool" where
  "route_simple r \<longleftrightarrow> (case parse_pattern (rt_pattern r) of None \<Rightarrow> False | Some ps \<Rightarrow> separated ps)"

lemma routes_disjoint_sound:
  "routes_disjoint r r' \<Longrightarrow> route_matches r verb path cs \<Longrightarrow> route_matches r' verb path ds \<Longrightarrow> False"
  by (auto simp: routes_disjoint_def route_matches_def split: option.splits dest: disjoint_pats_sound)

lemma route_match_correct: "route_simple r \<Longrightarrow> route_matches r verb path cs \<longleftrightarrow> route_match r verb path = Some cs"
  by (auto simp: route_simple_def route_matches_def route_match_def regex_match_correct split: option.splits)

lemma captures_ok: "matches ps s cs \<Longrightarrow> c \<in> set cs \<Longrightarrow> c \<noteq> [] \<and> (\<exists>rs. Group rs \<in> set ps \<and> (\<forall>x \<in> set c. in_class rs x))"
  by (induction rule: matches.induct) auto

text \<open>A table in which every pattern can be matched without backtracking and no two of one method overlap.\<close>

locale route_table =
  fixes table :: "RouteSpec list"
  assumes simple: "r \<in> set table \<Longrightarrow> route_simple r"
    and pairwise_disjoint: "sorted_wrt routes_disjoint table"
begin

lemma unambiguous:
  assumes "i < length table" "j < length table"
    and "route_matches (table ! i) verb path cs" "route_matches (table ! j) verb path ds"
  shows "i = j \<and> cs = ds"
proof -
  have "i = j"
    using assms pairwise_disjoint routes_disjoint_sound by (metis linorder_neqE_nat sorted_wrt_nth_less)
  moreover from this have "cs = ds"
    using assms simple route_match_correct by (metis nth_mem option.inject)
  ultimately show ?thesis ..
qed

end

text \<open>The check of a table, with every pattern parsed once.\<close>

definition parsed :: "RouteSpec \<Rightarrow> string \<times> pat list option" where
  "parsed r = (rt_method r, parse_pattern (rt_pattern r))"

definition table_ok :: "RouteSpec list \<Rightarrow> bool" where
  "table_ok table =
     (let ts = map parsed table in
      list_all (\<lambda>(m, p). case p of None \<Rightarrow> False | Some ps \<Rightarrow> separated ps) ts \<and>
      sorted_wrt (\<lambda>(m, p) (m', q). m \<noteq> m' \<or> (case (p, q) of (Some ps, Some qs) \<Rightarrow> disjoint_pats ps qs | _ \<Rightarrow> False)) ts)"

lemma table_ok_route_table: "table_ok table \<Longrightarrow> route_table table"
  unfolding table_ok_def
  by (unfold_locales)
    (auto simp: Let_def parsed_def route_simple_def routes_disjoint_def [abs_def] list_all_iff sorted_wrt_map)

lemma registered_routes_ok: "table_ok registered_routes"
  by code_simp

interpretation server_routes: route_table registered_routes
  by (rule table_ok_route_table) (rule registered_routes_ok)

definition same_endpoint :: "RouteSpec \<Rightarrow> string \<times> string" where
  "same_endpoint r = (rt_method r, rt_pattern r)"

lemma registered_endpoints:
  "distinct (map same_endpoint registered_routes)"
  "set (map same_endpoint registered_routes) = set (map same_endpoint kRequiredRoutes)"
  by (simp_all add: registered_routes_def kRequiredRoutes_def route_def same_endpoint_def insert_commute)

text \<open>
  C13. The table that \<^verbatim>\<open>ValidateRoutes\<close> counts, with its 35 entries, lists exactly the endpoints that \<^verbatim>\<open>Initialize\<close>
  registers, each once, and no request is ambiguous: if a method and a path match two registrations, they are the same
  registration, with the same texts for the groups of its pattern. Which handler serves a request, and the identifiers it reads
  from the path, therefore do not depend on the order of the registrations nor on how the regular expression is searched; the
  texts are those of the matcher without backtracking, and none is empty.
\<close>

theorem routes_unambiguous:
  "ValidateRoutes kRequiredRoutes \<and>
   distinct (map same_endpoint registered_routes) \<and>
   set (map same_endpoint registered_routes) = set (map same_endpoint kRequiredRoutes) \<and>
   (\<forall>i j verb path cs ds.
      i < length registered_routes \<and> j < length registered_routes \<and>
      route_matches (registered_routes ! i) verb path cs \<and> route_matches (registered_routes ! j) verb path ds \<longrightarrow>
      i = j \<and> cs = ds \<and> route_match (registered_routes ! i) verb path = Some cs \<and> [] \<notin> set cs)"
proof (intro conjI allI impI; (elim conjE)?)
  fix i j verb path cs ds
  assume a: "i < length registered_routes" "j < length registered_routes"
    "route_matches (registered_routes ! i) verb path cs" "route_matches (registered_routes ! j) verb path ds"
  from server_routes.unambiguous [OF a] show "i = j" "cs = ds" by auto
  show "route_match (registered_routes ! i) verb path = Some cs"
    using a route_match_correct server_routes.simple nth_mem by blast
  show "[] \<notin> set cs"
    using a(3) captures_ok by (fastforce simp: route_matches_def split: option.splits)
qed (simp_all only: registered_endpoints, simp add: ValidateRoutes_def kRequiredRoutes_def)

theorem routes_unambiguous_witness:
  "route_match (registered_routes ! 9) ''GET'' ''/datasets/d-1/metrics/cpu_usage/stats'' = Some [''d-1'', ''cpu_usage''] \<and>
   {j. j < 35 \<and> route_matches (registered_routes ! j) ''GET'' ''/datasets/d-1/metrics/cpu_usage/stats'' [''d-1'', ''cpu_usage'']} = {9}"
proof -
  have *: "route_match (registered_routes ! 9) ''GET'' ''/datasets/d-1/metrics/cpu_usage/stats'' = Some [''d-1'', ''cpu_usage'']"
    by code_simp
  have len: "length registered_routes = 35" by (simp add: registered_routes_def)
  have "route_matches (registered_routes ! 9) ''GET'' ''/datasets/d-1/metrics/cpu_usage/stats'' [''d-1'', ''cpu_usage'']"
    using * route_match_correct server_routes.simple [of "registered_routes ! 9"] by (simp add: len)
  then have "{j. j < 35 \<and> route_matches (registered_routes ! j) ''GET'' ''/datasets/d-1/metrics/cpu_usage/stats'' [''d-1'', ''cpu_usage'']} = {9}"
    using routes_unambiguous len by auto
  with * show ?thesis ..
qed

end
