(* ===== verification/Grpc_Service.thy ===== *)
theory Grpc_Service
  imports Api_Jobs Generator_Writer
begin

text \<open>
  The gRPC service that generates datasets (\<^verbatim>\<open>src/src/server.cpp\<close>) and the handler of \<^verbatim>\<open>POST /datasets\<close> that calls it
  (\<^verbatim>\<open>src/src/api_server.cpp\<close>). The two run in different processes: for the handler the generated stub is a
  function from a request to a status and the response's run identifier. The work of an accepted
  request is the generation run of \<open>Generator_Run\<close> and \<open>Generator_Writer\<close>.
\<close>

section \<open>The service\<close>

datatype grpc_status = Grpc_OK | Grpc_error string

record TelemetryServiceImpl =
  sv_jobs :: JobManager
  sv_work :: "(string \<times> string \<times> GenerateRequest) list"

text \<open>The answer is a status and, if it is \<^verbatim>\<open>OK\<close>, the run identifier; the default of the response's field is the empty string.\<close>

definition GenerateTelemetry ::
  "string \<Rightarrow> GenerateRequest \<Rightarrow> TelemetryServiceImpl \<Rightarrow> (grpc_status \<times> string) outcome \<times> TelemetryServiceImpl" where
  "GenerateTelemetry run_id request s =
     (case StartJob (''gen-'' @ run_id) (rq_request_id request) (sv_jobs s) of
        (Returned u, m) \<Rightarrow>
          (Returned (Grpc_OK, run_id),
           s\<lparr>sv_jobs := m, sv_work := sv_work s @ [(''gen-'' @ run_id, run_id, request)]\<rparr>)
      | (Threw e, m) \<Rightarrow> (Returned (Grpc_error (what e), ''''), s\<lparr>sv_jobs := m\<rparr>)
      | (Terminated, m) \<Rightarrow> (Terminated, s\<lparr>sv_jobs := m\<rparr>)
      | (Undefined, m) \<Rightarrow> (Undefined, s\<lparr>sv_jobs := m\<rparr>))"

definition GetRun :: "cpp_exception option \<Rightarrow> string \<Rightarrow> db \<Rightarrow> grpc_status \<times> RunStatus" where
  "GetRun fault run_id d = (Grpc_OK, GetRunStatus fault run_id d)"

text \<open>
  The function that runs as the job. The factory may fail to make a client, in which case there is no run; the exception is
  logged, so the job itself always returns normally.
\<close>

definition generation_job ::
  "cpp_exception option \<Rightarrow> nat \<Rightarrow> GenerateRequest \<Rightarrow> string \<Rightarrow> rng \<Rightarrow> (nat \<Rightarrow> bool) \<Rightarrow> cpp_exception option \<Rightarrow> gen_call list option" where
  "generation_job factory_fault fuel request run_id g stop thread_fault =
     (case factory_fault of Some e \<Rightarrow> Some [] | None \<Rightarrow> Run fuel request run_id g stop thread_fault)"

section \<open>POST /datasets\<close>

definition kErrHttpGrpcError :: string where "kErrHttpGrpcError = ''E_HTTP_GRPC_ERROR''"

text \<open>A request message with every field at its default.\<close>

definition default_GenerateRequest :: GenerateRequest where
  "default_GenerateRequest =
     \<lparr>rq_tier = '''', rq_host_count = 0, rq_start_time_iso = '''', rq_end_time_iso = '''', rq_interval_seconds = 0, rq_regions = [],
      rq_anomaly_config = None, rq_timing_config = None, rq_seed = 0, rq_request_id = ''''\<rparr>"

definition ui_request :: "int \<Rightarrow> string \<Rightarrow> GenerateRequest" where
  "ui_request host_count rid =
     default_GenerateRequest\<lparr>rq_host_count := host_count, rq_tier := ''USER_UI'', rq_request_id := rid\<rparr>"

definition generate_try_block ::
  "(GenerateRequest \<Rightarrow> grpc_status \<times> string) \<Rightarrow> api_env \<Rightarrow> HttpRequest \<Rightarrow> api \<Rightarrow> HttpResponse outcome \<times> api" where
  "generate_try_block stub env req a =
     (let rid = hr_rid req in
      or_throw (av_parse env (hr_body req)) a (\<lambda>j.
      or_throw (jvalue jget_int j ''host_count'' 5) a (\<lambda>host_count.
      or_throw (jvalue jget_string j ''run_id'' '''') a (\<lambda>ignored.
      (case stub (ui_request host_count rid) of
         (Grpc_OK, run_id) \<Rightarrow>
           (Returned (SendJson (jset ''status'' (JStr ''PENDING'') (jset ''run_id'' (JStr run_id) JNull)) 202 rid), a)
       | (Grpc_error message, _) \<Rightarrow> send_error (''gRPC Error: '' @ message) 500 kErrHttpGrpcError rid a)))))"

definition HandleGenerateData ::
  "(GenerateRequest \<Rightarrow> grpc_status \<times> string) \<Rightarrow> api_env \<Rightarrow> HttpRequest \<Rightarrow> api \<Rightarrow> HttpResponse outcome \<times> api" where
  "HandleGenerateData stub env req a =
     (case generate_try_block stub env req a of
        (Threw e, a1) \<Rightarrow>
          (let code = ClassifyHttpError e in
           send_error (''Generate failed: '' @ what e) (if client_error code then 400 else 500) code (hr_rid req) a1)
      | r \<Rightarrow> r)"

section \<open>A dataset requested from the user interface\<close>

lemma update_where_none: "(\<And>r. r \<in> set xs \<Longrightarrow> \<not> p r) \<Longrightarrow> update_where p f xs = xs"
  by (simp add: update_where_def map_idI)

lemma send_error_not: "rs_status resp \<noteq> st \<Longrightarrow> (send_error m st c r b = (Returned resp, a1)) = False"
  by (auto simp: send_error_def split: prod.splits dest: arg_cong [where f = "\<lambda>p. rs_status (fst p)"])

lemma generate_202:
  assumes "HandleGenerateData stub env req a = (Returned resp, a1)" "rs_status resp = 202"
  shows "\<exists>j n run_id. av_parse env (hr_body req) = Inr j \<and> jvalue jget_int j ''host_count'' 5 = Inr n
    \<and> stub (ui_request n (hr_rid req)) = (Grpc_OK, run_id) \<and> a1 = a \<and> jat (rs_body resp) ''run_id'' = Inr (JStr run_id)"
  using assms
  by (auto simp: HandleGenerateData_def generate_try_block_def Let_def send_error_not or_throw_def SendJson_def
      split: outcome.splits prod.splits sum.splits grpc_status.splits if_splits)

text \<open>The calls of a run whose two times are read as the same instant.\<close>

lemma Run_no_times:
  assumes "ParseTime (rq_start_time_iso cfg) = ParseTime (rq_end_time_iso cfg)"
  shows "Run (Suc n) cfg run_id g stop None =
    Some ([Call_create, Call_start_writer, Call_wait_empty, Call_status ''SUCCEEDED'' 0 '''', Call_metrics 0 0] @ destructor_calls)"
  using assms by (simp add: Run_def start_producer_def finish_run_def split: prod.split)

definition idle :: "db \<Rightarrow> generation \<Rightarrow> bool" where
  "idle d s \<longleftrightarrow> gn_db s = d \<and> gn_queue s = [] \<and> (\<forall>b. gn_writer s \<noteq> Inserting b \<and> Call_enqueue b \<notin> set (gn_todo s))"

lemma idle_step:
  assumes "gen_step valid_ts cfg run_id s t" "idle d s"
    and "\<not> valid_ts (rq_start_time_iso cfg)" "\<not> has_dataset d run_id"
  shows "idle d t"
proof -
  have none: "\<not> gr_run_id r = run_id" if "r \<in> set (generation_runs d)" for r
    using assms(4) that by (auto simp: has_dataset_def)
  have same: "CreateRun f valid_ts now run_id cfg st rq d = d" "UpdateRunStatus f now run_id st k e d = d"
      "Heartbeat f now Generation run_id d = d" for f now st rq k e
    using assms(3) none
    by (cases f; simp add: CreateRun_def UpdateRunStatus_def Heartbeat_def transact_def update_where_none)+
  from assms(1) show ?thesis
  proof cases
    case (main_step c cs fault now)
    with assms(2) same show ?thesis by (cases c) (auto simp: idle_def notify_def)
  qed (use assms(2) in \<open>auto simp: idle_def split: writer_pc.splits list.splits if_splits\<close>)
qed


definition ex_service :: TelemetryServiceImpl where
  "ex_service = \<lparr>sv_jobs = new_JobManager, sv_work = []\<rparr>"

lemma ex_service_accepts: "\<exists>s1. GenerateTelemetry ''u1'' r ex_service = (Returned (Grpc_OK, ''u1''), s1)"
  by (simp add: GenerateTelemetry_def ex_service_def StartJob_def new_JobManager_def CleanupFinishedThreads_def)


end
