(* ===== verification/Api_Inference.thy ===== *)
theory Api_Inference
  imports Api_Jobs Score_Job
begin

text \<open>
  \<^verbatim>\<open>POST /inference\<close> of \<^verbatim>\<open>src/src/api_server.cpp\<close>: the samples of a request are scored with a model taken from
  the cache, and the request is recorded as an inference run. The clock of the cache, the files, the
  duration and the rendering of a \<^verbatim>\<open>double\<close> are parameters besides those of the other handlers.
\<close>

section \<open>The handler\<close>

record infer_env =
  iv_api :: api_env
  iv_cache :: cache_env
  iv_error_text :: "real \<Rightarrow> string"
  iv_latency_ms :: real

text \<open>What a range-based \<^verbatim>\<open>for\<close> over a JSON value visits: nothing for null, the value itself for a scalar.\<close>

fun jelems :: "json \<Rightarrow> json list" where
  "jelems JNull = []"
| "jelems (JArr js) = js"
| "jelems (JObj m) = map snd m"
| "jelems j = [j]"

definition sample_vector :: "json \<Rightarrow> FeatureVector cpp" where
  "sample_vector s =
     cbind (jvalue jget_double s ''cpu_usage'' 0) (\<lambda>v0.
     cbind (jvalue jget_double s ''memory_usage'' 0) (\<lambda>v1.
     cbind (jvalue jget_double s ''disk_utilization'' 0) (\<lambda>v2.
     cbind (jvalue jget_double s ''network_rx_rate'' 0) (\<lambda>v3.
     cbind (jvalue jget_double s ''network_tx_rate'' 0) (\<lambda>v4. Inr [v0, v1, v2, v3, v4])))))"

definition score_sample :: "(real \<Rightarrow> string) \<Rightarrow> PcaModel \<Rightarrow> json \<Rightarrow> PcaScore cpp" where
  "score_sample fmt pca s = cbind (sample_vector s) (\<lambda>v. Score fmt v pca)"

definition result_json :: "PcaScore \<Rightarrow> json" where
  "result_json score = jobject [(''is_anomaly'', JBool (ps_is_anomaly score)), (''score'', JReal (reconstruction_error score))]"

definition anomalies_in :: "PcaScore list \<Rightarrow> int" where
  "anomalies_in rs = int (length (filter ps_is_anomaly rs))"

definition infer_response :: "string \<Rightarrow> string \<Rightarrow> PcaScore list \<Rightarrow> json" where
  "infer_response mid inference_id rs = jobject
     [(''results'', JArr (map result_json rs)), (''model_run_id'', JStr mid), (''inference_id'', JStr inference_id),
      (''inference_run_id'', JStr inference_id), (''anomaly_count'', JInt (anomalies_in rs))]"

text \<open>From the creation of the inference run to the response.\<close>

definition infer_samples ::
  "infer_env \<Rightarrow> string \<Rightarrow> string \<Rightarrow> PcaModel \<Rightarrow> json list \<Rightarrow> api \<Rightarrow> HttpResponse outcome \<times> api" where
  "infer_samples env rid mid pca samples a =
     (case CreateInferenceRun (av_fault (iv_api env) 1) (av_uuid (iv_api env) 0) mid (ap_db a) of
        (Inl e, d) \<Rightarrow> (Threw e, a\<lparr>ap_db := d\<rparr>)
      | (Inr inference_id, d) \<Rightarrow>
          (let a1 = a\<lparr>ap_db := d\<rparr> in
           or_throw (cmap (score_sample (iv_error_text env) pca) samples) a1 (\<lambda>rs.
             let d2 = (if inference_id \<noteq> '''' then
                         UpdateInferenceRunStatus (av_fault (iv_api env) 2) inference_id ''COMPLETED'' (anomalies_in rs)
                           (JArr (map result_json rs)) (iv_latency_ms env) d
                       else d);
                 labels = [(''model_run_id'', mid)];
                 reg = EmitCounter ''infer_rows_scored'' (int (length rs)) labels
                         (EmitHistogram ''infer_duration_ms'' (iv_latency_ms env) labels (ap_registry a1))
             in (Returned (SendJson (infer_response mid inference_id rs) 200 rid), a1\<lparr>ap_db := d2, ap_registry := reg\<rparr>))))"

definition infer_try_block :: "infer_env \<Rightarrow> HttpRequest \<Rightarrow> api \<Rightarrow> HttpResponse outcome \<times> api" where
  "infer_try_block env req a =
     (let rid = hr_rid req in
      or_throw (av_parse (iv_api env) (hr_body req)) a (\<lambda>j.
      or_throw (cbind (jrequire j ''model_run_id'') jget_string) a (\<lambda>mid.
      or_throw (jrequire j ''samples'') a (\<lambda>samples.
      if length (jelems samples) > 1000 then send_error ''Too many samples (max 1000)'' 400 kErrHttpInvalidArgument rid a
      else
        let model_info = GetModelRun (av_fault (iv_api env) 0) (av_time_text (iv_api env)) mid (ap_db a) in
        if jempty model_info then send_error ''Model not found'' 404 kErrHttpNotFound rid a
        else
          or_throw (jvalue jget_string model_info ''artifact_path'' '''') a (\<lambda>artifact_path.
          if artifact_path = '''' then send_error ''Model is not yet complete or has no artifact'' 400 kErrHttpBadRequest rid a
          else
            case GetOrCreate (cv_order (iv_cache env)) (cv_sizeof (iv_cache env)) (cv_artifacts (iv_cache env))
                   (cv_now (iv_cache env)) mid artifact_path (ap_cache a) of
              (Returned pca, c) \<Rightarrow> infer_samples env rid mid pca (jelems samples) (a\<lparr>ap_cache := c\<rparr>)
            | (Threw e, c) \<Rightarrow>
                send_error (''Failed to load PCA model artifact: '' @ what e) 500 kErrModelLoadFailed rid (a\<lparr>ap_cache := c\<rparr>)
            | (Terminated, c) \<Rightarrow> (Terminated, a\<lparr>ap_cache := c\<rparr>)
            | (Undefined, c) \<Rightarrow> (Undefined, a\<lparr>ap_cache := c\<rparr>))))))"

definition HandleInference :: "infer_env \<Rightarrow> HttpRequest \<Rightarrow> api \<Rightarrow> HttpResponse outcome \<times> api" where
  "HandleInference env req a =
     (case infer_try_block env req a of
        (Threw e, a1) \<Rightarrow>
          (let code = ClassifyHttpError e;
               status = (if client_error code then 400 else if code = kErrHttpNotFound then 404 else 500)
           in send_error (''Error: '' @ what e) status code (hr_rid req) a1)
      | r \<Rightarrow> r)"



section \<open>What a request leaves behind\<close>

text \<open>The row of an inference run: as created, and after the samples have been scored.\<close>

definition created_run :: "string \<Rightarrow> string \<Rightarrow> inference_run" where
  "created_run iid mid =
     \<lparr>ir_inference_id = iid, ir_model_run_id = mid, ir_status = ''RUNNING'', ir_anomaly_count = 0,
      ir_details = JNull, ir_latency_ms = 0\<rparr>"

definition completed_run :: "string \<Rightarrow> string \<Rightarrow> PcaScore list \<Rightarrow> real \<Rightarrow> inference_run" where
  "completed_run iid mid rs latency =
     \<lparr>ir_inference_id = iid, ir_model_run_id = mid, ir_status = ''COMPLETED'', ir_anomaly_count = anomalies_in rs,
      ir_details = JArr (map result_json rs), ir_latency_ms = latency\<rparr>"

lemma CreateInferenceRun_cases:
  assumes "CreateInferenceRun fault iid mid d = (out, d')"
  obtains (created) "out = Inr iid" "d' = d\<lparr>inference_runs := inference_runs d @ [created_run iid mid]\<rparr>"
      "iid \<notin> ir_inference_id ` set (inference_runs d)" "fault = None"
  | (failed) e where "out = Inl e" "d' = d"
  using assms by (auto simp: CreateInferenceRun_def transact_def created_run_def split: option.splits if_splits)

lemma complete_created:
  assumes "iid \<notin> ir_inference_id ` set (inference_runs d)" and "table = inference_runs d @ [created_run iid mid]"
  shows "UpdateInferenceRunStatus fault iid ''COMPLETED'' (anomalies_in rs) (JArr (map result_json rs)) latency (d\<lparr>inference_runs := table\<rparr>)
    = d\<lparr>inference_runs := inference_runs d @
          [if fault = None then completed_run iid mid rs latency else created_run iid mid]\<rparr>"
proof -
  have "update_where (\<lambda>r. ir_inference_id r = iid) f (inference_runs d) = inference_runs d" for f
    using assms(1) by (auto simp: update_where_def intro!: map_idI)
  then have "update_where (\<lambda>r. ir_inference_id r = iid) f (inference_runs d @ [r]) =
      inference_runs d @ [if ir_inference_id r = iid then f r else r]" for f r
    by (simp add: update_where_def)
  then show ?thesis
    using assms(2) by (auto simp: UpdateInferenceRunStatus_def transact_def completed_run_def created_run_def split: option.splits)
qed

text \<open>
  An inference request changes the table of inference runs at most, by one row at its end: the completed
  run of an answered request, or a run that is left in its first state.
\<close>

definition infer_post :: "infer_env \<Rightarrow> string \<Rightarrow> api \<Rightarrow> HttpResponse outcome \<times> api \<Rightarrow> bool" where
  "infer_post env rid a r \<longleftrightarrow>
     (case r of (out, a') \<Rightarrow>
        ap_jobs a' = ap_jobs a \<and> ap_work a' = ap_work a \<and>
        (\<exists>new. ap_db a' = (ap_db a)\<lparr>inference_runs := inference_runs (ap_db a) @ new\<rparr>
          \<and> (if \<exists>resp. out = Returned resp \<and> rs_status resp = 200
             then \<exists>mid pca samples rs. length samples \<le> 1000
               \<and> cmap (score_sample (iv_error_text env) pca) samples = Inr rs
               \<and> out = Returned (SendJson (infer_response mid (av_uuid (iv_api env) 0) rs) 200 rid)
               \<and> new = [if av_fault (iv_api env) 2 = None
                         then completed_run (av_uuid (iv_api env) 0) mid rs (iv_latency_ms env)
                         else created_run (av_uuid (iv_api env) 0) mid]
             else new = [] \<or> (\<exists>mid. new = [created_run (av_uuid (iv_api env) 0) mid]))))"

lemma infer_post_nothing:
  assumes "ap_jobs a' = ap_jobs a" "ap_work a' = ap_work a" "ap_db a' = ap_db a" "\<And>resp. out = Returned resp \<Longrightarrow> rs_status resp \<noteq> 200"
  shows "infer_post env rid a (out, a')"
  using assms unfolding infer_post_def by (auto intro!: exI [of _ "[]"])

lemma infer_post_error:
  "st \<noteq> 200 \<Longrightarrow> ap_jobs a' = ap_jobs a \<Longrightarrow> ap_work a' = ap_work a \<Longrightarrow> ap_db a' = ap_db a \<Longrightarrow>
     infer_post env rid a (send_error m st c rid a')"
  unfolding send_error_def split_beta by (rule infer_post_nothing) (auto simp: SendError_def)

lemma infer_post_200:
  assumes "ap_jobs a' = ap_jobs a" "ap_work a' = ap_work a" "length samples \<le> 1000"
    and "cmap (score_sample (iv_error_text env) pca) samples = Inr rs"
    and "ap_db a' = (ap_db a)\<lparr>inference_runs := inference_runs (ap_db a) @
           [if av_fault (iv_api env) 2 = None then completed_run (av_uuid (iv_api env) 0) mid rs (iv_latency_ms env)
            else created_run (av_uuid (iv_api env) 0) mid]\<rparr>"
  shows "infer_post env rid a (Returned (SendJson (infer_response mid (av_uuid (iv_api env) 0) rs) 200 rid), a')"
  unfolding infer_post_def prod.case
  by (intro conjI exI, fact assms(1), fact assms(2), fact assms(5), subst if_P, simp, intro exI conjI, fact assms(3),
      fact assms(4), rule refl, rule refl)

lemma infer_post_samples:
  assumes "length samples \<le> 1000" and "av_uuid (iv_api env) 0 \<noteq> ''''"
    and "ap_jobs b = ap_jobs a" "ap_work b = ap_work a" "ap_db b = ap_db a"
  shows "infer_post env rid a (infer_samples env rid mid pca samples b)"
proof (cases "CreateInferenceRun (av_fault (iv_api env) 1) (av_uuid (iv_api env) 0) mid (ap_db b)" rule: prod.exhaust)
  case (Pair out d)
  then show ?thesis
  proof (cases rule: CreateInferenceRun_cases)
    case (failed e)
    then show ?thesis
      using Pair assms(3-5) by (auto simp: infer_samples_def intro!: infer_post_nothing)
  next
    case created
    show ?thesis
    proof (cases "cmap (score_sample (iv_error_text env) pca) samples")
      case (Inl e)
      then show ?thesis
        using Pair created assms(3-5)
        by (auto simp: infer_samples_def Let_def infer_post_def intro!: exI [of _ "[created_run (av_uuid (iv_api env) 0) mid]"])
    next
      case (Inr rs)
      let ?row = "if av_fault (iv_api env) 2 = None then completed_run (av_uuid (iv_api env) 0) mid rs (iv_latency_ms env)
                  else created_run (av_uuid (iv_api env) 0) mid"
      have "fst (infer_samples env rid mid pca samples b) = Returned (SendJson (infer_response mid (av_uuid (iv_api env) 0) rs) 200 rid)"
          "ap_db (snd (infer_samples env rid mid pca samples b)) = (ap_db a)\<lparr>inference_runs := inference_runs (ap_db a) @ [?row]\<rparr>"
          "ap_jobs (snd (infer_samples env rid mid pca samples b)) = ap_jobs a" "ap_work (snd (infer_samples env rid mid pca samples b)) = ap_work a"
        using Pair created Inr assms(2-5) complete_created [OF created(3) refl, of "av_fault (iv_api env) 2" rs "iv_latency_ms env" mid]
        by (simp_all add: infer_samples_def Let_def)
      then show ?thesis
        using infer_post_200 [OF _ _ assms(1) Inr, of "snd (infer_samples env rid mid pca samples b)" a mid rid]
        by (metis prod.collapse)
    qed
  qed
qed

lemma or_throw_infer_post:
  "(\<And>x. m = Inr x \<Longrightarrow> infer_post env rid a (k x)) \<Longrightarrow> infer_post env rid a (or_throw m a k)"
  by (cases m) (auto intro!: infer_post_nothing)

lemma infer_try_block_post:
  assumes "av_uuid (iv_api env) 0 \<noteq> ''''"
  shows "infer_post env (hr_rid req) a (infer_try_block env req a)"
  unfolding infer_try_block_def Let_def
  by (intro or_throw_infer_post)
    (auto intro!: infer_post_error infer_post_samples infer_post_nothing or_throw_infer_post assms split: prod.splits outcome.splits)



section \<open>Answered and abandoned requests\<close>

text \<open>A well-formed request for a completed model that the cache delivers.\<close>

definition inference_request :: "infer_env \<Rightarrow> HttpRequest \<Rightarrow> string \<Rightarrow> json list \<Rightarrow> PcaModel \<Rightarrow> api \<Rightarrow> bool" where
  "inference_request env req mid samples pca a \<longleftrightarrow>
     (case av_parse (iv_api env) (hr_body req) of
        Inl e \<Rightarrow> False
      | Inr j \<Rightarrow> jrequire j ''model_run_id'' = Inr (JStr mid) \<and> jrequire j ''samples'' = Inr (JArr samples))
     \<and> length samples \<le> 1000 \<and> av_fault (iv_api env) 0 = None \<and> av_fault (iv_api env) 1 = None
     \<and> av_uuid (iv_api env) 0 \<notin> insert '''' (ir_inference_id ` set (inference_runs (ap_db a)))
     \<and> (case find (\<lambda>m. mr_model_run_id m = mid) (model_runs (ap_db a)) of
          None \<Rightarrow> False
        | Some m \<Rightarrow>
            (case mr_artifact_path m of
               None \<Rightarrow> False
             | Some path \<Rightarrow> path \<noteq> '''' \<and>
                 fst (GetOrCreate (cv_order (iv_cache env)) (cv_sizeof (iv_cache env)) (cv_artifacts (iv_cache env))
                   (cv_now (iv_cache env)) mid path (ap_cache a)) = Returned pca))"

lemma inference_request_samples:
  assumes "inference_request env req mid samples pca a"
  obtains c where "infer_try_block env req a = infer_samples env (hr_rid req) mid pca samples (a\<lparr>ap_cache := c\<rparr>)"
    and "CreateInferenceRun (av_fault (iv_api env) 1) (av_uuid (iv_api env) 0) mid (ap_db a) =
      (Inr (av_uuid (iv_api env) 0), (ap_db a)\<lparr>inference_runs := inference_runs (ap_db a) @ [created_run (av_uuid (iv_api env) 0) mid]\<rparr>)"
proof -
  obtain m path where m: "find (\<lambda>m. mr_model_run_id m = mid) (model_runs (ap_db a)) = Some m" "mr_artifact_path m = Some path" "path \<noteq> ''''"
      "fst (GetOrCreate (cv_order (iv_cache env)) (cv_sizeof (iv_cache env)) (cv_artifacts (iv_cache env))
                   (cv_now (iv_cache env)) mid path (ap_cache a)) = Returned pca"
    using assms by (auto simp: inference_request_def split: option.splits)
  obtain c where c: "GetOrCreate (cv_order (iv_cache env)) (cv_sizeof (iv_cache env)) (cv_artifacts (iv_cache env))
                   (cv_now (iv_cache env)) mid path (ap_cache a) = (Returned pca, c)"
    using m(4) by (metis prod.collapse)
  let ?info = "GetModelRun None (av_time_text (iv_api env)) mid (ap_db a)"
  have info: "jvalue jget_string ?info ''artifact_path'' '''' = Inr path" "\<not> jempty ?info"
    using model_artifact_path [OF m(1,2), of "av_time_text (iv_api env)"] m(3) by (auto simp: jempty_def)
  have "infer_try_block env req a = infer_samples env (hr_rid req) mid pca samples (a\<lparr>ap_cache := c\<rparr>)"
    using assms info m(3) c by (auto simp: infer_try_block_def inference_request_def Let_def split: sum.splits)
  moreover have "has_model (ap_db a) mid"
    using m(1) by (auto simp: has_model_def find_Some_iff)
  ultimately show thesis
    using that assms by (auto simp: CreateInferenceRun_def transact_def inference_request_def created_run_def)
qed

text \<open>
  C26. A well-formed inference request is answered: for a completed model whose artifact the cache delivers,
  when every sample can be scored, the response is 200 with the model's verdict on each sample in
  order, and the run is recorded as completed, unless that last write fails.
\<close>

theorem HandleInference_answers:
  assumes "inference_request env req mid samples pca a"
    and "cmap (score_sample (iv_error_text env) pca) samples = Inr rs"
  shows "\<exists>a'. HandleInference env req a =
      (Returned (SendJson (infer_response mid (av_uuid (iv_api env) 0) rs) 200 (hr_rid req)), a')
    \<and> length rs = length samples
    \<and> inference_runs (ap_db a') = inference_runs (ap_db a) @
        [if av_fault (iv_api env) 2 = None then completed_run (av_uuid (iv_api env) 0) mid rs (iv_latency_ms env)
         else created_run (av_uuid (iv_api env) 0) mid]"
proof -
  obtain c where c: "infer_try_block env req a = infer_samples env (hr_rid req) mid pca samples (a\<lparr>ap_cache := c\<rparr>)"
      "CreateInferenceRun (av_fault (iv_api env) 1) (av_uuid (iv_api env) 0) mid (ap_db a) =
      (Inr (av_uuid (iv_api env) 0), (ap_db a)\<lparr>inference_runs := inference_runs (ap_db a) @ [created_run (av_uuid (iv_api env) 0) mid]\<rparr>)"
    by (rule inference_request_samples [OF assms(1)])
  have uuid: "av_uuid (iv_api env) 0 \<noteq> ''''" "av_uuid (iv_api env) 0 \<notin> ir_inference_id ` set (inference_runs (ap_db a))"
    using assms(1) by (auto simp: inference_request_def)
  show ?thesis
    using c assms(2) uuid(1) cmap_length [OF assms(2)]
      complete_created [OF uuid(2) refl, of "av_fault (iv_api env) 2" rs "iv_latency_ms env" mid]
    by (simp add: HandleInference_def infer_samples_def Let_def)
qed

text \<open>
  A sample that cannot be scored ends the request after its run was created: the run stays RUNNING, and
  the sweep for stale jobs does not look at inference runs.
\<close>

lemma inference_left_running:
  assumes "inference_request env req mid samples pca a"
    and "cmap (score_sample (iv_error_text env) pca) samples = Inl e"
  shows "\<exists>resp a'. HandleInference env req a = (Returned resp, a') \<and> rs_status resp \<noteq> 200
    \<and> (\<forall>fault now ttl. inference_runs (ReconcileStaleJobs fault now ttl (ap_db a')) =
         inference_runs (ap_db a) @ [created_run (av_uuid (iv_api env) 0) mid])
    \<and> ir_status (created_run (av_uuid (iv_api env) 0) mid) = ''RUNNING''"
proof -
  obtain c where c: "infer_try_block env req a = infer_samples env (hr_rid req) mid pca samples (a\<lparr>ap_cache := c\<rparr>)"
      "CreateInferenceRun (av_fault (iv_api env) 1) (av_uuid (iv_api env) 0) mid (ap_db a) =
      (Inr (av_uuid (iv_api env) 0), (ap_db a)\<lparr>inference_runs := inference_runs (ap_db a) @ [created_run (av_uuid (iv_api env) 0) mid]\<rparr>)"
    by (rule inference_request_samples [OF assms(1)])
  show ?thesis
    using c assms(2)
    by (auto simp: HandleInference_def infer_samples_def Let_def send_error_def SendError_def ReconcileStaleJobs_def transact_def
        created_run_def split: option.splits)
qed

section \<open>A concrete request\<close>

definition ex_infer_env :: infer_env where
  "ex_infer_env =
     \<lparr>iv_api = ex_api_env\<lparr>av_parse := \<lambda>s. Inr (JObj [(''model_run_id'', JStr ''m1''), (''samples'', JArr [JObj [(''cpu_usage'', JInt 3)]])]),
                          av_uuid := \<lambda>k. ''i1''\<rparr>,
      iv_cache = ex_cache_env, iv_error_text = \<lambda>x. '''', iv_latency_ms = 2\<rparr>"

definition ex_infer_api :: api where
  "ex_infer_api = ex_api\<lparr>ap_db := ex_scoring_db, ap_cache := ex_cache\<rparr>"

lemma ex_inference_request: "inference_request ex_infer_env ex_http_request ''m1'' [JObj [(''cpu_usage'', JInt 3)]] ex_model ex_infer_api"
proof -
  obtain m where "find (\<lambda>m. mr_model_run_id m = ''m1'') (model_runs ex_scoring_db) = Some m" "mr_artifact_path m = Some ''p''"
    using ex_scoring_rows(3) by blast
  moreover have "inference_runs ex_scoring_db = []"
    by (simp add: ex_scoring_defs)
  ultimately show ?thesis
    using ex_cache_hit by (auto simp: inference_request_def ex_infer_env_def ex_infer_api_def ex_api_env_def)
qed

lemma ex_score_sample: "\<exists>r. score_sample fmt ex_model (JObj [(''cpu_usage'', JInt 3)]) = Inr r"
  using residual_of_eq [of "[3, 0, 0, 0, 0]" 5 "cur_mean ex_model" "cur_scale ex_model" "pca_mean ex_model" "components ex_model"]
  by (auto simp: score_sample_def sample_vector_def Score_def Let_def ex_model_def)

theorem HandleInference_answers_witness:
  "\<exists>rs a'. HandleInference ex_infer_env ex_http_request ex_infer_api =
      (Returned (SendJson (infer_response ''m1'' ''i1'' rs) 200 ''r1''), a') \<and> length rs = 1
    \<and> inference_runs (ap_db a') = [completed_run ''i1'' ''m1'' rs 2]"
proof -
  obtain r where r: "cmap (score_sample (iv_error_text ex_infer_env) ex_model) [JObj [(''cpu_usage'', JInt 3)]] = Inr [r]"
    using ex_score_sample [of "iv_error_text ex_infer_env"] by auto
  have "inference_runs ex_scoring_db = []"
    by (simp add: ex_scoring_defs)
  moreover have "av_uuid (iv_api ex_infer_env) 0 = ''i1''" "av_fault (iv_api ex_infer_env) 2 = None" "iv_latency_ms ex_infer_env = 2"
      "hr_rid ex_http_request = ''r1''" "ap_db ex_infer_api = ex_scoring_db"
    by (simp_all add: ex_infer_env_def ex_api_env_def ex_http_request_def ex_infer_api_def)
  ultimately show ?thesis
    using HandleInference_answers [OF ex_inference_request r] by (intro exI [of _ "[r]"]) simp
qed


end
