(* ===== verification/Api_Cancel.thy ===== *)
theory Api_Cancel
  imports Api_Jobs
begin

text \<open>
  The remaining handlers of \<^verbatim>\<open>src/src/api_server.cpp\<close> that act on jobs: \<^verbatim>\<open>POST /jobs/score_dataset\<close>,
  \<^verbatim>\<open>DELETE /jobs/{id}\<close>, \<^verbatim>\<open>DELETE /train/{id}\<close> and \<^verbatim>\<open>POST /models/{id}/rerun_failed\<close>. The last two have no
  \<^verbatim>\<open>try\<close> block: an exception leaves the handler, and the HTTP library answers it. The number in
  \<open>av_fault\<close> is that of the call within the handler.
\<close>

section \<open>POST /jobs/score_dataset\<close>

definition score_job_response :: "string \<Rightarrow> string \<Rightarrow> json" where
  "score_job_response jid status = jobject [(''job_id'', JStr jid), (''score_job_id'', JStr jid), (''status'', JStr status)]"

definition score_job_fields :: "json \<Rightarrow> (string \<times> int \<times> int \<times> int) cpp" where
  "score_job_fields job =
     cbind (jvalue jget_string job ''status'' '''') (\<lambda>status.
     cbind (jvalue jget_long job ''total_rows'' 0) (\<lambda>total_rows.
     cbind (jvalue jget_long job ''processed_rows'' 0) (\<lambda>processed.
     cbind (jvalue jget_long job ''last_record_id'' 0) (\<lambda>last_record. Inr (status, total_rows, processed, last_record)))))"

definition score_try_block :: "api_env \<Rightarrow> HttpRequest \<Rightarrow> api \<Rightarrow> HttpResponse outcome \<times> api" where
  "score_try_block env req a =
     (let rid = hr_rid req in
      or_throw (av_parse env (hr_body req)) a (\<lambda>j.
      or_throw (cbind (jrequire j ''dataset_id'') jget_string) a (\<lambda>dataset_id.
      or_throw (cbind (jrequire j ''model_run_id'') jget_string) a (\<lambda>mid.
      (case CreateScoreJob (av_fault env 0) (av_now env) (av_uuid env 0) dataset_id mid rid (ap_db a) of
         (Inl e, d) \<Rightarrow> (Threw e, a\<lparr>ap_db := d\<rparr>)
       | (Inr jid, d) \<Rightarrow>
           (let a1 = a\<lparr>ap_db := d\<rparr>; job = GetScoreJob (av_fault env 1) (av_time_text env) jid d in
            if jid = '''' then send_error ''Failed to create job'' 500 kErrDbInsertFailed rid a1
            else if jempty job then send_error ''Failed to load job status'' 500 kErrDbQueryFailed rid a1
            else
              or_throw (score_job_fields job) a1 (\<lambda>(status, total_rows, processed, last_record).
              if status = ''RUNNING'' \<or> status = ''COMPLETED'' then
                (Returned (SendJson
                   (jset ''last_record_id'' (JInt last_record) (jset ''processed_rows'' (JInt processed)
                      (jset ''total_rows'' (JInt total_rows) (score_job_response jid status)))) 200 rid), a1)
              else
                after (submit (''score-'' @ jid) rid (Score_work dataset_id mid jid) a1)
                  (\<lambda>u a2. (Returned (SendJson (score_job_response jid ''RUNNING'') 202 rid), a2)))))))))"

definition HandleScoreDatasetJob :: "api_env \<Rightarrow> HttpRequest \<Rightarrow> api \<Rightarrow> HttpResponse outcome \<times> api" where
  "HandleScoreDatasetJob env req a =
     (case score_try_block env req a of
        (Threw e, a1) \<Rightarrow>
          if contains (what e) ''Job queue full'' then send_error (what e) 503 kErrHttpResourceExhausted (hr_rid req) a1
          else send_error (''Error: '' @ what e) 400 kErrHttpBadRequest (hr_rid req) a1
      | r \<Rightarrow> r)"

section \<open>Cancellation\<close>

definition HandleDeleteJob :: "HttpRequest \<Rightarrow> api \<Rightarrow> HttpResponse outcome \<times> api" where
  "HandleDeleteJob req a =
     (Returned \<lparr>rs_status = 200,
        rs_body = jobject [(''status'', JStr ''CANCEL_REQUESTED''), (''job_id'', JStr (hr_match req)), (''request_id'', JStr (hr_rid req))]\<rparr>,
      a\<lparr>ap_jobs := CancelJob (hr_match req) (ap_jobs a)\<rparr>)"

fun cancel_trials :: "api_env \<Rightarrow> nat \<Rightarrow> json list \<Rightarrow> api \<Rightarrow> unit outcome \<times> api" where
  "cancel_trials env k [] a = (Returned (), a)"
| "cancel_trials env k (t # ts) a =
     or_throw (cbind (jat t ''model_run_id'') jget_string) a (\<lambda>tid.
     or_throw (cbind (jat t ''status'') jget_string) a (\<lambda>tst.
       cancel_trials env (k + 2) ts
         (if tst = ''PENDING'' \<or> tst = ''RUNNING'' then
            a\<lparr>ap_jobs := CancelJob (''train-'' @ tid) (ap_jobs a),
              ap_db := UpdateTrialEligibility (av_fault env (k + 1)) (av_now env) tid False ''CANCELED'' 0 ''''
                (UpdateModelRunStatus (av_fault env k) (av_now env) tid ''CANCELLED'' '''' ''Cancelled by parent tuning run request'' JNull (ap_db a))\<rparr>
          else a)))"

definition HandleDeleteTrain :: "api_env \<Rightarrow> HttpRequest \<Rightarrow> api \<Rightarrow> HttpResponse outcome \<times> api" where
  "HandleDeleteTrain env req a =
     (let rid = hr_rid req; mid = hr_match req; j = GetModelRun (av_fault env 0) (av_time_text env) mid (ap_db a) in
      if jempty j then send_error ''Model run not found'' 404 kErrHttpNotFound rid a
      else
        or_throw (cbind (jat j ''status'') jget_string) a (\<lambda>status.
        if status = ''COMPLETED'' \<or> status = ''FAILED'' \<or> status = ''CANCELLED''
        then send_error ''Cannot cancel terminal run'' 400 ''E_TERMINAL'' rid a
        else
          or_throw (jat j ''hpo_config'') a (\<lambda>hpo.
          after (if hpo \<noteq> JNull then cancel_trials env 3 (GetHpoTrials (av_fault env 1) (av_time_text env) mid (ap_db a)) a else (Returned (), a))
            (\<lambda>u a1.
               (Returned (SendJson (jobject [(''status'', JStr ''CANCEL_REQUESTED''), (''model_run_id'', JStr mid)]) 200 rid),
                a1\<lparr>ap_jobs := CancelJob (''train-'' @ mid) (ap_jobs a1),
                   ap_db := UpdateModelRunStatus (av_fault env 2) (av_now env) mid ''CANCELLED'' '''' ''Cancelled by user request'' JNull (ap_db a1)\<rparr>)))))"

section \<open>POST /models/{id}/rerun_failed\<close>

definition rerun_name :: "string \<Rightarrow> string \<Rightarrow> string" where
  "rerun_name uuid name = (if contains name ''_rerun_'' then name else name @ ''_rerun_'' @ take 4 uuid)"

definition rerun_fields :: "json \<Rightarrow> (string \<times> string \<times> json \<times> int \<times> json \<times> int \<times> real) cpp" where
  "rerun_fields t =
     cbind (cbind (jat t ''name'') jget_string) (\<lambda>name.
     cbind (cbind (jat t ''dataset_id'') jget_string) (\<lambda>dataset_id.
     cbind (jat t ''training_config'') (\<lambda>cfg.
     cbind (cbind (jat t ''trial_index'') jget_int) (\<lambda>idx.
     cbind (jat t ''trial_params'') (\<lambda>params.
     cbind (cbind (jat cfg ''n_components'') jget_int) (\<lambda>n.
     cbind (cbind (jat cfg ''percentile'') jget_double) (\<lambda>p. Inr (name, dataset_id, cfg, idx, params, n, p))))))))"

text \<open>At most ten trials are created again and started; each uses one identifier for its name and one for its row.\<close>

fun rerun_trials :: "api_env \<Rightarrow> string \<Rightarrow> string \<Rightarrow> nat \<Rightarrow> json list \<Rightarrow> string list \<Rightarrow> api \<Rightarrow> (nat \<times> string list) outcome \<times> api" where
  "rerun_trials env rid mid k [] ids a = (Returned (k, ids), a)"
| "rerun_trials env rid mid k (t # ts) ids a =
     (if k \<ge> 10 then (Returned (k, ids), a)
      else
        or_throw (rerun_fields t) a (\<lambda>(name, dataset_id, cfg, idx, params, n, p).
        (case CreateHpoTrialRun (av_fault env (2 + k)) (av_now env) (av_uuid env (2 * k + 1)) dataset_id
                (rerun_name (av_uuid env (2 * k)) name) cfg rid mid idx params (ap_db a) of
           (Inl e, d) \<Rightarrow> (Threw e, a\<lparr>ap_db := d\<rparr>)
         | (Inr tid, d) \<Rightarrow>
             (let a1 = a\<lparr>ap_db := d\<rparr> in
              if tid = '''' then rerun_trials env rid mid (k + 1) ts ids a1
              else after (RunPcaTraining tid dataset_id n p rid a1) (\<lambda>u a2. rerun_trials env rid mid (k + 1) ts (ids @ [tid]) a2)))))"

definition failed_trial :: "json \<Rightarrow> bool" where
  "failed_trial t \<longleftrightarrow> jat t ''status'' = Inr (JStr ''FAILED'') \<or> jat t ''status'' = Inr (JStr ''CANCELLED'')"

definition HandleRerunFailed :: "api_env \<Rightarrow> HttpRequest \<Rightarrow> api \<Rightarrow> HttpResponse outcome \<times> api" where
  "HandleRerunFailed env req a =
     (let rid = hr_rid req; mid = hr_match req; j = GetModelRun (av_fault env 0) (av_time_text env) mid (ap_db a) in
      if jempty j then send_error ''Model run not found'' 404 kErrHttpNotFound rid a
      else if jat j ''type'' \<noteq> Inr (JStr ''TUNING'') then send_error ''Not a tuning run'' 400 ''E_NOT_TUNING'' rid a
      else
        (let failed_trials = filter failed_trial (GetHpoTrials (av_fault env 1) (av_time_text env) mid (ap_db a)) in
         if failed_trials = [] then send_error ''No failed or cancelled trials to rerun'' 400 ''E_NO_FAILED_TRIALS'' rid a
         else
           after (rerun_trials env rid mid 0 failed_trials [] a) (\<lambda>(cnt, ids) a1.
             (Returned (SendJson (jobject [(''rerun_count'', JInt (int cnt)), (''new_trial_ids'', JArr (map JStr ids))]) 202 rid), a1))))"

section \<open>Accepted scoring requests\<close>

lemma StartJob_again:
  assumes "jm_reachable m" "StartJob jid rid m = (Returned (), m1)"
  shows "fst (StartJob jid rid' m1) =
    (if current_jobs m1 < max_jobs m1 then Terminated else Threw (Runtime_error ''Job queue full: max concurrent jobs reached''))"
proof -
  have m1: "\<not> stopping m1" "running m1 jid"
    using assms(2) by (auto simp: StartJob_cases running_started started_def [of jid rid] split: if_splits)
      (simp_all add: running_def)
  have inv: "jm_inv m1"
    using jm_inv_StartJob [OF jm.reachable_inv [OF assms(1)] assms(2)] by simp
  show ?thesis
    using m1 cleaned_thread_iff_running [OF inv m1(1), of jid] by (auto simp: StartJob_cases)
qed

lemma send_error_status: "send_error m st c r a = (Returned resp, a1) \<Longrightarrow> rs_status resp = st \<and> untouched a a1"
  by (auto simp: send_error_def SendError_def untouched_def)

lemma score_accepted:
  assumes "HandleScoreDatasetJob env req a = (Returned resp, a1)" "rs_status resp = 202"
  obtains j ds mid jid d st fs m where
    "av_parse env (hr_body req) = Inr j" "cbind (jrequire j ''dataset_id'') jget_string = Inr ds"
    "cbind (jrequire j ''model_run_id'') jget_string = Inr mid"
    "CreateScoreJob (av_fault env 0) (av_now env) (av_uuid env 0) ds mid (hr_rid req) (ap_db a) = (Inr jid, d)"
    "jid \<noteq> ''''" "\<not> jempty (GetScoreJob (av_fault env 1) (av_time_text env) jid d)"
    "score_job_fields (GetScoreJob (av_fault env 1) (av_time_text env) jid d) = Inr (st, fs)" "st \<noteq> ''RUNNING''" "st \<noteq> ''COMPLETED''"
    "StartJob (''score-'' @ jid) (hr_rid req) (ap_jobs a) = (Returned (), m)"
    "a1 = a\<lparr>ap_db := d, ap_jobs := m, ap_work := ap_work a @ [(''score-'' @ jid, Score_work ds mid jid)]\<rparr>"
    "resp = SendJson (score_job_response jid ''RUNNING'') 202 (hr_rid req)"
proof -
  have t: "score_try_block env req a = (Returned resp, a1)"
    using assms by (auto simp: HandleScoreDatasetJob_def send_error_def SendError_def split: prod.splits outcome.splits if_splits)
  obtain j ds mid where j: "av_parse env (hr_body req) = Inr j" "cbind (jrequire j ''dataset_id'') jget_string = Inr ds"
      "cbind (jrequire j ''model_run_id'') jget_string = Inr mid"
    using t by (auto simp: score_try_block_def Let_def or_throw_Returned)
  obtain jid d where c: "CreateScoreJob (av_fault env 0) (av_now env) (av_uuid env 0) ds mid (hr_rid req) (ap_db a) = (Inr jid, d)"
    using t j by (auto simp: score_try_block_def Let_def split: prod.splits sum.splits)
  have ne: "jid \<noteq> ''''" "\<not> jempty (GetScoreJob (av_fault env 1) (av_time_text env) jid d)"
    using t j c assms(2) by (auto simp: score_try_block_def Let_def dest!: send_error_status split: if_splits)
  obtain st fs where f: "score_job_fields (GetScoreJob (av_fault env 1) (av_time_text env) jid d) = Inr (st, fs)"
    using t j c ne by (auto simp: score_try_block_def Let_def or_throw_Returned)
  have st: "st \<noteq> ''RUNNING''" "st \<noteq> ''COMPLETED''"
    using t j c ne f assms(2) by (auto simp: score_try_block_def Let_def split: prod.splits)
  have s: "after (submit (''score-'' @ jid) (hr_rid req) (Score_work ds mid jid) (a\<lparr>ap_db := d\<rparr>))
      (\<lambda>u a2. (Returned (SendJson (score_job_response jid ''RUNNING'') 202 (hr_rid req)), a2)) = (Returned resp, a1)"
    using t j c ne f st by (simp add: score_try_block_def Let_def split: prod.splits)
  then obtain m where m: "StartJob (''score-'' @ jid) (hr_rid req) (ap_jobs a) = (Returned (), m)"
    by (auto simp: submit_def split: prod.splits outcome.splits)
  show thesis
    using s m by (intro that [OF j c ne f st m]) (simp_all add: submit_def)
qed


section \<open>Properties\<close>

text \<open>
  Scoring the same dataset with the same model a second time, before the first job has been
  claimed by its worker, ends the whole process: after a request that was answered with 202, the
  same request finds the PENDING job row again and starts a job with the same
  identifier, which the job manager cannot do while the first is running; only a full job queue prevents it, with the answer
  503.
\<close>

theorem score_request_repeated:
  assumes "reachable (\<lambda>d. d = empty_db) db_step (ap_db a)" "jm_reachable (ap_jobs a)"
    and "HandleScoreDatasetJob env req a = (Returned resp, a1)" "rs_status resp = 202"
  shows "if current_jobs (ap_jobs a1) < max_jobs (ap_jobs a1)
    then fst (HandleScoreDatasetJob (env\<lparr>av_uuid := u, av_now := t\<rparr>) req a1) = Terminated
    else \<exists>resp' a2. HandleScoreDatasetJob (env\<lparr>av_uuid := u, av_now := t\<rparr>) req a1 = (Returned resp', a2) \<and> rs_status resp' = 503"
proof -
  obtain j ds mid jid d st fs m where
    j: "av_parse env (hr_body req) = Inr j" "cbind (jrequire j ''dataset_id'') jget_string = Inr ds"
      "cbind (jrequire j ''model_run_id'') jget_string = Inr mid"
    and c: "CreateScoreJob (av_fault env 0) (av_now env) (av_uuid env 0) ds mid (hr_rid req) (ap_db a) = (Inr jid, d)"
    and f: "jid \<noteq> ''''" "\<not> jempty (GetScoreJob (av_fault env 1) (av_time_text env) jid d)"
      "score_job_fields (GetScoreJob (av_fault env 1) (av_time_text env) jid d) = Inr (st, fs)" "st \<noteq> ''RUNNING''" "st \<noteq> ''COMPLETED''"
    and m: "StartJob (''score-'' @ jid) (hr_rid req) (ap_jobs a) = (Returned (), m)"
    and eq: "a1 = a\<lparr>ap_db := d, ap_jobs := m, ap_work := ap_work a @ [(''score-'' @ jid, Score_work ds mid jid)]\<rparr>"
    by (rule score_accepted [OF assms(3,4)])
  have a1: "ap_db a1 = d" "ap_jobs a1 = m"
    by (simp_all add: eq)
  have nf: "av_fault env 0 = None"
    using c by (cases "av_fault env 0") (simp_all add: CreateScoreJob_def)
  have c2: "CreateScoreJob None t (u 0) ds mid (hr_rid req) d = (Inr jid, d)"
    using CreateScoreJob_idempotent [OF assms(1) c [unfolded nf]] by blast
  obtain o2 m2 where s: "StartJob (''score-'' @ jid) (hr_rid req) m = (o2, m2)"
    by fastforce
  note again = StartJob_again [OF assms(2) m, of "hr_rid req", unfolded s fst_conv]
  have t2: "score_try_block (env\<lparr>av_uuid := u, av_now := t\<rparr>) req a1 =
      after (submit (''score-'' @ jid) (hr_rid req) (Score_work ds mid jid) (a1\<lparr>ap_db := d\<rparr>))
        (\<lambda>u a2. (Returned (SendJson (score_job_response jid ''RUNNING'') 202 (hr_rid req)), a2))"
    using j c2 f nf a1 by (simp add: score_try_block_def Let_def split: prod.splits)
  show ?thesis
  proof (cases "current_jobs m < max_jobs m")
    case True
    then show ?thesis
      using again s a1 by (simp add: HandleScoreDatasetJob_def t2 submit_def)
  next
    case False
    then have "o2 = Threw (Runtime_error ''Job queue full: max concurrent jobs reached'')"
      using again by simp
    then show ?thesis
      using False s a1 by (simp add: HandleScoreDatasetJob_def t2 submit_def send_error_def SendError_def)
  qed
qed

definition ex_score_api_env :: api_env where
  "ex_score_api_env = ex_api_env\<lparr>av_parse := \<lambda>s. Inr (JObj [(''dataset_id'', JStr ''d1''), (''model_run_id'', JStr ''m1'')]), av_uuid := \<lambda>k. ''j1''\<rparr>"

definition ex_score_api :: api where
  "ex_score_api = ex_api\<lparr>ap_db := ex_train_db\<rparr>"

lemma ex_train_db_keys: "has_dataset ex_train_db ''d1''" "has_model ex_train_db ''m1''" "score_jobs ex_train_db = []"
  using ex_dataset_keys
  by (auto simp: ex_train_db_def CreateModelRun_def transact_def has_dataset_def has_model_def new_model_run_def)
    (simp_all add: ex_dataset_def BatchInsertTelemetry_def CreateRun_def transact_def empty_db_def)

lemma ex_score_202:
  "\<exists>resp a1. HandleScoreDatasetJob ex_score_api_env ex_http_request ex_score_api = (Returned resp, a1) \<and> rs_status resp = 202
     \<and> current_jobs (ap_jobs a1) = 1 \<and> max_jobs (ap_jobs a1) = 4"
  by (simp add: HandleScoreDatasetJob_def score_try_block_def ex_score_api_env_def ex_api_env_def ex_http_request_def ex_score_api_def ex_api_def
      CreateScoreJob_def ex_train_db_keys transact_def GetScoreJob_def score_job_json_def jobject_def jempty_def score_job_fields_def
      submit_def StartJob_def CleanupFinishedThreads_def new_JobManager_def Let_def)

theorem score_request_repeated_witness:
  "\<exists>resp a1. HandleScoreDatasetJob ex_score_api_env ex_http_request ex_score_api = (Returned resp, a1) \<and> rs_status resp = 202
     \<and> fst (HandleScoreDatasetJob (ex_score_api_env\<lparr>av_uuid := \<lambda>k. ''j2'', av_now := 9\<rparr>) ex_http_request a1) = Terminated"
proof -
  obtain resp a1 where r: "HandleScoreDatasetJob ex_score_api_env ex_http_request ex_score_api = (Returned resp, a1)" "rs_status resp = 202"
      "current_jobs (ap_jobs a1) = 1" "max_jobs (ap_jobs a1) = 4"
    using ex_score_202 by blast
  have st: "reachable (\<lambda>d. d = empty_db) db_step (ap_db ex_score_api)" "jm_reachable (ap_jobs ex_score_api)"
    using ex_train_reachable reachable_new by (simp_all add: ex_score_api_def ex_api_def)
  show ?thesis
    using score_request_repeated [OF st r(1,2), of 9 "\<lambda>k. ''j2''"] r by simp
qed


subsection \<open>Cancelling a training run\<close>

definition trial_rows :: "string \<Rightarrow> db \<Rightarrow> model_run list" where
  "trial_rows mid d =
     takeWhile (\<lambda>r. mr_trial_index r \<noteq> None \<and> mr_trial_params r \<noteq> None)
       (take 1000 (sort_key (\<lambda>r. case mr_trial_index r of None \<Rightarrow> 0 | Some i \<Rightarrow> i)
          (filter (\<lambda>r. mr_parent_run_id r = Some mid) (model_runs d))))"

lemma GetHpoTrials_rows: "GetHpoTrials None ts mid d = map (trial_json ts) (trial_rows mid d)"
  by (simp add: GetHpoTrials_def GetHpoTrialsPaginated_def trial_rows_def Let_def)

lemma trial_rows_present: "r \<in> set (trial_rows mid d) \<Longrightarrow> \<exists>r'. model_row (mr_model_run_id r) d = Some r'"
  by (auto simp: trial_rows_def model_row_def dest!: set_takeWhileD in_set_takeD)
    (metis (mono_tags, lifting) find_None_iff not_Some_eq)

definition cancel_trial :: "int \<Rightarrow> model_run \<Rightarrow> api \<Rightarrow> api" where
  "cancel_trial now r a =
     (if active (mr_status r) then
        a\<lparr>ap_jobs := CancelJob (''train-'' @ mr_model_run_id r) (ap_jobs a),
          ap_db := UpdateTrialEligibility None now (mr_model_run_id r) False ''CANCELED'' 0 ''''
            (UpdateModelRunStatus None now (mr_model_run_id r) ''CANCELLED'' '''' ''Cancelled by parent tuning run request'' JNull (ap_db a))\<rparr>
      else a)"

lemma trial_json_members:
  "jat (trial_json ts r) ''model_run_id'' = Inr (JStr (mr_model_run_id r))" "jat (trial_json ts r) ''status'' = Inr (JStr (mr_status r))"
  by (simp_all add: trial_json_def jobject_def)

lemma cancel_trials_fold:
  "\<forall>k. av_fault env k = None \<Longrightarrow>
     cancel_trials env k (map (trial_json ts) rs) a = (Returned (), fold (cancel_trial (av_now env)) rs a)"
  by (induction rs arbitrary: k a) (auto simp: trial_json_members cancel_trial_def active_def)

definition is_cancelled :: "string \<Rightarrow> db \<Rightarrow> bool" where
  "is_cancelled mid d \<longleftrightarrow> (\<exists>r. model_row mid d = Some r \<and> mr_status r = ''CANCELLED'')"

lemma cancel_trial_row:
  "model_row mid (ap_db a) = Some x \<Longrightarrow> \<exists>y. model_row mid (ap_db (cancel_trial now r a)) = Some y"
  "is_cancelled mid (ap_db a) \<Longrightarrow> is_cancelled mid (ap_db (cancel_trial now r a))"
  "active (mr_status r) \<Longrightarrow> model_row (mr_model_run_id r) (ap_db a) = Some x \<Longrightarrow> is_cancelled (mr_model_run_id r) (ap_db (cancel_trial now r a))"
  by (auto simp: cancel_trial_def is_cancelled_def model_row_UpdateTrialEligibility model_row_UpdateModelRunStatus finish_status_def)

lemma fold_cancel_rows:
  "model_row mid (ap_db a) = Some x \<Longrightarrow> \<exists>y. model_row mid (ap_db (fold (cancel_trial now) rs a)) = Some y"
  "is_cancelled mid (ap_db a) \<Longrightarrow> is_cancelled mid (ap_db (fold (cancel_trial now) rs a))"
  "r \<in> set rs \<Longrightarrow> active (mr_status r) \<Longrightarrow> model_row (mr_model_run_id r) (ap_db a) = Some z \<Longrightarrow>
     is_cancelled (mr_model_run_id r) (ap_db (fold (cancel_trial now) rs a))"
proof -
  show keep: "is_cancelled mid (ap_db a) \<Longrightarrow> is_cancelled mid (ap_db (fold (cancel_trial now) rs a))" for mid a rs
    by (induction rs arbitrary: a) (auto intro: cancel_trial_row)
  show "model_row mid (ap_db a) = Some x \<Longrightarrow> \<exists>y. model_row mid (ap_db (fold (cancel_trial now) rs a)) = Some y"
  proof (induction rs arbitrary: a x)
    case (Cons q rs)
    then show ?case
      using cancel_trial_row(1) [OF Cons.prems, of now q] by auto
  qed simp
  show "r \<in> set rs \<Longrightarrow> active (mr_status r) \<Longrightarrow> model_row (mr_model_run_id r) (ap_db a) = Some z \<Longrightarrow>
     is_cancelled (mr_model_run_id r) (ap_db (fold (cancel_trial now) rs a))"
  proof (induction rs arbitrary: a z)
    case (Cons q rs)
    then show ?case
      using cancel_trial_row(1) [OF Cons.prems(3), of now q] keep [OF cancel_trial_row(3)] by auto
  qed simp
qed

lemma fold_cancel_jobs:
  "ap_jobs (fold (cancel_trial now) rs a) =
     fold CancelJob (map (\<lambda>r. ''train-'' @ mr_model_run_id r) (filter (\<lambda>r. active (mr_status r)) rs)) (ap_jobs a)"
  by (induction rs arbitrary: a) (simp_all add: cancel_trial_def)


lemma fold_cancel_work: "ap_work (fold (cancel_trial now) rs b) = ap_work b"
  by (induction rs arbitrary: b) (simp_all add: cancel_trial_def)

text \<open>What the document of a run without failures of the store holds.\<close>

lemma GetModelRun_members:
  assumes "\<forall>k. av_fault env k = None" "model_row mid d = Some r"
  shows "\<not> jempty (GetModelRun (av_fault env 0) (av_time_text env) mid d)"
    "jat (GetModelRun (av_fault env 0) (av_time_text env) mid d) ''status'' = Inr (JStr (mr_status r))"
    "jat (GetModelRun (av_fault env 0) (av_time_text env) mid d) ''hpo_config'' = Inr (jnullable id (mr_hpo_config r))"
  using assms by (simp_all add: GetModelRun_def model_row_def model_run_json_def jobject_def jempty_def)

lemma delete_train_active:
  assumes "\<forall>k. av_fault env k = None" "model_row (hr_match req) (ap_db a) = Some r"
    and False: "mr_status r \<notin> {''COMPLETED'', ''FAILED'', ''CANCELLED''}"
  shows "\<exists>resp a' trials. HandleDeleteTrain env req a = (Returned resp, a') \<and> rs_status resp = 200
          \<and> trials = (if mr_hpo_config r \<in> {None, Some JNull} then []
                      else filter (\<lambda>t. active (mr_status t)) (trial_rows (hr_match req) (ap_db a)))
          \<and> is_cancelled (hr_match req) (ap_db a') \<and> (\<forall>t \<in> set trials. is_cancelled (mr_model_run_id t) (ap_db a'))
          \<and> ap_jobs a' = fold CancelJob (map (\<lambda>t. ''train-'' @ mr_model_run_id t) trials @ [''train-'' @ hr_match req]) (ap_jobs a)
          \<and> ap_work a' = ap_work a"
proof -
  note mem = GetModelRun_members [OF assms(1,2)]
  have f: "av_fault env k = None" for k
    using assms(1) by blast
  define trials where "trials = (if mr_hpo_config r \<in> {None, Some JNull} then [] else trial_rows (hr_match req) (ap_db a))"
  define a1 where "a1 = fold (cancel_trial (av_now env)) trials a"
  define a2 where "a2 = a1\<lparr>ap_jobs := CancelJob (''train-'' @ hr_match req) (ap_jobs a1),
                 ap_db := UpdateModelRunStatus (av_fault env 2) (av_now env) (hr_match req) ''CANCELLED'' '''' ''Cancelled by user request'' JNull (ap_db a1)\<rparr>"
  have null: "jnullable id c \<noteq> JNull \<longleftrightarrow> c \<notin> {None, Some JNull}" for c
    by (cases c) (auto simp: jnullable_def)
  have "(if jnullable id (mr_hpo_config r) \<noteq> JNull
         then cancel_trials env 3 (GetHpoTrials (av_fault env 1) (av_time_text env) (hr_match req) (ap_db a)) a else (Returned (), a)) = (Returned (), a1)"
    unfolding null f GetHpoTrials_rows cancel_trials_fold [OF assms(1)] a1_def trials_def by simp
  then have run: "HandleDeleteTrain env req a =
      (Returned (SendJson (jobject [(''status'', JStr ''CANCEL_REQUESTED''), (''model_run_id'', JStr (hr_match req))]) 200 (hr_rid req)), a2)"
    using False mem by (simp add: HandleDeleteTrain_def Let_def a2_def)
  obtain x where x: "model_row (hr_match req) (ap_db a1) = Some x"
    using fold_cancel_rows(1) [OF assms(2)] unfolding a1_def by blast
  have keep: "is_cancelled i (ap_db a1) \<Longrightarrow> is_cancelled i (ap_db a2)" for i
    by (auto simp: is_cancelled_def a2_def f model_row_UpdateModelRunStatus finish_status_def)
  have own: "is_cancelled (hr_match req) (ap_db a2)"
    using x by (simp add: is_cancelled_def a2_def f model_row_UpdateModelRunStatus finish_status_def)
  have others: "is_cancelled (mr_model_run_id t) (ap_db a2)" if "t \<in> set (filter (\<lambda>t. active (mr_status t)) trials)" for t
    using that trial_rows_present [of t "hr_match req" "ap_db a"] fold_cancel_rows(3) [of t trials a]
    by (auto intro!: keep simp: a1_def trials_def split: if_splits)
  have jobs: "ap_jobs a2 = fold CancelJob (map (\<lambda>t. ''train-'' @ mr_model_run_id t) (filter (\<lambda>t. active (mr_status t)) trials)
      @ [''train-'' @ hr_match req]) (ap_jobs a)"
    by (simp add: a2_def a1_def fold_cancel_jobs)
  have work: "ap_work a2 = ap_work a"
    by (simp add: a2_def a1_def fold_cancel_work)
  have sel: "(if mr_hpo_config r \<in> {None, Some JNull} then [] else filter (\<lambda>t. active (mr_status t)) (trial_rows (hr_match req) (ap_db a))) =
      filter (\<lambda>t. active (mr_status t)) trials"
    by (simp add: trials_def)
  show ?thesis
    unfolding sel
  proof (intro exI conjI)
    show "HandleDeleteTrain env req a =
      (Returned (SendJson (jobject [(''status'', JStr ''CANCEL_REQUESTED''), (''model_run_id'', JStr (hr_match req))]) 200 (hr_rid req)), a2)"
      by (rule run)
    show "filter (\<lambda>t. active (mr_status t)) trials = filter (\<lambda>t. active (mr_status t)) trials" ..
  qed (use own others jobs work in \<open>simp_all add: SendJson_def\<close>)
qed

text \<open>
  C30. Cancelling a training run (\<^verbatim>\<open>DELETE /train/{id}\<close>, no failures of the store): an unknown run is
  answered with 404 and a finished one with 400, changing nothing. Otherwise the answer is 200, the
  run is CANCELLED in the store, and with a search configuration so is each of its trials that was
  PENDING or RUNNING; the stop flags that are set are exactly those of the jobs named \<^verbatim>\<open>train-\<close> and the identifier of
  such a trial or of the run. The job that orchestrates the trials is named \<^verbatim>\<open>tuning-\<close> and is not
  among them.
\<close>

theorem HandleDeleteTrain_outcome:
  assumes "\<forall>k. av_fault env k = None"
  shows "case model_row (hr_match req) (ap_db a) of
      None \<Rightarrow> (\<exists>resp a'. HandleDeleteTrain env req a = (Returned resp, a') \<and> rs_status resp = 404 \<and> untouched a a')
    | Some r \<Rightarrow>
        if mr_status r \<in> {''COMPLETED'', ''FAILED'', ''CANCELLED''}
        then \<exists>resp a'. HandleDeleteTrain env req a = (Returned resp, a') \<and> rs_status resp = 400 \<and> untouched a a'
        else \<exists>resp a' trials. HandleDeleteTrain env req a = (Returned resp, a') \<and> rs_status resp = 200
          \<and> trials = (if mr_hpo_config r \<in> {None, Some JNull} then []
                      else filter (\<lambda>t. active (mr_status t)) (trial_rows (hr_match req) (ap_db a)))
          \<and> is_cancelled (hr_match req) (ap_db a') \<and> (\<forall>t \<in> set trials. is_cancelled (mr_model_run_id t) (ap_db a'))
          \<and> ap_jobs a' = fold CancelJob (map (\<lambda>t. ''train-'' @ mr_model_run_id t) trials @ [''train-'' @ hr_match req]) (ap_jobs a)
          \<and> ap_work a' = ap_work a"
proof (cases "model_row (hr_match req) (ap_db a)")
  case None
  then have "GetModelRun (av_fault env 0) (av_time_text env) (hr_match req) (ap_db a) = JNull"
    using assms by (simp add: GetModelRun_def model_row_def)
  then show ?thesis
    using None by (auto simp: HandleDeleteTrain_def jempty_def send_error_def SendError_def untouched_def Let_def)
next
  case (Some r)
  note mem = GetModelRun_members [OF assms Some]
  show ?thesis
  proof (cases "mr_status r \<in> {''COMPLETED'', ''FAILED'', ''CANCELLED''}")
    case True
    then show ?thesis
      using Some mem by (auto simp: HandleDeleteTrain_def Let_def send_error_def SendError_def untouched_def)
  next
    case False
    from delete_train_active [OF assms Some this] show ?thesis
      using Some False by simp
  qed
qed


theorem HandleDeleteTrain_outcome_witness:
  "\<exists>resp a'. HandleDeleteTrain ex_api_env (ex_http_request\<lparr>hr_match := ''m1''\<rparr>) ex_score_api = (Returned resp, a')
     \<and> rs_status resp = 200 \<and> is_cancelled ''m1'' (ap_db a')"
proof -
  have "model_row ''m1'' (ap_db ex_score_api) \<noteq> None"
    by (simp add: ex_score_api_def ex_train_row)
  then show ?thesis
    using HandleDeleteTrain_outcome [of ex_api_env "ex_http_request\<lparr>hr_match := ''m1''\<rparr>" ex_score_api] ex_train_row
    by (auto simp: ex_api_env_def ex_score_api_def ex_http_request_def new_model_run_def)
qed

text \<open>
  The job identifier that a scoring request returns cannot be used to cancel the job: the job
  runs under that identifier prefixed by \<^verbatim>\<open>score-\<close>, so, unless some other job bears the bare identifier, \<^verbatim>\<open>DELETE /jobs/{id}\<close> with it is answered
  with 200 and changes nothing.
\<close>

theorem score_job_not_cancelled:
  assumes "HandleScoreDatasetJob env req a = (Returned resp, a1)" "rs_status resp = 202"
    and "jat (rs_body resp) ''job_id'' = Inr (JStr jid)" "hr_match del = jid" "map_get (stop_flags (ap_jobs a)) jid = None"
  shows "map_get (stop_flags (ap_jobs a1)) (''score-'' @ jid) \<noteq> None
    \<and> (\<exists>resp'. HandleDeleteJob del a1 = (Returned resp', a1) \<and> rs_status resp' = 200)"
proof -
  obtain j ds mid jid' d st fs m where
    m: "StartJob (''score-'' @ jid') (hr_rid req) (ap_jobs a) = (Returned (), m)"
    and eq: "a1 = a\<lparr>ap_db := d, ap_jobs := m, ap_work := ap_work a @ [(''score-'' @ jid', Score_work ds mid jid')]\<rparr>"
    and resp: "resp = SendJson (score_job_response jid' ''RUNNING'') 202 (hr_rid req)"
    by (rule score_accepted [OF assms(1,2)])
  have jid: "jid' = jid"
    using assms(3) by (simp add: resp SendJson_def score_job_response_def jobject_def split: if_splits)
  have ne: "jid \<noteq> ''score-'' @ jid"
    by (metis append_self_conv2 list.distinct(1))
  have flags: "stop_flags m = map_put (''score-'' @ jid) (length (flag_cells (ap_jobs a))) (stop_flags (CleanupFinishedThreads (ap_jobs a)))"
    using m by (auto simp: jid StartJob_def Let_def split: if_splits)
  have "map_get (stop_flags (CleanupFinishedThreads (ap_jobs a))) jid = None"
    using assms(5) by (simp add: cleanup_stop_flags)
  then have "CancelJob jid m = m"
    using ne by (simp add: CancelJob_def flags)
  then show ?thesis
    using assms(4) by (simp add: HandleDeleteJob_def eq flags)
qed

theorem score_job_not_cancelled_witness:
  "\<exists>resp a1 resp'. HandleScoreDatasetJob ex_score_api_env ex_http_request ex_score_api = (Returned resp, a1)
     \<and> HandleDeleteJob (ex_http_request\<lparr>hr_match := ''j1''\<rparr>) a1 = (Returned resp', a1)"
proof -
  obtain resp a1 where r: "HandleScoreDatasetJob ex_score_api_env ex_http_request ex_score_api = (Returned resp, a1)" "rs_status resp = 202"
    using ex_score_202 by blast
  have "jat (rs_body resp) ''job_id'' = Inr (JStr ''j1'')"
    using r(1) by (auto simp: HandleScoreDatasetJob_def score_try_block_def ex_score_api_env_def ex_api_env_def ex_http_request_def ex_score_api_def
      ex_api_def CreateScoreJob_def ex_train_db_keys transact_def GetScoreJob_def score_job_json_def jobject_def jempty_def score_job_fields_def
      submit_def StartJob_def CleanupFinishedThreads_def new_JobManager_def Let_def SendJson_def score_job_response_def)
  from score_job_not_cancelled [OF r this, of "ex_http_request\<lparr>hr_match := ''j1''\<rparr>"] r show ?thesis
    by (auto simp: ex_http_request_def ex_score_api_def ex_api_def new_JobManager_def)
qed

text \<open>
  Failed trials cannot be run again: \<^verbatim>\<open>POST /models/{id}/rerun_failed\<close> asks for a member \<^verbatim>\<open>type\<close> of the
  model run that \<^verbatim>\<open>GetModelRun\<close> never sets, so for every run and in every state the answer is 404 or
  400 and nothing is started.
\<close>

theorem rerun_never_runs:
  "\<exists>resp a'. HandleRerunFailed env req a = (Returned resp, a') \<and> rs_status resp \<in> {400, 404} \<and> untouched a a'"
proof -
  let ?j = "GetModelRun (av_fault env 0) (av_time_text env) (hr_match req) (ap_db a)"
  have "jat (model_run_json ts r) ''type'' = Inr JNull" for ts r
    by (simp add: model_run_json_def jobject_def)
  then have "jempty ?j \<or> jat ?j ''type'' = Inr JNull"
    by (simp add: GetModelRun_def jempty_def split: option.split)
  then show ?thesis
    by (auto simp: HandleRerunFailed_def Let_def send_error_def SendError_def untouched_def)
qed

end
