(* ===== verification/Api_Models.thy ===== *)
theory Api_Models
  imports Api_Cancel Score_Job
begin

text \<open>
  \<^verbatim>\<open>GET /train/{id}\<close> and \<^verbatim>\<open>GET /models/{id}\<close> of \<^verbatim>\<open>src/src/api_server.cpp\<close>. The second one aggregates the trials of
  a hyper-parameter search, selects the best of them and writes both back to the parent run, then adds
  what the artifact file says. The file system is a parameter.
\<close>

section \<open>Aggregation of trials\<close>

record tally =
  ty_pending :: int
  ty_running :: int
  ty_completed :: int
  ty_failed :: int
  ty_errors :: "(string, int) std_map"

definition no_tally :: tally where
  "no_tally = \<lparr>ty_pending = 0, ty_running = 0, ty_completed = 0, ty_failed = 0, ty_errors = []\<rparr>"

definition count_error :: "string \<Rightarrow> tally \<Rightarrow> tally" where
  "count_error code ty =
     ty\<lparr>ty_errors := map_put code ((case map_get (ty_errors ty) code of None \<Rightarrow> 0 | Some n \<Rightarrow> n) + 1) (ty_errors ty)\<rparr>"

text \<open>The key under which a failed trial is counted, if any.\<close>

definition error_key :: "json \<Rightarrow> string option cpp" where
  "error_key t =
     cbind (jat t ''error_summary'') (\<lambda>summary.
       if jcontains t ''error_summary'' \<and> summary \<noteq> JNull \<and> jcontains summary ''code''
       then cbind (cbind (jat summary ''code'') jget_string) (\<lambda>code. Inr (Some code))
       else
         cbind (jat t ''error'') (\<lambda>err.
           if err = JNull then Inr None
           else cbind (jget_string err) (\<lambda>text. Inr (if text \<noteq> '''' then Some ''UNKNOWN'' else None))))"

definition tally_trial :: "json \<Rightarrow> tally \<Rightarrow> tally cpp" where
  "tally_trial t ty =
     cbind (cbind (jat t ''status'') jget_string) (\<lambda>st.
       if st = ''PENDING'' then Inr (ty\<lparr>ty_pending := ty_pending ty + 1\<rparr>)
       else if st = ''RUNNING'' then Inr (ty\<lparr>ty_running := ty_running ty + 1\<rparr>)
       else if st = ''COMPLETED'' then Inr (ty\<lparr>ty_completed := ty_completed ty + 1\<rparr>)
       else if st = ''FAILED'' then
         (let ty1 = ty\<lparr>ty_failed := ty_failed ty + 1\<rparr> in
          cbind (error_key t) (\<lambda>k. Inr (case k of None \<Rightarrow> ty1 | Some code \<Rightarrow> count_error code ty1)))
       else Inr ty)"

primrec tally_trials :: "json list \<Rightarrow> tally \<Rightarrow> tally cpp" where
  "tally_trials [] ty = Inr ty"
| "tally_trials (t # ts) ty = cbind (tally_trial t ty) (tally_trials ts)"

definition errors_json :: "tally \<Rightarrow> json" where
  "errors_json ty = JObj (map (\<lambda>(k, n). (k, JInt n)) (ty_errors ty))"

definition aggregate_status :: "tally \<Rightarrow> string option" where
  "aggregate_status ty =
     (if ty_running ty > 0 \<or> ty_pending ty > 0 then Some ''RUNNING''
      else if ty_completed ty > 0 then Some ''COMPLETED''
      else if ty_failed ty > 0 then Some ''FAILED''
      else None)"

section \<open>The best trial\<close>

record best_trial =
  bt_id :: string
  bt_threshold :: real
  bt_completed_at :: string
  bt_trial_index :: int

definition double_max :: real where
  "double_max = (2 - 1 / 2 ^ 52) * 2 ^ 1023"

definition no_best :: best_trial where
  "no_best = \<lparr>bt_id = '''', bt_threshold = double_max, bt_completed_at = '''', bt_trial_index = 2 ^ 31 - 1\<rparr>"

fun jget_bool :: "json \<Rightarrow> bool cpp" where
  "jget_bool (JBool b) = Inr b"
| "jget_bool _ = Inl (Json_type_error ''type must be boolean'')"

definition is_better :: "real \<Rightarrow> string \<Rightarrow> int \<Rightarrow> best_trial \<Rightarrow> bool" where
  "is_better thr completed_at trial_index b \<longleftrightarrow>
     (if bt_id b = '''' \<or> thr < bt_threshold b then True
      else thr = bt_threshold b
        \<and> (completed_at < bt_completed_at b \<or> (completed_at = bt_completed_at b \<and> trial_index < bt_trial_index b)))"

definition consider_trial :: "json \<Rightarrow> best_trial \<Rightarrow> best_trial cpp" where
  "consider_trial t b =
     cbind (jat t ''status'') (\<lambda>status.
       if status \<noteq> JStr ''COMPLETED'' then Inr b
       else
         cbind (cbind (jat t ''is_eligible'') jget_bool) (\<lambda>eligible.
           if \<not> eligible then Inr b
           else
             cbind (cbind (jat t ''selection_metric_value'') jget_double) (\<lambda>thr.
             cbind (cbind (jat t ''completed_at'') jget_string) (\<lambda>completed_at.
             cbind (cbind (jat t ''trial_index'') jget_int) (\<lambda>trial_index.
               if is_better thr completed_at trial_index b
               then cbind (cbind (jat t ''model_run_id'') jget_string) (\<lambda>mid.
                      Inr \<lparr>bt_id = mid, bt_threshold = thr, bt_completed_at = completed_at, bt_trial_index = trial_index\<rparr>)
               else Inr b)))))"

primrec select_best :: "json list \<Rightarrow> best_trial \<Rightarrow> best_trial cpp" where
  "select_best [] b = Inr b"
| "select_best (t # ts) b = cbind (consider_trial t b) (select_best ts)"

section \<open>The handlers\<close>

definition HandleGetTrainStatus :: "api_env \<Rightarrow> HttpRequest \<Rightarrow> api \<Rightarrow> HttpResponse outcome \<times> api" where
  "HandleGetTrainStatus env req a =
     (let j = GetModelRun (av_fault env 0) (av_time_text env) (hr_match req) (ap_db a) in
      if jempty j then send_error ''Model run not found'' 404 kErrHttpNotFound (hr_rid req) a
      else (Returned (SendJson j 200 (hr_rid req)), a))"

text \<open>A member that is absent or null becomes null.\<close>

definition jnull_default :: "string \<Rightarrow> json \<Rightarrow> json" where
  "jnull_default k j = (if \<not> jcontains j k \<or> jat j k = Inr JNull then jset k JNull j else j)"

definition trial_counts_json :: "nat \<Rightarrow> tally \<Rightarrow> json" where
  "trial_counts_json n_trials ty = jobject
     [(''total'', JInt (int n_trials)), (''pending'', JInt (ty_pending ty)), (''running'', JInt (ty_running ty)),
      (''completed'', JInt (ty_completed ty)), (''failed'', JInt (ty_failed ty))]"

text \<open>
  The aggregates of the trials go into the document and, when no trial is active, into the parent's row:
  the member \<^verbatim>\<open>error_aggregates_db\<close> that the code compares with is never set, and reading it adds it as null.
\<close>

definition apply_tally :: "api_env \<Rightarrow> string \<Rightarrow> json list \<Rightarrow> tally \<Rightarrow> json \<Rightarrow> db \<Rightarrow> json \<times> db" where
  "apply_tally env mid trials ty j d =
     (let j1 = jset ''error_aggregates'' (errors_json ty) (jset ''trial_counts'' (trial_counts_json (length trials) ty) j);
          terminal = (ty_running ty = 0 \<and> ty_pending ty = 0);
          j2 = (if terminal then jset ''error_aggregates_db'' JNull j1 else j1);
          d2 = (if terminal then UpdateParentErrorAggregates (av_fault env 2) mid (errors_json ty) d else d)
      in (case aggregate_status ty of None \<Rightarrow> j2 | Some st \<Rightarrow> jset ''status'' (JStr st) j2, d2))"

text \<open>The selected trial goes into the document and the parent's row, likewise at every request.\<close>

definition apply_best :: "api_env \<Rightarrow> string \<Rightarrow> best_trial \<Rightarrow> json \<Rightarrow> db \<Rightarrow> json \<times> db" where
  "apply_best env mid b j d =
     (if bt_id b = '''' then (j, d)
      else
        (jset ''best_trial_run_id_db'' JNull
           (jset ''tie_break_basis'' (JStr ''completion_time, trial_index'')
             (jset ''selection_metric_direction'' (JStr ''LOWER_IS_BETTER'')
               (jset ''best_metric_name'' (JStr ''reconstruction_error_threshold'')
                 (jset ''best_metric_value'' (JReal (bt_threshold b))
                   (jset ''best_trial_run_id'' (JStr (bt_id b)) j))))),
         UpdateBestTrial (av_fault env 3) mid (bt_id b) (bt_threshold b) ''reconstruction_error_threshold''
           ''LOWER_IS_BETTER'' ''completion_time, trial_index'' d))"

definition jset3 :: "string \<Rightarrow> string \<Rightarrow> string \<Rightarrow> json \<Rightarrow> json \<Rightarrow> json" where
  "jset3 k l m v j = jset k (jset2 l m v (case jat j k of Inr x \<Rightarrow> x | Inl _ \<Rightarrow> JNull)) j"

text \<open>What the artifact adds; an exception leaves the members set before it.\<close>

definition artifact_fields :: "json \<Rightarrow> json \<Rightarrow> unit outcome \<times> json" where
  "artifact_fields art j =
     or_throw (jvalue Inr art ''thresholds'' (JObj [])) j (\<lambda>thresholds.
     let j1 = jset2 ''artifact'' ''thresholds'' thresholds j in
     or_throw (cbind (jat art ''model'') (\<lambda>m. jvalue jget_int m ''n_components'' 0)) j1 (\<lambda>n.
     let j2 = jset3 ''artifact'' ''model'' ''n_components'' (JInt n) j1 in
     or_throw (cbind (jat art ''meta'') (\<lambda>m. jvalue Inr m ''features'' (JArr []))) j2 (\<lambda>features.
     let j3 = jset3 ''artifact'' ''model'' ''features'' features j2 in
     or_throw (jat art ''thresholds'') j3 (\<lambda>th.
     let j4 = (if jcontains art ''thresholds'' \<and> jcontains th ''reconstruction_error''
               then jset ''threshold'' (case jat th ''reconstruction_error'' of Inr x \<Rightarrow> x | Inl _ \<Rightarrow> JNull) j3 else j3) in
     or_throw (jat art ''model'') j4 (\<lambda>m.
       (Returned (),
        if jcontains art ''model'' \<and> jcontains m ''n_components''
        then jset ''n_components'' (case jat m ''n_components'' of Inr x \<Rightarrow> x | Inl _ \<Rightarrow> JNull) j4 else j4))))))"

definition add_artifact :: "artifact_env \<Rightarrow> string \<Rightarrow> json \<Rightarrow> json" where
  "add_artifact files path j =
     (if path = '''' then j
      else case file_text files path of
        None \<Rightarrow> j
      | Some text \<Rightarrow>
          (case or_throw (parse_json files text) j (\<lambda>art. artifact_fields art j) of
             (Threw e, j1) \<Rightarrow> jset ''artifact_error'' (JStr (what e)) j1
           | (_, j1) \<Rightarrow> j1))"

text \<open>The document of a run with its trials.\<close>

definition add_trials :: "api_env \<Rightarrow> string \<Rightarrow> json \<Rightarrow> api \<Rightarrow> json outcome \<times> api" where
  "add_trials env mid j a =
     or_throw (jat j ''hpo_config'') a (\<lambda>hpo.
     if hpo = JNull then (Returned j, a)
     else
       let trials = GetHpoTrials (av_fault env 1) (av_time_text env) mid (ap_db a);
           j1 = jset ''trials'' (JArr trials) j
       in or_throw (tally_trials trials no_tally) a (\<lambda>ty.
          case apply_tally env mid trials ty j1 (ap_db a) of (j2, d2) \<Rightarrow>
            let a2 = a\<lparr>ap_db := d2\<rparr> in
            or_throw (select_best trials no_best) a2 (\<lambda>b.
              case apply_best env mid b j2 d2 of (j3, d3) \<Rightarrow> (Returned j3, a2\<lparr>ap_db := d3\<rparr>))))"

definition detail_try_block :: "api_env \<Rightarrow> artifact_env \<Rightarrow> HttpRequest \<Rightarrow> api \<Rightarrow> HttpResponse outcome \<times> api" where
  "detail_try_block env files req a =
     (let mid = hr_match req; j = GetModelRun (av_fault env 0) (av_time_text env) mid (ap_db a) in
      if jempty j then send_error ''Model run not found'' 404 kErrHttpNotFound (hr_rid req) a
      else
        let j1 = jnull_default ''trial_params'' (jnull_default ''trial_index''
                   (jnull_default ''parent_run_id'' (jnull_default ''hpo_config'' j)))
        in after (add_trials env mid j1 a) (\<lambda>j2 a2.
           or_throw (jvalue jget_string j2 ''artifact_path'' '''') a2 (\<lambda>path.
             (Returned (SendJson (add_artifact files path j2) 200 (hr_rid req)), a2))))"

definition HandleGetModelDetail :: "api_env \<Rightarrow> artifact_env \<Rightarrow> HttpRequest \<Rightarrow> api \<Rightarrow> HttpResponse outcome \<times> api" where
  "HandleGetModelDetail env files req a =
     (case detail_try_block env files req a of
        (Threw e, a1) \<Rightarrow> send_error (what e) 500 kErrDbQueryFailed (hr_rid req) a1
      | r \<Rightarrow> r)"


section \<open>Rows of trials\<close>

text \<open>The trials that take part in the selection, and what the selection compares.\<close>

definition candidate :: "model_run \<Rightarrow> bool" where
  "candidate r \<longleftrightarrow> mr_status r = ''COMPLETED'' \<and> mr_is_eligible r"

definition trial_best :: "(int \<Rightarrow> string) \<Rightarrow> model_run \<Rightarrow> best_trial" where
  "trial_best ts r =
     \<lparr>bt_id = mr_model_run_id r, bt_threshold = the (mr_selection_metric_value r),
      bt_completed_at = (case mr_completed_at r of None \<Rightarrow> '''' | Some t \<Rightarrow> ts t), bt_trial_index = int32 (the (mr_trial_index r))\<rparr>"

definition before :: "best_trial \<Rightarrow> best_trial \<Rightarrow> bool" where
  "before b c \<longleftrightarrow> bt_threshold b < bt_threshold c
     \<or> (bt_threshold b = bt_threshold c
        \<and> (bt_completed_at b < bt_completed_at c
           \<or> (bt_completed_at b = bt_completed_at c \<and> bt_trial_index b < bt_trial_index c)))"

text \<open>A trial that the handler can read: a candidate has its metric, and the code of an error summary is a string.\<close>

definition readable :: "model_run \<Rightarrow> bool" where
  "readable r \<longleftrightarrow> mr_model_run_id r \<noteq> ''''
     \<and> (candidate r \<longrightarrow> mr_selection_metric_value r \<noteq> None \<and> mr_trial_index r \<noteq> None)
     \<and> (case mr_error_summary r of None \<Rightarrow> True | Some s \<Rightarrow> jcontains s ''code'' \<longrightarrow> (\<exists>c. jat s ''code'' = Inr (JStr c)))"

lemma trial_members:
  "jat (trial_json ts r) ''is_eligible'' = Inr (JBool (mr_is_eligible r))"
  "jat (trial_json ts r) ''selection_metric_value'' = Inr (jnullable JReal (mr_selection_metric_value r))"
  "jat (trial_json ts r) ''completed_at'' = Inr (jtext (map_option ts (mr_completed_at r)))"
  "jat (trial_json ts r) ''trial_index'' = Inr (jnullable JInt (mr_trial_index r))"
  "jat (trial_json ts r) ''error'' = Inr (jtext (mr_error r))"
  "jat (trial_json ts r) ''error_summary'' = Inr (jnullable id (mr_error_summary r))"
  by (simp_all add: trial_json_def jobject_def)

lemma consider_trial_row:
  assumes "readable r"
  shows "consider_trial (trial_json ts r) b =
    Inr (if candidate r \<and> (bt_id b = '''' \<or> before (trial_best ts r) b) then trial_best ts r else b)"
proof (cases "candidate r")
  case True
  obtain v i where v: "mr_selection_metric_value r = Some v" and i: "mr_trial_index r = Some i"
    using assms True by (auto simp: readable_def)
  have "jget_string (jtext (map_option ts (mr_completed_at r))) = Inr (bt_completed_at (trial_best ts r))"
    by (cases "mr_completed_at r") (simp_all add: jtext_def trial_best_def)
  moreover have "is_better v (bt_completed_at (trial_best ts r)) (int32 i) b \<longleftrightarrow> bt_id b = '''' \<or> before (trial_best ts r) b"
    by (auto simp: is_better_def before_def trial_best_def v i)
  moreover have "trial_best ts r = \<lparr>bt_id = mr_model_run_id r, bt_threshold = v,
      bt_completed_at = bt_completed_at (trial_best ts r), bt_trial_index = int32 i\<rparr>"
    by (simp add: trial_best_def v i)
  ultimately show ?thesis
    using True by (simp add: consider_trial_def trial_json_members trial_members candidate_def jnullable_def v i)
next
  case False
  then show ?thesis
    by (auto simp: consider_trial_def trial_json_members trial_members candidate_def)
qed

definition keep_best :: "(int \<Rightarrow> string) \<Rightarrow> model_run \<Rightarrow> best_trial \<Rightarrow> best_trial" where
  "keep_best ts r b = (if bt_id b = '''' \<or> before (trial_best ts r) b then trial_best ts r else b)"

lemma select_best_rows:
  assumes "\<forall>r \<in> set rs. readable r"
  shows "select_best (map (trial_json ts) rs) b = Inr (fold (keep_best ts) (filter candidate rs) b)"
  using assms by (induction rs arbitrary: b) (simp_all add: consider_trial_row keep_best_def)

lemma lex3_not_trans:
  fixes x y z :: "'a::linorder" and x' y' z' :: "'b::linorder" and x'' y'' z'' :: "'c::linorder"
  assumes "\<not> (z < y \<or> (z = y \<and> (z' < y' \<or> (z' = y' \<and> z'' < y''))))"
    and "\<not> (y < x \<or> (y = x \<and> (y' < x' \<or> (y' = x' \<and> y'' < x''))))"
  shows "\<not> (z < x \<or> (z = x \<and> (z' < x' \<or> (z' = x' \<and> z'' < x''))))"
  using assms by (cases x y rule: linorder_cases; cases y z rule: linorder_cases) auto

lemma not_before_trans: "\<not> before c b \<Longrightarrow> \<not> before b a \<Longrightarrow> \<not> before c a"
  unfolding before_def by (rule lex3_not_trans)

lemma fold_keep_best:
  assumes "\<forall>r \<in> set (x # rs). mr_model_run_id r \<noteq> ''''"
  shows "\<exists>y \<in> set (x # rs). fold (keep_best ts) rs (trial_best ts x) = trial_best ts y
    \<and> (\<forall>z \<in> set (x # rs). \<not> before (trial_best ts z) (trial_best ts y))"
  using assms
proof (induction rs arbitrary: x)
  case Nil
  then show ?case by (simp add: before_def)
next
  case (Cons r rs)
  define w where "w = (if before (trial_best ts r) (trial_best ts x) then r else x)"
  have step: "keep_best ts r (trial_best ts x) = trial_best ts w"
    using Cons.prems by (simp add: keep_best_def w_def) (simp add: trial_best_def)
  obtain y where y: "y \<in> set (w # rs)" "fold (keep_best ts) rs (trial_best ts w) = trial_best ts y"
      "\<forall>z \<in> set (w # rs). \<not> before (trial_best ts z) (trial_best ts y)"
    using Cons.IH [of w] Cons.prems by (auto simp: w_def split: if_splits)
  have "\<not> before (trial_best ts z) (trial_best ts w)" if "z \<in> {x, r}" for z
    using that by (auto simp: w_def before_def)
  then have "\<not> before (trial_best ts z) (trial_best ts y)" if "z \<in> {x, r}" for z
    using that y(3) not_before_trans by (meson list.set_intros(1))
  then show ?case
    using y step by (intro bexI [of _ y]) (auto simp: w_def split: if_splits)
qed

lemma select_best_minimal:
  assumes "\<forall>r \<in> set rs. readable r" and "filter candidate rs \<noteq> []"
  shows "\<exists>r \<in> set rs. candidate r \<and> select_best (map (trial_json ts) rs) no_best = Inr (trial_best ts r)
    \<and> (\<forall>q \<in> set rs. candidate q \<longrightarrow> \<not> before (trial_best ts q) (trial_best ts r))"
proof -
  obtain x xs where xs: "filter candidate rs = x # xs"
    using assms(2) by (cases "filter candidate rs") auto
  have mem: "set (x # xs) = {r \<in> set rs. candidate r}"
    using xs [symmetric] by auto
  have "keep_best ts x no_best = trial_best ts x"
    by (simp add: keep_best_def no_best_def)
  then have "select_best (map (trial_json ts) rs) no_best = Inr (fold (keep_best ts) xs (trial_best ts x))"
    using select_best_rows [OF assms(1), of ts no_best] xs by simp
  moreover have "\<forall>r \<in> set (x # xs). mr_model_run_id r \<noteq> ''''"
    using mem assms(1) by (auto simp: readable_def)
  ultimately show ?thesis
    using fold_keep_best [of x xs ts] mem by (metis (no_types, lifting) mem_Collect_eq)
qed


lemma error_key_row:
  assumes "readable r"
  shows "\<exists>k. error_key (trial_json ts r) = Inr k"
proof (cases "mr_error_summary r")
  case None
  then show ?thesis
    by (simp add: error_key_def trial_members jnullable_def jtext_def)
next
  case (Some s)
  then show ?thesis
    using assms by (auto simp: error_key_def trial_members jnullable_def jtext_def readable_def)
qed

definition count_status :: "string \<Rightarrow> model_run list \<Rightarrow> int" where
  "count_status st rs = int (length (filter (\<lambda>r. mr_status r = st) rs))"

lemma count_status_simps [simp]:
  "count_status st [] = 0" "count_status st (r # rs) = (if mr_status r = st then 1 else 0) + count_status st rs"
  by (simp_all add: count_status_def)

lemma tally_trial_row:
  assumes "readable r"
  shows "\<exists>ty'. tally_trial (trial_json ts r) ty = Inr ty'
    \<and> ty_pending ty' = ty_pending ty + count_status ''PENDING'' [r] \<and> ty_running ty' = ty_running ty + count_status ''RUNNING'' [r]
    \<and> ty_completed ty' = ty_completed ty + count_status ''COMPLETED'' [r] \<and> ty_failed ty' = ty_failed ty + count_status ''FAILED'' [r]"
proof (cases "mr_status r = ''FAILED''")
  case True
  obtain k where "error_key (trial_json ts r) = Inr k"
    using error_key_row [OF assms] by blast
  then show ?thesis
    using True by (auto simp: tally_trial_def trial_json_members Let_def count_error_def split: option.split)
qed (auto simp: tally_trial_def trial_json_members)

lemma tally_trials_rows:
  assumes "\<forall>r \<in> set rs. readable r"
  shows "\<exists>ty'. tally_trials (map (trial_json ts) rs) ty = Inr ty'
    \<and> ty_pending ty' = ty_pending ty + count_status ''PENDING'' rs \<and> ty_running ty' = ty_running ty + count_status ''RUNNING'' rs
    \<and> ty_completed ty' = ty_completed ty + count_status ''COMPLETED'' rs \<and> ty_failed ty' = ty_failed ty + count_status ''FAILED'' rs"
  using assms
proof (induction rs arbitrary: ty)
  case (Cons r rs)
  obtain ty1 where ty1: "tally_trial (trial_json ts r) ty = Inr ty1"
      "ty_pending ty1 = ty_pending ty + count_status ''PENDING'' [r]" "ty_running ty1 = ty_running ty + count_status ''RUNNING'' [r]"
      "ty_completed ty1 = ty_completed ty + count_status ''COMPLETED'' [r]" "ty_failed ty1 = ty_failed ty + count_status ''FAILED'' [r]"
    using tally_trial_row [of r ts ty] Cons.prems by auto
  obtain ty2 where "tally_trials (map (trial_json ts) rs) ty1 = Inr ty2"
      "ty_pending ty2 = ty_pending ty1 + count_status ''PENDING'' rs" "ty_running ty2 = ty_running ty1 + count_status ''RUNNING'' rs"
      "ty_completed ty2 = ty_completed ty1 + count_status ''COMPLETED'' rs" "ty_failed ty2 = ty_failed ty1 + count_status ''FAILED'' rs"
    using Cons.IH [of ty1] Cons.prems by auto
  then show ?case
    using ty1 by simp
qed simp

section \<open>The document\<close>

definition trials_status :: "model_run list \<Rightarrow> string option" where
  "trials_status rs =
     (if \<exists>r \<in> set rs. active (mr_status r) then Some ''RUNNING''
      else if \<exists>r \<in> set rs. mr_status r = ''COMPLETED'' then Some ''COMPLETED''
      else if \<exists>r \<in> set rs. mr_status r = ''FAILED'' then Some ''FAILED''
      else None)"

lemma count_status_pos: "count_status st rs > 0 \<longleftrightarrow> (\<exists>r \<in> set rs. mr_status r = st)" "count_status st rs \<ge> 0"
  by (auto simp: count_status_def filter_empty_conv)

lemma aggregate_status_rows:
  assumes "ty_pending ty = count_status ''PENDING'' rs" "ty_running ty = count_status ''RUNNING'' rs"
    "ty_completed ty = count_status ''COMPLETED'' rs" "ty_failed ty = count_status ''FAILED'' rs"
  shows "aggregate_status ty = trials_status rs"
  using assms by (auto simp: aggregate_status_def trials_status_def count_status_pos(1) active_def)

text \<open>What is added to the document leaves its other members alone.\<close>

declare jat_jset [simp del] jvalue_jset [simp del]

lemma jat_jset3_object: "jis_object j \<Longrightarrow> k' \<noteq> k \<Longrightarrow> jat (jset3 k l m v j) k' = jat j k'"
  by (simp add: jset3_def)

lemma jis_object_jset3 [simp]: "jis_object (jset3 k l m v j)"
  by (simp add: jset3_def)

lemma artifact_fields_keep:
  assumes "jis_object j" and "k \<notin> {''artifact'', ''threshold'', ''n_components''}"
  shows "jis_object (snd (artifact_fields art j)) \<and> jat (snd (artifact_fields art j)) k = jat j k"
  using assms
  by (auto simp: artifact_fields_def or_throw_def Let_def jat_jset3_object jat_jset2_object split: sum.splits)

lemma add_artifact_keep:
  assumes "jis_object j" and "k \<notin> {''artifact'', ''threshold'', ''n_components'', ''artifact_error''}"
  shows "jis_object (add_artifact files path j) \<and> jat (add_artifact files path j) k = jat j k"
proof (cases "path = [] \<or> file_text files path = None")
  case True
  then show ?thesis
    using assms by (auto simp: add_artifact_def)
next
  case False
  then obtain content where content: "path \<noteq> []" "file_text files path = Some content"
    by auto
  obtain out j1 where r: "or_throw (parse_json files content) j (\<lambda>art. artifact_fields art j) = (out, j1)"
    by fastforce
  have "jis_object j1 \<and> jat j1 k = jat j k"
    using r artifact_fields_keep [OF assms(1), of k] assms
    by (cases "parse_json files content") (auto, metis snd_conv, metis snd_conv)
  then show ?thesis
    using content r assms(2) by (cases out) (simp_all add: add_artifact_def)
qed

lemma SendJson_keep: "k \<noteq> ''request_id'' \<Longrightarrow> jis_object j \<Longrightarrow> jat (rs_body (SendJson j st rid)) k = jat j k"
  by (auto simp: SendJson_def)


definition doc_has :: "json \<Rightarrow> string \<Rightarrow> json \<Rightarrow> bool" where
  "doc_has j k v \<longleftrightarrow> jis_object j \<and> jcontains j k \<and> jat j k = Inr v"

lemma doc_has_jset: "jis_object j \<Longrightarrow> doc_has (jset k w j) k w" "doc_has j k v \<Longrightarrow> k' \<noteq> k \<Longrightarrow> doc_has (jset k' w j) k v"
  by (cases j; auto simp: doc_has_def)+

lemma doc_has_jnull_default: "doc_has j k v \<Longrightarrow> doc_has (jnull_default k' j) k v"
  by (cases j) (auto simp: doc_has_def jnull_default_def)

lemma doc_has_jvalue: "doc_has j k v \<Longrightarrow> jvalue get j k dflt = get v"
  by (cases j) (auto simp: doc_has_def split: option.splits)

lemma doc_has_row:
  "doc_has (model_run_json ts p) ''hpo_config'' (jnullable id (mr_hpo_config p))"
  "doc_has (model_run_json ts p) ''artifact_path'' (jtext (mr_artifact_path p))"
  "doc_has (model_run_json ts p) ''status'' (JStr (mr_status p))"
  by (simp_all add: model_run_json_def jobject_def doc_has_def)

lemma doc_has_tally:
  "doc_has j k v \<Longrightarrow> k \<notin> {''error_aggregates'', ''trial_counts'', ''error_aggregates_db'', ''status''} \<Longrightarrow>
     doc_has (fst (apply_tally env mid trials ty j d)) k v"
  by (auto simp: apply_tally_def Let_def intro!: doc_has_jset(2) split: option.split)

lemma doc_status_tally:
  "jis_object j \<Longrightarrow> aggregate_status ty = Some st \<Longrightarrow> doc_has (fst (apply_tally env mid trials ty j d)) ''status'' (JStr st)"
  by (simp add: apply_tally_def Let_def doc_has_jset)

lemma doc_has_best:
  "doc_has j k v \<Longrightarrow> k \<notin> {''best_trial_run_id_db'', ''tie_break_basis'', ''selection_metric_direction'', ''best_metric_name'',
     ''best_metric_value'', ''best_trial_run_id''} \<Longrightarrow> doc_has (fst (apply_best env mid b j d)) k v"
  by (auto simp: apply_best_def intro!: doc_has_jset(2))

lemma doc_best:
  "jis_object j \<Longrightarrow> bt_id b \<noteq> '''' \<Longrightarrow> doc_has (fst (apply_best env mid b j d)) ''best_trial_run_id'' (JStr (bt_id b))"
  by (simp add: apply_best_def doc_has_jset)

lemma doc_has_object: "doc_has j k v \<Longrightarrow> jis_object j"
  by (simp add: doc_has_def)

text \<open>The two writes to the parent's row.\<close>

lemma apply_tally_rows:
  "model_row i (snd (apply_tally env mid trials ty j d)) =
     (if i = mid \<and> av_fault env 2 = None \<and> ty_running ty = 0 \<and> ty_pending ty = 0
      then map_option (\<lambda>r. r\<lparr>mr_error_aggregates := Some (errors_json ty)\<rparr>) (model_row i d) else model_row i d)"
  by (auto simp: apply_tally_def Let_def UpdateParentErrorAggregates_def transact_def model_row_update split: option.splits)

lemma apply_best_rows:
  assumes "bt_id b \<noteq> ''''" "has_model d (bt_id b)" "av_fault env 3 = None"
  shows "model_row i (snd (apply_best env mid b j d)) =
     (if i = mid
      then map_option (\<lambda>r. r\<lparr>mr_best_trial_run_id := Some (bt_id b), mr_best_metric_value := Some (bt_threshold b),
                 mr_best_metric_name := Some ''reconstruction_error_threshold'', mr_selection_metric_direction := Some ''LOWER_IS_BETTER'',
                 mr_tie_break_basis := Some ''completion_time, trial_index''\<rparr>) (model_row i d) else model_row i d)"
  using assms by (auto simp: apply_best_def UpdateBestTrial_def transact_def model_row_update)

lemma has_model_row: "has_model d i \<longleftrightarrow> model_row i d \<noteq> None"
  unfolding has_model_def model_row_def find_None_iff by auto


text \<open>Reading a run with readable trials, one of which can be selected.\<close>

lemma add_trials_best:
  assumes "doc_has j ''hpo_config'' c" "c \<noteq> JNull" "doc_has j ''artifact_path'' v" and "\<forall>k. av_fault env k = None"
    and rs: "rs = trial_rows mid (ap_db a)" and "\<forall>r \<in> set rs. readable r" and "filter candidate rs \<noteq> []"
  obtains r j3 d3 where "add_trials env mid j a = (Returned j3, a\<lparr>ap_db := d3\<rparr>)" "r \<in> set rs" "candidate r"
    "\<forall>q \<in> set rs. candidate q \<longrightarrow> \<not> before (trial_best (av_time_text env) q) (trial_best (av_time_text env) r)"
    "doc_has j3 ''artifact_path'' v" "doc_has j3 ''status'' (JStr (the (trials_status rs)))"
    "doc_has j3 ''best_trial_run_id'' (JStr (mr_model_run_id r))"
    "\<exists>f. (\<forall>p. mr_best_trial_run_id (f p) = Some (mr_model_run_id r) \<and> mr_best_metric_value (f p) = mr_selection_metric_value r \<and> mr_status (f p) = mr_status p)
       \<and> (\<forall>i. model_row i d3 = (if i = mid then map_option f (model_row i (ap_db a)) else model_row i (ap_db a)))"
proof -
  define ts where "ts = av_time_text env"
  define trials where "trials = map (trial_json ts) rs"
  define j1 where "j1 = jset ''trials'' (JArr trials) j"
  have j1: "doc_has j1 ''artifact_path'' v" "jis_object j1"
    using assms(3) by (simp_all add: j1_def doc_has_jset)
  obtain ty where ty: "tally_trials trials no_tally = Inr ty" "aggregate_status ty = trials_status rs"
    using tally_trials_rows [OF assms(6), of ts no_tally] aggregate_status_rows by (auto simp: no_tally_def trials_def)
  obtain r where r: "r \<in> set rs" "candidate r" "select_best trials no_best = Inr (trial_best ts r)"
      "\<forall>q \<in> set rs. candidate q \<longrightarrow> \<not> before (trial_best ts q) (trial_best ts r)"
    using select_best_minimal [OF assms(6,7), of ts] unfolding trials_def by blast
  have id: "bt_id (trial_best ts r) = mr_model_run_id r" "mr_model_run_id r \<noteq> ''''"
      "mr_selection_metric_value r = Some (bt_threshold (trial_best ts r))"
    using r(1,2) assms(6) by (auto simp: readable_def trial_best_def)
  obtain j2 d2 where t: "apply_tally env mid trials ty j1 (ap_db a) = (j2, d2)"
    by fastforce
  obtain j3 d3 where b: "apply_best env mid (trial_best ts r) j2 d2 = (j3, d3)"
    by fastforce
  have run: "add_trials env mid j a = (Returned j3, a\<lparr>ap_db := d3\<rparr>)"
    using assms(1,2,4) ty(1) r(3) t b rs
    by (simp add: add_trials_def GetHpoTrials_rows Let_def doc_has_def trials_def j1_def ts_def)
  have "doc_has j2 ''artifact_path'' v"
    using doc_has_tally [OF j1(1), of env mid trials ty "ap_db a"] t by simp
  then have d3: "doc_has j3 ''artifact_path'' v" "jis_object j2"
    using doc_has_best [of j2 "''artifact_path''" v env mid "trial_best ts r" d2] b by (simp_all add: doc_has_object)
  have "trials_status rs \<noteq> None"
    using r(1,2) by (auto simp: trials_status_def candidate_def)
  then have "doc_has j2 ''status'' (JStr (the (trials_status rs)))"
    using doc_status_tally [OF j1(2), of ty "the (trials_status rs)" env mid trials "ap_db a"] ty(2) t by simp
  then have status: "doc_has j3 ''status'' (JStr (the (trials_status rs)))"
    using doc_has_best [of j2 "''status''" _ env mid "trial_best ts r" d2] b by simp
  have best: "doc_has j3 ''best_trial_run_id'' (JStr (mr_model_run_id r))"
    using doc_best [OF d3(2), of "trial_best ts r" env mid d2] b id by simp
  have tally: "model_row i d2 = (if i = mid then map_option (\<lambda>r. if ty_running ty = 0 \<and> ty_pending ty = 0
      then r\<lparr>mr_error_aggregates := Some (errors_json ty)\<rparr> else r) (model_row i (ap_db a)) else model_row i (ap_db a))" for i
    using apply_tally_rows [of i env mid trials ty j1 "ap_db a"] t assms(4) by (auto simp: option.map_ident)
  have "has_model d2 (mr_model_run_id r)"
    using trial_rows_present [of r mid "ap_db a"] r(1) by (auto simp: has_model_row tally rs)
  then have rows: "model_row i d3 = (if i = mid then map_option (\<lambda>p. p\<lparr>mr_best_trial_run_id := Some (mr_model_run_id r),
      mr_best_metric_value := mr_selection_metric_value r, mr_best_metric_name := Some ''reconstruction_error_threshold'',
      mr_selection_metric_direction := Some ''LOWER_IS_BETTER'', mr_tie_break_basis := Some ''completion_time, trial_index''\<rparr>)
      (model_row i d2) else model_row i d2)" for i
    using apply_best_rows [of "trial_best ts r" d2 env i mid j2] b assms(4) id by simp
  show thesis
    by (rule that [OF run r(1,2) r(4) [unfolded ts_def] d3(1) status best])
      (intro exI [of _ "\<lambda>p. (if ty_running ty = 0 \<and> ty_pending ty = 0 then p\<lparr>mr_error_aggregates := Some (errors_json ty)\<rparr> else p)
        \<lparr>mr_best_trial_run_id := Some (mr_model_run_id r), mr_best_metric_value := mr_selection_metric_value r,
         mr_best_metric_name := Some ''reconstruction_error_threshold'', mr_selection_metric_direction := Some ''LOWER_IS_BETTER'',
         mr_tie_break_basis := Some ''completion_time, trial_index''\<rparr>"], simp add: rows tally option.map_comp comp_def)
qed



definition ex_parent :: model_run where
  "ex_parent = (new_model_run 1 ''p'' ''d1'' ''search'' ''r'' JNull)\<lparr>mr_hpo_config := Some (JInt 1)\<rparr>"

definition ex_trial :: "string \<Rightarrow> int \<Rightarrow> real option \<Rightarrow> model_run" where
  "ex_trial mid i metric = (new_model_run 2 mid ''d1'' ''trial'' ''r'' JNull)
     \<lparr>mr_parent_run_id := Some ''p'', mr_trial_index := Some i, mr_trial_params := Some JNull, mr_status := ''COMPLETED'',
      mr_completed_at := Some 4, mr_selection_metric_value := metric\<rparr>"

definition ex_search :: "model_run list \<Rightarrow> api" where
  "ex_search trials = ex_api\<lparr>ap_db := empty_db\<lparr>model_runs := ex_parent # trials\<rparr>\<rparr>"

definition ex_detail_request :: HttpRequest where
  "ex_detail_request = ex_http_request\<lparr>hr_match := ''p''\<rparr>"

lemma ex_search_rows:
  "model_row ''p'' (ap_db (ex_search trials)) = Some ex_parent"
  "trial_rows ''p'' (ap_db (ex_search [ex_trial ''t1'' 0 x])) = [ex_trial ''t1'' 0 x]"
  "trial_rows ''p'' (ap_db (ex_search [ex_trial ''t1'' 0 x, ex_trial ''t2'' 1 y])) = [ex_trial ''t1'' 0 x, ex_trial ''t2'' 1 y]"
  by (simp_all add: ex_search_def model_row_def ex_parent_def new_model_run_def trial_rows_def ex_trial_def)


text \<open>
  A trial that is marked completed before its metric is stored, as the training job does it in two writes, makes the
  parent unreadable in between: the request is answered with 500.
\<close>

lemma model_detail_race:
  "\<exists>resp a'. HandleGetModelDetail ex_api_env files ex_detail_request (ex_search [ex_trial ''t1'' 0 None]) = (Returned resp, a')
     \<and> rs_status resp = 500"
proof -
  define a where "a = ex_search [ex_trial ''t1'' 0 None]"
  define ts where "ts = av_time_text ex_api_env"
  define j where "j = jnull_default ''trial_params'' (jnull_default ''trial_index'' (jnull_default ''parent_run_id''
      (jnull_default ''hpo_config'' (model_run_json ts ex_parent))))"
  have req: "hr_match ex_detail_request = ''p''"
    by (simp add: ex_detail_request_def)
  have run: "GetModelRun None ts ''p'' (ap_db a) = model_run_json ts ex_parent" "\<not> jempty (model_run_json ts ex_parent)"
    using ex_search_rows(1) [of "[ex_trial ''t1'' 0 None]"]
    by (simp_all add: a_def GetModelRun_def model_row_def jempty_def model_run_json_def jobject_def)
  have fault: "av_fault ex_api_env k = None" for k
    by (simp add: ex_api_env_def)
  have hpo: "jnullable id (mr_hpo_config ex_parent) = JInt 1"
    by (simp add: jnullable_def ex_parent_def)
  have "doc_has j ''hpo_config'' (JInt 1)"
    unfolding j_def by (intro doc_has_jnull_default doc_has_row(1) [of ts ex_parent, unfolded hpo])
  then have doc: "jat j ''hpo_config'' = Inr (JInt 1)"
    by (simp add: doc_has_def)
  obtain ty where ty: "tally_trials [trial_json ts (ex_trial ''t1'' 0 None)] no_tally = Inr ty"
    by (auto simp: tally_trial_def trial_json_members ex_trial_def)
  have "select_best [trial_json ts (ex_trial ''t1'' 0 None)] no_best = Inl (Json_type_error ''type must be number'')"
    by (simp add: consider_trial_def trial_json_members trial_members jnullable_def) (simp add: ex_trial_def new_model_run_def)
  then have "\<exists>a1. add_trials ex_api_env ''p'' j a = (Threw (Json_type_error ''type must be number''), a1)"
    using doc ty ex_search_rows(2) [of None] fault
    by (auto simp: add_trials_def a_def ts_def [symmetric] GetHpoTrials_rows Let_def split: prod.split)
  then show ?thesis
    using run by (auto simp: HandleGetModelDetail_def detail_try_block_def Let_def req a_def [symmetric] ts_def [symmetric] j_def [symmetric]
        send_error_def SendError_def fault split: prod.splits)
qed

end
