(* ===== verification/Analytics.thy ===== *)
theory Analytics
  imports Run_Store
begin

text \<open>
  The read-only analytic queries of \<^verbatim>\<open>src/src/db_client.cpp\<close> over the telemetry of a dataset: the lists of
  permitted column names, the row filters, top values, time series, histograms, statistics and the
  evaluation of a model on a scored dataset. What the SQL text asks for is computed here on the rows of the store;
  which texts the server reads as times, how it prints them, the order in which it lists groups of equal size
  and its failures are parameters. Percentiles are those of \<^verbatim>\<open>PERCENTILE_CONT\<close>, a \<^verbatim>\<open>double\<close> printed
  into a statement by \<^verbatim>\<open>std::to_string\<close> loses all but six decimals.
\<close>

section \<open>Permitted names\<close>

definition IsValidMetric :: "string \<Rightarrow> bool" where
  "IsValidMetric metric \<longleftrightarrow>
     metric \<in> {''cpu_usage'', ''memory_usage'', ''disk_utilization'', ''network_rx_rate'', ''network_tx_rate''}"

definition IsValidDimension :: "string \<Rightarrow> bool" where
  "IsValidDimension col \<longleftrightarrow>
     col \<in> {''region'', ''project_id'', ''host_id'', ''anomaly_type'',
            ''h.region'', ''h.project_id'', ''h.host_id'', ''h.anomaly_type''}"

definition IsValidAggregation :: "string \<Rightarrow> bool" where
  "IsValidAggregation agg \<longleftrightarrow> agg \<in> {''mean'', ''min'', ''max'', ''p50'', ''p95''}"

definition metric_value :: "string \<Rightarrow> TelemetryRecord \<Rightarrow> real" where
  "metric_value metric r =
     (if metric = ''cpu_usage'' then tr_cpu_usage r else if metric = ''memory_usage'' then tr_memory_usage r
      else if metric = ''disk_utilization'' then tr_disk_utilization r
      else if metric = ''network_rx_rate'' then tr_network_rx_rate r else tr_network_tx_rate r)"

text \<open>The value of a dimension column; an empty anomaly type is stored as NULL.\<close>

definition dimension_value :: "string \<Rightarrow> TelemetryRecord \<Rightarrow> string option" where
  "dimension_value col r =
     (if col = ''region'' \<or> col = ''h.region'' then Some (tr_region r)
      else if col = ''project_id'' \<or> col = ''h.project_id'' then Some (tr_project_id r)
      else if col = ''host_id'' \<or> col = ''h.host_id'' then Some (tr_host_id r)
      else if tr_anomaly_type r = '''' then None else Some (tr_anomaly_type r))"

section \<open>Rows and filters\<close>

record EvalRow =
  ev_err :: real
  ev_pred :: bool
  ev_label :: bool

record query_env =
  qv_time :: "string \<Rightarrow> time_point option"
  qv_text :: "time_point \<Rightarrow> string"
  qv_groups :: "string option list \<Rightarrow> string option list"
  qv_rows :: "EvalRow list \<Rightarrow> EvalRow list"
  qv_fault :: "cpp_exception option"

record row_filter =
  rf_region :: string
  rf_is_anomaly :: string
  rf_anomaly_type :: string
  rf_start_time :: string
  rf_end_time :: string

definition dataset_records :: "string \<Rightarrow> db \<Rightarrow> TelemetryRecord list" where
  "dataset_records run_id d = filter (\<lambda>r. tr_run_id r = run_id) (map tel_record (telemetry d))"

definition time_bound :: "query_env \<Rightarrow> string \<Rightarrow> time_point option cpp" where
  "time_bound env s =
     (if s = '''' then Inr None
      else case qv_time env s of None \<Rightarrow> Inl (Sql_error ''invalid input syntax for type timestamp'') | Some t \<Rightarrow> Inr (Some t))"

definition passes :: "row_filter \<Rightarrow> time_point option \<Rightarrow> time_point option \<Rightarrow> TelemetryRecord \<Rightarrow> bool" where
  "passes f lo hi r \<longleftrightarrow>
     (rf_region f \<noteq> '''' \<longrightarrow> tr_region r = rf_region f)
     \<and> (rf_is_anomaly f \<noteq> '''' \<longrightarrow> tr_is_anomaly r = (rf_is_anomaly f = ''true''))
     \<and> (rf_anomaly_type f \<noteq> '''' \<longrightarrow> tr_anomaly_type r = rf_anomaly_type f)
     \<and> (case lo of None \<Rightarrow> True | Some t \<Rightarrow> t \<le> metric_timestamp r)
     \<and> (case hi of None \<Rightarrow> True | Some t \<Rightarrow> metric_timestamp r \<le> t)"

definition filtered_records :: "query_env \<Rightarrow> string \<Rightarrow> row_filter \<Rightarrow> db \<Rightarrow> TelemetryRecord list cpp" where
  "filtered_records env run_id f d =
     cbind (time_bound env (rf_start_time f)) (\<lambda>lo.
     cbind (time_bound env (rf_end_time f)) (\<lambda>hi.
       Inr (filter (passes f lo hi) (dataset_records run_id d))))"

text \<open>A query runs on a connection; taking one or the query may fail.\<close>

definition run_query :: "query_env \<Rightarrow> 'a cpp \<Rightarrow> 'a cpp" where
  "run_query env q = (case qv_fault env of Some e \<Rightarrow> Inl e | None \<Rightarrow> q)"

section \<open>Aggregates\<close>

definition percentile_cont :: "real \<Rightarrow> real list \<Rightarrow> real" where
  "percentile_cont p xs =
     (let s = sort xs; r = p * real (length xs - 1); lo = nat \<lfloor>r\<rfloor>; hi = nat \<lceil>r\<rceil>
      in s ! lo + (r - real lo) * (s ! hi - s ! lo))"

definition average :: "real list \<Rightarrow> real" where
  "average xs = sum_list xs / real (length xs)"

definition stddev :: "real list \<Rightarrow> real option" where
  "stddev xs =
     (if length xs < 2 then None
      else Some (sqrt (sum_list (map (\<lambda>x. (x - average xs)\<^sup>2) xs) / real (length xs - 1))))"

text \<open>An aggregate of no rows is NULL, which the code reads as zero.\<close>

definition or_zero :: "(real list \<Rightarrow> real) \<Rightarrow> real list \<Rightarrow> real" where
  "or_zero f xs = (if xs = [] then 0 else f xs)"

definition min_of :: "real list \<Rightarrow> real" where
  "min_of xs = Min (set xs)"

definition max_of :: "real list \<Rightarrow> real" where
  "max_of xs = Max (set xs)"

record MetricStats =
  st_count :: int
  st_min :: real
  st_max :: real
  st_mean :: real
  st_p50 :: real
  st_p95 :: real

definition metric_stats :: "real list \<Rightarrow> MetricStats" where
  "metric_stats xs =
     \<lparr>st_count = int (length xs), st_min = or_zero min_of xs, st_max = or_zero max_of xs, st_mean = or_zero average xs,
      st_p50 = or_zero (percentile_cont (1 / 2)) xs, st_p95 = or_zero (percentile_cont (95 / 100)) xs\<rparr>"

definition GetMetricStats :: "query_env \<Rightarrow> string \<Rightarrow> string \<Rightarrow> db \<Rightarrow> MetricStats cpp" where
  "GetMetricStats env run_id metric d =
     (if \<not> IsValidMetric metric then Inl (Invalid_argument (''Invalid metric: '' @ metric))
      else run_query env (Inr (metric_stats (map (metric_value metric) (dataset_records run_id d)))))"

definition kMetrics :: "string list" where
  "kMetrics = [''cpu_usage'', ''memory_usage'', ''disk_utilization'', ''network_rx_rate'', ''network_tx_rate'']"

definition GetDatasetMetricsSummary :: "query_env \<Rightarrow> string \<Rightarrow> db \<Rightarrow> (string \<times> real) list cpp" where
  "GetDatasetMetricsSummary env run_id d =
     run_query env (Inr (sort_key (\<lambda>p. - snd p)
       (map (\<lambda>m. (m, case stddev (map (metric_value m) (dataset_records run_id d)) of None \<Rightarrow> 0 | Some v \<Rightarrow> v)) kMetrics)))"

section \<open>Top values\<close>

definition group_counts :: "query_env \<Rightarrow> string \<Rightarrow> TelemetryRecord list \<Rightarrow> (string option \<times> int) list" where
  "group_counts env col rs =
     (let vs = map (dimension_value col) rs in
      sort_key (\<lambda>p. - snd p) (map (\<lambda>v. (v, int (count_list vs v))) (qv_groups env vs)))"

record TopK =
  tk_items :: "(string \<times> int) list"
  tk_truncated :: bool
  tk_total_distinct :: "int option"

definition label_of :: "string option \<Rightarrow> string" where
  "label_of v = (case v of None \<Rightarrow> '''' | Some s \<Rightarrow> s)"

text \<open>The loop over the result: it stops at the row after the first \<^verbatim>\<open>k\<close>, counted as \<^verbatim>\<open>size_t\<close>.\<close>

fun topk_loop :: "nat \<Rightarrow> (string option \<times> int) list \<Rightarrow> (string \<times> int) list \<times> bool" where
  "topk_loop k [] = ([], False)"
| "topk_loop 0 (row # rows) = ([], True)"
| "topk_loop (Suc k) ((v, n) # rows) = (case topk_loop k rows of (items, t) \<Rightarrow> ((label_of v, n) # items, t))"

text \<open>The limit sent to the server is \<^verbatim>\<open>k + 1\<close> in 32 bits, with the wrap-around of the hardware.\<close>

definition GetTopK :: "query_env \<Rightarrow> string \<Rightarrow> string \<Rightarrow> int \<Rightarrow> row_filter \<Rightarrow> bool \<Rightarrow> db \<Rightarrow> TopK cpp" where
  "GetTopK env run_id column k f include_total_distinct d =
     (if \<not> IsValidDimension column then Inl (Invalid_argument (''Invalid column: '' @ column))
      else run_query env (cbind (filtered_records env run_id f d) (\<lambda>rs.
        if take 2 column = ''h.'' then Inl (Sql_error ''missing FROM-clause entry for table h'')
        else if int32 (k + 1) < 0 then Inl (Sql_error ''LIMIT must not be negative'')
        else
          case topk_loop (unat (word_of_int k :: size_t)) (take (nat (int32 (k + 1))) (group_counts env column rs)) of (items, truncated) \<Rightarrow>
            Inr \<lparr>tk_items = items, tk_truncated = truncated,
                 tk_total_distinct = (if include_total_distinct
                   then Some (int (card (set (map (dimension_value column) rs) - {None}))) else None)\<rparr>)))"

section \<open>Time series\<close>

definition bucket_of :: "int \<Rightarrow> TelemetryRecord \<Rightarrow> int" where
  "bucket_of bucket_seconds r = (metric_timestamp r div (bucket_seconds * 1000000000)) * bucket_seconds"

definition aggregate :: "string \<Rightarrow> real list \<Rightarrow> real" where
  "aggregate agg xs =
     (if agg = ''mean'' then average xs else if agg = ''min'' then min_of xs else if agg = ''max'' then max_of xs
      else if agg = ''p50'' then percentile_cont (1 / 2) xs else percentile_cont (95 / 100) xs)"

record series_point =
  sp_bucket :: int
  sp_values :: "(string \<times> real) list"
  sp_count :: int

definition series_point_of :: "string list \<Rightarrow> string list \<Rightarrow> int \<Rightarrow> int \<Rightarrow> TelemetryRecord list \<Rightarrow> series_point" where
  "series_point_of metrics aggs bucket_seconds b rs =
     (let mine = filter (\<lambda>r. bucket_of bucket_seconds r = b) rs in
      \<lparr>sp_bucket = b,
       sp_values = concat (map (\<lambda>m. map (\<lambda>agg. (m @ ''_'' @ agg, aggregate agg (map (metric_value m) mine))) aggs) metrics),
       sp_count = int (length mine)\<rparr>)"

text \<open>The bucket length is positive wherever the query is used; the division of the server fails for zero.\<close>

definition GetTimeSeries ::
  "query_env \<Rightarrow> string \<Rightarrow> string list \<Rightarrow> string list \<Rightarrow> int \<Rightarrow> row_filter \<Rightarrow> db \<Rightarrow> series_point list cpp" where
  "GetTimeSeries env run_id metrics aggs bucket_seconds f d =
     (case find (\<lambda>m. \<not> IsValidMetric m) metrics of
        Some m \<Rightarrow> Inl (Invalid_argument (''Invalid metric: '' @ m))
      | None \<Rightarrow>
          (case find (\<lambda>a. \<not> IsValidAggregation a) aggs of
             Some a \<Rightarrow> Inl (Invalid_argument (''Invalid aggregation: '' @ a))
           | None \<Rightarrow> run_query env (cbind (filtered_records env run_id f d) (\<lambda>rs.
               if bucket_seconds = 0 \<and> rs \<noteq> [] then Inl (Sql_error ''division by zero'')
               else Inr (map (\<lambda>b. series_point_of metrics aggs bucket_seconds b rs)
                      (sorted_list_of_set (set (map (bucket_of bucket_seconds) rs))))))))"

section \<open>Histograms\<close>

text \<open>The value that the server reads back from \<^verbatim>\<open>std::to_string\<close> of a \<^verbatim>\<open>double\<close>: six decimals, ties to even.\<close>

definition to_string_value :: "real \<Rightarrow> real" where
  "to_string_value x =
     (let f = \<lfloor>1000000 * x\<rfloor>; r = 1000000 * x - of_int f;
          n = (if r > 1 / 2 \<or> (r = 1 / 2 \<and> odd f) then f + 1 else f)
      in of_int n / 1000000)"

definition width_bucket :: "real \<Rightarrow> real \<Rightarrow> real \<Rightarrow> int \<Rightarrow> int" where
  "width_bucket x lo hi n =
     (if x < lo then 0 else if hi \<le> x then n + 1 else \<lfloor>(x - lo) * of_int n / (hi - lo)\<rfloor> + 1)"

text \<open>An edge that is no number, which \<^verbatim>\<open>bins = 0\<close> gives, is printed as null.\<close>

record Histogram =
  hg_requested_bins :: int
  hg_edges :: "real option list"
  hg_counts :: "int list"

definition MAX_BINS :: int where
  "MAX_BINS = 500"

text \<open>The range asked for, or that of the whole dataset when it is empty.\<close>

definition histogram_range :: "real \<Rightarrow> real \<Rightarrow> real list \<Rightarrow> real \<times> real" where
  "histogram_range min_val max_val xs =
     (if max_val \<le> min_val \<and> xs \<noteq> [] then (min_of xs, max_of xs) else (min_val, max_val))"

definition fill_counts :: "int \<Rightarrow> (int \<times> int) list \<Rightarrow> int list" where
  "fill_counts bins rows =
     fold (\<lambda>(b, cnt) counts. if 1 \<le> b \<and> b \<le> bins then counts[nat (b - 1) := cnt] else counts) rows (replicate (nat bins) 0)"

definition GetHistogram ::
  "query_env \<Rightarrow> string \<Rightarrow> string \<Rightarrow> int \<Rightarrow> real \<Rightarrow> real \<Rightarrow> row_filter \<Rightarrow> db \<Rightarrow> Histogram cpp" where
  "GetHistogram env run_id metric bins min_val max_val f d =
     (if \<not> IsValidMetric metric then Inl (Invalid_argument (''Invalid metric: '' @ metric))
      else
        let n = (if bins > MAX_BINS then MAX_BINS else bins);
            (lo, hi) = histogram_range min_val max_val (map (metric_value metric) (dataset_records run_id d))
        in run_query env
             (if hi \<le> lo then Inr \<lparr>hg_requested_bins = bins, hg_edges = [], hg_counts = []\<rparr>
              else
                let step = (hi - lo) / of_int n;
                    edges = map (\<lambda>i. if n = 0 then None else Some (lo + step * real i)) [0..<nat (n + 1)]
                in cbind (filtered_records env run_id f d) (\<lambda>rs.
                     if n \<le> 0 \<or> to_string_value lo = to_string_value hi
                     then (if rs = [] \<and> n < 0 then Inl (Runtime_error ''cannot create std::vector larger than max_size()'')
                           else if rs = [] then Inr \<lparr>hg_requested_bins = bins, hg_edges = edges, hg_counts = replicate (nat n) 0\<rparr>
                           else Inl (Sql_error ''invalid width_bucket arguments''))
                     else
                       let bs = map (\<lambda>r. width_bucket (metric_value metric r) (to_string_value lo) (to_string_value hi) n) rs;
                           rows = map (\<lambda>b. (b, int (count_list bs b))) (sorted_list_of_set (set bs))
                       in Inr \<lparr>hg_requested_bins = bins, hg_edges = edges, hg_counts = fill_counts n rows\<rparr>)))"

section \<open>Evaluation of a model\<close>

text \<open>The scores of a dataset by a model joined with the telemetry rows they belong to.\<close>

definition joined_scores :: "string \<Rightarrow> string \<Rightarrow> db \<Rightarrow> (score_row \<times> TelemetryRecord) list" where
  "joined_scores dataset_id model_run_id d =
     concat (map (\<lambda>s. map (\<lambda>t. (s, tel_record t)) (filter (\<lambda>t. tel_record_id t = sc_record_id s) (telemetry d)))
       (filter (\<lambda>s. sc_dataset_id s = dataset_id \<and> sc_model_run_id s = model_run_id) (scores d)))"

definition eval_rows :: "string \<Rightarrow> string \<Rightarrow> db \<Rightarrow> EvalRow list" where
  "eval_rows dataset_id model_run_id d =
     map (\<lambda>(s, r). \<lparr>ev_err = sc_reconstruction_error s, ev_pred = sc_predicted s, ev_label = tr_is_anomaly r\<rparr>)
       (joined_scores dataset_id model_run_id d)"

record RocPoint =
  rp_fpr :: real
  rp_tpr :: real
  rp_precision :: real
  rp_threshold :: real

record EvalMetrics =
  em_tp :: int
  em_fp :: int
  em_tn :: int
  em_fn :: int
  em_points :: "RocPoint list"
  em_model :: json

definition number_of :: "('a \<Rightarrow> bool) \<Rightarrow> 'a list \<Rightarrow> int" where
  "number_of p xs = int (length (filter p xs))"

definition ratio :: "int \<Rightarrow> int \<Rightarrow> real" where
  "ratio a b = (if b > 0 then of_int a / of_int b else 0)"

definition n_points_of :: "int \<Rightarrow> int" where
  "n_points_of points = max (min (if points > 0 then points else 50) 200) 10"

definition roc_point :: "EvalRow list \<Rightarrow> real \<Rightarrow> RocPoint" where
  "roc_point samples threshold =
     (let ttp = number_of (\<lambda>s. ev_err s \<ge> threshold \<and> ev_label s) samples;
          tfp = number_of (\<lambda>s. ev_err s \<ge> threshold \<and> \<not> ev_label s) samples
      in \<lparr>rp_fpr = ratio tfp (number_of (\<lambda>s. \<not> ev_label s) samples), rp_tpr = ratio ttp (number_of ev_label samples),
          rp_precision = ratio ttp (ttp + tfp), rp_threshold = threshold\<rparr>)"

definition threshold_index :: "int \<Rightarrow> nat \<Rightarrow> nat \<Rightarrow> nat" where
  "threshold_index n_points n i = nat \<lfloor>real i / of_int (n_points - 1) * real (n - 1)\<rfloor>"

definition roc_points :: "int \<Rightarrow> EvalRow list \<Rightarrow> RocPoint list" where
  "roc_points n_points samples =
     (if samples = [] then []
      else map (\<lambda>i. roc_point samples (ev_err (samples ! threshold_index n_points (length samples) i))) [0..<nat n_points])"

definition eval_metrics :: "int \<Rightarrow> EvalRow list \<Rightarrow> json \<Rightarrow> EvalMetrics" where
  "eval_metrics points samples model =
     \<lparr>em_tp = number_of (\<lambda>s. ev_pred s \<and> ev_label s) samples, em_fp = number_of (\<lambda>s. ev_pred s \<and> \<not> ev_label s) samples,
      em_tn = number_of (\<lambda>s. \<not> ev_pred s \<and> \<not> ev_label s) samples, em_fn = number_of (\<lambda>s. \<not> ev_pred s \<and> ev_label s) samples,
      em_points = roc_points (n_points_of points) (sort_key (\<lambda>s. - ev_err s) samples), em_model = model\<rparr>"

text \<open>
  The rows arrive in an order the server chooses, \<open>qv_rows\<close>; only the first \<^verbatim>\<open>max_samples\<close> are used. A failure is
  logged, and the result is then the null value.
\<close>

definition GetEvalMetrics ::
  "query_env \<Rightarrow> cpp_exception option \<Rightarrow> (int \<Rightarrow> string) \<Rightarrow> string \<Rightarrow> string \<Rightarrow> int \<Rightarrow> int \<Rightarrow> db \<Rightarrow> EvalMetrics option" where
  "GetEvalMetrics env fault ts dataset_id model_run_id points max_samples d =
     (if qv_fault env \<noteq> None then None
      else
        let found = qv_rows env (eval_rows dataset_id model_run_id d);
            samples = (if max_samples > 0 then take (nat max_samples) found else found)
        in Some (eval_metrics points samples (GetModelRun fault ts model_run_id d)))"

definition jmember :: "json \<Rightarrow> string \<Rightarrow> json \<Rightarrow> json" where
  "jmember j k dflt = (case jvalue Inr j k dflt of Inr v \<Rightarrow> v | Inl e \<Rightarrow> dflt)"

text \<open>What a result says about the model run it belongs to.\<close>

definition add_run_metadata :: "json \<Rightarrow> json \<Rightarrow> json" where
  "add_run_metadata run out =
     (if jempty run then out
      else jset ''trial_params'' (jmember run ''trial_params'' JNull) (jset ''trial_index'' (jmember run ''trial_index'' JNull)
           (jset ''parent_run_id'' (jmember run ''parent_run_id'' JNull) (jset ''hpo_config'' (jmember run ''hpo_config'' JNull)
           (jset ''training_config'' (jmember run ''training_config'' (JObj [])) out)))))"

record error_group =
  eg_label :: string
  eg_count :: int
  eg_mean :: real
  eg_p50 :: real
  eg_p95 :: real

definition error_group_of :: "string \<Rightarrow> (score_row \<times> TelemetryRecord) list \<Rightarrow> string option \<Rightarrow> error_group" where
  "error_group_of col joined v =
     (let errs = map (\<lambda>(s, r). sc_reconstruction_error s) (filter (\<lambda>(s, r). dimension_value col r = v) joined) in
      \<lparr>eg_label = label_of v, eg_count = int (length errs), eg_mean = or_zero average errs,
       eg_p50 = or_zero (percentile_cont (1 / 2)) errs, eg_p95 = or_zero (percentile_cont (95 / 100)) errs\<rparr>)"

definition GetErrorDistribution :: "query_env \<Rightarrow> string \<Rightarrow> string \<Rightarrow> string \<Rightarrow> db \<Rightarrow> error_group list cpp" where
  "GetErrorDistribution env dataset_id model_run_id group_by d =
     (if \<not> IsValidDimension group_by then Inl (Invalid_argument (''Invalid group_by: '' @ group_by))
      else run_query env
        (let joined = joined_scores dataset_id model_run_id d in
         Inr (sort_key (\<lambda>g. - eg_count g)
           (map (error_group_of group_by joined) (qv_groups env (map (dimension_value group_by \<circ> snd) joined))))))"

section \<open>Summary of a dataset\<close>

record trend_point =
  tp_hour :: time_point
  tp_anomaly_rate :: real
  tp_total :: int

record DatasetSummary =
  ds_row_count :: int
  ds_min_ts :: string
  ds_max_ts :: string
  ds_anomaly_rate :: real
  ds_type_counts :: "(string \<times> int) list"
  ds_hosts :: int
  ds_projects :: int
  ds_regions :: int
  ds_latency_p50 :: real
  ds_latency_p95 :: real
  ds_trend :: "trend_point list"

definition hour_ns :: int where
  "hour_ns = 3600 * 1000000000"

text \<open>\<^verbatim>\<open>date_trunc('hour', ...)\<close> in a time zone that differs from UTC by whole hours.\<close>

definition hour_of :: "time_point \<Rightarrow> time_point" where
  "hour_of t = (t div hour_ns) * hour_ns"

text \<open>The loop over the types: the first \<^verbatim>\<open>topk\<close> are listed, the others are added up.\<close>

fun type_loop :: "int \<Rightarrow> int \<Rightarrow> (string option \<times> int) list \<Rightarrow> (string \<times> int) list \<times> int" where
  "type_loop topk idx [] = ([], 0)"
| "type_loop topk idx ((v, n) # rest) =
     (case type_loop topk (idx + 1) rest of (items, other) \<Rightarrow>
        if idx < topk then ((label_of v, n) # items, other) else (items, n + other))"

definition type_counts :: "query_env \<Rightarrow> int \<Rightarrow> TelemetryRecord list \<Rightarrow> (string \<times> int) list" where
  "type_counts env topk rs =
     (case type_loop topk 0 (group_counts env ''anomaly_type'' (filter (\<lambda>r. tr_is_anomaly r \<and> tr_anomaly_type r \<noteq> '''') rs)) of
        (items, other) \<Rightarrow> if other > 0 then items @ [(''other'', other)] else items)"

definition trend_point_of :: "TelemetryRecord list \<Rightarrow> time_point \<Rightarrow> trend_point" where
  "trend_point_of rs h =
     (let mine = filter (\<lambda>r. hour_of (metric_timestamp r) = h) rs in
      \<lparr>tp_hour = h, tp_anomaly_rate = ratio (number_of tr_is_anomaly mine) (int (length mine)), tp_total = int (length mine)\<rparr>)"

definition recent_rows :: "TelemetryRecord list \<Rightarrow> TelemetryRecord list" where
  "recent_rows rs = filter (\<lambda>r. Max (metric_timestamp ` set rs) - 24 * hour_ns \<le> metric_timestamp r) rs"

definition trend_of :: "TelemetryRecord list \<Rightarrow> trend_point list" where
  "trend_of rs = map (trend_point_of (recent_rows rs)) (sorted_list_of_set (set (map (hour_of \<circ> metric_timestamp) (recent_rows rs))))"

definition latency :: "TelemetryRecord \<Rightarrow> real" where
  "latency r = of_int (ingestion_time r - metric_timestamp r) / 1000000000"

definition summary_of :: "query_env \<Rightarrow> int \<Rightarrow> TelemetryRecord list \<Rightarrow> DatasetSummary" where
  "summary_of env topk rs =
     \<lparr>ds_row_count = int (length rs),
      ds_min_ts = (if rs = [] then '''' else qv_text env (Min (metric_timestamp ` set rs))),
      ds_max_ts = (if rs = [] then '''' else qv_text env (Max (metric_timestamp ` set rs))),
      ds_anomaly_rate = ratio (number_of tr_is_anomaly rs) (int (length rs)),
      ds_type_counts = type_counts env topk rs,
      ds_hosts = int (card (tr_host_id ` set rs)), ds_projects = int (card (tr_project_id ` set rs)),
      ds_regions = int (card (tr_region ` set rs)),
      ds_latency_p50 = or_zero (percentile_cont (1 / 2)) (map latency rs),
      ds_latency_p95 = or_zero (percentile_cont (95 / 100)) (map latency rs), ds_trend = trend_of rs\<rparr>"

definition GetDatasetSummary :: "query_env \<Rightarrow> string \<Rightarrow> int \<Rightarrow> db \<Rightarrow> DatasetSummary cpp" where
  "GetDatasetSummary env run_id topk d = run_query env (Inr (summary_of env topk (dataset_records run_id d)))"

section \<open>Percentiles and statistics\<close>

definition interpolate :: "real list \<Rightarrow> real \<Rightarrow> real" where
  "interpolate s r = s ! nat \<lfloor>r\<rfloor> + (r - real (nat \<lfloor>r\<rfloor>)) * (s ! nat \<lceil>r\<rceil> - s ! nat \<lfloor>r\<rfloor>)"

lemma percentile_interpolate: "percentile_cont p xs = interpolate (sort xs) (p * real (length xs - 1))"
  by (simp add: percentile_cont_def interpolate_def Let_def)

lemma interpolate_between:
  assumes "sorted s" and "0 \<le> r" and "nat \<lceil>r\<rceil> < length s"
  shows "s ! nat \<lfloor>r\<rfloor> \<le> interpolate s r" and "interpolate s r \<le> s ! nat \<lceil>r\<rceil>"
proof -
  have "nat \<lfloor>r\<rfloor> \<le> nat \<lceil>r\<rceil>"
    by (intro nat_mono floor_le_ceiling)
  then have step: "0 \<le> s ! nat \<lceil>r\<rceil> - s ! nat \<lfloor>r\<rfloor>"
    using assms by (simp add: sorted_nth_mono)
  have "real (nat \<lfloor>r\<rfloor>) = of_int \<lfloor>r\<rfloor>"
    using assms(2) by simp
  then have part: "0 \<le> r - real (nat \<lfloor>r\<rfloor>)" "r - real (nat \<lfloor>r\<rfloor>) \<le> 1"
    by linarith+
  show "s ! nat \<lfloor>r\<rfloor> \<le> interpolate s r"
    using step part(1) by (simp add: interpolate_def)
  show "interpolate s r \<le> s ! nat \<lceil>r\<rceil>"
    using mult_right_mono [OF part(2) step] by (simp add: interpolate_def)
qed

lemma interpolate_mono:
  assumes "sorted s" and "0 \<le> r" and "r \<le> r'" and "nat \<lceil>r'\<rceil> < length s"
  shows "interpolate s r \<le> interpolate s r'"
proof -
  have len: "nat \<lceil>r\<rceil> < length s"
    using assms(3,4) by (meson ceiling_mono le_less_trans nat_mono)
  note low = interpolate_between [OF assms(1,2) len]
  have high: "s ! nat \<lfloor>r'\<rfloor> \<le> interpolate s r'"
    using interpolate_between(1) [OF assms(1) _ assms(4)] assms(2,3) by simp
  consider (apart) "\<lceil>r\<rceil> \<le> \<lfloor>r'\<rfloor>" | (same) "\<lfloor>r\<rfloor> = \<lfloor>r'\<rfloor>" "\<lceil>r\<rceil> = \<lceil>r'\<rceil>"
    using assms(3) by linarith
  then show ?thesis
  proof cases
    case apart
    then have "nat \<lceil>r\<rceil> \<le> nat \<lfloor>r'\<rfloor>"
      by (rule nat_mono)
    moreover have "nat \<lfloor>r'\<rfloor> < length s"
      using nat_mono [OF floor_le_ceiling [of r']] assms(4) by linarith
    ultimately have "nat \<lceil>r\<rceil> \<le> nat \<lfloor>r'\<rfloor>" "nat \<lfloor>r'\<rfloor> < length s"
      by blast+
    then have "s ! nat \<lceil>r\<rceil> \<le> s ! nat \<lfloor>r'\<rfloor>"
      using assms(1) by (simp add: sorted_nth_mono)
    then show ?thesis
      using low(2) high by linarith
  next
    case same
    have "nat \<lfloor>r\<rfloor> \<le> nat \<lceil>r\<rceil>"
      by (intro nat_mono floor_le_ceiling)
    then have "0 \<le> s ! nat \<lceil>r\<rceil> - s ! nat \<lfloor>r\<rfloor>"
      using assms(1) len by (simp add: sorted_nth_mono)
    then show ?thesis
      using same assms(3) by (auto simp: interpolate_def intro: mult_right_mono)
  qed
qed

lemma rank_in_range:
  assumes "xs \<noteq> []" and "0 \<le> p" and "p \<le> 1"
  shows "0 \<le> p * real (length xs - 1)" and "nat \<lceil>p * real (length xs - 1)\<rceil> < length (sort xs)"
proof -
  have "p * real (length xs - 1) \<le> real (length xs - 1)"
    using assms mult_left_le_one_le [of "real (length xs - 1)" p] by simp
  then have "\<lceil>p * real (length xs - 1)\<rceil> \<le> int (length xs - 1)"
    by (simp add: ceiling_le_iff)
  then show "nat \<lceil>p * real (length xs - 1)\<rceil> < length (sort xs)"
    using assms(1) by (cases xs) auto
qed (use assms in simp)

lemma percentile_mono:
  assumes "xs \<noteq> []" and "0 \<le> p" and "p \<le> q" and "q \<le> 1"
  shows "percentile_cont p xs \<le> percentile_cont q xs"
  unfolding percentile_interpolate
  using rank_in_range [OF assms(1), of p] rank_in_range [OF assms(1), of q] assms
  by (intro interpolate_mono) (auto intro: mult_right_mono)

lemma percentile_ends:
  assumes "xs \<noteq> []"
  shows "percentile_cont 0 xs = min_of xs" and "percentile_cont 1 xs = max_of xs"
proof -
  define s where "s = sort xs"
  have s: "sorted s" "set s = set xs" "length s = length xs"
    by (simp_all add: s_def)
  have min: "s ! 0 = Min (set xs)"
  proof (rule Min_eqI [symmetric])
    show "s ! 0 \<in> set xs" "y \<in> set xs \<Longrightarrow> s ! 0 \<le> y" for y
      using assms sorted_nth_mono [OF s(1), of 0] unfolding s(2) [symmetric] by (auto simp: in_set_conv_nth s(3))
  qed simp
  have last_in: "s ! (length xs - 1) \<in> set xs"
    using assms nth_mem [of "length xs - 1" s] s by simp
  have max: "s ! (length xs - 1) = Max (set xs)"
  proof (rule Max_eqI [symmetric])
    show "y \<le> s ! (length xs - 1)" if y: "y \<in> set xs" for y
    proof -
      obtain i where i: "i < length xs" "s ! i = y"
        using y s by (metis in_set_conv_nth)
      then show ?thesis
        using sorted_nth_mono [OF s(1), of i "length xs - 1"] s(3) by simp
    qed
  qed (use last_in in simp_all)
  show "percentile_cont 0 xs = min_of xs" "percentile_cont 1 xs = max_of xs"
    using min max by (simp_all add: percentile_cont_def min_of_def max_of_def Let_def s_def)
qed

lemma average_between:
  assumes "xs \<noteq> []"
  shows "min_of xs \<le> average xs" and "average xs \<le> max_of xs"
proof -
  have "sum_list (map (\<lambda>_. min_of xs) xs) \<le> sum_list (map (\<lambda>x. x) xs)" "sum_list (map (\<lambda>x. x) xs) \<le> sum_list (map (\<lambda>_. max_of xs) xs)"
    by (intro sum_list_mono; simp add: min_of_def max_of_def)+
  moreover have "0 < real (length xs)"
    using assms by simp
  ultimately show "min_of xs \<le> average xs" "average xs \<le> max_of xs"
    by (simp_all add: average_def sum_list_triv le_divide_eq divide_le_eq mult.commute)
qed

text \<open>
  The statistics of a metric are consistent: a query for a permitted metric that the server executes
  returns the number of rows of the dataset, and, when there are rows, a minimum and maximum attained by rows
  with the median and the 95th percentile in order between them and the mean between them too; without
  rows all values are zero.
\<close>

theorem metric_stats_consistent:
  assumes "IsValidMetric metric" and "qv_fault env = None" and "xs = map (metric_value metric) (dataset_records run_id d)"
  shows "\<exists>st. GetMetricStats env run_id metric d = Inr st \<and> st_count st = int (length xs)
    \<and> (if xs = [] then st_min st = 0 \<and> st_max st = 0 \<and> st_mean st = 0 \<and> st_p50 st = 0 \<and> st_p95 st = 0
       else st_min st \<in> set xs \<and> st_max st \<in> set xs \<and> st_min st \<le> st_p50 st \<and> st_p50 st \<le> st_p95 st \<and> st_p95 st \<le> st_max st
         \<and> st_min st \<le> st_mean st \<and> st_mean st \<le> st_max st)"
proof -
  have run: "GetMetricStats env run_id metric d = Inr (metric_stats xs)"
    using assms by (simp add: GetMetricStats_def run_query_def)
  have "min_of xs \<in> set xs \<and> max_of xs \<in> set xs \<and> min_of xs \<le> percentile_cont (1 / 2) xs
      \<and> percentile_cont (1 / 2) xs \<le> percentile_cont (95 / 100) xs \<and> percentile_cont (95 / 100) xs \<le> max_of xs" if "xs \<noteq> []"
    using percentile_mono [OF that, of 0 "1 / 2"] percentile_mono [OF that, of "1 / 2" "95 / 100"] percentile_mono [OF that, of "95 / 100" 1]
      percentile_ends [OF that] that by (simp add: min_of_def max_of_def)
  then show ?thesis
    using run average_between [of xs] by (auto simp: metric_stats_def or_zero_def)
qed


definition quiet_queries :: query_env where
  "quiet_queries = \<lparr>qv_time = (\<lambda>_. None), qv_text = (\<lambda>_. ''''), qv_groups = remdups, qv_rows = (\<lambda>xs. xs), qv_fault = None\<rparr>"

definition two_rows :: db where
  "two_rows =
     (let r = \<lparr>metric_timestamp = 0, ingestion_time = 0, tr_host_id = ''h'', tr_project_id = ''p'', tr_region = ''eu'', tr_cpu_usage = 1,
               tr_memory_usage = 0, tr_disk_utilization = 0, tr_network_rx_rate = 0, tr_network_tx_rate = 0, tr_labels_json = ''{}'',
               tr_run_id = ''d'', tr_is_anomaly = True, tr_anomaly_type = ''spike''\<rparr>;
          s = (\<lambda>i e. \<lparr>sc_dataset_id = ''d'', sc_model_run_id = ''m'', sc_record_id = i, sc_reconstruction_error = e, sc_predicted = True\<rparr>)
      in \<lparr>generation_runs = [], telemetry = [\<lparr>tel_record_id = 1, tel_record = r\<rparr>,
             \<lparr>tel_record_id = 2, tel_record = r\<lparr>tr_cpu_usage := 3, tr_is_anomaly := False, tr_anomaly_type := ''''\<rparr>\<rparr>],
          alerts = [], model_runs = [], inference_runs = [], score_jobs = [], scores = [s 1 5, s 2 1], next_record_id = 3,
          db_registry = empty_registry\<rparr>)"

theorem metric_stats_consistent_witness:
  "\<exists>st. GetMetricStats quiet_queries ''d'' ''cpu_usage'' two_rows = Inr st \<and> st_count st = 2 \<and> st_min st \<le> st_p50 st"
  using metric_stats_consistent [of "''cpu_usage''" quiet_queries "[1, 3]" "''d''" two_rows]
  by (simp add: IsValidMetric_def quiet_queries_def two_rows_def dataset_records_def metric_value_def) blast

section \<open>Groups and top values\<close>

text \<open>What the server promises of \<^verbatim>\<open>GROUP BY\<close>: every value once, in an order it chooses.\<close>

definition groups_once :: "query_env \<Rightarrow> bool" where
  "groups_once env \<longleftrightarrow> (\<forall>vs. distinct (qv_groups env vs) \<and> set (qv_groups env vs) = set vs)"

lemma groups_once_quiet [simp]: "groups_once quiet_queries"
  by (simp add: groups_once_def quiet_queries_def)

lemma sorted_desc: "sorted (map (\<lambda>p. - f p) xs) \<longleftrightarrow> sorted (rev (map (f :: 'a \<Rightarrow> int) xs))"
  by (induction xs) (auto simp: sorted_append)

lemma group_counts_sound:
  assumes "groups_once env" and "vs = map (dimension_value col) rs"
  shows "distinct (map fst (group_counts env col rs))"
    and "set (group_counts env col rs) = (\<lambda>v. (v, int (count_list vs v))) ` set vs"
    and "sorted (rev (map snd (group_counts env col rs)))"
    and "length (group_counts env col rs) = card (set vs)"
    and "sum_list (map snd (group_counts env col rs)) = int (length rs)"
proof -
  let ?g = "map (\<lambda>v. (v, int (count_list vs v))) (qv_groups env vs)"
  have gs: "group_counts env col rs = sort_key (\<lambda>p. - snd p) ?g" and dist: "distinct (qv_groups env vs)" "set (qv_groups env vs) = set vs"
    using assms by (auto simp: group_counts_def Let_def groups_once_def)
  have "mset (map fst (group_counts env col rs)) = mset (qv_groups env vs)"
    by (simp add: gs image_mset.compositionality comp_def)
  then show "distinct (map fst (group_counts env col rs))"
    using dist(1) mset_eq_imp_distinct_iff by blast
  show "set (group_counts env col rs) = (\<lambda>v. (v, int (count_list vs v))) ` set vs"
    by (simp add: gs dist(2))
  show "sorted (rev (map snd (group_counts env col rs)))"
    unfolding sorted_desc [symmetric] by (simp add: gs)
  show "length (group_counts env col rs) = card (set vs)"
    using dist distinct_card [of "qv_groups env vs"] by (simp add: gs)
  have "mset (map snd (group_counts env col rs)) = mset (map snd ?g)"
    by (simp add: gs image_mset.compositionality comp_def)
  then have "sum_list (map snd (group_counts env col rs)) = sum_list (map snd ?g)"
    by (simp only: sum_mset_sum_list [symmetric])
  also have "\<dots> = int (\<Sum>v\<in>set vs. count_list vs v)"
    using dist by (simp add: comp_def sum_list_distinct_conv_sum_set)
  finally show "sum_list (map snd (group_counts env col rs)) = int (length rs)"
    using assms(2) by (simp add: sum_count_set)
qed

lemma topk_loop_take: "topk_loop k gs = (map (\<lambda>(v, n). (label_of v, n)) (take k gs), k < length gs)"
  by (induction k gs rule: topk_loop.induct) (auto split: prod.split)

text \<open>
  The most frequent values: for a permitted plain column, a filter the server can read and a limit \<open>k\<close> of at least
  zero, the answer lists the first \<open>k\<close> of the values that occur in the filtered rows, each once with its exact
  number of rows and by descending number, and says \<^verbatim>\<open>truncated\<close> exactly when there are more values.
\<close>

theorem topk_correct:
  assumes "IsValidDimension column" and "take 2 column \<noteq> ''h.''" and "groups_once env" and "qv_fault env = None"
    and "filtered_records env run_id f d = Inr rs" and "0 \<le> k" and "k < 2 ^ 31 - 1" and "vs = map (dimension_value column) rs"
  shows "\<exists>gs r. GetTopK env run_id column k f with_total d = Inr r
    \<and> distinct (map fst gs) \<and> set gs = (\<lambda>v. (v, int (count_list vs v))) ` set vs \<and> sorted (rev (map snd gs))
    \<and> sum_list (map snd gs) = int (length rs)
    \<and> tk_items r = map (\<lambda>(v, n). (label_of v, n)) (take (nat k) gs)
    \<and> (tk_truncated r \<longleftrightarrow> nat k < card (set vs))"
proof -
  let ?gs = "group_counts env column rs"
  have word: "unat (word_of_int k :: size_t) = nat k"
    using assms(6,7) by (simp add: unat_eq_nat_uint uint_word_of_int)
  have "take (nat k) (take (nat (k + 1)) ?gs) = take (nat k) ?gs" "nat k < length (take (nat (k + 1)) ?gs) \<longleftrightarrow> nat k < card (set vs)"
    using assms(6) group_counts_sound(4) [OF assms(3,8)] by (auto simp: min_def)
  then have "GetTopK env run_id column k f with_total d =
    Inr \<lparr>tk_items = map (\<lambda>(v, n). (label_of v, n)) (take (nat k) ?gs), tk_truncated = (nat k < card (set vs)),
      tk_total_distinct = (if with_total then Some (int (card (set vs - {None}))) else None)\<rparr>"
    using assms(1,2,4,5,6,7,8) int32_id [of "k + 1"] by (simp add: GetTopK_def run_query_def word topk_loop_take)
  then show ?thesis
    using group_counts_sound [OF assms(3,8)] by (intro exI [of _ ?gs]) simp
qed

theorem topk_correct_witness:
  "\<exists>gs r. GetTopK quiet_queries ''d'' ''region'' 1 \<lparr>rf_region = '''', rf_is_anomaly = '''', rf_anomaly_type = '''', rf_start_time = '''', rf_end_time = ''''\<rparr> False two_rows = Inr r
    \<and> sum_list (map snd gs) = 2 \<and> tk_items r = map (\<lambda>(v, n). (label_of v, n)) (take 1 gs) \<and> \<not> tk_truncated r"
proof -
  let ?f = "\<lparr>rf_region = '''', rf_is_anomaly = '''', rf_anomaly_type = '''', rf_start_time = '''', rf_end_time = ''''\<rparr> :: row_filter"
  have rs: "filtered_records quiet_queries ''d'' ?f two_rows = Inr (dataset_records ''d'' two_rows)"
    by (simp add: filtered_records_def time_bound_def cbind_def passes_def)
  have "length (dataset_records ''d'' two_rows) = 2" "map (dimension_value ''region'') (dataset_records ''d'' two_rows) = [Some ''eu'', Some ''eu'']"
    by (simp_all add: two_rows_def dataset_records_def dimension_value_def)
  then show ?thesis
    using topk_correct [OF _ _ groups_once_quiet _ rs, of "''region''" 1 _ False]
    by (simp add: IsValidDimension_def quiet_queries_def) blast
qed

section \<open>Time series\<close>

lemma sum_bucket_counts:
  "sum_list (map (\<lambda>b. int (length (filter (\<lambda>r. f r = b) rs))) (sorted_list_of_set (set (map f rs)))) = int (length rs)"
proof -
  have "length (filter (\<lambda>r. f r = b) rs) = count_list (map f rs) b" for b
    by (induction rs) auto
  then show ?thesis
    using sum_count_set [of "map f rs" "set (map f rs)"]
    by (simp add: sum_list_distinct_conv_sum_set del: of_nat_sum flip: of_nat_sum)
qed

lemma in_bucket_iff:
  assumes "0 < w" and "w dvd b"
  shows "bucket_of w r = b \<longleftrightarrow> b * 1000000000 \<le> metric_timestamp r \<and> metric_timestamp r < (b + w) * 1000000000"
proof -
  let ?n = "w * 1000000000"
  obtain q where q: "b = q * w"
    using assms(2) by (metis dvdE mult.commute)
  have "bucket_of w r = b \<longleftrightarrow> metric_timestamp r div ?n = q"
    using assms(1) by (simp add: bucket_of_def q)
  also have "\<dots> \<longleftrightarrow> q * ?n \<le> metric_timestamp r \<and> metric_timestamp r < (q + 1) * ?n"
  proof
    have n: "0 < ?n"
      using assms(1) by simp
    show "q * ?n \<le> metric_timestamp r \<and> metric_timestamp r < (q + 1) * ?n" if "metric_timestamp r div ?n = q"
      using that div_mult_mod_eq [of "metric_timestamp r" ?n] pos_mod_sign [OF n, of "metric_timestamp r"] pos_mod_bound [OF n, of "metric_timestamp r"]
      by (simp only: distrib_right) linarith
    show "metric_timestamp r div ?n = q" if "q * ?n \<le> metric_timestamp r \<and> metric_timestamp r < (q + 1) * ?n"
      using that by (intro int_div_pos_eq [of _ _ _ "metric_timestamp r - q * ?n"]) (auto simp: algebra_simps)
  qed
  finally show ?thesis
    by (simp add: q algebra_simps)
qed

text \<open>
  A time series partitions the rows: for permitted metrics and aggregations and a positive bucket length the
  buckets are listed in increasing order, each is a multiple of the length and holds exactly the filtered rows
  with a time in it, of which there is at least one, and the numbers of rows add up to all filtered rows.
\<close>

theorem time_series_partition:
  assumes "list_all IsValidMetric metrics" and "list_all IsValidAggregation aggs" and "qv_fault env = None"
    and "filtered_records env run_id f d = Inr rs" and "0 < w"
  shows "\<exists>ps. GetTimeSeries env run_id metrics aggs w f d = Inr ps \<and> sorted_wrt (<) (map sp_bucket ps)
    \<and> sum_list (map sp_count ps) = int (length rs)
    \<and> (\<forall>p \<in> set ps. w dvd sp_bucket p \<and> 0 < sp_count p \<and> length (sp_values p) = length metrics * length aggs
         \<and> sp_count p = int (length (filter (\<lambda>r. sp_bucket p * 1000000000 \<le> metric_timestamp r
                                         \<and> metric_timestamp r < (sp_bucket p + w) * 1000000000) rs)))"
proof -
  let ?bs = "sorted_list_of_set (set (map (bucket_of w) rs))"
  let ?p = "\<lambda>b. series_point_of metrics aggs w b rs"
  have "find (\<lambda>m. \<not> IsValidMetric m) metrics = None" "find (\<lambda>a. \<not> IsValidAggregation a) aggs = None"
    using assms(1,2) by (auto simp: find_None_iff list_all_iff)
  then have run: "GetTimeSeries env run_id metrics aggs w f d = Inr (map ?p ?bs)"
    using assms(3,4,5) by (simp add: GetTimeSeries_def run_query_def)
  have bucket: "sp_bucket (?p b) = b" for b
    by (simp add: series_point_of_def Let_def)
  have "w dvd b \<and> 0 < sp_count (?p b) \<and> length (sp_values (?p b)) = length metrics * length aggs
      \<and> sp_count (?p b) = int (length (filter (\<lambda>r. b * 1000000000 \<le> metric_timestamp r \<and> metric_timestamp r < (b + w) * 1000000000) rs))"
    if b: "b \<in> set ?bs" for b
  proof -
    obtain r' where r': "r' \<in> set rs" "b = bucket_of w r'"
      using b by auto
    have "filter (\<lambda>r. bucket_of w r = b) rs = filter (\<lambda>r. b * 1000000000 \<le> metric_timestamp r \<and> metric_timestamp r < (b + w) * 1000000000) rs"
      using in_bucket_iff [OF assms(5), of b] r'(2) by (simp add: bucket_of_def)
    moreover have "filter (\<lambda>r. bucket_of w r = b) rs \<noteq> []"
      using r' by (auto simp: filter_empty_conv)
    ultimately show ?thesis
      using r'(2) by (simp add: series_point_of_def Let_def bucket_of_def length_concat comp_def sum_list_triv)
  qed
  then have "\<forall>p \<in> ?p ` set ?bs. w dvd sp_bucket p \<and> 0 < sp_count p \<and> length (sp_values p) = length metrics * length aggs
      \<and> sp_count p = int (length (filter (\<lambda>r. sp_bucket p * 1000000000 \<le> metric_timestamp r
                                      \<and> metric_timestamp r < (sp_bucket p + w) * 1000000000) rs))"
    by (simp only: ball_simps bucket) blast
  moreover have "map sp_bucket (map ?p ?bs) = ?bs" "sum_list (map sp_count (map ?p ?bs)) = int (length rs)"
    using sum_bucket_counts [of "bucket_of w" rs] by (simp_all add: series_point_of_def Let_def comp_def)
  ultimately show ?thesis
    using run strict_sorted_list_of_set by (intro exI [of _ "map ?p ?bs"]) (simp only: set_map, blast)
qed

theorem time_series_partition_witness:
  "\<exists>ps. GetTimeSeries quiet_queries ''d'' [''cpu_usage''] [''mean''] 60
      \<lparr>rf_region = '''', rf_is_anomaly = '''', rf_anomaly_type = '''', rf_start_time = '''', rf_end_time = ''''\<rparr> two_rows = Inr ps
    \<and> sum_list (map sp_count ps) = 2"
proof -
  let ?f = "\<lparr>rf_region = '''', rf_is_anomaly = '''', rf_anomaly_type = '''', rf_start_time = '''', rf_end_time = ''''\<rparr> :: row_filter"
  have rs: "filtered_records quiet_queries ''d'' ?f two_rows = Inr (dataset_records ''d'' two_rows)"
    by (simp add: filtered_records_def time_bound_def cbind_def passes_def)
  have "length (dataset_records ''d'' two_rows) = 2"
    by (simp add: two_rows_def dataset_records_def)
  then show ?thesis
    using time_series_partition [OF _ _ _ rs, of "[''cpu_usage'']" "[''mean'']" 60]
    by (auto simp: IsValidMetric_def IsValidAggregation_def quiet_queries_def)
qed

section \<open>Histograms\<close>

lemma width_bucket_eq:
  assumes "lo < hi" and "0 < n" and "i < nat n"
  shows "width_bucket x lo hi n = int i + 1
    \<longleftrightarrow> lo + (hi - lo) / of_int n * real i \<le> x \<and> x < lo + (hi - lo) / of_int n * real (i + 1)"
proof -
  define w where "w = (hi - lo) / of_int n"
  have w: "0 < w" and hi: "hi = lo + w * of_int n" and quot: "(x - lo) * of_int n / (hi - lo) = (x - lo) / w"
    using assms by (auto simp: w_def field_simps)
  have i: "0 \<le> w * real i" "w * real (i + 1) \<le> w * of_int n"
    using assms w by (auto intro: mult_left_mono)
  have "\<lfloor>(x - lo) / w\<rfloor> + 1 = int i + 1 \<longleftrightarrow> real i \<le> (x - lo) / w \<and> (x - lo) / w < real i + 1"
    by (simp add: floor_eq_iff)
  also have "\<dots> \<longleftrightarrow> lo + w * real i \<le> x \<and> x < lo + w * real (i + 1)"
    using w by (auto simp: field_simps)
  finally show ?thesis
    using i hi assms(2,3) unfolding width_bucket_def quot w_def [symmetric] by auto
qed

lemma fill_counts_nth:
  assumes "distinct (map fst rows)" and "i < nat bins"
  shows "length (fill_counts bins rows) = nat bins"
    and "fill_counts bins rows ! i = (case map_of rows (int i + 1) of None \<Rightarrow> 0 | Some n \<Rightarrow> n)"
proof -
  let ?f = "\<lambda>(b, cnt) counts. if 1 \<le> b \<and> b \<le> bins then counts[nat (b - 1) := cnt] else counts"
  have len: "length (fold ?f rows counts) = length counts" for rows and counts :: "int list"
    by (induction rows arbitrary: counts) (auto split: prod.split)
  have val: "fold ?f rows counts ! i = (case map_of rows (int i + 1) of None \<Rightarrow> counts ! i | Some n \<Rightarrow> n)"
    if "distinct (map fst rows)" "i < length counts" "length counts = nat bins" for rows and counts :: "int list"
    using that
  proof (induction rows arbitrary: counts)
    case (Cons row rows)
    obtain b c where row: "row = (b, c)"
      by fastforce
    have "map_of rows b = None"
      using Cons.prems(1) by (auto simp: row map_of_eq_None_iff)
    then show ?case
      using Cons by (auto simp: row nth_list_update split: option.split)
  qed simp
  show "length (fill_counts bins rows) = nat bins"
    by (simp add: fill_counts_def len)
  show "fill_counts bins rows ! i = (case map_of rows (int i + 1) of None \<Rightarrow> 0 | Some n \<Rightarrow> n)"
    using val [OF assms(1), of "replicate (nat bins) 0"] assms(2) by (simp add: fill_counts_def split: option.split)
qed

lemma count_list_map: "count_list (map f xs) b = length (filter (\<lambda>x. f x = b) xs)"
  by (induction xs) auto

lemma grouped_counts:
  "(case map_of (map (\<lambda>b. (b, int (count_list bs b))) (sorted_list_of_set (set bs))) b of None \<Rightarrow> 0 | Some n \<Rightarrow> n)
     = int (count_list bs b)"
  by (auto simp: map_of_map_restrict count_list_0_iff restrict_map_def split: option.split)

lemma sum_in_range:
  assumes "\<forall>i < n. cs ! i = int (count_list bs (int i + 1))" and "length cs = n"
  shows "sum_list cs = int (length (filter (\<lambda>b. 1 \<le> b \<and> b \<le> int n) bs))"
proof -
  have "cs = map (\<lambda>i. int (count_list bs (int i + 1))) [0..<n]"
    using assms by (intro nth_equalityI) auto
  then have "sum_list cs = (\<Sum>i<n. int (count_list bs (int i + 1)))"
    by (simp add: interv_sum_list_conv_sum_set_nat atLeast0LessThan)
  also have "\<dots> = int (length (filter (\<lambda>b. 1 \<le> b \<and> b \<le> int n) bs))"
  proof (induction bs)
    case (Cons b bs)
    have "(\<Sum>i<n. if b = int i + 1 then 1 else 0 :: int) = (if 1 \<le> b \<and> b \<le> int n then 1 else 0)"
    proof (cases "1 \<le> b \<and> b \<le> int n")
      case True
      then have "\<And>i. b = int i + 1 \<longleftrightarrow> i = nat (b - 1)" "nat (b - 1) < n"
        by auto
      then show ?thesis
        using True by simp
    qed auto
    moreover have "(\<Sum>i<n. int (count_list (b # bs) (int i + 1)))
        = (\<Sum>i<n. if b = int i + 1 then 1 else 0) + (\<Sum>i<n. int (count_list bs (int i + 1)))"
      by (simp only: sum.distrib [symmetric]) (intro sum.cong; simp)
    ultimately show ?case
      using Cons.IH by simp
  qed simp
  finally show ?thesis .
qed

lemma width_bucket_in_range:
  assumes "lo < hi" and "0 < n"
  shows "1 \<le> width_bucket x lo hi n \<and> width_bucket x lo hi n \<le> n \<longleftrightarrow> lo \<le> x \<and> x < hi"
proof -
  have "0 \<le> (x - lo) * of_int n / (hi - lo)" "(x - lo) * of_int n / (hi - lo) < of_int n" if "lo \<le> x" "x < hi"
    using that assms by (simp_all add: divide_less_eq mult.commute)
  then have "0 \<le> \<lfloor>(x - lo) * of_int n / (hi - lo)\<rfloor>" "\<lfloor>(x - lo) * of_int n / (hi - lo)\<rfloor> < n" if "lo \<le> x" "x < hi"
    using that by (simp_all add: floor_less_iff)
  then show ?thesis
    using assms(2) by (auto simp: width_bucket_def)
qed

lemma filtered_from_dataset:
  assumes "filtered_records env run_id f d = Inr rs"
  shows "set rs \<subseteq> set (dataset_records run_id d)"
  using assms by (auto simp: filtered_records_def cbind_def split: sum.splits)

lemma automatic_range:
  assumes "histogram_range min_val max_val xs = (lo, hi)" and "lo < hi" and "max_val \<le> min_val"
  shows "lo = min_of xs" and "hi = max_of xs" and "x \<in> set xs \<Longrightarrow> lo \<le> x \<and> x \<le> hi"
  using assms by (auto simp: histogram_range_def min_of_def max_of_def split: if_splits)

lemma GetHistogram_run:
  assumes "IsValidMetric metric" and "qv_fault env = None" and "filtered_records env run_id f d = Inr rs"
    and "histogram_range min_val max_val (map (metric_value metric) (dataset_records run_id d)) = (lo, hi)" and "lo < hi"
    and "1 \<le> bins" and "bins \<le> MAX_BINS" and "to_string_value lo = lo" and "to_string_value hi = hi"
    and "bs = map (\<lambda>r. width_bucket (metric_value metric r) lo hi bins) rs"
  shows "GetHistogram env run_id metric bins min_val max_val f d = Inr
    \<lparr>hg_requested_bins = bins, hg_edges = map (\<lambda>i. Some (lo + (hi - lo) / of_int bins * real i)) [0..<nat (bins + 1)],
     hg_counts = fill_counts bins (map (\<lambda>b. (b, int (count_list bs b))) (sorted_list_of_set (set bs)))\<rparr>"
proof -
  have "(if bins > MAX_BINS then MAX_BINS else bins) = bins" "bins \<noteq> 0" "\<not> hi \<le> lo" "\<not> bins \<le> 0"
    "to_string_value lo \<noteq> to_string_value hi"
    using assms(5-9) by auto
  then show ?thesis
    using assms(1-4,8,9,10) by (simp add: GetHistogram_def run_query_def Let_def)
qed



section \<open>Evaluation of a model\<close>

lemma number_of_mono: "(\<And>x. x \<in> set xs \<Longrightarrow> p x \<Longrightarrow> q x) \<Longrightarrow> number_of p xs \<le> number_of q xs"
  by (induction xs) (auto simp: number_of_def)

lemma number_of_nonneg [simp]: "0 \<le> number_of p xs"
  by (simp add: number_of_def)

lemma number_of_mset: "mset xs = mset ys \<Longrightarrow> number_of p xs = number_of p ys"
  unfolding number_of_def by (metis mset_filter size_mset)

lemma number_of_split: "number_of p xs = number_of (\<lambda>x. p x \<and> q x) xs + number_of (\<lambda>x. p x \<and> \<not> q x) xs"
  by (induction xs) (auto simp: number_of_def)

lemma ratio_mono: "a \<le> b \<Longrightarrow> ratio a c \<le> ratio b c"
  by (simp add: ratio_def divide_right_mono)

lemma ratio_unit: "0 \<le> a \<Longrightarrow> a \<le> b \<Longrightarrow> 0 \<le> ratio a b \<and> ratio a b \<le> 1"
  by (simp add: ratio_def divide_le_eq)

lemma roc_point_bounds:
  "0 \<le> rp_fpr (roc_point s t) \<and> rp_fpr (roc_point s t) \<le> 1 \<and> 0 \<le> rp_tpr (roc_point s t) \<and> rp_tpr (roc_point s t) \<le> 1
   \<and> 0 \<le> rp_precision (roc_point s t) \<and> rp_precision (roc_point s t) \<le> 1"
  by (auto simp: roc_point_def Let_def intro!: ratio_unit [THEN conjunct1] ratio_unit [THEN conjunct2] number_of_mono)

lemma roc_point_mono:
  assumes "t' \<le> t"
  shows "rp_fpr (roc_point s t) \<le> rp_fpr (roc_point s t') \<and> rp_tpr (roc_point s t) \<le> rp_tpr (roc_point s t')"
  using assms by (auto simp: roc_point_def Let_def intro!: ratio_mono number_of_mono)

lemma roc_point_all:
  assumes "\<forall>x \<in> set s. t \<le> ev_err x"
  shows "rp_tpr (roc_point s t) = ratio (number_of ev_label s) (number_of ev_label s)"
    and "rp_fpr (roc_point s t) = ratio (number_of (\<lambda>x. \<not> ev_label x) s) (number_of (\<lambda>x. \<not> ev_label x) s)"
  using assms by (simp_all add: roc_point_def Let_def number_of_def cong: filter_cong)

lemma threshold_index_mono:
  assumes "1 < n" and "i \<le> j"
  shows "threshold_index n k i \<le> threshold_index n k j"
  unfolding threshold_index_def using assms by (intro nat_mono floor_mono mult_right_mono divide_right_mono) auto

lemma threshold_index_ends:
  assumes "1 < n"
  shows "threshold_index n k 0 = 0" and "threshold_index n k (nat (n - 1)) = k - 1"
  using assms by (simp_all add: threshold_index_def)

lemma sorted_by_error:
  assumes "i \<le> j" and "j < length samples" and "s = sort_key (\<lambda>x. - ev_err x) samples"
  shows "ev_err (s ! j) \<le> ev_err (s ! i)"
proof -
  have "sorted (map (\<lambda>x. - ev_err x) s)" "length s = length samples"
    by (simp_all add: assms(3))
  then show ?thesis
    using sorted_nth_mono [of "map (\<lambda>x. - ev_err x) s" i j] assms(1,2) by simp
qed

lemma sort_key_facts:
  "length (sort_key f xs) = length xs" "set (sort_key f xs) = set xs" "mset (sort_key f xs) = mset xs" "sort_key f xs = [] \<longleftrightarrow> xs = []"
  by (simp_all add: length_0_conv [symmetric] del: length_0_conv)

definition curve_threshold :: "int \<Rightarrow> EvalRow list \<Rightarrow> nat \<Rightarrow> real" where
  "curve_threshold n s i = ev_err (s ! threshold_index n (length s) i)"

lemma curve_thresholds:
  assumes "1 < n" and "samples \<noteq> []" and "s = sort_key (\<lambda>x. - ev_err x) samples"
  shows "i \<le> j \<Longrightarrow> j < nat n \<Longrightarrow> curve_threshold n s j \<le> curve_threshold n s i"
    and "curve_threshold n s 0 = Max (ev_err ` set samples)"
    and "curve_threshold n s (nat (n - 1)) = Min (ev_err ` set samples)"
proof -
  have s: "length s = length samples" "set s = set samples" "0 < length samples"
    using assms(2) by (simp_all add: assms(3))
  have range: "ev_err (s ! (length samples - 1)) \<le> y \<and> y \<le> ev_err (s ! 0)" if y: "y \<in> ev_err ` set samples" for y
  proof -
    obtain i where "i < length samples" "y = ev_err (s ! i)"
      using y s(1,2) by (metis image_iff in_set_conv_nth)
    then show ?thesis
      using sorted_by_error [of i "length samples - 1", OF _ _ assms(3)] sorted_by_error [of 0 i, OF _ _ assms(3)] by simp
  qed
  have attained: "ev_err (s ! i) \<in> ev_err ` set samples" if "i < length samples" for i
    using that s by (metis image_eqI nth_mem)
  show "curve_threshold n s 0 = Max (ev_err ` set samples)"
    unfolding curve_threshold_def threshold_index_ends(1) [OF assms(1)]
    using range attained s(3) by (intro Max_eqI [symmetric]) auto
  show "curve_threshold n s (nat (n - 1)) = Min (ev_err ` set samples)"
    unfolding curve_threshold_def threshold_index_ends(2) [OF assms(1)]
    using range attained s by (intro Min_eqI [symmetric]) auto
  show "curve_threshold n s j \<le> curve_threshold n s i" if "i \<le> j" "j < nat n"
  proof -
    have "threshold_index n (length s) j < length samples"
      using threshold_index_mono [OF assms(1), of j "nat (n - 1)" "length s"] threshold_index_ends(2) [OF assms(1), of "length s"] that(2) s by linarith
    then show ?thesis
      using sorted_by_error [OF threshold_index_mono [OF assms(1) that(1)] _ assms(3)] by (simp add: curve_threshold_def)
  qed
qed

lemma roc_curve:
  assumes "1 < n" and "samples \<noteq> []" and "s = sort_key (\<lambda>x. - ev_err x) samples" and "ps = roc_points n s"
  shows "length ps = nat n"
    and "sorted_wrt (\<lambda>p q. rp_threshold q \<le> rp_threshold p \<and> rp_fpr p \<le> rp_fpr q \<and> rp_tpr p \<le> rp_tpr q) ps"
    and "rp_threshold (hd ps) = Max (ev_err ` set samples)"
    and "rp_threshold (last ps) = Min (ev_err ` set samples)"
    and "list_ex ev_label samples \<longrightarrow> rp_tpr (last ps) = 1"
    and "list_ex (\<lambda>x. \<not> ev_label x) samples \<longrightarrow> rp_fpr (last ps) = 1"
proof -
  note t = curve_thresholds [OF assms(1,2,3)]
  have ps: "ps = map (\<lambda>i. roc_point s (curve_threshold n s i)) [0..<nat n]"
    using assms(2) by (simp add: assms(4) assms(3) roc_points_def curve_threshold_def sort_key_facts)
  have ends: "hd ps = roc_point s (curve_threshold n s 0)" "last ps = roc_point s (curve_threshold n s (nat (n - 1)))"
    using assms(1) by (simp_all add: ps hd_map last_map last_upt nat_diff_distrib)
  have full: "\<forall>x \<in> set s. curve_threshold n s (nat (n - 1)) \<le> ev_err x"
    unfolding t(3) by (simp add: assms(3))
  have th: "rp_threshold (roc_point s x) = x" for x
    by (simp add: roc_point_def Let_def)
  show "length ps = nat n" "rp_threshold (hd ps) = Max (ev_err ` set samples)" "rp_threshold (last ps) = Min (ev_err ` set samples)"
    by (simp_all add: ps, simp_all add: ends th t(2,3) flip: ps)
  show "sorted_wrt (\<lambda>p q. rp_threshold q \<le> rp_threshold p \<and> rp_fpr p \<le> rp_fpr q \<and> rp_tpr p \<le> rp_tpr q) ps"
    using t(1) roc_point_mono by (simp add: ps sorted_wrt_iff_nth_less th)
  have ex: "0 < number_of p s" if "list_ex p samples" for p
    using that by (auto simp: number_of_def list_ex_iff assms(3) filter_empty_conv)
  show "list_ex ev_label samples \<longrightarrow> rp_tpr (last ps) = 1" "list_ex (\<lambda>x. \<not> ev_label x) samples \<longrightarrow> rp_fpr (last ps) = 1"
    using ex [of ev_label] ex [of "\<lambda>x. \<not> ev_label x"] by (auto simp: ends(2) roc_point_all [OF full] ratio_def)
qed

text \<open>
  C38. The evaluation of a model: of the rows it used, the four counts are the confusion matrix and add up, and the
  curve has between 10 and 200 points with rates between zero and one, thresholds that never rise and rates that
  never fall along it; it starts at the greatest error and ends at the smallest, where every row is
  flagged and both rates are one unless their class is empty.
\<close>

theorem eval_metrics_sound:
  assumes "qv_fault env = None" and "qv_rows env (eval_rows dataset_id model_run_id d) = found"
    and "samples = (if max_samples > 0 then take (nat max_samples) found else found)" and "samples \<noteq> []"
  shows "\<exists>m. GetEvalMetrics env fault ts dataset_id model_run_id points max_samples d = Some m
    \<and> em_tp m + em_fn m = number_of ev_label samples \<and> em_fp m + em_tn m = number_of (\<lambda>s. \<not> ev_label s) samples
    \<and> em_tp m + em_fp m = number_of ev_pred samples
    \<and> 10 \<le> length (em_points m) \<and> length (em_points m) \<le> 200
    \<and> (\<forall>p \<in> set (em_points m). 0 \<le> rp_fpr p \<and> rp_fpr p \<le> 1 \<and> 0 \<le> rp_tpr p \<and> rp_tpr p \<le> 1 \<and> 0 \<le> rp_precision p \<and> rp_precision p \<le> 1)
    \<and> sorted_wrt (\<lambda>p q. rp_threshold q \<le> rp_threshold p \<and> rp_fpr p \<le> rp_fpr q \<and> rp_tpr p \<le> rp_tpr q) (em_points m)
    \<and> rp_threshold (hd (em_points m)) = Max (ev_err ` set samples)
    \<and> rp_threshold (last (em_points m)) = Min (ev_err ` set samples)
    \<and> (list_ex ev_label samples \<longrightarrow> rp_tpr (last (em_points m)) = 1)
    \<and> (list_ex (\<lambda>s. \<not> ev_label s) samples \<longrightarrow> rp_fpr (last (em_points m)) = 1)"
proof -
  define m where "m = eval_metrics points samples (GetModelRun fault ts model_run_id d)"
  have run: "GetEvalMetrics env fault ts dataset_id model_run_id points max_samples d = Some m"
    using assms(1,2,3) by (simp add: GetEvalMetrics_def m_def)
  have n: "1 < n_points_of points" "10 \<le> n_points_of points" "n_points_of points \<le> 200"
    by (auto simp: n_points_of_def)
  have pts: "em_points m = roc_points (n_points_of points) (sort_key (\<lambda>x. - ev_err x) samples)"
    by (simp add: m_def eval_metrics_def)
  have matrix: "em_tp m + em_fn m = number_of ev_label samples" "em_fp m + em_tn m = number_of (\<lambda>s. \<not> ev_label s) samples"
    "em_tp m + em_fp m = number_of ev_pred samples"
    using number_of_split [of ev_label samples ev_pred] number_of_split [of "\<lambda>s. \<not> ev_label s" samples ev_pred]
      number_of_split [of ev_pred samples ev_label] by (simp_all add: m_def eval_metrics_def conj_commute)
  have bounds: "\<forall>p \<in> set (em_points m). 0 \<le> rp_fpr p \<and> rp_fpr p \<le> 1 \<and> 0 \<le> rp_tpr p \<and> rp_tpr p \<le> 1 \<and> 0 \<le> rp_precision p \<and> rp_precision p \<le> 1"
    using roc_point_bounds by (auto simp: pts roc_points_def)
  note curve = roc_curve [OF n(1) assms(4) refl pts]
  have len: "10 \<le> length (em_points m)" "length (em_points m) \<le> 200"
    using curve(1) n by auto
  show ?thesis
    by (intro exI [of _ m] conjI run matrix len bounds curve(2-6))
qed

theorem eval_metrics_sound_witness:
  "\<exists>m. GetEvalMetrics quiet_queries None (\<lambda>_. '''') ''d'' ''m'' 50 20000 two_rows = Some m
    \<and> em_tp m + em_fp m = 2 \<and> rp_threshold (hd (em_points m)) = 5 \<and> rp_threshold (last (em_points m)) = 1 \<and> rp_tpr (last (em_points m)) = 1"
proof -
  let ?s = "[\<lparr>ev_err = 5, ev_pred = True, ev_label = True\<rparr>, \<lparr>ev_err = 1, ev_pred = True, ev_label = False\<rparr>]"
  have "qv_rows quiet_queries (eval_rows ''d'' ''m'' two_rows) = ?s"
    by (simp add: quiet_queries_def eval_rows_def joined_scores_def two_rows_def)
  then show ?thesis
    using eval_metrics_sound [of quiet_queries "''d''" "''m''" two_rows ?s ?s 20000 None "\<lambda>_. ''''" 50]
    by (auto simp: quiet_queries_def number_of_def)
qed

section \<open>Summary of a dataset\<close>

lemma type_loop_eq:
  "type_loop topk idx gs =
     (map (\<lambda>(v, n). (label_of v, n)) (take (nat (topk - idx)) gs), sum_list (map snd (drop (nat (topk - idx)) gs)))"
proof (induction topk idx gs rule: type_loop.induct)
  case (2 topk idx v n rest)
  show ?case
  proof (cases "idx < topk")
    case True
    then have "nat (topk - idx) = Suc (nat (topk - (idx + 1)))"
      by simp
    then show ?thesis
      using 2 True by simp
  qed (use 2 in simp)
qed simp

lemma type_loop_sum:
  assumes "type_loop topk 0 gs = (items, other)" and "\<forall>g \<in> set gs. 0 < snd g"
  shows "sum_list (map snd items) + other = sum_list (map snd gs)" and "0 \<le> other" and "length items \<le> nat topk"
proof -
  have "map snd gs = map snd (take (nat topk) gs) @ map snd (drop (nat topk) gs)"
    by (simp flip: map_append)
  moreover have "map snd items = map snd (take (nat topk) gs)"
    using assms(1) by (auto simp: type_loop_eq)
  ultimately show "sum_list (map snd items) + other = sum_list (map snd gs)"
    using assms(1) by (simp add: type_loop_eq)
  show "0 \<le> other" "length items \<le> nat topk"
    using assms by (auto simp: type_loop_eq intro!: sum_list_nonneg dest!: in_set_dropD less_imp_le)
qed

text \<open>
  The summary of a dataset: the rates lie between zero and one, the counts by type of anomaly add up to
  all anomalous rows with a type, whatever the limit \<^verbatim>\<open>topk\<close>, with at most \<^verbatim>\<open>topk\<close> types named before the rest is
  lumped together, and the trend partitions the rows of the last 24 hours into hours in increasing order.
\<close>

theorem dataset_summary_sound:
  assumes "qv_fault env = None" and "groups_once env" and "0 \<le> topk" and "rs = dataset_records run_id d"
  shows "\<exists>s. GetDatasetSummary env run_id topk d = Inr s \<and> ds_row_count s = int (length rs)
    \<and> 0 \<le> ds_anomaly_rate s \<and> ds_anomaly_rate s \<le> 1
    \<and> sum_list (map snd (ds_type_counts s)) = number_of (\<lambda>r. tr_is_anomaly r \<and> tr_anomaly_type r \<noteq> '''') rs
    \<and> length (ds_type_counts s) \<le> nat topk + 1
    \<and> ds_latency_p50 s \<le> ds_latency_p95 s
    \<and> sorted_wrt (<) (map tp_hour (ds_trend s))
    \<and> sum_list (map tp_total (ds_trend s)) = int (length (recent_rows rs))
    \<and> (\<forall>p \<in> set (ds_trend s). 0 < tp_total p \<and> 0 \<le> tp_anomaly_rate p \<and> tp_anomaly_rate p \<le> 1)"
proof -
  let ?a = "filter (\<lambda>r. tr_is_anomaly r \<and> tr_anomaly_type r \<noteq> '''') rs"
  let ?hs = "sorted_list_of_set (set (map (hour_of \<circ> metric_timestamp) (recent_rows rs)))"
  let ?tp = "trend_point_of (recent_rows rs)"
  have run: "GetDatasetSummary env run_id topk d = Inr (summary_of env topk rs)"
    using assms(1,4) by (simp add: GetDatasetSummary_def run_query_def)
  obtain items other where loop: "type_loop topk 0 (group_counts env ''anomaly_type'' ?a) = (items, other)"
    by fastforce
  note groups = group_counts_sound [OF assms(2) refl, of "''anomaly_type''" ?a]
  have "\<forall>g \<in> set (group_counts env ''anomaly_type'' ?a). 0 < snd g"
    unfolding groups(2) by (auto simp: count_list_0_iff zero_less_iff_neq_zero)
  then have types: "sum_list (map snd (type_counts env topk rs)) = number_of (\<lambda>r. tr_is_anomaly r \<and> tr_anomaly_type r \<noteq> '''') rs"
    "length (type_counts env topk rs) \<le> nat topk + 1"
    using type_loop_sum [OF loop] groups(5) assms(3) by (auto simp: type_counts_def loop number_of_def)
  have rate: "0 \<le> ratio (number_of tr_is_anomaly xs) (int (length xs)) \<and> ratio (number_of tr_is_anomaly xs) (int (length xs)) \<le> 1" for xs
    using number_of_mono [of xs tr_is_anomaly "\<lambda>_. True"] by (intro ratio_unit) (simp_all add: number_of_def)
  have latency: "or_zero (percentile_cont (1 / 2)) (map latency rs) \<le> or_zero (percentile_cont (95 / 100)) (map latency rs)"
    using percentile_mono [of "map latency rs" "1 / 2" "95 / 100"] by (simp add: or_zero_def)
  have "map tp_hour (trend_of rs) = ?hs" "sum_list (map tp_total (trend_of rs)) = int (length (recent_rows rs))"
    using sum_bucket_counts [of "hour_of \<circ> metric_timestamp" "recent_rows rs"]
    by (simp_all add: trend_of_def trend_point_of_def Let_def comp_def)
  moreover have "\<forall>p \<in> set (trend_of rs). 0 < tp_total p \<and> 0 \<le> tp_anomaly_rate p \<and> tp_anomaly_rate p \<le> 1"
    using rate by (auto simp: trend_of_def trend_point_of_def Let_def filter_empty_conv)
  ultimately show ?thesis
    using run types rate [of rs] latency strict_sorted_list_of_set by (intro exI [of _ "summary_of env topk rs"]) (simp add: summary_of_def)
qed

theorem dataset_summary_sound_witness:
  "\<exists>s. GetDatasetSummary quiet_queries ''d'' 5 two_rows = Inr s \<and> ds_row_count s = 2 \<and> sum_list (map snd (ds_type_counts s)) = 1"
proof -
  have "length (dataset_records ''d'' two_rows) = 2" "number_of (\<lambda>r. tr_is_anomaly r \<and> tr_anomaly_type r \<noteq> '''') (dataset_records ''d'' two_rows) = 1"
    by (simp_all add: two_rows_def dataset_records_def number_of_def)
  then show ?thesis
    using dataset_summary_sound [of quiet_queries 5 _ "''d''" two_rows, OF _ _ _ refl] by (auto simp: quiet_queries_def groups_once_def)
qed

end
