(* ===== verification/Listings.thy ===== *)
theory Listings
  imports Analytics Api_Common "HOL-Library.AList"
begin

text \<open>
  The listing and lookup queries of \<^verbatim>\<open>src/src/db_client.cpp\<close>: filters, newest first, one page by \<^verbatim>\<open>LIMIT\<close> and
  \<^verbatim>\<open>OFFSET\<close>. Most of them log a failure and return what they have, some rethrow it. Parameters are the
  columns that the server fills in (creation times of datasets and inference runs, numbers and times of scores), the
  reading and printing of times, the failures, and the order \<open>lv_perm\<close> in which the server happens to deliver rows
  that the \<^verbatim>\<open>ORDER BY\<close> of a query does not tell apart.
\<close>

section \<open>Pages\<close>

record listing_env =
  lv_query :: query_env
  lv_perm :: "nat \<Rightarrow> nat list"
  lv_time :: "string \<Rightarrow> int option"
  lv_text :: "int \<Rightarrow> string"
  lv_column_text :: "string \<Rightarrow> string"
  lv_run_created :: "generation_run \<Rightarrow> int"
  lv_inference_created :: "inference_run \<Rightarrow> int"
  lv_score_id :: "nat \<Rightarrow> int"
  lv_scored_at :: "nat \<Rightarrow> int"
  lv_parse :: "string \<Rightarrow> json cpp"
  lv_fault :: "nat \<Rightarrow> cpp_exception option"
  lv_elapsed_ms :: real

definition reorder :: "(nat \<Rightarrow> nat list) \<Rightarrow> 'r list \<Rightarrow> 'r list" where
  "reorder perm rs = map (\<lambda>i. rs ! i) (perm (length rs))"

definition order_by :: "(nat \<Rightarrow> nat list) \<Rightarrow> ('r \<Rightarrow> 'k :: linorder) \<Rightarrow> 'r list \<Rightarrow> 'r list" where
  "order_by perm key rs = sort_key key (reorder perm rs)"

definition sql_page :: "int \<Rightarrow> int \<Rightarrow> 'r list \<Rightarrow> 'r list cpp" where
  "sql_page limit offset rs =
     (if limit < 0 then Inl (Sql_error ''LIMIT must not be negative'')
      else if offset < 0 then Inl (Sql_error ''OFFSET must not be negative'')
      else Inr (take (nat limit) (drop (nat offset) rs)))"

definition or_empty :: "json list cpp \<Rightarrow> json list" where
  "or_empty r = (case r of Inl e \<Rightarrow> [] | Inr js \<Rightarrow> js)"

definition created_bound :: "listing_env \<Rightarrow> string \<Rightarrow> int option cpp" where
  "created_bound env s =
     (if s = '''' then Inr None
      else case lv_time env s of None \<Rightarrow> Inl (Sql_error ''invalid input syntax for type timestamp'') | Some t \<Rightarrow> Inr (Some t))"

definition in_window :: "int option \<Rightarrow> int option \<Rightarrow> int \<Rightarrow> bool" where
  "in_window lo hi t \<longleftrightarrow> (case lo of None \<Rightarrow> True | Some a \<Rightarrow> a \<le> t) \<and> (case hi of None \<Rightarrow> True | Some b \<Rightarrow> t \<le> b)"

definition wanted :: "string \<Rightarrow> string \<Rightarrow> bool" where
  "wanted filter_text v \<longleftrightarrow> filter_text = '''' \<or> v = filter_text"

text \<open>\<^verbatim>\<open>SELECT ... WHERE p AND created_at >= ... AND created_at <= ... ORDER BY created_at DESC LIMIT $1 OFFSET $2\<close>.\<close>

definition list_rows ::
  "listing_env \<Rightarrow> ('r \<Rightarrow> int) \<Rightarrow> ('r \<Rightarrow> bool) \<Rightarrow> int \<Rightarrow> int \<Rightarrow> string \<Rightarrow> string \<Rightarrow> 'r list \<Rightarrow> 'r list cpp" where
  "list_rows env created p limit offset created_from created_to rs =
     (case lv_fault env 0 of
        Some e \<Rightarrow> Inl e
      | None \<Rightarrow>
          cbind (created_bound env created_from) (\<lambda>lo.
          cbind (created_bound env created_to) (\<lambda>hi.
            sql_page limit offset (order_by (lv_perm env) (\<lambda>r. - created r) (filter (\<lambda>r. p r \<and> in_window lo hi (created r)) rs)))))"

section \<open>Datasets\<close>

definition run_members :: "listing_env \<Rightarrow> generation_run \<Rightarrow> (string \<times> json) list" where
  "run_members env r =
     [(''run_id'', JStr (gr_run_id r)), (''status'', JStr (gr_status r)), (''inserted_rows'', JInt (gr_inserted_rows r)),
      (''created_at'', JStr (lv_text env (lv_run_created env r))), (''start_time'', JStr (lv_column_text env (gr_start_time r))),
      (''end_time'', JStr (lv_column_text env (gr_end_time r))), (''interval_seconds'', JInt (gr_interval_seconds r)),
      (''host_count'', JInt (gr_host_count r)), (''tier'', JStr (gr_tier r))]"

definition ListGenerationRuns :: "listing_env \<Rightarrow> int \<Rightarrow> int \<Rightarrow> string \<Rightarrow> string \<Rightarrow> string \<Rightarrow> db \<Rightarrow> json list cpp" where
  "ListGenerationRuns env limit offset status created_from created_to d =
     cbind (list_rows env (lv_run_created env) (\<lambda>r. wanted status (gr_status r)) limit offset created_from created_to (generation_runs d))
       (\<lambda>rs. Inr (map (\<lambda>r. jobject (run_members env r)) rs))"

definition GetDatasetDetail :: "listing_env \<Rightarrow> string \<Rightarrow> db \<Rightarrow> json cpp" where
  "GetDatasetDetail env run_id d =
     (case lv_fault env 0 of
        Some e \<Rightarrow> Inl e
      | None \<Rightarrow> Inr (case find (\<lambda>r. gr_run_id r = run_id) (generation_runs d) of
          None \<Rightarrow> JNull
        | Some r \<Rightarrow> jobject (run_members env r @ [(''error'', jtext (gr_error r)), (''request_id'', JStr (gr_request_id r))])))"

definition metric_members :: "query_env \<Rightarrow> TelemetryRecord \<Rightarrow> (string \<times> json) list" where
  "metric_members q r =
     [(''cpu_usage'', JReal (tr_cpu_usage r)), (''memory_usage'', JReal (tr_memory_usage r)),
      (''disk_utilization'', JReal (tr_disk_utilization r)), (''network_rx_rate'', JReal (tr_network_rx_rate r)),
      (''network_tx_rate'', JReal (tr_network_tx_rate r)), (''timestamp'', JStr (qv_text q (metric_timestamp r))),
      (''host_id'', JStr (tr_host_id r))]"

definition GetDatasetSamples :: "listing_env \<Rightarrow> string \<Rightarrow> int \<Rightarrow> db \<Rightarrow> json list cpp" where
  "GetDatasetSamples env run_id limit d =
     (case lv_fault env 0 of
        Some e \<Rightarrow> Inl e
      | None \<Rightarrow> cbind (sql_page limit 0 (order_by (lv_perm env) (\<lambda>r. - metric_timestamp r) (dataset_records run_id d)))
          (\<lambda>rs. Inr (map (\<lambda>r. jobject (metric_members (lv_query env) r)) rs)))"

definition GetDatasetRecord :: "listing_env \<Rightarrow> string \<Rightarrow> int \<Rightarrow> db \<Rightarrow> json" where
  "GetDatasetRecord env run_id record_id d =
     (if lv_fault env 0 \<noteq> None then JNull
      else case find (\<lambda>t. tr_run_id (tel_record t) = run_id \<and> tel_record_id t = record_id) (telemetry d) of
        None \<Rightarrow> JNull
      | Some t \<Rightarrow>
          let j = jobject (metric_members (lv_query env) (tel_record t)) in
          case lv_parse env (tr_labels_json (tel_record t)) of Inl e \<Rightarrow> j | Inr l \<Rightarrow> jset ''labels'' l j)"

section \<open>Records\<close>

definition tolower :: "string \<Rightarrow> string" where
  "tolower s = map (\<lambda>c. if CHR ''A'' \<le> c \<and> c \<le> CHR ''Z'' then char_of (of_char c + 32 :: nat) else c) s"

text \<open>The direction of the sort, \<open>Inl\<close> for a request that is refused.\<close>

definition sort_direction :: "string \<Rightarrow> string \<Rightarrow> string cpp" where
  "sort_direction sort_by sort_order =
     (if sort_by \<noteq> '''' \<and> sort_by \<noteq> ''metric_timestamp'' then Inl (Invalid_argument (''Invalid sort_by: '' @ sort_by))
      else if sort_order = '''' then Inr ''desc''
      else if tolower sort_order \<noteq> ''asc'' \<and> tolower sort_order \<noteq> ''desc''
      then Inl (Invalid_argument (''Invalid sort_order: '' @ sort_order))
      else Inr (tolower sort_order))"

record record_search =
  rs_limit :: int
  rs_offset :: int
  rs_filter :: row_filter
  rs_host_id :: string
  rs_sort_by :: string
  rs_sort_order :: string
  rs_anchor_time :: string

definition beyond_anchor :: "string \<Rightarrow> time_point option \<Rightarrow> TelemetryRecord \<Rightarrow> bool" where
  "beyond_anchor dir anchor r \<longleftrightarrow>
     (case anchor of None \<Rightarrow> True | Some t \<Rightarrow> if dir = ''asc'' then t \<le> metric_timestamp r else metric_timestamp r \<le> t)"

definition record_json :: "listing_env \<Rightarrow> telemetry_row \<Rightarrow> json cpp" where
  "record_json env t =
     (let r = tel_record t in
      cbind (lv_parse env (tr_labels_json r)) (\<lambda>l. Inr (jobject
        ([(''record_id'', JInt (tel_record_id t))] @ metric_members (lv_query env) r @
         [(''is_anomaly'', JBool (tr_is_anomaly r)), (''anomaly_type'', JStr (tr_anomaly_type r)), (''region'', JStr (tr_region r)),
          (''project_id'', JStr (tr_project_id r)), (''labels'', l)]))))"

definition matching_rows :: "listing_env \<Rightarrow> string \<Rightarrow> record_search \<Rightarrow> string \<Rightarrow> db \<Rightarrow> telemetry_row list cpp" where
  "matching_rows env run_id s dir d =
     cbind (time_bound (lv_query env) (rf_start_time (rs_filter s))) (\<lambda>lo.
     cbind (time_bound (lv_query env) (rf_end_time (rs_filter s))) (\<lambda>hi.
     cbind (time_bound (lv_query env) (rs_anchor_time s)) (\<lambda>anchor.
       Inr (filter (\<lambda>t. tr_run_id (tel_record t) = run_id \<and> passes (rs_filter s) lo hi (tel_record t)
              \<and> beyond_anchor dir anchor (tel_record t) \<and> wanted (rs_host_id s) (tr_host_id (tel_record t))) (telemetry d)))))"

definition time_order :: "string \<Rightarrow> telemetry_row \<Rightarrow> int" where
  "time_order dir t = (if dir = ''asc'' then metric_timestamp (tel_record t) else - metric_timestamp (tel_record t))"

definition SearchDatasetRecords :: "listing_env \<Rightarrow> string \<Rightarrow> record_search \<Rightarrow> db \<Rightarrow> json cpp" where
  "SearchDatasetRecords env run_id s d =
     (case lv_fault env 0 of
        Some e \<Rightarrow> Inl e
      | None \<Rightarrow>
          cbind (sort_direction (rs_sort_by s) (rs_sort_order s)) (\<lambda>dir.
          cbind (matching_rows env run_id s dir d) (\<lambda>found.
          cbind (sql_page (rs_limit s) (rs_offset s) (order_by (lv_perm env) (time_order dir) found)) (\<lambda>rs.
          cbind (cmap (record_json env) rs) (\<lambda>items.
            case lv_fault env 1 of
              Some e \<Rightarrow> Inl e
            | None \<Rightarrow>
                let total_rows = int (length found); returned = int (length items);
                    j = jobject [(''items'', JArr items), (''total'', JInt total_rows), (''limit'', JInt (rs_limit s)),
                          (''offset'', JInt (rs_offset s)), (''returned'', JInt returned),
                          (''has_more'', JBool (HasMore (rs_limit s) (rs_offset s) returned (Some total_rows))),
                          (''sort_by'', JStr ''metric_timestamp''), (''sort_order'', JStr dir)]
                in Inr (if rs_anchor_time s \<noteq> '''' then jset ''anchor_time'' (JStr (rs_anchor_time s)) j else j))))))"

section \<open>Models, inference runs, jobs\<close>

definition model_item_json :: "listing_env \<Rightarrow> model_run \<Rightarrow> json" where
  "model_item_json env r = jobject
     [(''model_run_id'', JStr (mr_model_run_id r)), (''dataset_id'', JStr (mr_dataset_id r)), (''name'', JStr (mr_name r)),
      (''status'', JStr (mr_status r)), (''artifact_path'', jtext (mr_artifact_path r)), (''error'', jtext (mr_error r)),
      (''created_at'', JStr (lv_text env (mr_created_at r))), (''completed_at'', jtext (map_option (lv_text env) (mr_completed_at r))),
      (''training_config'', mr_training_config r), (''parent_run_id'', jnullable JStr (mr_parent_run_id r)),
      (''trial_index'', jnullable JInt (mr_trial_index r)), (''best_trial_run_id'', jnullable JStr (mr_best_trial_run_id r)),
      (''best_metric_value'', jnullable JReal (mr_best_metric_value r)), (''best_metric_name'', jnullable JStr (mr_best_metric_name r)),
      (''is_eligible'', JBool (mr_is_eligible r)), (''eligibility_reason'', jnullable JStr (mr_eligibility_reason r)),
      (''selection_metric_value'', jnullable JReal (mr_selection_metric_value r))]"

definition ListModelRuns :: "listing_env \<Rightarrow> int \<Rightarrow> int \<Rightarrow> string \<Rightarrow> string \<Rightarrow> string \<Rightarrow> string \<Rightarrow> db \<Rightarrow> model_run list" where
  "ListModelRuns env limit offset status dataset_id created_from created_to d =
     (case list_rows env mr_created_at (\<lambda>r. wanted status (mr_status r) \<and> wanted dataset_id (mr_dataset_id r))
             limit offset created_from created_to (model_runs d) of
        Inl e \<Rightarrow> [] | Inr rs \<Rightarrow> rs)"

definition dataset_of_inference :: "db \<Rightarrow> inference_run \<Rightarrow> string option" where
  "dataset_of_inference d r = map_option mr_dataset_id (find (\<lambda>m. mr_model_run_id m = ir_model_run_id r) (model_runs d))"

definition inference_item_json :: "listing_env \<Rightarrow> db \<Rightarrow> inference_run \<Rightarrow> json" where
  "inference_item_json env d r = jobject
     [(''inference_id'', JStr (ir_inference_id r)), (''model_run_id'', JStr (ir_model_run_id r)),
      (''dataset_id'', jtext (dataset_of_inference d r)), (''status'', JStr (ir_status r)),
      (''anomaly_count'', JInt (ir_anomaly_count r)), (''latency_ms'', JReal (ir_latency_ms r)),
      (''created_at'', JStr (lv_text env (lv_inference_created env r)))]"

definition ListInferenceRuns ::
  "listing_env \<Rightarrow> string \<Rightarrow> string \<Rightarrow> int \<Rightarrow> int \<Rightarrow> string \<Rightarrow> string \<Rightarrow> string \<Rightarrow> db \<Rightarrow> json list" where
  "ListInferenceRuns env dataset_id model_run_id limit offset status created_from created_to d =
     or_empty (cbind (list_rows env (lv_inference_created env)
         (\<lambda>r. (case dataset_of_inference d r of None \<Rightarrow> False | Some i \<Rightarrow> wanted dataset_id i)
            \<and> wanted model_run_id (ir_model_run_id r) \<and> wanted status (ir_status r)) limit offset created_from created_to (inference_runs d))
       (\<lambda>rs. Inr (map (inference_item_json env d) rs)))"

definition GetInferenceRun :: "listing_env \<Rightarrow> string \<Rightarrow> db \<Rightarrow> json" where
  "GetInferenceRun env inference_id d =
     (if lv_fault env 0 \<noteq> None then JNull
      else case find (\<lambda>r. ir_inference_id r = inference_id) (inference_runs d) of
        None \<Rightarrow> JNull
      | Some r \<Rightarrow> jobject
          [(''inference_id'', JStr (ir_inference_id r)), (''model_run_id'', JStr (ir_model_run_id r)), (''status'', JStr (ir_status r)),
           (''anomaly_count'', JInt (ir_anomaly_count r)), (''latency_ms'', JReal (ir_latency_ms r)),
           (''details'', if ir_details r = JNull then JArr [] else ir_details r),
           (''created_at'', JStr (lv_text env (lv_inference_created env r)))])"

definition job_item_json :: "listing_env \<Rightarrow> score_job \<Rightarrow> json" where
  "job_item_json env r = jobject
     [(''job_id'', JStr (sj_job_id r)), (''dataset_id'', JStr (sj_dataset_id r)), (''model_run_id'', JStr (sj_model_run_id r)),
      (''status'', JStr (sj_status r)), (''total_rows'', JInt (sj_total_rows r)), (''processed_rows'', JInt (sj_processed_rows r)),
      (''last_record_id'', JInt (sj_last_record_id r)), (''error'', jtext (sj_error r)),
      (''created_at'', JStr (lv_text env (sj_created_at r))), (''updated_at'', JStr (lv_text env (sj_updated_at r))),
      (''completed_at'', jtext (map_option (lv_text env) (sj_completed_at r)))]"

definition ListScoreJobs ::
  "listing_env \<Rightarrow> int \<Rightarrow> int \<Rightarrow> string \<Rightarrow> string \<Rightarrow> string \<Rightarrow> string \<Rightarrow> string \<Rightarrow> db \<Rightarrow> json list" where
  "ListScoreJobs env limit offset status dataset_id model_run_id created_from created_to d =
     or_empty (cbind (list_rows env sj_created_at
         (\<lambda>r. wanted status (sj_status r) \<and> wanted dataset_id (sj_dataset_id r) \<and> wanted model_run_id (sj_model_run_id r))
         limit offset created_from created_to (score_jobs d))
       (\<lambda>rs. Inr (map (job_item_json env) rs)))"

definition GetModelsForDataset :: "listing_env \<Rightarrow> string \<Rightarrow> db \<Rightarrow> json list" where
  "GetModelsForDataset env dataset_id d =
     (if lv_fault env 0 \<noteq> None then []
      else map (\<lambda>r. jobject [(''model_run_id'', JStr (mr_model_run_id r)), (''name'', JStr (mr_name r)), (''status'', JStr (mr_status r)),
                  (''created_at'', JStr (lv_text env (mr_created_at r)))])
             (order_by (lv_perm env) (\<lambda>r. - mr_created_at r) (filter (\<lambda>r. mr_dataset_id r = dataset_id) (model_runs d))))"

text \<open>The statement selects distinct triples, so a dataset appears once for every time at which scores of it were stored.\<close>

definition GetScoredDatasetsForModel :: "listing_env \<Rightarrow> string \<Rightarrow> db \<Rightarrow> json list" where
  "GetScoredDatasetsForModel env model_run_id d =
     (if lv_fault env 0 \<noteq> None then []
      else
        let hits = filter (\<lambda>(i, s). sc_model_run_id s = model_run_id) (enumerate 0 (scores d));
            triples = remdups (concat (map (\<lambda>(i, s).
              map (\<lambda>g. (gr_run_id g, lv_run_created env g, lv_scored_at env i))
                (filter (\<lambda>g. gr_run_id g = sc_dataset_id s) (generation_runs d))) hits))
        in map (\<lambda>(i, c, t). jobject [(''dataset_id'', JStr i), (''created_at'', JStr (lv_text env c)), (''scored_at'', JStr (lv_text env t))])
             (order_by (lv_perm env) (\<lambda>(i, c, t). - t) triples))"

section \<open>Scores\<close>

record score_query =
  sq_dataset_id :: string
  sq_model_run_id :: string
  sq_limit :: int
  sq_offset :: int
  sq_only_anomalies :: bool
  sq_min_score :: real
  sq_max_score :: real

definition of_pair :: "score_query \<Rightarrow> score_row \<Rightarrow> bool" where
  "of_pair q s \<longleftrightarrow> sc_dataset_id s = sq_dataset_id q \<and> sc_model_run_id s = sq_model_run_id q"

definition score_wanted :: "score_query \<Rightarrow> score_row \<Rightarrow> bool" where
  "score_wanted q s \<longleftrightarrow> of_pair q s \<and> (sq_only_anomalies q \<longrightarrow> sc_predicted s)
     \<and> (sq_min_score q > 0 \<longrightarrow> to_string_value (sq_min_score q) \<le> sc_reconstruction_error s)
     \<and> (sq_max_score q > 0 \<longrightarrow> sc_reconstruction_error s \<le> to_string_value (sq_max_score q))"

definition wanted_scores :: "score_query \<Rightarrow> db \<Rightarrow> (nat \<times> score_row) list" where
  "wanted_scores q d = filter (\<lambda>(i, s). score_wanted q s) (enumerate 0 (scores d))"

definition has_record :: "db \<Rightarrow> int \<Rightarrow> bool" where
  "has_record d i \<longleftrightarrow> list_ex (\<lambda>t. tel_record_id t = i) (telemetry d)"

definition score_rows :: "score_query \<Rightarrow> db \<Rightarrow> (nat \<times> score_row \<times> TelemetryRecord) list" where
  "score_rows q d =
     concat (map (\<lambda>(i, s). map (\<lambda>t. (i, s, tel_record t)) (filter (\<lambda>t. tel_record_id t = sc_record_id s) (telemetry d)))
       (wanted_scores q d))"

text \<open>\<^verbatim>\<open>ORDER BY s.reconstruction_error DESC, s.score_id DESC\<close>.\<close>

definition ordered_scores :: "listing_env \<Rightarrow> score_query \<Rightarrow> db \<Rightarrow> (nat \<times> score_row \<times> TelemetryRecord) list" where
  "ordered_scores env q d =
     sort_key (\<lambda>(i, s, r). - sc_reconstruction_error s) (sort_key (\<lambda>(i, s, r). - lv_score_id env i) (score_rows q d))"

definition score_item_json :: "listing_env \<Rightarrow> nat \<times> score_row \<times> TelemetryRecord \<Rightarrow> json" where
  "score_item_json env item = (case item of (i, s, r) \<Rightarrow> jobject
     [(''score_id'', JInt (lv_score_id env i)), (''record_id'', JInt (sc_record_id s)), (''score'', JReal (sc_reconstruction_error s)),
      (''is_anomaly'', JBool (sc_predicted s)), (''scored_at'', JStr (lv_text env (lv_scored_at env i))),
      (''timestamp'', JStr (qv_text (lv_query env) (metric_timestamp r))), (''host_id'', JStr (tr_host_id r)), (''label'', JBool (tr_is_anomaly r))])"

definition orphan_count :: "score_query \<Rightarrow> db \<Rightarrow> int" where
  "orphan_count q d = number_of (\<lambda>s. of_pair q s \<and> \<not> has_record d (sc_record_id s)) (scores d)"

definition score_labels :: "score_query \<Rightarrow> labels" where
  "score_labels q = [(''dataset_id'', sq_dataset_id q), (''model_run_id'', sq_model_run_id q)]"

definition score_range :: "score_query \<Rightarrow> db \<Rightarrow> real \<times> real" where
  "score_range q d =
     (let es = map sc_reconstruction_error (filter (of_pair q) (scores d)) in
      if es = [] then (0, 10) else (min_of es, max_of es))"

text \<open>
  The five queries in order; a failure ends the \<^verbatim>\<open>try\<close> block and leaves the document as far as it was built. Metrics go to
  the registry: the orphaned scores, when there are any, and the duration of the whole call.
\<close>

definition scores_body :: "listing_env \<Rightarrow> score_query \<Rightarrow> db \<Rightarrow> json \<times> db" where
  "scores_body env q d =
     (let out0 = jobject [(''items'', JArr [])] in
      case (lv_fault env 0, sql_page (sq_limit q) (sq_offset q) (ordered_scores env q d)) of
        (None, Inr rs) \<Rightarrow>
          let out1 = add_run_metadata (GetModelRun (lv_fault env 1) (lv_text env) (sq_model_run_id q) d)
                       (jset ''items'' (JArr (map (score_item_json env) rs)) out0) in
          if lv_fault env 2 \<noteq> None then (out1, d)
          else
            let total_rows = int (length (wanted_scores q d)); out2 = jset ''total'' (JInt total_rows) out1 in
            if lv_fault env 3 \<noteq> None then (out2, d)
            else
              let n = orphan_count q d;
                  d3 = (if n > 0 then d\<lparr>db_registry := EmitCounter ''scores_orphan_count'' n (score_labels q) (db_registry d)\<rparr> else d)
              in
              if lv_fault env 4 \<noteq> None then (out2, d3)
              else
                let (lo, hi) = score_range q d; returned = int (length rs) in
                (jset ''has_more'' (JBool (HasMore (sq_limit q) (sq_offset q) returned (Some total_rows)))
                  (jset ''returned'' (JInt returned) (jset ''offset'' (JInt (sq_offset q)) (jset ''limit'' (JInt (sq_limit q))
                  (jset ''max_score'' (JReal hi) (jset ''min_score'' (JReal lo) out2))))), d3)
      | _ \<Rightarrow> (out0, d))"

definition GetScores :: "listing_env \<Rightarrow> score_query \<Rightarrow> db \<Rightarrow> json \<times> db" where
  "GetScores env q d =
     (case scores_body env q d of (out, d1) \<Rightarrow>
        (out, d1\<lparr>db_registry := EmitHistogram ''scores_query_duration_ms'' (lv_elapsed_ms env) (score_labels q) (db_registry d1)\<rparr>))"

section \<open>Summaries of hyper-parameter searches\<close>

record hpo_summary =
  hs_trial_count :: int
  hs_completed_count :: int
  hs_status_counts :: "(string \<times> int) list"

definition no_trials :: hpo_summary where
  "no_trials = \<lparr>hs_trial_count = 0, hs_completed_count = 0,
     hs_status_counts = [(''PENDING'', 0), (''RUNNING'', 0), (''COMPLETED'', 0), (''FAILED'', 0), (''converted_FAIL'', 0)]\<rparr>"

definition summary_for :: "string \<Rightarrow> (string \<times> hpo_summary) list \<Rightarrow> hpo_summary" where
  "summary_for pid m = (case map_of m pid of None \<Rightarrow> no_trials | Some s \<Rightarrow> s)"

text \<open>
  The loop over the rows \<^verbatim>\<open>(parent_run_id, status, COUNT( * ))\<close>. A status without an entry in \<^verbatim>\<open>status_counts\<close> reads as null,
  and null as a number throws: the loop ends there, with the trials of that row already added to \<^verbatim>\<open>trial_count\<close>.
\<close>

fun bulk_loop :: "(string \<times> string \<times> int) list \<Rightarrow> (string \<times> hpo_summary) list \<Rightarrow> (string \<times> hpo_summary) list" where
  "bulk_loop [] m = m"
| "bulk_loop ((pid, status, n) # rest) m =
     (let s = summary_for pid m; s1 = s\<lparr>hs_trial_count := hs_trial_count s + n\<rparr> in
      case map_of (hs_status_counts s1) status of
        None \<Rightarrow> AList.update pid s1 m
      | Some old \<Rightarrow>
          bulk_loop rest (AList.update pid
            (s1\<lparr>hs_status_counts := AList.update status (old + n) (hs_status_counts s1),
                hs_completed_count := (if status = ''COMPLETED'' then hs_completed_count s1 + n else hs_completed_count s1)\<rparr>) m))"

definition trial_group :: "model_run \<Rightarrow> string \<times> string" where
  "trial_group r = ((case mr_parent_run_id r of None \<Rightarrow> '''' | Some p \<Rightarrow> p), mr_status r)"

definition trials_of :: "string list \<Rightarrow> db \<Rightarrow> model_run list" where
  "trials_of parents d = filter (\<lambda>r. case mr_parent_run_id r of None \<Rightarrow> False | Some p \<Rightarrow> p \<in> set parents) (model_runs d)"

definition status_groups :: "listing_env \<Rightarrow> string list \<Rightarrow> db \<Rightarrow> (string \<times> string \<times> int) list" where
  "status_groups env parents d =
     (let gs = map trial_group (trials_of parents d) in
      map (\<lambda>(p, st). (p, st, int (count_list gs (p, st)))) (reorder (lv_perm env) (remdups gs)))"

definition GetBulkHpoTrialSummaries :: "listing_env \<Rightarrow> string list \<Rightarrow> db \<Rightarrow> (string \<times> hpo_summary) list" where
  "GetBulkHpoTrialSummaries env parents d =
     (if parents = [] \<or> lv_fault env 1 \<noteq> None then [] else bulk_loop (status_groups env parents d) [])"

section \<open>Pages partition the result\<close>

text \<open>What the server promises of its unspecified order: every row once.\<close>

definition fair_order :: "listing_env \<Rightarrow> bool" where
  "fair_order env \<longleftrightarrow> (\<forall>n. mset (lv_perm env n) = mset [0..<n])"

lemma mset_reorder:
  assumes "fair_order env"
  shows "mset (reorder (lv_perm env) rs) = mset rs"
proof -
  have "mset (reorder (lv_perm env) rs) = image_mset ((!) rs) (mset [0..<length rs])"
    using assms by (simp add: reorder_def fair_order_def)
  also have "\<dots> = mset (map ((!) rs) [0..<length rs])"
    by (simp del: mset_upt)
  finally show ?thesis
    by (simp only: map_nth)
qed

lemma mset_order_by: "fair_order env \<Longrightarrow> mset (order_by (lv_perm env) key rs) = mset rs"
  by (simp add: order_by_def mset_reorder)

lemma sorted_order_by: "sorted (map key (order_by perm key rs))"
  by (simp add: order_by_def)

lemma take_pages: "concat (map (\<lambda>i. take l (drop (i * l) xs)) [0..<k]) = take (k * l) xs"
  by (induction k) (simp_all add: take_add [symmetric] add.commute)

lemma sql_page_nth:
  assumes "0 \<le> limit"
  shows "sql_page limit (int n * limit) rs = Inr (take (nat limit) (drop (n * nat limit) rs))"
  using assms by (simp add: sql_page_def nat_mult_distrib mult_nonneg_nonneg not_less)

lemma cmap_take_drop:
  assumes "cmap f xs = Inr ys"
  shows "cmap f (take k (drop i xs)) = Inr (take k (drop i ys))"
proof -
  have drop: "cmap f (drop i xs) = Inr (drop i ys)" if "cmap f xs = Inr ys" for i and xs ys
    using that
  proof (induction xs arbitrary: i ys)
    case (Cons x xs)
    then show ?case
      by (cases i) (auto simp: cbind_def split: sum.splits)
  qed simp
  have take: "cmap f (take k xs) = Inr (take k ys)" if "cmap f xs = Inr ys" for k and xs ys
    using that
  proof (induction xs arbitrary: k ys)
    case (Cons x xs)
    then show ?case
      by (cases k) (auto simp: cbind_def split: sum.splits)
  qed simp
  show ?thesis
    using take [OF drop [OF assms]] .
qed

lemma cmap_total: "(\<And>x. x \<in> set xs \<Longrightarrow> \<exists>y. f x = Inr y) \<Longrightarrow> \<exists>ys. cmap f xs = Inr ys"
proof (induction xs)
  case (Cons x xs)
  then obtain y ys where "f x = Inr y" "cmap f xs = Inr ys"
    by (metis list.set_intros)
  then show ?case
    by (simp add: cbind_def)
qed simp

lemma has_more_page:
  assumes "0 < limit"
  shows "HasMore limit (int n * limit) (int (length (take (nat limit) (drop (n * nat limit) xs)))) (Some (int (length xs)))
    \<longleftrightarrow> (n + 1) * nat limit < length xs"
proof -
  obtain m where m: "limit = int m"
    using assms zero_le_imp_eq_int [of limit] by auto
  have "int n * int m = int (n * m)"
    by simp
  then show ?thesis
    by (simp only: m HasMore_def option.case nat_int length_take length_drop of_nat_add [symmetric] of_nat_less_iff) (auto simp: min_def)
qed


definition id_listing :: listing_env where
  "id_listing = \<lparr>lv_query = quiet_queries, lv_perm = (\<lambda>n. [0..<n]), lv_time = (\<lambda>_. None), lv_text = (\<lambda>_. ''''), lv_column_text = (\<lambda>s. s),
     lv_run_created = (\<lambda>_. 0), lv_inference_created = (\<lambda>_. 0), lv_score_id = int, lv_scored_at = int, lv_parse = (\<lambda>_. Inr JNull),
     lv_fault = (\<lambda>_. None), lv_elapsed_ms = 0\<rparr>"

definition all_records :: "int \<Rightarrow> int \<Rightarrow> record_search" where
  "all_records limit offset = \<lparr>rs_limit = limit, rs_offset = offset,
     rs_filter = \<lparr>rf_region = '''', rf_is_anomaly = '''', rf_anomaly_type = '''', rf_start_time = '''', rf_end_time = ''''\<rparr>,
     rs_host_id = '''', rs_sort_by = '''', rs_sort_order = '''', rs_anchor_time = ''''\<rparr>"

lemma two_rows_match: "matching_rows env ''d'' (all_records l n) ''desc'' two_rows = Inr (telemetry two_rows)"
  by (simp add: matching_rows_def all_records_def time_bound_def cbind_def passes_def beyond_anchor_def wanted_def two_rows_def)


text \<open>
  Two rows with the same time and two requests for one row each: if the server delivers the rows in another order
  for the second request, both pages hold the first row and the second row is never seen. The rows of one tick of the generator all
  have the same time.
\<close>

lemma search_pages_unstable:
  defines "env' \<equiv> id_listing\<lparr>lv_perm := (\<lambda>n. rev [0..<n])\<rparr>"
  shows "fair_order id_listing \<and> fair_order env'
    \<and> (\<exists>j j' page. SearchDatasetRecords id_listing ''d'' (all_records 1 0) two_rows = Inr j \<and> jat j ''items'' = Inr (JArr [page])
        \<and> SearchDatasetRecords env' ''d'' (all_records 1 1) two_rows = Inr j' \<and> jat j' ''items'' = Inr (JArr [page])
        \<and> record_json id_listing (telemetry two_rows ! 0) = Inr page)"
proof -
  define t u where "t = telemetry two_rows ! 0" and "u = telemetry two_rows ! 1"
  have rows: "telemetry two_rows = [t, u]" and key: "time_order ''desc'' t = 0" "time_order ''desc'' u = 0"
    by (simp_all add: t_def u_def two_rows_def time_order_def)
  have order: "order_by (lv_perm id_listing) (time_order ''desc'') [t, u] = [t, u]" "order_by (lv_perm env') (time_order ''desc'') [t, u] = [u, t]"
    by (simp_all add: order_by_def reorder_def id_listing_def env'_def key numeral_2_eq_2)
  obtain p where p: "record_json id_listing t = Inr p" "record_json env' t = Inr p"
    by (simp add: record_json_def id_listing_def env'_def cbind_def Let_def)
  have dir: "sort_direction '''' '''' = Inr ''desc''"
    by (simp add: sort_direction_def)
  have fair: "fair_order id_listing" "fair_order env'" and ok: "lv_fault id_listing = (\<lambda>_. None)" "lv_fault env' = (\<lambda>_. None)"
    by (simp_all add: fair_order_def id_listing_def env'_def)
  have "\<exists>j. SearchDatasetRecords id_listing ''d'' (all_records 1 0) two_rows = Inr j \<and> jat j ''items'' = Inr (JArr [p])"
    using two_rows_match [of id_listing 1 0] p(1) order(1)
    by (simp add: SearchDatasetRecords_def ok dir rows cbind_def sql_page_def Let_def jobject_def all_records_def)
  moreover have "\<exists>j. SearchDatasetRecords env' ''d'' (all_records 1 1) two_rows = Inr j \<and> jat j ''items'' = Inr (JArr [p])"
    using two_rows_match [of env' 1 1] p(2) order(2)
    by (simp add: SearchDatasetRecords_def ok dir rows cbind_def sql_page_def Let_def jobject_def all_records_def)
  ultimately show ?thesis
    using fair p(1) by (auto simp: t_def)
qed

section \<open>Summaries of searches\<close>

definition known_status :: "string \<Rightarrow> bool" where
  "known_status st \<longleftrightarrow> st \<in> {''PENDING'', ''RUNNING'', ''COMPLETED'', ''FAILED''}"

definition group_total :: "(string \<times> string \<times> int \<Rightarrow> bool) \<Rightarrow> (string \<times> string \<times> int) list \<Rightarrow> int" where
  "group_total p gs = sum_list (map (\<lambda>g. if p g then snd (snd g) else 0) gs)"

definition tracks :: "hpo_summary \<Rightarrow> bool" where
  "tracks s \<longleftrightarrow> (\<forall>st. known_status st \<longrightarrow> map_of (hs_status_counts s) st \<noteq> None)"

definition status_count :: "hpo_summary \<Rightarrow> string \<Rightarrow> int" where
  "status_count s st = (case map_of (hs_status_counts s) st of None \<Rightarrow> 0 | Some n \<Rightarrow> n)"

lemma tracks_no_trials [simp]: "tracks no_trials"
  by (auto simp: tracks_def no_trials_def known_status_def)

lemma status_count_no_trials [simp]: "status_count no_trials st = 0"
  by (simp add: status_count_def no_trials_def)

definition count_group :: "string \<Rightarrow> int \<Rightarrow> hpo_summary \<Rightarrow> hpo_summary" where
  "count_group st n s = s\<lparr>hs_trial_count := hs_trial_count s + n,
     hs_status_counts := AList.update st (status_count s st + n) (hs_status_counts s),
     hs_completed_count := (if st = ''COMPLETED'' then hs_completed_count s + n else hs_completed_count s)\<rparr>"

lemma count_group_facts:
  "hs_trial_count (count_group st n s) = hs_trial_count s + n"
  "hs_completed_count (count_group st n s) = hs_completed_count s + (if st = ''COMPLETED'' then n else 0)"
  "status_count (count_group st n s) st' = status_count s st' + (if st' = st then n else 0)"
  "tracks s \<Longrightarrow> tracks (count_group st n s)"
  by (auto simp: count_group_def status_count_def tracks_def update_conv')

lemma bulk_loop_step:
  assumes "known_status st" and "tracks (summary_for pid m)"
  shows "bulk_loop ((pid, st, n) # rest) m = bulk_loop rest (AList.update pid (count_group st n (summary_for pid m)) m)"
proof -
  obtain old where "map_of (hs_status_counts (summary_for pid m)) st = Some old"
    using assms by (auto simp: tracks_def)
  then show ?thesis
    by (simp add: count_group_def status_count_def Let_def)
qed

lemma summary_for_update: "summary_for p (AList.update q s m) = (if p = q then s else summary_for p m)"
  by (simp add: summary_for_def update_conv')

lemma bulk_loop_known:
  assumes "\<forall>g \<in> set gs. known_status (fst (snd g))" and "\<forall>p. tracks (summary_for p m)"
  shows "hs_trial_count (summary_for p (bulk_loop gs m)) = hs_trial_count (summary_for p m) + group_total (\<lambda>g. fst g = p) gs
    \<and> hs_completed_count (summary_for p (bulk_loop gs m))
        = hs_completed_count (summary_for p m) + group_total (\<lambda>g. fst g = p \<and> fst (snd g) = ''COMPLETED'') gs
    \<and> status_count (summary_for p (bulk_loop gs m)) st
        = status_count (summary_for p m) st + group_total (\<lambda>g. fst g = p \<and> fst (snd g) = st) gs
    \<and> (map_of (bulk_loop gs m) p = None \<longleftrightarrow> map_of m p = None \<and> p \<notin> fst ` set gs)"
  using assms
proof (induction gs arbitrary: m)
  case (Cons g gs)
  obtain q st0 n where g: "g = (q, st0, n)"
    by (cases g)
  let ?m = "AList.update q (count_group st0 n (summary_for q m)) m"
  have step: "bulk_loop (g # gs) m = bulk_loop gs ?m"
    using Cons.prems bulk_loop_step [of st0 q m n gs] by (simp add: g)
  have "\<forall>p. tracks (summary_for p ?m)"
    using Cons.prems(2) by (simp add: summary_for_update count_group_facts)
  then show ?case
    using Cons.IH [of ?m] Cons.prems(1) unfolding step
    by (simp add: summary_for_update count_group_facts group_total_def g update_conv')
qed (simp add: group_total_def)

lemma count_list_filtered: "count_list (filter q xs) x = (if q x then count_list xs x else 0)"
  by (induction xs) auto

lemma group_total_counts:
  assumes "mset gs = mset (map (\<lambda>(p, st). (p, st, int (count_list xs (p, st)))) (remdups xs))"
  shows "group_total (\<lambda>g. q (fst g, fst (snd g))) gs = number_of q xs"
proof -
  have "group_total (\<lambda>g. q (fst g, fst (snd g))) gs = sum_mset (image_mset (\<lambda>g. if q (fst g, fst (snd g)) then snd (snd g) else 0) (mset gs))"
    by (simp add: group_total_def sum_mset_sum_list flip: mset_map)
  also have "\<dots> = sum_list (map (\<lambda>x. if q x then int (count_list xs x) else 0) (remdups xs))"
  proof -
    have "(\<lambda>x. if q x then snd (snd (case x of (p, st) \<Rightarrow> (p, st, int (count_list xs (p, st))))) else 0)
        = (\<lambda>x. if q x then int (count_list xs x) else 0)"
      by (auto simp: fun_eq_iff)
    then show ?thesis
      unfolding assms by (simp add: sum_mset_sum_list case_prod_beta comp_def flip: mset_map)
  qed
  also have "\<dots> = (\<Sum>x\<in>set xs. if q x then int (count_list xs x) else 0)"
    by (simp add: sum_list_distinct_conv_sum_set)
  also have "\<dots> = (\<Sum>x\<in>set xs. int (count_list (filter q xs) x))"
    by (intro sum.cong refl) (simp add: count_list_filtered)
  also have "\<dots> = number_of q xs"
    using sum_count_set [of "filter q xs" "set xs"] by (simp add: number_of_def flip: of_nat_sum)
  finally show ?thesis .
qed

lemma mset_status_groups:
  assumes "fair_order env"
  shows "mset (status_groups env parents d) = mset (map (\<lambda>(p, st). (p, st, int (count_list (map trial_group (trials_of parents d)) (p, st))))
    (remdups (map trial_group (trials_of parents d))))"
  by (simp add: status_groups_def Let_def mset_reorder [OF assms])

lemma number_of_map: "number_of p (map f xs) = number_of (p \<circ> f) xs"
  by (simp add: number_of_def filter_map)

lemma number_of_trials:
  assumes "p \<in> set parents"
  shows "number_of (\<lambda>x. fst x = p \<and> P (snd x)) (map trial_group (trials_of parents d))
    = number_of (\<lambda>r. mr_parent_run_id r = Some p \<and> P (mr_status r)) (model_runs d)"
proof -
  have "filter (\<lambda>r. fst (trial_group r) = p \<and> P (snd (trial_group r))) (trials_of parents d)
      = filter (\<lambda>r. mr_parent_run_id r = Some p \<and> P (mr_status r)) (model_runs d)"
    using assms by (auto simp: trials_of_def filter_filter trial_group_def intro!: filter_cong split: option.splits)
  then show ?thesis
    by (simp add: number_of_def filter_map comp_def)
qed

text \<open>
  The summaries of hyper-parameter searches: when every trial of the listed runs is pending, running, completed
  or failed, the summary of a run counts exactly its trials, in all and by status; a run without trials has no summary.
\<close>

theorem bulk_summaries_exact:
  assumes "fair_order env" and "lv_fault env 1 = None" and "p \<in> set parents"
    and "\<forall>r \<in> set (trials_of parents d). known_status (mr_status r)"
    and "trials = filter (\<lambda>r. mr_parent_run_id r = Some p) (model_runs d)"
  shows "case map_of (GetBulkHpoTrialSummaries env parents d) p of
      None \<Rightarrow> trials = []
    | Some s \<Rightarrow> trials \<noteq> [] \<and> hs_trial_count s = int (length trials)
        \<and> hs_completed_count s = number_of (\<lambda>r. mr_status r = ''COMPLETED'') trials
        \<and> (\<forall>st. status_count s st = number_of (\<lambda>r. mr_status r = st) trials)"
proof -
  let ?gs = "status_groups env parents d" and ?xs = "map trial_group (trials_of parents d)"
  have res: "GetBulkHpoTrialSummaries env parents d = bulk_loop ?gs []"
    using assms(2,3) by (auto simp: GetBulkHpoTrialSummaries_def)
  have set: "set ?gs = (\<lambda>(p, st). (p, st, int (count_list ?xs (p, st)))) ` set ?xs"
    using arg_cong [OF mset_status_groups [OF assms(1), of parents d], of set_mset] by simp
  have "\<forall>g \<in> set ?gs. known_status (fst (snd g))"
    using assms(4) by (auto simp: set trial_group_def)
  note loop = bulk_loop_known [OF this, of "[]", unfolded summary_for_def, simplified]
  have tot: "group_total (\<lambda>g. fst g = p \<and> P (fst (snd g))) ?gs = number_of (\<lambda>r. P (mr_status r)) trials" for P
    using group_total_counts [OF mset_status_groups [OF assms(1)], of "\<lambda>x. fst x = p \<and> P (snd x)"] number_of_trials [OF assms(3), of P d]
    by (simp add: assms(5) number_of_def filter_filter conj_commute)
  have none: "p \<notin> fst ` set ?gs \<longleftrightarrow> trials = []"
  proof -
    have "p \<in> fst ` set ?gs \<longleftrightarrow> (\<exists>r \<in> set (trials_of parents d). fst (trial_group r) = p)"
      unfolding set by (auto simp: image_image case_prod_beta)
    also have "\<dots> \<longleftrightarrow> trials \<noteq> []"
      using assms(3) by (auto simp: assms(5) trials_of_def trial_group_def filter_empty_conv split: option.splits)
    finally show ?thesis by blast
  qed
  show ?thesis
  proof (cases "map_of (bulk_loop ?gs []) p")
    case None
    then show ?thesis
      using loop [of p] none by (simp add: res)
  next
    case (Some s)
    then show ?thesis
      using loop [of p] none tot [of "\<lambda>_. True"] tot [of "\<lambda>st. st = ''COMPLETED''"] tot [of "\<lambda>x. x = st" for st]
      by (simp add: res number_of_def no_trials_def)
  qed
qed

text \<open>One cancelled trial ends the loop: with the groups in this order the completed trial is not counted.\<close>

lemma cancelled_trial_hides_others:
  "bulk_loop [(p, ''CANCELLED'', 1), (p, ''COMPLETED'', 1)] [] = [(p, no_trials\<lparr>hs_trial_count := 1\<rparr>)]"
  by (simp add: summary_for_def no_trials_def)

definition search_of_two :: db where
  "search_of_two =
     (let r = \<lparr>mr_model_run_id = ''t'', mr_dataset_id = ''d'', mr_name = ''n'', mr_status = ''COMPLETED'', mr_artifact_path = None, mr_error = None,
               mr_request_id = '''', mr_training_config = JNull, mr_hpo_config = None, mr_parent_run_id = Some ''p'', mr_trial_index = Some 0,
               mr_trial_params = None, mr_best_trial_run_id = None, mr_best_metric_value = None, mr_best_metric_name = None,
               mr_selection_metric_direction = None, mr_tie_break_basis = None, mr_is_eligible = True, mr_eligibility_reason = None,
               mr_selection_metric_value = None, mr_candidate_fingerprint = None, mr_generator_version = None, mr_seed_used = None,
               mr_error_summary = None, mr_error_aggregates = None, mr_selection_metric_source = None, mr_selection_metric_computed_at = None,
               mr_created_at = 0, mr_completed_at = None, mr_updated_at = 0\<rparr>
      in two_rows\<lparr>model_runs := [r, r\<lparr>mr_model_run_id := ''u'', mr_status := ''RUNNING''\<rparr>]\<rparr>)"

theorem bulk_summaries_exact_witness:
  "\<exists>s. map_of (GetBulkHpoTrialSummaries id_listing [''p''] search_of_two) ''p'' = Some s \<and> hs_trial_count s = 2 \<and> hs_completed_count s = 1"
proof -
  let ?ts = "filter (\<lambda>r. mr_parent_run_id r = Some ''p'') (model_runs search_of_two)"
  have ts: "length ?ts = 2" "number_of (\<lambda>r. mr_status r = ''COMPLETED'') ?ts = 1"
    by (simp_all add: search_of_two_def number_of_def)
  have "\<forall>r \<in> set (trials_of [''p''] search_of_two). known_status (mr_status r)"
    by (simp add: trials_of_def search_of_two_def known_status_def)
  moreover have "fair_order id_listing" "lv_fault id_listing 1 = None"
    by (simp_all add: fair_order_def id_listing_def)
  ultimately show ?thesis
    using bulk_summaries_exact [of id_listing "''p''" "[''p'']" search_of_two ?ts] ts by (auto split: option.splits)
qed

end
