(* ===== verification/Api_Analytics.thy ===== *)
theory Api_Analytics
  imports Analytics Api_Jobs Iso_Time
begin

text \<open>
  The handlers of \<^verbatim>\<open>src/src/api_server.cpp\<close> that answer with analytics of a dataset or of a model: they read the query
  parameters, call one query of \<open>Analytics\<close> (two for a time series with a baseline), and wrap
  the result in a document. How long the queries take, the time of day and what \<^verbatim>\<open>std::stod\<close> reads are parameters.
\<close>

section \<open>Environment and answers\<close>

record analytics_env =
  nv_query :: "nat \<Rightarrow> query_env"
  nv_stod :: "string \<Rightarrow> real option"
  nv_duration_ms :: real
  nv_server_time :: string
  nv_fault :: "cpp_exception option"
  nv_time_text :: "int \<Rightarrow> string"

definition BuildDebugMeta :: "real \<Rightarrow> int \<Rightarrow> json \<Rightarrow> json" where
  "BuildDebugMeta duration_ms row_count resolved =
     (let meta = jset ''row_count'' (JInt row_count) (jset ''duration_ms'' (JReal duration_ms) JNull) in
      if jempty resolved then meta else jset ''resolved'' resolved meta)"

text \<open>The two shapes of the handlers' \<^verbatim>\<open>catch\<close> clauses.\<close>

definition query_failed :: "cpp_exception \<Rightarrow> string \<Rightarrow> api \<Rightarrow> HttpResponse outcome \<times> api" where
  "query_failed e rid a = send_error (what e) 500 kErrDbQueryFailed rid a"

definition argument_or_query_failed :: "cpp_exception \<Rightarrow> string \<Rightarrow> api \<Rightarrow> HttpResponse outcome \<times> api" where
  "argument_or_query_failed e rid a =
     (case e of Invalid_argument m \<Rightarrow> send_error m 400 kErrHttpInvalidArgument rid a | _ \<Rightarrow> query_failed e rid a)"

definition row_filter_of :: "HttpRequest \<Rightarrow> row_filter" where
  "row_filter_of req =
     \<lparr>rf_region = GetStrParam req ''region'', rf_is_anomaly = GetStrParam req ''is_anomaly'',
      rf_anomaly_type = GetStrParam req ''anomaly_type'', rf_start_time = GetStrParam req ''start_time'',
      rf_end_time = GetStrParam req ''end_time''\<rparr>"

definition debug_of :: "HttpRequest \<Rightarrow> bool" where
  "debug_of req \<longleftrightarrow> GetStrParam req ''debug'' = ''true''"

definition set_meta :: "(string \<times> json) list \<Rightarrow> json \<Rightarrow> json" where
  "set_meta kvs j = fold (\<lambda>(k, v). jset2 ''meta'' k v) kvs j"

definition timing_meta :: "analytics_env \<Rightarrow> int \<Rightarrow> string \<Rightarrow> (string \<times> json) list" where
  "timing_meta env returned rid =
     [(''duration_ms'', JReal (nv_duration_ms env)), (''rows_scanned'', JNull), (''rows_returned'', JInt returned),
      (''cache_hit'', JBool False), (''request_id'', JStr rid)]"

section \<open>Summary\<close>

definition count_json :: "string \<times> int \<Rightarrow> json" where
  "count_json item = jobject [(''label'', JStr (fst item)), (''count'', JInt (snd item))]"

definition trend_json :: "query_env \<Rightarrow> trend_point \<Rightarrow> json" where
  "trend_json q p = jobject
     [(''ts'', JStr (qv_text q (tp_hour p))), (''anomaly_rate'', JReal (tp_anomaly_rate p)), (''total'', JInt (tp_total p))]"

definition summary_json :: "query_env \<Rightarrow> DatasetSummary \<Rightarrow> json" where
  "summary_json q s = jobject
     [(''row_count'', JInt (ds_row_count s)),
      (''time_range'', jobject [(''min_ts'', JStr (ds_min_ts s)), (''max_ts'', JStr (ds_max_ts s))]),
      (''anomaly_rate'', JReal (ds_anomaly_rate s)), (''anomaly_type_counts'', JArr (map count_json (ds_type_counts s))),
      (''distinct_counts'', jobject [(''host_id'', JInt (ds_hosts s)), (''project_id'', JInt (ds_projects s)), (''region'', JInt (ds_regions s))]),
      (''ingestion_latency_p50'', JReal (ds_latency_p50 s)), (''ingestion_latency_p95'', JReal (ds_latency_p95 s)),
      (''anomaly_rate_trend'', JArr (map (trend_json q) (ds_trend s)))]"

definition HandleDatasetSummary :: "analytics_env \<Rightarrow> HttpRequest \<Rightarrow> api \<Rightarrow> HttpResponse outcome \<times> api" where
  "HandleDatasetSummary env req a =
     (let rid = hr_rid req; topk = GetIntParam req ''topk'' 5 in
      case GetDatasetSummary (nv_query env 0) (hr_match req) topk (ap_db a) of
        Inl e \<Rightarrow> query_failed e rid a
      | Inr s \<Rightarrow>
          let summary = summary_json (nv_query env 0) s in
          if jempty summary then send_error ''Dataset not found'' 404 kErrHttpNotFound rid a
          else
            let j1 = set_meta (timing_meta env 1 rid) summary;
                j2 = (if debug_of req then jset ''debug'' (BuildDebugMeta (nv_duration_ms env) (ds_row_count s) (JObj [])) j1 else j1)
            in (Returned (SendJson (set_meta [(''server_time'', JStr (nv_server_time env))] j2) 200 rid), a))"

section \<open>Top values, time series, histograms\<close>

definition topk_columns :: "string list" where
  "topk_columns = [''region'', ''project_id'', ''host_id'', ''anomaly_type'']"

definition range_meta :: "HttpRequest \<Rightarrow> (string \<times> json) list" where
  "range_meta req = [(''start_time'', JStr (GetStrParam req ''start_time'')), (''end_time'', JStr (GetStrParam req ''end_time''))]"

definition topk_json :: "analytics_env \<Rightarrow> HttpRequest \<Rightarrow> int \<Rightarrow> string \<Rightarrow> TopK \<Rightarrow> json" where
  "topk_json env req k column r =
     (let n = int (length (tk_items r));
          meta = BuildResponseMeta \<lparr>ma_limit = k, ma_returned = n, ma_truncated = tk_truncated r, ma_total_distinct = tk_total_distinct r,
                   ma_reason = ''top_k_limit'', ma_bins_requested = None, ma_bins_returned = None\<rparr>;
          resp = set_meta (range_meta req @ [(''server_time'', JStr (nv_server_time env))] @ timing_meta env n (hr_rid req))
                   (jset ''meta'' meta (jset ''items'' (JArr (map count_json (tk_items r))) JNull))
      in if debug_of req
         then jset ''debug'' (BuildDebugMeta (nv_duration_ms env) n (jobject [(''column'', JStr column)])) resp else resp)"

definition HandleDatasetTopK :: "analytics_env \<Rightarrow> HttpRequest \<Rightarrow> api \<Rightarrow> HttpResponse outcome \<times> api" where
  "HandleDatasetTopK env req a =
     (let rid = hr_rid req; column = GetStrParam req ''column''; k = GetIntParam req ''k'' 10 in
      if column \<notin> set topk_columns then send_error ''Invalid column'' 400 kErrHttpInvalidArgument rid a
      else
        let with_total = (GetStrParam req ''include_total_distinct'' = ''true'') in
        case GetTopK (nv_query env 0) (hr_match req) column k (row_filter_of req) with_total (ap_db a) of
          Inl e \<Rightarrow> argument_or_query_failed e rid a
        | Inr r \<Rightarrow> (Returned (SendJson (topk_json env req k column r) 200 rid), a))"

text \<open>The pieces between commas, without the empty ones.\<close>

fun split_at_commas :: "string \<Rightarrow> string list" where
  "split_at_commas [] = [[]]"
| "split_at_commas (c # cs) =
     (if c = CHR '','' then [] # split_at_commas cs
      else case split_at_commas cs of [] \<Rightarrow> [[c]] | w # ws \<Rightarrow> (c # w) # ws)"

definition comma_list :: "string \<Rightarrow> string list" where
  "comma_list s = filter (\<lambda>w. w \<noteq> []) (split_at_commas s)"

definition bucket_seconds_of :: "string \<Rightarrow> string \<Rightarrow> string \<Rightarrow> int" where
  "bucket_seconds_of bucket start_time end_time =
     (if bucket = ''1m'' then 60 else if bucket = ''5m'' then 300 else if bucket = ''15m'' then 900 else if bucket = ''1h'' then 3600
      else if bucket = ''6h'' then 21600 else if bucket = ''1d'' then 86400 else if bucket = ''7d'' then 604800
      else if bucket = '''' \<or> bucket = ''auto'' then SelectBucketSeconds start_time end_time
      else 3600)"

definition series_json :: "query_env \<Rightarrow> series_point \<Rightarrow> json" where
  "series_json q p =
     jset ''count'' (JInt (sp_count p))
       (fold (\<lambda>(k, v). jset k (JReal v)) (sp_values p) (jset ''ts'' (JStr (qv_text q (sp_bucket p * 1000000000))) JNull))"

definition time_series_json ::
  "analytics_env \<Rightarrow> HttpRequest \<Rightarrow> string list \<Rightarrow> string list \<Rightarrow> int \<Rightarrow> (string \<times> string) option \<Rightarrow> series_point list \<Rightarrow> series_point list \<Rightarrow> json" where
  "time_series_json env req metrics aggs w window data baseline =
     (let n = int (length data);
          j1 = jset ''items'' (JArr (map (series_json (nv_query env 0)) data)) JNull;
          j2 = (if window \<noteq> None then jset ''baseline'' (JArr (map (series_json (nv_query env 1)) baseline)) j1 else j1);
          j3 = set_meta (range_meta req @ [(''bucket_seconds'', JInt w), (''resolution'', JStr (BucketLabel w))])
                 (jset ''bucket_seconds'' (JInt w) j2);
          j4 = (case window of None \<Rightarrow> j3
                | Some (ws, we) \<Rightarrow> set_meta [(''compare_mode'', JStr (GetStrParam req ''compare_mode'')),
                                           (''baseline_start_time'', JStr ws), (''baseline_end_time'', JStr we)] j3);
          j5 = set_meta ((''server_time'', JStr (nv_server_time env)) # timing_meta env n (hr_rid req)) j4
      in if debug_of req
         then jset ''debug'' (BuildDebugMeta (nv_duration_ms env) n
                (jobject [(''metrics'', JArr (map JStr metrics)), (''aggs'', JArr (map JStr aggs)), (''bucket_seconds'', JInt w)])) j5
         else j5)"

definition baseline_window :: "HttpRequest \<Rightarrow> (string \<times> string) option" where
  "baseline_window req =
     (if GetStrParam req ''compare_mode'' = ''previous_period''
      then PreviousPeriodWindow (GetStrParam req ''start_time'') (GetStrParam req ''end_time'') else None)"

definition HandleDatasetTimeSeries :: "analytics_env \<Rightarrow> HttpRequest \<Rightarrow> api \<Rightarrow> HttpResponse outcome \<times> api" where
  "HandleDatasetTimeSeries env req a =
     (let rid = hr_rid req; run_id = hr_match req; metrics = comma_list (GetStrParam req ''metrics'');
          compare_mode = GetStrParam req ''compare_mode''; aggs_param = GetStrParam req ''aggs'';
          aggs = comma_list (if aggs_param = '''' then ''mean'' else aggs_param);
          f = row_filter_of req; w = bucket_seconds_of (GetStrParam req ''bucket'') (rf_start_time f) (rf_end_time f);
          window = baseline_window req
      in
      if metrics = [] then send_error ''metrics required'' 400 kErrHttpInvalidArgument rid a
      else if compare_mode \<noteq> '''' \<and> compare_mode \<noteq> ''previous_period''
      then send_error ''compare_mode must be previous_period'' 400 kErrHttpInvalidArgument rid a
      else if compare_mode = ''previous_period'' \<and> window = None
      then send_error ''compare_mode requires start_time and end_time'' 400 kErrHttpInvalidArgument rid a
      else
        case GetTimeSeries (nv_query env 0) run_id metrics aggs w f (ap_db a) of
          Inl e \<Rightarrow> argument_or_query_failed e rid a
        | Inr data \<Rightarrow>
            (case window of
               None \<Rightarrow> (Returned (SendJson (time_series_json env req metrics aggs w None data []) 200 rid), a)
             | Some (ws, we) \<Rightarrow>
                 (case GetTimeSeries (nv_query env 1) run_id metrics aggs w (f\<lparr>rf_start_time := ws, rf_end_time := we\<rparr>) (ap_db a) of
                    Inl e \<Rightarrow> argument_or_query_failed e rid a
                  | Inr baseline \<Rightarrow>
                      (Returned (SendJson (time_series_json env req metrics aggs w window data baseline) 200 rid), a))))"

definition histogram_json :: "analytics_env \<Rightarrow> HttpRequest \<Rightarrow> string \<Rightarrow> int \<Rightarrow> real \<Rightarrow> real \<Rightarrow> Histogram \<Rightarrow> json" where
  "histogram_json env req metric bins min_val max_val h =
     (let requested = hg_requested_bins h; returned = int (length (hg_counts h)); truncated = (requested > returned);
          meta = BuildResponseMeta \<lparr>ma_limit = requested, ma_returned = returned, ma_truncated = truncated, ma_total_distinct = None,
                   ma_reason = (if truncated then ''max_bins_cap'' else ''histogram_bins''),
                   ma_bins_requested = Some requested, ma_bins_returned = Some returned\<rparr>;
          data = jobject [(''requested_bins'', JInt requested), (''edges'', JArr (map (jnullable JReal) (hg_edges h))),
                          (''counts'', JArr (map JInt (hg_counts h)))];
          j1 = set_meta (range_meta req @ [(''server_time'', JStr (nv_server_time env))] @ timing_meta env returned (hr_rid req))
                 (jset ''meta'' meta data)
      in if debug_of req
         then jset ''debug'' (BuildDebugMeta (nv_duration_ms env) returned
                (jobject [(''metric'', JStr metric), (''bins'', JInt bins), (''min'', JReal min_val), (''max'', JReal max_val)])) j1
         else j1)"

definition HandleDatasetHistogram :: "analytics_env \<Rightarrow> HttpRequest \<Rightarrow> api \<Rightarrow> HttpResponse outcome \<times> api" where
  "HandleDatasetHistogram env req a =
     (let rid = hr_rid req; metric = GetStrParam req ''metric''; bins = GetIntParam req ''bins'' 40;
          minmax = (GetStrParam req ''range'' = ''minmax'');
          min_val = (if minmax then 0 else GetDoubleParam (nv_stod env) req ''min'' 0);
          max_val = (if minmax then 0 else GetDoubleParam (nv_stod env) req ''max'' 0)
      in
      if metric = '''' then send_error ''metric required'' 400 kErrHttpInvalidArgument rid a
      else
        case GetHistogram (nv_query env 0) (hr_match req) metric bins min_val max_val (row_filter_of req) (ap_db a) of
          Inl e \<Rightarrow> argument_or_query_failed e rid a
        | Inr h \<Rightarrow> (Returned (SendJson (histogram_json env req metric bins min_val max_val h) 200 rid), a))"

section \<open>Statistics\<close>

text \<open>\<open>metric\<close> is the second part of the path, \<^verbatim>\<open>/datasets/{id}/metrics/{metric}\<close>.\<close>

definition HandleGetDatasetMetricStats :: "analytics_env \<Rightarrow> string \<Rightarrow> HttpRequest \<Rightarrow> api \<Rightarrow> HttpResponse outcome \<times> api" where
  "HandleGetDatasetMetricStats env metric req a =
     (case GetMetricStats (nv_query env 0) (hr_match req) metric (ap_db a) of
        Inl e \<Rightarrow> argument_or_query_failed e (hr_rid req) a
      | Inr s \<Rightarrow> (Returned (SendJson (jobject
            [(''count'', JInt (st_count s)), (''min'', JReal (st_min s)), (''max'', JReal (st_max s)), (''mean'', JReal (st_mean s)),
             (''p50'', JReal (st_p50 s)), (''p95'', JReal (st_p95 s)), (''missing_count'', JInt 0)]) 200 (hr_rid req)), a))"

definition HandleGetDatasetMetricsSummary :: "analytics_env \<Rightarrow> HttpRequest \<Rightarrow> api \<Rightarrow> HttpResponse outcome \<times> api" where
  "HandleGetDatasetMetricsSummary env req a =
     (case GetDatasetMetricsSummary (nv_query env 0) (hr_match req) (ap_db a) of
        Inl e \<Rightarrow> query_failed e (hr_rid req) a
      | Inr ms \<Rightarrow> (Returned (SendJson (jobject
            [(''high_variance'', JArr (map (\<lambda>(k, v). jobject [(''key'', JStr k), (''stddev'', JReal v)]) ms)),
             (''high_missingness'', JArr [])]) 200 (hr_rid req)), a))"

section \<open>Evaluation\<close>

definition roc_json :: "RocPoint \<Rightarrow> json" where
  "roc_json p = jobject [(''fpr'', JReal (rp_fpr p)), (''tpr'', JReal (rp_tpr p)), (''threshold'', JReal (rp_threshold p))]"

definition pr_json :: "RocPoint \<Rightarrow> json" where
  "pr_json p = jobject [(''precision'', JReal (rp_precision p)), (''recall'', JReal (rp_tpr p)), (''threshold'', JReal (rp_threshold p))]"

definition eval_json :: "EvalMetrics option \<Rightarrow> json" where
  "eval_json m = (case m of None \<Rightarrow> JNull | Some e \<Rightarrow>
     (let out = jobject
            [(''confusion'', jobject [(''tp'', JInt (em_tp e)), (''fp'', JInt (em_fp e)), (''tn'', JInt (em_tn e)), (''fn'', JInt (em_fn e))]),
             (''roc'', JArr (map roc_json (em_points e))), (''pr'', JArr (map pr_json (em_points e)))]
      in add_run_metadata (em_model e) out))"

definition jarray_size :: "json \<Rightarrow> int" where
  "jarray_size j = (case j of JArr xs \<Rightarrow> int (length xs) | _ \<Rightarrow> 0)"

definition HandleModelEval :: "analytics_env \<Rightarrow> HttpRequest \<Rightarrow> api \<Rightarrow> HttpResponse outcome \<times> api" where
  "HandleModelEval env req a =
     (let rid = hr_rid req; dataset_id = GetStrParam req ''dataset_id'';
          points = GetIntParam req ''points'' 50; max_samples = GetIntParam req ''max_samples'' 20000 in
      if dataset_id = '''' then send_error ''dataset_id required'' 400 kErrHttpBadRequest rid a
      else
        let ev = eval_json (GetEvalMetrics (nv_query env 0) (nv_fault env) (nv_time_text env) dataset_id (hr_match req) points max_samples (ap_db a)) in
        if debug_of req then
          (case jvalue Inr ev ''roc'' (JArr []) of
             Inl e \<Rightarrow> query_failed e rid a
           | Inr roc \<Rightarrow> (Returned (SendJson (jset ''debug'' (BuildDebugMeta (nv_duration_ms env) (jarray_size roc)
                 (jobject [(''points'', JInt points), (''max_samples'', JInt max_samples)])) ev) 200 rid), a))
        else (Returned (SendJson ev 200 rid), a))"

definition error_group_json :: "error_group \<Rightarrow> json" where
  "error_group_json g = jobject
     [(''label'', JStr (eg_label g)), (''count'', JInt (eg_count g)), (''mean'', JReal (eg_mean g)), (''p50'', JReal (eg_p50 g)),
      (''p95'', JReal (eg_p95 g))]"

definition error_groupings :: "(string \<times> string) list" where
  "error_groupings = [(''anomaly_type'', ''h.anomaly_type''), (''region'', ''h.region''), (''project_id'', ''h.project_id'')]"

definition HandleModelErrorDistribution :: "analytics_env \<Rightarrow> HttpRequest \<Rightarrow> api \<Rightarrow> HttpResponse outcome \<times> api" where
  "HandleModelErrorDistribution env req a =
     (let rid = hr_rid req; dataset_id = GetStrParam req ''dataset_id''; group_by = GetStrParam req ''group_by'' in
      if dataset_id = '''' \<or> group_by = '''' then send_error ''dataset_id and group_by required'' 400 kErrHttpBadRequest rid a
      else case map_of error_groupings group_by of
        None \<Rightarrow> send_error ''Invalid group_by'' 400 kErrHttpInvalidArgument rid a
      | Some col \<Rightarrow>
          (case GetErrorDistribution (nv_query env 0) dataset_id (hr_match req) col (ap_db a) of
             Inl e \<Rightarrow> argument_or_query_failed e rid a
           | Inr groups \<Rightarrow>
               let resp = jset ''items'' (JArr (map error_group_json groups)) JNull;
                   out = (if debug_of req then jset ''debug'' (BuildDebugMeta (nv_duration_ms env) (int (length groups))
                            (jobject [(''group_by'', JStr col)])) resp else resp)
               in (Returned (SendJson out 200 rid), a)))"

section \<open>What the handlers do to the server\<close>

text \<open>A request is answered without touching the state, or refused, which only adds one to the error counter.\<close>

definition harmless :: "api \<Rightarrow> HttpResponse outcome \<times> api \<Rightarrow> bool" where
  "harmless a r \<longleftrightarrow> (\<exists>resp. fst r = Returned resp
     \<and> (rs_status resp = 200 \<and> snd r = a
        \<or> rs_status resp \<in> {400, 500}
          \<and> (\<exists>code. snd r = a\<lparr>ap_registry := Increment ''http_errors_total''
                [(''code'', code), (''status'', to_string (rs_status resp))] 1 (ap_registry a)\<rparr>)))"

lemma harmless_ok [intro!]: "harmless a (Returned (SendJson j 200 rid), a)"
  by (simp add: harmless_def)

lemma harmless_send_error [intro]: "st \<in> {400, 500} \<Longrightarrow> harmless a (send_error m st c rid a)"
  by (auto simp: harmless_def send_error_def SendError_def SendJson_def)

lemma harmless_failed [intro!]: "harmless a (query_failed e rid a)" "harmless a (argument_or_query_failed e rid a)"
  by (auto simp: argument_or_query_failed_def query_failed_def split: cpp_exception.split)

lemma summary_not_empty: "\<not> jempty (summary_json q s)"
  by (simp add: summary_json_def jobject_def jempty_def)

definition analytics_handlers :: "(analytics_env \<Rightarrow> HttpRequest \<Rightarrow> api \<Rightarrow> HttpResponse outcome \<times> api) list" where
  "analytics_handlers =
     [HandleDatasetSummary, HandleDatasetTopK, HandleDatasetTimeSeries, HandleDatasetHistogram, HandleGetDatasetMetricsSummary,
      HandleModelEval, HandleModelErrorDistribution]"

text \<open>
  The analytics requests only read: whatever a request asks and whatever fails, each of these handlers
  returns a response and leaves the tables, the jobs and the model cache as they were. Either the status is
  200 and nothing at all changes, or it is 400 or 500 and the error counter of that status goes up by one;
  it is never 404, also not for a dataset that does not exist.
\<close>

theorem analytics_read_only:
  "list_all (\<lambda>h. harmless a (h env req a)) analytics_handlers \<and> harmless a (HandleGetDatasetMetricStats env metric req a)"
proof -
  have "harmless a (HandleDatasetSummary env req a)"
    by (auto simp: HandleDatasetSummary_def Let_def summary_not_empty split: sum.split)
  moreover have "harmless a (HandleDatasetTopK env req a)"
    by (auto simp: HandleDatasetTopK_def Let_def split: sum.split)
  moreover have "harmless a (HandleDatasetTimeSeries env req a)"
    by (auto simp: HandleDatasetTimeSeries_def Let_def split: sum.split option.split)
  moreover have "harmless a (HandleDatasetHistogram env req a)"
    by (auto simp: HandleDatasetHistogram_def Let_def split: sum.split)
  moreover have "harmless a (HandleGetDatasetMetricsSummary env req a)" "harmless a (HandleGetDatasetMetricStats env metric req a)"
    by (auto simp: HandleGetDatasetMetricsSummary_def HandleGetDatasetMetricStats_def split: sum.split)
  moreover have "harmless a (HandleModelEval env req a)"
    by (auto simp: HandleModelEval_def Let_def split: sum.split)
  moreover have "harmless a (HandleModelErrorDistribution env req a)"
    by (auto simp: HandleModelErrorDistribution_def Let_def split: sum.split option.split)
  ultimately show ?thesis
    by (simp add: analytics_handlers_def)
qed

text \<open>A failure of the evaluation query is not reported: the answer is 200 with the request identifier alone.\<close>

lemma eval_failure_hidden:
  assumes "qv_fault (nv_query env 0) \<noteq> None" and "GetStrParam req ''dataset_id'' \<noteq> ''''" and "\<not> debug_of req" and "hr_rid req \<noteq> ''''"
  shows "HandleModelEval env req a = (Returned \<lparr>rs_status = 200, rs_body = JObj [(''request_id'', JStr (hr_rid req))]\<rparr>, a)"
  using assms by (simp add: HandleModelEval_def GetEvalMetrics_def eval_json_def SendJson_def Let_def)

section \<open>The comparison with the previous period\<close>

lemma passes_other_window: "passes (f\<lparr>rf_start_time := x, rf_end_time := y\<rparr>) = passes f"
  by (intro ext) (simp add: passes_def)

text \<open>
  A time series compared with the previous period: for readable times \<open>s < e\<close> the baseline covers the
  interval of the same length that ends at \<open>s\<close>. Both intervals are closed, so a row of the dataset
  that the other filters let through is used for both series exactly when its time is \<open>s\<close>.
\<close>

theorem baseline_overlap:
  assumes "GetStrParam req ''compare_mode'' = ''previous_period''" and "f = row_filter_of req"
    and "ParseIsoTime (rf_start_time f) = Some (from_time_t s)" and "ParseIsoTime (rf_end_time f) = Some (from_time_t e)"
    and "s < e" and "four_digit_year s" and "four_digit_year (s - (e - s))" and "qv_time env = ParseIsoTime"
  shows "\<exists>ws we now before. baseline_window req = Some (ws, we)
    \<and> filtered_records env run_id f d = Inr now
    \<and> filtered_records env run_id (f\<lparr>rf_start_time := ws, rf_end_time := we\<rparr>) d = Inr before
    \<and> (\<forall>r \<in> set before. from_time_t (s - (e - s)) \<le> metric_timestamp r \<and> metric_timestamp r \<le> from_time_t s)
    \<and> (\<forall>r \<in> set now. from_time_t s \<le> metric_timestamp r \<and> metric_timestamp r \<le> from_time_t e)
    \<and> set now \<inter> set before = {r \<in> set now. metric_timestamp r = from_time_t s}"
proof -
  let ?ws = "FormatIsoTime (from_time_t (s - (e - s)))" and ?we = "FormatIsoTime (from_time_t s)"
  have empty: "ParseIsoTime '''' = None"
    by (simp add: ParseIsoTime_def)
  have nonempty: "rf_start_time f \<noteq> ''''" "rf_end_time f \<noteq> ''''" "?ws \<noteq> ''''" "?we \<noteq> ''''"
    using assms(3,4) empty parse_format [OF assms(6)] parse_format [OF assms(7)] by (metis option.distinct(1))+
  have "from_time_t s - (from_time_t e - from_time_t s) = from_time_t (s - (e - s))"
    by (simp add: from_time_t_def left_diff_distrib)
  moreover have "\<not> from_time_t e \<le> from_time_t s"
    using assms(5) by (simp add: from_time_t_def)
  ultimately have window: "baseline_window req = Some (?ws, ?we)"
    using assms(1,2,3,4) by (simp add: baseline_window_def PreviousPeriodWindow_def row_filter_of_def Let_def)
  have now: "filtered_records env run_id f d = Inr (filter (passes f (Some (from_time_t s)) (Some (from_time_t e))) (dataset_records run_id d))"
    using assms(3,4,8) nonempty by (simp add: filtered_records_def time_bound_def cbind_def)
  have before: "filtered_records env run_id (f\<lparr>rf_start_time := ?ws, rf_end_time := ?we\<rparr>) d
      = Inr (filter (passes f (Some (from_time_t (s - (e - s)))) (Some (from_time_t s))) (dataset_records run_id d))"
    using parse_format [OF assms(6)] parse_format [OF assms(7)] assms(8) nonempty
    by (simp add: filtered_records_def time_bound_def cbind_def passes_other_window)
  have order: "from_time_t (s - (e - s)) \<le> from_time_t s" "from_time_t s \<le> from_time_t e"
    using assms(5) by (simp_all add: from_time_t_def)
  show ?thesis
    by (intro exI conjI, rule window, rule now, rule before) (use order in \<open>auto simp: passes_def\<close>)
qed

definition compare_request :: HttpRequest where
  "compare_request = \<lparr>hr_body = '''', hr_params = [(''compare_mode'', ''previous_period''),
      (''end_time'', FormatIsoTime (from_time_t 1767312000)), (''start_time'', FormatIsoTime (from_time_t 1767225600))],
     hr_match = ''d'', hr_rid = ''r''\<rparr>"

theorem baseline_overlap_witness:
  "\<exists>ws we now before. baseline_window compare_request = Some (ws, we)
    \<and> filtered_records (quiet_queries\<lparr>qv_time := ParseIsoTime\<rparr>) ''d'' (row_filter_of compare_request) two_rows = Inr now
    \<and> filtered_records (quiet_queries\<lparr>qv_time := ParseIsoTime\<rparr>) ''d'' ((row_filter_of compare_request)\<lparr>rf_start_time := ws, rf_end_time := we\<rparr>) two_rows = Inr before
    \<and> set now \<inter> set before = {r \<in> set now. metric_timestamp r = from_time_t 1767225600}"
proof -
  have "march_year 739922 = 2025" "march_year 739923 = 2025" "march_year 739921 = 2025" "year_start 2025 = 739616"
    by (simp_all add: march_year_def year_start_def Let_def)
  then have y: "four_digit_year 1767225600" "four_digit_year 1767312000" "four_digit_year 1767139200"
    by (simp_all add: four_digit_year_def gmtime_def)
  have p: "GetStrParam compare_request ''compare_mode'' = ''previous_period''"
    "ParseIsoTime (rf_start_time (row_filter_of compare_request)) = Some (from_time_t 1767225600)"
    "ParseIsoTime (rf_end_time (row_filter_of compare_request)) = Some (from_time_t 1767312000)"
    using parse_format [OF y(1)] parse_format [OF y(2)] by (simp_all add: compare_request_def GetStrParam_def row_filter_of_def)
  show ?thesis
    using baseline_overlap [OF p(1) refl p(2,3) _ y(1), of "quiet_queries\<lparr>qv_time := ParseIsoTime\<rparr>" "''d''" two_rows] y(3)
    by simp blast
qed

end
