(* ===== verification/Api_Listings.thy ===== *)
theory Api_Listings
  imports Listings Api_Analytics
begin

text \<open>
  The handlers of \<^verbatim>\<open>src/src/api_server.cpp\<close> that list and look up datasets, records, models, scores, inference runs and
  jobs. Only the request counters and, for scores, the query metrics change. The generator service
  behind \<^verbatim>\<open>GET /datasets/{id}\<close> is a parameter.
\<close>

section \<open>Responses\<close>

text \<open>
  \<^verbatim>\<open>SendJson\<close> adds the request identifier by \<^verbatim>\<open>j["request_id"] = ...\<close>, which throws on an array. All other handlers
  send objects, for which it is \<open>SendJson\<close> of \<open>Api_Common\<close>.
\<close>

definition SendJson_any :: "json \<Rightarrow> int \<Rightarrow> string \<Rightarrow> HttpResponse cpp" where
  "SendJson_any j status rid =
     (if rid \<noteq> '''' \<and> \<not> jcontains j ''request_id'' \<and> j \<noteq> JNull \<and> \<not> jis_object j
      then Inl (Json_type_error ''cannot use operator[] with a string argument'')
      else Inr (SendJson j status rid))"

definition send_any :: "json \<Rightarrow> string \<Rightarrow> api \<Rightarrow> HttpResponse outcome \<times> api" where
  "send_any j rid a = (case SendJson_any j 200 rid of Inl e \<Rightarrow> query_failed e rid a | Inr resp \<Rightarrow> (Returned resp, a))"

definition page_json :: "json list \<Rightarrow> int \<Rightarrow> int \<Rightarrow> json" where
  "page_json items limit offset = jobject [(''items'', JArr items), (''limit'', JInt limit), (''offset'', JInt offset)]"

section \<open>Datasets\<close>

definition HandleListDatasets :: "listing_env \<Rightarrow> HttpRequest \<Rightarrow> api \<Rightarrow> HttpResponse outcome \<times> api" where
  "HandleListDatasets env req a =
     (let rid = hr_rid req; limit = GetIntParam req ''limit'' 50; offset = GetIntParam req ''offset'' 0 in
      case ListGenerationRuns env limit offset (GetStrParam req ''status'') (GetStrParam req ''created_from'')
             (GetStrParam req ''created_to'') (ap_db a) of
        Inl e \<Rightarrow> query_failed e rid a
      | Inr runs \<Rightarrow> (Returned (SendJson (page_json runs limit offset) 200 rid), a))"

text \<open>What \<^verbatim>\<open>GetRun\<close> of the generator service answers: a status, or an error message.\<close>

record RunStatusReply =
  rr_run_id :: string
  rr_status :: string
  rr_inserted_rows :: int
  rr_error :: string

definition HandleGetDataset ::
  "listing_env \<Rightarrow> (string \<Rightarrow> string + RunStatusReply) \<Rightarrow> HttpRequest \<Rightarrow> api \<Rightarrow> HttpResponse outcome \<times> api" where
  "HandleGetDataset env get_run req a =
     (let rid = hr_rid req; run_id = hr_match req;
          fallback = (case get_run run_id of
            Inr r \<Rightarrow> (Returned (SendJson (jobject [(''run_id'', JStr (rr_run_id r)), (''status'', JStr (rr_status r)),
                       (''rows_inserted'', JInt (rr_inserted_rows r)), (''error'', JStr (rr_error r))]) 200 rid), a)
          | Inl m \<Rightarrow> send_error (''gRPC Error: '' @ m) 404 kErrHttpNotFound rid a)
      in case GetDatasetDetail env run_id (ap_db a) of
           Inl e \<Rightarrow> fallback
         | Inr detail \<Rightarrow> if \<not> jempty detail then (Returned (SendJson detail 200 rid), a) else fallback)"

definition record_search_of :: "HttpRequest \<Rightarrow> record_search" where
  "record_search_of req =
     \<lparr>rs_limit = GetIntParam req ''limit'' 20, rs_offset = GetIntParam req ''offset'' 0, rs_filter = row_filter_of req,
      rs_host_id = GetStrParam req ''host_id'', rs_sort_by = GetStrParam req ''sort_by'', rs_sort_order = GetStrParam req ''sort_order'',
      rs_anchor_time = GetStrParam req ''anchor_time''\<rparr>"

definition HandleGetDatasetSamples :: "listing_env \<Rightarrow> HttpRequest \<Rightarrow> api \<Rightarrow> HttpResponse outcome \<times> api" where
  "HandleGetDatasetSamples env req a =
     (case SearchDatasetRecords env (hr_match req) (record_search_of req) (ap_db a) of
        Inl e \<Rightarrow> argument_or_query_failed e (hr_rid req) a
      | Inr j \<Rightarrow> (Returned (SendJson j 200 (hr_rid req)), a))"

text \<open>
  \<open>record_text\<close> is the second part of the path, digits only. \<^verbatim>\<open>std::stol\<close> is called before the \<^verbatim>\<open>try\<close> block, so a number
  that does not fit in 64 bits leaves the handler as an exception.
\<close>

definition HandleGetDatasetRecord :: "listing_env \<Rightarrow> string \<Rightarrow> HttpRequest \<Rightarrow> api \<Rightarrow> HttpResponse outcome \<times> api" where
  "HandleGetDatasetRecord env record_text req a =
     (let rid = hr_rid req; n = int (digits_value record_text) in
      if record_text = '''' then (Threw (Invalid_argument ''stol''), a)
      else if n \<ge> 2 ^ 63 then (Threw (Out_of_range ''stol''), a)
      else
        let j = GetDatasetRecord env (hr_match req) n (ap_db a) in
        if jempty j then send_error ''Record not found'' 404 kErrHttpNotFound rid a
        else (Returned (SendJson j 200 rid), a))"

definition HandleGetDatasetModels :: "listing_env \<Rightarrow> HttpRequest \<Rightarrow> api \<Rightarrow> HttpResponse outcome \<times> api" where
  "HandleGetDatasetModels env req a = send_any (JArr (GetModelsForDataset env (hr_match req) (ap_db a))) (hr_rid req) a"

section \<open>Models\<close>

definition model_status_of :: "hpo_summary \<Rightarrow> string option" where
  "model_status_of s =
     (let n = (\<lambda>st. case map_of (hs_status_counts s) st of None \<Rightarrow> 0 | Some k \<Rightarrow> k) in
      if n ''RUNNING'' > 0 \<or> n ''PENDING'' > 0 then Some ''RUNNING''
      else if n ''COMPLETED'' > 0 then Some ''COMPLETED''
      else if n ''FAILED'' > 0 then Some ''FAILED'' else None)"

definition with_summary :: "(string \<times> hpo_summary) list \<Rightarrow> model_run \<Rightarrow> json \<Rightarrow> json" where
  "with_summary summaries r m =
     (case (mr_parent_run_id r, map_of summaries (mr_model_run_id r)) of
        (None, Some s) \<Rightarrow>
          if hs_trial_count s > 0 then
            let m1 = jset ''hpo_summary'' (jobject [(''trial_count'', JInt (hs_trial_count s)), (''completed_count'', JInt (hs_completed_count s)),
                       (''best_metric_value'', jnullable JReal (mr_best_metric_value r)),
                       (''best_metric_name'', jnullable JStr (mr_best_metric_name r))]) m
            in (case model_status_of s of None \<Rightarrow> m1 | Some st \<Rightarrow> jset ''status'' (JStr st) m1)
          else m
      | _ \<Rightarrow> m)"

definition HandleListModels :: "listing_env \<Rightarrow> HttpRequest \<Rightarrow> api \<Rightarrow> HttpResponse outcome \<times> api" where
  "HandleListModels env req a =
     (let limit = GetIntParam req ''limit'' 50; offset = GetIntParam req ''offset'' 0;
          models = ListModelRuns env limit offset (GetStrParam req ''status'') (GetStrParam req ''dataset_id'')
                     (GetStrParam req ''created_from'') (GetStrParam req ''created_to'') (ap_db a);
          parents = map mr_model_run_id (filter (\<lambda>r. mr_parent_run_id r = None) models);
          summaries = GetBulkHpoTrialSummaries env parents (ap_db a)
      in (Returned (SendJson (page_json (map (\<lambda>r. with_summary summaries r (model_item_json env r)) models) limit offset) 200 (hr_rid req)), a))"

definition HandleGetModelScoredDatasets :: "listing_env \<Rightarrow> HttpRequest \<Rightarrow> api \<Rightarrow> HttpResponse outcome \<times> api" where
  "HandleGetModelScoredDatasets env req a = send_any (JArr (GetScoredDatasetsForModel env (hr_match req) (ap_db a))) (hr_rid req) a"

text \<open>\<^verbatim>\<open>GET /models/{id}/trials\<close>: the query refuses a negative limit or offset, and the client returns the empty list.\<close>

definition HandleListTrials :: "listing_env \<Rightarrow> HttpRequest \<Rightarrow> api \<Rightarrow> HttpResponse outcome \<times> api" where
  "HandleListTrials env req a =
     (let limit = GetIntParam req ''limit'' 50; offset = GetIntParam req ''offset'' 0;
          trials = (if limit < 0 \<or> offset < 0 then []
                    else GetHpoTrialsPaginated (lv_fault env 0) (lv_text env) (hr_match req) (nat limit) (nat offset) (ap_db a))
      in (Returned (SendJson (jset ''returned'' (JInt (int (length trials))) (page_json trials limit offset)) 200 (hr_rid req)), a))"

section \<open>Scores, inference runs, jobs\<close>

definition score_query_of :: "(string \<Rightarrow> real option) \<Rightarrow> HttpRequest \<Rightarrow> score_query" where
  "score_query_of stod req =
     \<lparr>sq_dataset_id = GetStrParam req ''dataset_id'', sq_model_run_id = GetStrParam req ''model_run_id'',
      sq_limit = GetIntParam req ''limit'' 50, sq_offset = GetIntParam req ''offset'' 0,
      sq_only_anomalies = (GetStrParam req ''only_anomalies'' = ''true''), sq_min_score = GetDoubleParam stod req ''min_score'' 0,
      sq_max_score = GetDoubleParam stod req ''max_score'' 0\<rparr>"

definition HandleGetScores :: "listing_env \<Rightarrow> (string \<Rightarrow> real option) \<Rightarrow> HttpRequest \<Rightarrow> api \<Rightarrow> HttpResponse outcome \<times> api" where
  "HandleGetScores env stod req a =
     (let rid = hr_rid req; q = score_query_of stod req in
      if sq_dataset_id q = '''' \<or> sq_model_run_id q = '''' then
        send_error ''dataset_id and model_run_id required'' 400 kErrHttpBadRequest rid a
      else case GetScores env q (ap_db a) of (j, d) \<Rightarrow> (Returned (SendJson j 200 rid), a\<lparr>ap_db := d\<rparr>))"

definition HandleListInferenceRuns :: "listing_env \<Rightarrow> HttpRequest \<Rightarrow> api \<Rightarrow> HttpResponse outcome \<times> api" where
  "HandleListInferenceRuns env req a =
     (let limit = GetIntParam req ''limit'' 50; offset = GetIntParam req ''offset'' 0 in
      (Returned (SendJson (page_json (ListInferenceRuns env (GetStrParam req ''dataset_id'') (GetStrParam req ''model_run_id'') limit offset
         (GetStrParam req ''status'') (GetStrParam req ''created_from'') (GetStrParam req ''created_to'') (ap_db a)) limit offset) 200 (hr_rid req)), a))"

definition found_or_404 :: "string \<Rightarrow> json \<Rightarrow> HttpRequest \<Rightarrow> api \<Rightarrow> HttpResponse outcome \<times> api" where
  "found_or_404 m j req a =
     (if jempty j then send_error m 404 kErrHttpNotFound (hr_rid req) a else (Returned (SendJson j 200 (hr_rid req)), a))"

definition HandleGetInferenceRun :: "listing_env \<Rightarrow> HttpRequest \<Rightarrow> api \<Rightarrow> HttpResponse outcome \<times> api" where
  "HandleGetInferenceRun env req a = found_or_404 ''Inference run not found'' (GetInferenceRun env (hr_match req) (ap_db a)) req a"

definition HandleListJobs :: "listing_env \<Rightarrow> HttpRequest \<Rightarrow> api \<Rightarrow> HttpResponse outcome \<times> api" where
  "HandleListJobs env req a =
     (let limit = GetIntParam req ''limit'' 50; offset = GetIntParam req ''offset'' 0 in
      (Returned (SendJson (page_json (ListScoreJobs env limit offset (GetStrParam req ''status'') (GetStrParam req ''dataset_id'')
         (GetStrParam req ''model_run_id'') (GetStrParam req ''created_from'') (GetStrParam req ''created_to'') (ap_db a)) limit offset) 200 (hr_rid req)), a))"

definition HandleGetJobStatus :: "listing_env \<Rightarrow> HttpRequest \<Rightarrow> api \<Rightarrow> HttpResponse outcome \<times> api" where
  "HandleGetJobStatus env req a = found_or_404 ''Job not found'' (GetScoreJob (lv_fault env 0) (lv_text env) (hr_match req) (ap_db a)) req a"

definition HandleGetJobProgress :: "listing_env \<Rightarrow> HttpRequest \<Rightarrow> api \<Rightarrow> HttpResponse outcome \<times> api" where
  "HandleGetJobProgress env req a = found_or_404 ''Job not found'' (GetScoreJob (lv_fault env 0) (lv_text env) (hr_match req) (ap_db a)) req a"

section \<open>Answers\<close>

text \<open>
  The two handlers that answer with a bare array, \<^verbatim>\<open>GET /datasets/{id}/models\<close> and
  \<^verbatim>\<open>GET /models/{id}/datasets/scored\<close>, answer every request that has an identifier with 500: adding the identifier to an array throws.
\<close>

theorem array_answers_refused:
  assumes "hr_rid req \<noteq> ''''" and "h \<in> {HandleGetDatasetModels env, HandleGetModelScoredDatasets env}"
  shows "\<exists>resp. h req a = (Returned resp, a\<lparr>ap_registry := Increment ''http_errors_total''
      [(''code'', ''E_DB_QUERY_FAILED''), (''status'', ''500'')] 1 (ap_registry a)\<rparr>) \<and> rs_status resp = 500"
proof -
  have "send_any (JArr js) (hr_rid req) a = send_error ''cannot use operator[] with a string argument'' 500 kErrDbQueryFailed (hr_rid req) a" for js
    using assms(1) by (simp add: send_any_def SendJson_any_def jis_object_def query_failed_def)
  moreover have "to_string 500 = ''500''"
    by code_simp
  ultimately show ?thesis
    using assms(2)
    by (auto simp: HandleGetDatasetModels_def HandleGetModelScoredDatasets_def send_error_def SendError_def kErrDbQueryFailed_def)
qed

lemma jat_jobject: "jat (jobject kvs) k = (case map_of (rev kvs) k of None \<Rightarrow> Inr JNull | Some v \<Rightarrow> Inr v)"
proof (induction kvs rule: rev_induct)
  case (snoc kv kvs)
  obtain k' v where kv: "kv = (k', v)"
    by fastforce
  have "kvs \<noteq> [] \<Longrightarrow> jis_object (jobject kvs)"
    by (cases kvs rule: rev_cases) (auto simp: jobject_def split: prod.split)
  then show ?case
    using snoc by (cases "kvs = []") (auto simp: jobject_def kv simp del: jat_jset)
qed (simp add: jobject_def)

lemma jis_object_model_item: "jis_object (model_item_json env r)"
  by (simp add: model_item_json_def jobject_def)

text \<open>
  The status that a list of models shows for a run without a parent: that of its trials when it has any.
\<close>

definition shown_status :: "model_run list \<Rightarrow> model_run \<Rightarrow> string" where
  "shown_status trials r =
     (if trials = [] then mr_status r
      else if \<exists>t \<in> set trials. mr_status t \<in> {''RUNNING'', ''PENDING''} then ''RUNNING''
      else if \<exists>t \<in> set trials. mr_status t = ''COMPLETED'' then ''COMPLETED''
      else ''FAILED'')"

lemma number_of_pos: "0 < number_of p xs \<longleftrightarrow> (\<exists>x \<in> set xs. p x)"
  by (auto simp: number_of_def filter_empty_conv)

lemma model_status_of_trials:
  assumes "\<forall>st. status_count s st = number_of (\<lambda>r. mr_status r = st) trials" and "trials \<noteq> []"
    and "\<forall>t \<in> set trials. known_status (mr_status t)"
  shows "model_status_of s = Some (shown_status trials r)"
proof -
  have c: "status_count s st > 0 \<longleftrightarrow> (\<exists>t \<in> set trials. mr_status t = st)" for st
    using assms(1) by (simp add: number_of_pos)
  have "\<exists>t \<in> set trials. mr_status t \<in> {''RUNNING'', ''PENDING'', ''COMPLETED'', ''FAILED''}"
    using assms(2,3) by (cases trials) (auto simp: known_status_def)
  then show ?thesis
    using assms(2) unfolding model_status_of_def Let_def status_count_def [symmetric] c shown_status_def by auto
qed


theorem array_answers_refused_witness:
  "\<exists>resp. HandleGetDatasetModels id_listing compare_request (ex_api\<lparr>ap_db := search_of_two\<rparr>) = (Returned resp, (ex_api\<lparr>ap_db := search_of_two\<rparr>)\<lparr>ap_registry := Increment ''http_errors_total''
      [(''code'', ''E_DB_QUERY_FAILED''), (''status'', ''500'')] 1 (ap_registry (ex_api\<lparr>ap_db := search_of_two\<rparr>))\<rparr>) \<and> rs_status resp = 500"
  using array_answers_refused [of compare_request "HandleGetDatasetModels id_listing" id_listing "ex_api\<lparr>ap_db := search_of_two\<rparr>"]
  by (simp add: compare_request_def)


section \<open>Effects\<close>

text \<open>A listing request is answered; apart from the registry of metrics nothing changes.\<close>

definition lists_only :: "api \<Rightarrow> HttpResponse outcome \<times> api \<Rightarrow> bool" where
  "lists_only a r \<longleftrightarrow> (\<exists>resp reg dreg. fst r = Returned resp \<and> rs_status resp \<in> {200, 400, 404, 500}
     \<and> snd r = a\<lparr>ap_registry := reg, ap_db := (ap_db a)\<lparr>db_registry := dreg\<rparr>\<rparr>)"

lemma lists_onlyI:
  assumes "rs_status resp \<in> {200, 400, 404, 500}"
  shows "lists_only a (Returned resp, a\<lparr>ap_registry := reg, ap_db := (ap_db a)\<lparr>db_registry := dreg\<rparr>\<rparr>)"
  unfolding lists_only_def using assms by (metis fst_conv snd_conv)

lemma lists_only_same: "lists_only a (Returned (SendJson j 200 rid), a)"
  using lists_onlyI [where resp = "SendJson j 200 rid" and a = a and reg = "ap_registry a" and dreg = "db_registry (ap_db a)"] by simp

lemma lists_only_error: "st \<in> {400, 404, 500} \<Longrightarrow> lists_only a (send_error m st c rid a)"
  using lists_onlyI [where resp = "SendJson (error_json m c rid) st rid" and a = a and dreg = "db_registry (ap_db a)"]
  by (auto simp: send_error_def SendError_def)

lemma lists_only_failed: "lists_only a (query_failed e rid a)" "lists_only a (argument_or_query_failed e rid a)"
  by (auto simp: query_failed_def argument_or_query_failed_def lists_only_error split: cpp_exception.split)

lemmas lists_only_intros = lists_only_same lists_only_error lists_only_failed

lemma scores_body_registry: "\<exists>dreg. snd (scores_body env q d) = d\<lparr>db_registry := dreg\<rparr>"
proof -
  have "\<exists>dreg. d = d\<lparr>db_registry := dreg\<rparr>"
    by (rule exI [of _ "db_registry d"]) simp
  then show ?thesis
    by (auto simp: scores_body_def Let_def split: option.split sum.split prod.split)
qed

lemma lists_only_scores: "lists_only a (HandleGetScores env stod req a)"
proof -
  obtain j d1 where body: "scores_body env (score_query_of stod req) (ap_db a) = (j, d1)"
    by fastforce
  obtain dreg where "d1 = (ap_db a)\<lparr>db_registry := dreg\<rparr>"
    using scores_body_registry [of env "score_query_of stod req" "ap_db a"] body by auto
  then show ?thesis
    using body lists_onlyI [where resp = "SendJson j 200 (hr_rid req)" and a = a and reg = "ap_registry a"]
    by (auto simp: HandleGetScores_def GetScores_def Let_def lists_only_error)
qed

definition listing_handlers :: "(listing_env \<Rightarrow> HttpRequest \<Rightarrow> api \<Rightarrow> HttpResponse outcome \<times> api) list" where
  "listing_handlers =
     [HandleListDatasets, HandleGetDatasetSamples, HandleGetDatasetModels, HandleListModels, HandleGetModelScoredDatasets, HandleListTrials,
      HandleListInferenceRuns, HandleGetInferenceRun, HandleListJobs, HandleGetJobStatus, HandleGetJobProgress]"

text \<open>
  The listing requests only read: each of these handlers answers with 200, 400, 404 or 500 and changes nothing but
  metrics. A record is looked up the same way if its number fits in 64 bits; a greater number throws.
\<close>

theorem listings_read_only:
  "list_all (\<lambda>h. lists_only a (h env req a)) listing_handlers \<and> lists_only a (HandleGetDataset env get_run req a)
   \<and> lists_only a (HandleGetScores env stod req a)
   \<and> (record_text = '''' \<or> int (digits_value record_text) \<ge> 2 ^ 63 \<or> lists_only a (HandleGetDatasetRecord env record_text req a))
   \<and> (record_text \<noteq> '''' \<and> int (digits_value record_text) \<ge> 2 ^ 63
        \<longrightarrow> HandleGetDatasetRecord env record_text req a = (Threw (Out_of_range ''stol''), a))"
proof -
  have any: "lists_only a (send_any j rid a)" for j rid
    by (auto simp: send_any_def SendJson_any_def lists_only_intros)
  have found: "lists_only a (found_or_404 m j req a)" for m j
    by (simp add: found_or_404_def lists_only_intros)
  have "list_all (\<lambda>h. lists_only a (h env req a)) listing_handlers"
    by (auto simp: listing_handlers_def HandleListDatasets_def HandleGetDatasetSamples_def HandleGetDatasetModels_def HandleListModels_def
        HandleGetModelScoredDatasets_def HandleListTrials_def HandleListInferenceRuns_def HandleGetInferenceRun_def HandleListJobs_def
        HandleGetJobStatus_def HandleGetJobProgress_def Let_def any found lists_only_intros split: sum.split)
  moreover have "lists_only a (HandleGetDataset env get_run req a)"
    by (auto simp: HandleGetDataset_def Let_def lists_only_intros split: sum.split)
  moreover have "record_text = '''' \<or> int (digits_value record_text) \<ge> 2 ^ 63 \<or> lists_only a (HandleGetDatasetRecord env record_text req a)"
    by (auto simp: HandleGetDatasetRecord_def Let_def lists_only_intros)
  moreover have "HandleGetDatasetRecord env record_text req a = (Threw (Out_of_range ''stol''), a)"
    if "record_text \<noteq> ''''" "int (digits_value record_text) \<ge> 2 ^ 63"
    using that by (simp add: HandleGetDatasetRecord_def Let_def)
  ultimately show ?thesis
    using lists_only_scores by blast
qed

theorem listings_read_only_witness:
  "lists_only ex_api (HandleListJobs id_listing compare_request ex_api)
   \<and> HandleGetDatasetRecord id_listing ''99999999999999999999'' compare_request ex_api = (Threw (Out_of_range ''stol''), ex_api)"
proof -
  have "int (digits_value ''99999999999999999999'') = 99999999999999999999"
    by (simp add: digits_value_def)
  then show ?thesis
    using listings_read_only [of ex_api id_listing compare_request undefined undefined "''99999999999999999999''"]
    by (simp add: listing_handlers_def)
qed

end
