(* ===== verification/Server.thy ===== *)
theory Server
  imports Routes Grpc_Service Api_Inference Api_Models Api_Listings Job_Reconciler
begin

text \<open>
  The HTTP server as a whole (\<^verbatim>\<open>src/src/api_server.cpp\<close>): its configuration from the environment, its start, the handlers
  written in place in \<^verbatim>\<open>Initialize\<close>, and the table that sends a request to the handler of the route it
  matches. \<open>server_step\<close> is the grain at which requests, background jobs and other processes interleave: one
  transaction of the store, one critical section of the job manager, one call of the model cache.
\<close>

section \<open>Configuration and start\<close>

definition env_stoul :: "string option \<Rightarrow> size_t \<Rightarrow> size_t" where
  "env_stoul v dflt = (case v of None \<Rightarrow> dflt | Some s \<Rightarrow> (case stoul s of None \<Rightarrow> dflt | Some n \<Rightarrow> n))"

definition env_stoi :: "string option \<Rightarrow> int \<Rightarrow> int" where
  "env_stoi v dflt = (case v of None \<Rightarrow> dflt | Some s \<Rightarrow> (case stoi s of None \<Rightarrow> dflt | Some n \<Rightarrow> n))"

text \<open>Number of connections and the acquire timeout in milliseconds, from the constructor.\<close>

definition pool_args :: "(string \<Rightarrow> string option) \<Rightarrow> size_t \<times> int" where
  "pool_args getenv = (env_stoul (getenv ''DB_POOL_SIZE'') 5, env_stoi (getenv ''DB_ACQUIRE_TIMEOUT_MS'') 5000)"

text \<open>Entries, bytes and seconds to live of the model cache.\<close>

definition cache_args :: "(string \<Rightarrow> string option) \<Rightarrow> size_t \<times> size_t \<times> int" where
  "cache_args getenv =
     (env_stoul (getenv ''MODEL_CACHE_SIZE'') 100, env_stoul (getenv ''MODEL_CACHE_MAX_BYTES'') (512 * 1024 * 1024),
      env_stoi (getenv ''MODEL_CACHE_TTL_SECONDS'') 3600)"

definition Initialize :: "(string \<Rightarrow> string option) \<Rightarrow> cpp_exception option \<Rightarrow> int \<Rightarrow> db \<Rightarrow> api" where
  "Initialize getenv fault now d =
     (case cache_args getenv of (entries, bytes, ttl) \<Rightarrow>
        \<lparr>ap_db = ReconcileStaleJobs fault now None d, ap_jobs = new_JobManager, ap_work = [],
         ap_cache = new_PcaModelCache (unat entries) bytes ttl empty_registry, ap_registry = empty_registry\<rparr>)"

section \<open>The handlers written in place\<close>

definition HandleHealthz :: "api \<Rightarrow> HttpResponse outcome \<times> api" where
  "HandleHealthz a = (Returned \<lparr>rs_status = 200, rs_body = JObj [(''status'', JStr ''OK'')]\<rparr>, a)"

text \<open>The reason of a refusal is a text that looks like JSON: it becomes the message of the usual error document.\<close>

definition HandleReadyz :: "unit cpp \<Rightarrow> HttpRequest \<Rightarrow> api \<Rightarrow> HttpResponse outcome \<times> api" where
  "HandleReadyz connection req a =
     (case connection of
        Inr u \<Rightarrow> (Returned \<lparr>rs_status = 200, rs_body = JObj [(''status'', JStr ''READY'')]\<rparr>, a)
      | Inl e \<Rightarrow> send_error ''{\"status\":\"UNREADY\", \"reason\":\"DB_CONNECTION_FAILED\"}'' 503 kErrDbConnectFailed (hr_rid req) a)"

definition metric_schema :: "string \<Rightarrow> string \<Rightarrow> string \<Rightarrow> string \<Rightarrow> json" where
  "metric_schema key label unit_text description = jobject
     [(''key'', JStr key), (''label'', JStr label), (''type'', JStr ''numeric''), (''unit'', JStr unit_text),
      (''description'', JStr description)]"

definition HandleMetricsSchema :: "HttpRequest \<Rightarrow> api \<Rightarrow> HttpResponse outcome \<times> api" where
  "HandleMetricsSchema req a =
     (Returned (SendJson (jset ''metrics'' (JArr
        [metric_schema ''cpu_usage'' ''CPU Usage'' ''%'' ''Percentage of CPU time used across all cores.'',
         metric_schema ''memory_usage'' ''Memory Usage'' ''%'' ''Percentage of physical RAM currently occupied.'',
         metric_schema ''disk_utilization'' ''Disk Utilization'' ''%'' ''Percentage of disk throughput capacity used.'',
         metric_schema ''network_rx_rate'' ''Network RX Rate'' ''Mbps'' ''Inbound network traffic rate.'',
         metric_schema ''network_tx_rate'' ''Network TX Rate'' ''Mbps'' ''Outbound network traffic rate.'']) JNull) 200 (hr_rid req)), a)"

section \<open>Serving a request\<close>

text \<open>What the services and libraries answer during the request; \<open>se_registry\<close> is the registry of the process.\<close>

record server_env =
  se_api :: api_env
  se_infer :: infer_env
  se_files :: artifact_env
  se_analytics :: analytics_env
  se_listing :: listing_env
  se_stod :: "string \<Rightarrow> real option"
  se_generate :: "GenerateRequest \<Rightarrow> grpc_status \<times> string"
  se_get_run :: "string \<Rightarrow> string + RunStatusReply"
  se_connection :: "unit cpp"
  se_print :: "real \<Rightarrow> string"
  se_registry :: MetricsRegistry

datatype answer = Json_answer HttpResponse | Text_answer int string | No_content

type_synonym handler = "server_env \<Rightarrow> string list \<Rightarrow> HttpRequest \<Rightarrow> api \<Rightarrow> answer outcome \<times> api"

definition json_answer :: "HttpResponse outcome \<times> api \<Rightarrow> answer outcome \<times> api" where
  "json_answer r = after r (\<lambda>resp a. (Returned (Json_answer resp), a))"

text \<open>\<^verbatim>\<open>req.matches[1]\<close> is given to the handler in the request; two handlers also read \<^verbatim>\<open>req.matches[2]\<close>.\<close>

definition second_match :: "string list \<Rightarrow> string" where
  "second_match cs = (case cs of _ # c # _ \<Rightarrow> c | _ \<Rightarrow> '''')"

definition analytics_table :: "(string \<times> handler) list" where
  "analytics_table =
     [(''HandleDatasetSummary'', \<lambda>env cs req a. json_answer (HandleDatasetSummary (se_analytics env) req a)),
      (''HandleDatasetTopK'', \<lambda>env cs req a. json_answer (HandleDatasetTopK (se_analytics env) req a)),
      (''HandleDatasetTimeSeries'', \<lambda>env cs req a. json_answer (HandleDatasetTimeSeries (se_analytics env) req a)),
      (''HandleDatasetHistogram'', \<lambda>env cs req a. json_answer (HandleDatasetHistogram (se_analytics env) req a)),
      (''HandleGetDatasetMetricsSummary'', \<lambda>env cs req a. json_answer (HandleGetDatasetMetricsSummary (se_analytics env) req a)),
      (''HandleModelEval'', \<lambda>env cs req a. json_answer (HandleModelEval (se_analytics env) req a)),
      (''HandleModelErrorDistribution'', \<lambda>env cs req a. json_answer (HandleModelErrorDistribution (se_analytics env) req a)),
      (''HandleGetDatasetMetricStats'', \<lambda>env cs req a. json_answer (HandleGetDatasetMetricStats (se_analytics env) (second_match cs) req a))]"

definition listing_table :: "(string \<times> handler) list" where
  "listing_table =
     [(''HandleListDatasets'', \<lambda>env cs req a. json_answer (HandleListDatasets (se_listing env) req a)),
      (''HandleGetDataset'', \<lambda>env cs req a. json_answer (HandleGetDataset (se_listing env) (se_get_run env) req a)),
      (''HandleGetDatasetSamples'', \<lambda>env cs req a. json_answer (HandleGetDatasetSamples (se_listing env) req a)),
      (''HandleGetDatasetRecord'', \<lambda>env cs req a. json_answer (HandleGetDatasetRecord (se_listing env) (second_match cs) req a)),
      (''HandleGetDatasetModels'', \<lambda>env cs req a. json_answer (HandleGetDatasetModels (se_listing env) req a)),
      (''HandleListModels'', \<lambda>env cs req a. json_answer (HandleListModels (se_listing env) req a)),
      (''HandleGetModelScoredDatasets'', \<lambda>env cs req a. json_answer (HandleGetModelScoredDatasets (se_listing env) req a)),
      (''HandleListTrials'', \<lambda>env cs req a. json_answer (HandleListTrials (se_listing env) req a)),
      (''HandleGetScores'', \<lambda>env cs req a. json_answer (HandleGetScores (se_listing env) (se_stod env) req a)),
      (''HandleListInferenceRuns'', \<lambda>env cs req a. json_answer (HandleListInferenceRuns (se_listing env) req a)),
      (''HandleGetInferenceRun'', \<lambda>env cs req a. json_answer (HandleGetInferenceRun (se_listing env) req a)),
      (''HandleListJobs'', \<lambda>env cs req a. json_answer (HandleListJobs (se_listing env) req a)),
      (''HandleGetJobProgress'', \<lambda>env cs req a. json_answer (HandleGetJobProgress (se_listing env) req a)),
      (''HandleGetJobStatus'', \<lambda>env cs req a. json_answer (HandleGetJobStatus (se_listing env) req a))]"

definition status_table :: "(string \<times> handler) list" where
  "status_table =
     [(''HandleGetTrainStatus'', \<lambda>env cs req a. json_answer (HandleGetTrainStatus (se_api env) req a)),
      (''HandleHealthz'', \<lambda>env cs req a. json_answer (HandleHealthz a)),
      (''HandleReadyz'', \<lambda>env cs req a. json_answer (HandleReadyz (se_connection env) req a)),
      (''HandleMetrics'', \<lambda>env cs req a. (Returned (Text_answer 200 (ToPrometheus (se_print env) (se_registry env))), a)),
      (''HandleMetricsSchema'', \<lambda>env cs req a. json_answer (HandleMetricsSchema req a))]"

definition change_table :: "(string \<times> handler) list" where
  "change_table =
     [(''HandleGenerateData'', \<lambda>env cs req a. json_answer (HandleGenerateData (se_generate env) (se_api env) req a)),
      (''HandleGetModelDetail'', \<lambda>env cs req a. json_answer (HandleGetModelDetail (se_api env) (se_files env) req a)),
      (''HandleInference'', \<lambda>env cs req a. json_answer (HandleInference (se_infer env) req a)),
      (''HandleScoreDatasetJob'', \<lambda>env cs req a. json_answer (HandleScoreDatasetJob (se_api env) req a)),
      (''HandleDeleteJob'', \<lambda>env cs req a. json_answer (HandleDeleteJob req a)),
      (''HandleRerunFailed'', \<lambda>env cs req a. json_answer (HandleRerunFailed (se_api env) req a)),
      (''HandleTrainModel'', \<lambda>env cs req a. json_answer (HandleTrainModel (se_api env) req a)),
      (''HandleDeleteTrain'', \<lambda>env cs req a. json_answer (HandleDeleteTrain (se_api env) req a))]"

definition handlers :: "(string \<times> handler) list" where
  "handlers = analytics_table @ listing_table @ status_table @ change_table"

text \<open>
  \<^verbatim>\<open>OPTIONS\<close> is answered before routing. Otherwise the matching route, of which there is at most one, gives the handler and the
  matched texts; \<^term>\<open>None\<close> stands for a request that the HTTP library answers itself, with a static file or 404.
  The library routes a \<^verbatim>\<open>HEAD\<close> request as the \<^verbatim>\<open>GET\<close> of the same path, so it is served with that verb.
\<close>

definition serve :: "server_env \<Rightarrow> string \<Rightarrow> string \<Rightarrow> HttpRequest \<Rightarrow> api \<Rightarrow> (answer outcome \<times> api) option" where
  "serve env verb path req a =
     (if verb = ''OPTIONS'' then Some (Returned No_content, a)
      else
        case find (\<lambda>r. route_match r verb path \<noteq> None) registered_routes of
          None \<Rightarrow> None
        | Some r \<Rightarrow>
            (case (map_of handlers (rt_handler_name r), route_match r verb path) of
               (Some h, Some cs) \<Rightarrow> Some (h env cs (req\<lparr>hr_match := (case cs of [] \<Rightarrow> '''' | c # _ \<Rightarrow> c)\<rparr>) a)
             | _ \<Rightarrow> None))"

section \<open>Steps of the server\<close>

inductive server_step :: "size_t \<Rightarrow> api \<Rightarrow> api \<Rightarrow> bool" for sz :: size_t where
  store: "db_step (ap_db a) d \<Longrightarrow> server_step sz a (a\<lparr>ap_db := d\<rparr>)"
| jobs: "jm_step (ap_jobs a) m \<Longrightarrow> server_step sz a (a\<lparr>ap_jobs := m\<rparr>)"
| submitted: "StartJob jid rid (ap_jobs a) = (Returned (), m) \<Longrightarrow>
    server_step sz a (a\<lparr>ap_jobs := m, ap_work := ap_work a @ [(jid, w)]\<rparr>)"
| cache: "cache_step sz (ap_cache a) c \<Longrightarrow> server_step sz a (a\<lparr>ap_cache := c\<rparr>)"
| metrics: "server_step sz a (a\<lparr>ap_registry := reg, ap_db := (ap_db a)\<lparr>db_registry := dreg\<rparr>\<rparr>)"

text \<open>Unless it ends the process, a computation is a finite sequence of such steps.\<close>

definition traced :: "size_t \<Rightarrow> api \<Rightarrow> 'a outcome \<times> api \<Rightarrow> bool" where
  "traced sz a r \<longleftrightarrow> fst r = Terminated \<or> (server_step sz)\<^sup>*\<^sup>* a (snd r)"

lemma traced_here: "(server_step sz)\<^sup>*\<^sup>* a b \<Longrightarrow> traced sz a (out, b)"
  by (simp add: traced_def)

lemma traced_refl [intro!]: "traced sz a (out, a)"
  by (simp add: traced_def)

lemma traced_via: "(server_step sz)\<^sup>*\<^sup>* a b \<Longrightarrow> traced sz b r \<Longrightarrow> traced sz a r"
  unfolding traced_def by (metis rtranclp_trans)

lemma traced_after:
  assumes "traced sz a m" "\<And>x b. m = (Returned x, b) \<Longrightarrow> traced sz b (k x b)"
  shows "traced sz a (after m k)"
proof -
  obtain out b where m: "m = (out, b)" by fastforce
  show ?thesis
    using assms m by (cases out) (auto simp: traced_def intro: rtranclp_trans)
qed

lemma traced_or_throw: "(\<And>x. m = Inr x \<Longrightarrow> traced sz a (k x)) \<Longrightarrow> traced sz a (or_throw m a k)"
  by (rule or_throw_rule) auto

lemma metrics_same: "server_step sz a (a\<lparr>ap_registry := reg\<rparr>)"
  using server_step.metrics [where a = a and reg = reg and dreg = "db_registry (ap_db a)"] by simp

lemma traced_send_error: "traced sz a (send_error m st c rid a)"
  by (auto simp: send_error_def traced_def metrics_same split: prod.split)

lemma traced_json_answer: "traced sz a r \<Longrightarrow> traced sz a (json_answer r)"
  unfolding json_answer_def by (rule traced_after) auto

lemma traced_submit: "traced sz a (submit jid rid w a)"
proof -
  obtain out m where s: "StartJob jid rid (ap_jobs a) = (out, m)" by fastforce
  then have "server_step sz a (a\<lparr>ap_jobs := m\<rparr>)" if "out \<noteq> Terminated"
    using that jm_step.start server_step.jobs by blast
  with s show ?thesis
    by (cases out) (auto simp: submit_def traced_def intro: server_step.submitted)
qed

text \<open>A call of the store with a result, by the equation that case analysis gives.\<close>

lemma store_call: "f d = (x, d') \<Longrightarrow> db_step d (snd (f d)) \<Longrightarrow> d = ap_db a \<Longrightarrow> (server_step sz)\<^sup>*\<^sup>* a (a\<lparr>ap_db := d'\<rparr>)"
  using server_step.store [of a d' sz] by auto

lemma store_step: "db_step (ap_db a) d \<Longrightarrow> (server_step sz)\<^sup>*\<^sup>* a (a\<lparr>ap_db := d\<rparr>)"
  using server_step.store by blast

lemma traced_store_call:
  assumes "db_step (ap_db a) (snd call)"
    and "\<And>e d. call = (Inl e, d) \<Longrightarrow> traced sz (a\<lparr>ap_db := d\<rparr>) (f e d)" "\<And>x d. call = (Inr x, d) \<Longrightarrow> traced sz (a\<lparr>ap_db := d\<rparr>) (g x d)"
  shows "traced sz a (case call of (Inl e, d) \<Rightarrow> f e d | (Inr x, d) \<Rightarrow> g x d)"
proof (cases call)
  case (Pair r d)
  with assms(1) have step: "(server_step sz)\<^sup>*\<^sup>* a (a\<lparr>ap_db := d\<rparr>)" by (simp add: store_step)
  show ?thesis
    using assms(2,3) Pair by (cases r) (simp_all add: traced_via [OF step])
qed

lemma traced_caught:
  assumes "traced sz a r" "\<And>e b. r = (Threw e, b) \<Longrightarrow> traced sz b (h e b)"
  shows "traced sz a (case r of (Threw e, b) \<Rightarrow> h e b | q \<Rightarrow> q)"
proof -
  obtain out b where r: "r = (out, b)" by fastforce
  show ?thesis
    using assms r by (cases out) (auto simp: traced_def intro: rtranclp_trans)
qed

lemmas traced_rules = traced_refl traced_after traced_or_throw traced_send_error traced_submit

section \<open>Every handler is a sequence of steps\<close>

lemma traced_reads:
  assumes "snd r = a\<lparr>ap_registry := reg, ap_db := (ap_db a)\<lparr>db_registry := dreg\<rparr>\<rparr>"
  shows "traced sz a r"
  using server_step.metrics [where sz = sz and a = a and reg = reg and dreg = dreg] assms by (auto simp: traced_def)

lemma traced_generate: "traced sz a (HandleGenerateData stub env req a)"
  unfolding HandleGenerateData_def generate_try_block_def Let_def
  by (intro traced_caught traced_or_throw)
    (auto simp: traced_send_error intro: traced_or_throw split: prod.split grpc_status.split)

lemma traced_train_create: "traced sz a (train_create env rid ds name n pct hpo a)"
  unfolding train_create_def Let_def RunPcaTraining_def OrchestrateTuning_def
  by (rule traced_store_call) (auto intro: db_step.intros intro!: traced_send_error traced_after traced_submit split: option.split)

lemma traced_train: "traced sz a (HandleTrainModel env req a)"
  unfolding HandleTrainModel_def
proof (rule traced_caught)
  show "traced sz a (train_try_block env req a)"
    unfolding train_try_block_def Let_def
    by (intro traced_or_throw) (auto intro!: traced_or_throw traced_send_error traced_train_create split: prod.split)
qed (auto simp: traced_send_error split: prod.split)

lemma traced_score: "traced sz a (HandleScoreDatasetJob env req a)"
  unfolding HandleScoreDatasetJob_def
proof (rule traced_caught)
  show "traced sz a (score_try_block env req a)"
    unfolding score_try_block_def Let_def
    by (auto intro!: traced_or_throw traced_store_call db_step.intros traced_send_error traced_after traced_submit)
qed (auto simp: traced_send_error)

lemma cancel_step: "(server_step sz)\<^sup>*\<^sup>* a (a\<lparr>ap_jobs := CancelJob jid (ap_jobs a)\<rparr>)"
  using server_step.jobs jm_step.cancel by blast

lemma cancel_update_step:
  "(server_step sz)\<^sup>*\<^sup>* b (b\<lparr>ap_jobs := CancelJob jid (ap_jobs b), ap_db := UpdateModelRunStatus f now mid st p e s (ap_db b)\<rparr>)"
  using rtranclp_trans [OF cancel_step store_step] db_step.intros(9) by fastforce

lemma traced_cancel_trials: "traced sz a (cancel_trials env k ts a)"
proof (induction ts arbitrary: k a)
  case (Cons t ts)
  let ?b = "\<lambda>tid. a\<lparr>ap_jobs := CancelJob (''train-'' @ tid) (ap_jobs a),
      ap_db := UpdateTrialEligibility (av_fault env (k + 1)) (av_now env) tid False ''CANCELED'' 0 ''''
        (UpdateModelRunStatus (av_fault env k) (av_now env) tid ''CANCELLED'' '''' ''Cancelled by parent tuning run request'' JNull (ap_db a))\<rparr>"
  have "(server_step sz)\<^sup>*\<^sup>* a (?b tid)" for tid
  proof -
    let ?d = "UpdateModelRunStatus (av_fault env k) (av_now env) tid ''CANCELLED'' '''' ''Cancelled by parent tuning run request'' JNull (ap_db a)"
    let ?a2 = "a\<lparr>ap_jobs := CancelJob (''train-'' @ tid) (ap_jobs a), ap_db := ?d\<rparr>"
    let ?e = "UpdateTrialEligibility (av_fault env (k + 1)) (av_now env) tid False ''CANCELED'' 0 '''' ?d"
    have "db_step (ap_db ?a2) ?e" by (simp add: db_step.intros)
    from rtranclp_trans [OF cancel_update_step store_step [OF this]] show ?thesis by simp
  qed
  then have step: "(server_step sz)\<^sup>*\<^sup>* a (if p then ?b tid else a)" for p tid by simp
  show ?case
    unfolding cancel_trials.simps by (intro traced_or_throw traced_via [OF step Cons.IH])
qed auto

lemma traced_delete_job: "traced sz a (HandleDeleteJob req a)"
  by (simp add: HandleDeleteJob_def traced_def cancel_step)

lemma traced_delete_train: "traced sz a (HandleDeleteTrain env req a)"
  unfolding HandleDeleteTrain_def Let_def
  by (auto intro!: traced_send_error traced_or_throw traced_after traced_cancel_trials traced_here cancel_update_step)

lemma traced_rerun_trials: "traced sz a (rerun_trials env rid mid k ts ids a)"
proof (induction ts arbitrary: k ids a)
  case (Cons t ts)
  show ?case
    unfolding rerun_trials.simps Let_def RunPcaTraining_def
    by (auto intro!: traced_or_throw traced_store_call db_step.intros traced_after traced_submit Cons.IH)
qed auto

lemma traced_rerun: "traced sz a (HandleRerunFailed env req a)"
  unfolding HandleRerunFailed_def Let_def
  by (auto intro!: traced_send_error traced_after traced_rerun_trials)

lemma traced_add_trials: "traced sz a (add_trials env mid j a)"
proof -
  have tally: "(server_step sz)\<^sup>*\<^sup>* a (a\<lparr>ap_db := snd (apply_tally env mid ts ty j (ap_db a))\<rparr>)" for ts ty j
    using store_step [OF db_step.intros(13)] by (auto simp: apply_tally_def Let_def)
  have best: "(server_step sz)\<^sup>*\<^sup>* b (b\<lparr>ap_db := snd (apply_best env mid bt j (ap_db b))\<rparr>)" for b bt j
    using store_step [OF db_step.intros(11)] by (auto simp: apply_best_def)
  have selected: "traced sz b (or_throw m b (\<lambda>bt. (Returned (fst (apply_best env mid bt j (ap_db b))), b\<lparr>ap_db := snd (apply_best env mid bt j (ap_db b))\<rparr>)))"
    for b m j
    by (intro traced_or_throw traced_here best)
  show ?thesis
    unfolding add_trials_def Let_def case_prod_beta
    by (intro traced_or_throw)
      (auto intro!: traced_or_throw traced_via [OF tally selected [where b = "a\<lparr>ap_db := d\<rparr>" for d, simplified]])
qed

lemma traced_detail: "traced sz a (HandleGetModelDetail env files req a)"
  unfolding HandleGetModelDetail_def detail_try_block_def Let_def
  by (rule traced_caught) (auto intro!: traced_send_error traced_after traced_add_trials traced_or_throw)

lemma traced_samples: "traced sz a (infer_samples env rid mid pca samples a)"
proof -
  have plain: "(server_step sz)\<^sup>*\<^sup>* (a\<lparr>ap_db := d\<rparr>) (a\<lparr>ap_db := d, ap_registry := reg\<rparr>)" for d reg
    using metrics_same [of sz "a\<lparr>ap_db := d\<rparr>" reg] by simp
  have stored: "(server_step sz)\<^sup>*\<^sup>* (a\<lparr>ap_db := d\<rparr>) (a\<lparr>ap_db := UpdateInferenceRunStatus f i st c ds l d, ap_registry := reg\<rparr>)"
    for d f i st c ds l reg
    using rtranclp_trans [OF store_step [of "a\<lparr>ap_db := d\<rparr>", OF db_step.intros(15)]] plain by fastforce
  show ?thesis
    unfolding infer_samples_def Let_def
    by (rule traced_store_call) (auto intro: db_step.intros intro!: traced_or_throw traced_here plain stored)
qed

lemma traced_cache:
  assumes "enumerates (cv_order c)" "cv_sizeof c = sz"
    and "GetOrCreate (cv_order c) (cv_sizeof c) (cv_artifacts c) (cv_now c) mid path (ap_cache a) = (out, pc)"
  shows "(server_step sz)\<^sup>*\<^sup>* a (a\<lparr>ap_cache := pc\<rparr>)"
  using assms cache_step.get_or_create server_step.cache by (metis r_into_rtranclp)

lemma traced_inference:
  assumes "enumerates (cv_order (iv_cache env))" "cv_sizeof (iv_cache env) = sz"
  shows "traced sz a (HandleInference env req a)"
  unfolding HandleInference_def Let_def
proof (rule traced_caught)
  note loaded = traced_cache [OF assms]
  show "traced sz a (infer_try_block env req a)"
    unfolding infer_try_block_def Let_def
    by (auto intro!: traced_or_throw traced_send_error traced_here loaded traced_via [OF loaded traced_samples] traced_via [OF loaded traced_send_error] split: prod.split outcome.split)
qed (auto simp: traced_send_error)

text \<open>A request that leaves the server as it was, metrics apart.\<close>

definition reads_only :: "api \<Rightarrow> 'a outcome \<times> api \<Rightarrow> bool" where
  "reads_only a r \<longleftrightarrow> (\<exists>reg dreg. snd r = a\<lparr>ap_registry := reg, ap_db := (ap_db a)\<lparr>db_registry := dreg\<rparr>\<rparr>)"

lemma reads_only_same: "snd r = a\<lparr>ap_registry := reg\<rparr> \<Longrightarrow> reads_only a r"
  unfolding reads_only_def by (intro exI [of _ reg] exI [of _ "db_registry (ap_db a)"]) simp

lemma reads_only_refl: "reads_only a (out, a)"
  using reads_only_same [where r = "(out, a)" and a = a and reg = "ap_registry a"] by simp

lemma reads_only_send_error: "reads_only a (send_error m st c rid a)"
  unfolding send_error_def by (auto intro: reads_only_same split: prod.split)

lemma snd_json_answer [simp]: "snd (json_answer r) = snd r"
  unfolding json_answer_def by (cases r; cases "fst r") auto

lemma reads_only_json: "reads_only a r \<Longrightarrow> reads_only a (json_answer r)"
  by (simp add: reads_only_def)

lemma harmless_reads: "harmless a r \<Longrightarrow> reads_only a r"
  unfolding harmless_def using reads_only_same [where r = r and a = a and reg = "ap_registry a"] reads_only_same [where r = r and a = a]
  by auto

lemma lists_reads: "lists_only a r \<Longrightarrow> reads_only a r"
  unfolding lists_only_def reads_only_def by blast

lemma reads_traced: "reads_only a r \<Longrightarrow> traced sz a r"
  unfolding reads_only_def using traced_reads by blast

lemma analytics_table_reads: "(n, h) \<in> set analytics_table \<Longrightarrow> reads_only a (h env cs req a)"
proof -
  assume "(n, h) \<in> set analytics_table"
  moreover have "list_all (\<lambda>h. reads_only a (h env req a)) analytics_handlers"
      and stats: "reads_only a (HandleGetDatasetMetricStats env m req a)" for env m
    using analytics_read_only [of a env req m] harmless_reads by (auto simp: list_all_iff)
  ultimately show ?thesis
    by (auto simp: analytics_table_def analytics_handlers_def intro!: reads_only_json)
qed

lemma record_reads: "reads_only a (HandleGetDatasetRecord env record_text req a)"
  by (auto simp: HandleGetDatasetRecord_def Let_def reads_only_refl reads_only_send_error)

lemma listing_table_reads: "(n, h) \<in> set listing_table \<Longrightarrow> reads_only a (h env cs req a)"
proof -
  assume "(n, h) \<in> set listing_table"
  moreover have "list_all (\<lambda>h. reads_only a (h env req a)) listing_handlers"
      "reads_only a (HandleGetDataset env get_run req a)" "reads_only a (HandleGetScores env stod req a)" for env get_run stod
    using listings_read_only [of a env req get_run stod "''''"] lists_reads by (auto simp: list_all_iff)
  ultimately show ?thesis
    by (auto simp: listing_table_def listing_handlers_def intro!: reads_only_json record_reads)
qed

lemma status_table_reads: "(n, h) \<in> set status_table \<Longrightarrow> reads_only a (h env cs req a)"
  by (auto simp: status_table_def HandleGetTrainStatus_def HandleHealthz_def HandleReadyz_def HandleMetricsSchema_def Let_def
      intro!: reads_only_json reads_only_refl reads_only_send_error split: sum.split)

lemmas read_tables = analytics_table_reads listing_table_reads status_table_reads

lemma handlers_traced:
  assumes "(n, h) \<in> set handlers" "enumerates (cv_order (iv_cache (se_infer env)))" "cv_sizeof (iv_cache (se_infer env)) = sz"
  shows "traced sz a (h env cs req a)"
proof (cases "(n, h) \<in> set change_table")
  case True
  then show ?thesis
    using traced_inference [OF assms(2,3)]
    by (auto simp: change_table_def intro!: traced_json_answer traced_generate traced_detail traced_score traced_delete_job traced_rerun
        traced_train traced_delete_train)
next
  case False
  then have "(n, h) \<in> set analytics_table \<or> (n, h) \<in> set listing_table \<or> (n, h) \<in> set status_table"
    using assms(1) unfolding handlers_def set_append by blast
  then show ?thesis
    by (elim disjE) (erule read_tables [THEN reads_traced])+
qed

lemma serve_cases:
  assumes "serve env verb path req a = Some r"
  obtains (options) "r = (Returned No_content, a)"
  | (route) rt h cs where "rt \<in> set registered_routes" "route_match rt verb path = Some cs"
      "map_of handlers (rt_handler_name rt) = Some h" "r = h env cs (req\<lparr>hr_match := (case cs of [] \<Rightarrow> '''' | c # _ \<Rightarrow> c)\<rparr>) a"
proof (cases "verb = ''OPTIONS''")
  case False
  then obtain rt h cs where rt: "find (\<lambda>r. route_match r verb path \<noteq> None) registered_routes = Some rt"
      and "map_of handlers (rt_handler_name rt) = Some h" "route_match rt verb path = Some cs"
      "r = h env cs (req\<lparr>hr_match := (case cs of [] \<Rightarrow> '''' | c # _ \<Rightarrow> c)\<rparr>) a"
    using assms unfolding serve_def by (auto split: option.splits)
  moreover have "rt \<in> set registered_routes"
    using rt unfolding find_Some_iff by auto
  ultimately show thesis by (intro route)
qed (use assms in \<open>simp add: serve_def options\<close>)

section \<open>The state of the server\<close>

text \<open>Work handed to the job manager has an entry in its job table.\<close>

definition work_known :: "api \<Rightarrow> bool" where
  "work_known a \<longleftrightarrow> (\<forall>(jid, w) \<in> set (ap_work a). map_get (jobs (ap_jobs a)) jid \<noteq> None)"

definition cache_configured :: "(string \<Rightarrow> string option) \<Rightarrow> PcaModelCache \<Rightarrow> bool" where
  "cache_configured getenv c \<longleftrightarrow> (case cache_args getenv of (entries, bytes, ttl) \<Rightarrow> cache_sound (unat entries) bytes ttl c)"

definition server_ok :: "(string \<Rightarrow> string option) \<Rightarrow> api \<Rightarrow> bool" where
  "server_ok getenv a \<longleftrightarrow> db_ok (ap_db a) \<and> jm_inv (ap_jobs a) \<and> cache_configured getenv (ap_cache a) \<and> work_known a"

definition server_init :: "(string \<Rightarrow> string option) \<Rightarrow> api \<Rightarrow> bool" where
  "server_init getenv a \<longleftrightarrow>
     unat (fst (snd (cache_args getenv))) < 2 ^ 63 \<and> (\<exists>fault now d. db_ok d \<and> a = Initialize getenv fault now d)"



lemma StartJob_jobs:
  assumes "StartJob jid rid s = (out, t)" "jm_inv s"
  shows "map_get (jobs s) k \<noteq> None \<Longrightarrow> map_get (jobs t) k \<noteq> None" "out = Returned () \<Longrightarrow> map_get (jobs t) jid \<noteq> None"
  using assms by (auto simp: StartJob_def Let_def jm_inv_def inv_maps_def split: if_splits)

lemma jm_step_jobs: "jm_step s t \<Longrightarrow> jm_inv s \<Longrightarrow> map_get (jobs s) k \<noteq> None \<Longrightarrow> map_get (jobs t) k \<noteq> None"
proof (induction rule: jm_step.induct)
  case (start jid rid s out t)
  then show ?case using StartJob_jobs(1) by blast
next
  case (finish i s res)
  then show ?case
    by (auto simp: worker_finish_def Let_def finish_metrics_def set_job_def jm_inv_def inv_maps_def split: work_result.splits option.splits)
qed (auto simp: SetMaxConcurrentJobs_def CancelJob_def Stop_exchange_def Stop_collect_def split: option.splits)

lemma server_ok_step:
  assumes "server_ok getenv a" "server_step sz a b"
  shows "server_ok getenv b"
  using assms(2,1)
proof cases
  case (store d)
  with assms(1) show ?thesis using db_ok_step by (auto simp: server_ok_def work_known_def)
next
  case (jobs m)
  with assms(1) show ?thesis using jm_step_inv jm_step_jobs by (fastforce simp: server_ok_def work_known_def)
next
  case (submitted jid rid m w)
  moreover from this have "jm_step (ap_jobs a) m" by (auto intro: jm_step.start)
  ultimately show ?thesis
    using assms(1) jm_step_inv StartJob_jobs [of jid rid "ap_jobs a" "Returned ()" m] by (fastforce simp: server_ok_def work_known_def)
next
  case (cache c)
  with assms(1) show ?thesis using cache_sound_step by (auto simp: server_ok_def work_known_def cache_configured_def)
qed (use assms(1) in \<open>auto simp: server_ok_def work_known_def\<close>)

interpretation server: inductive_invariant "server_init getenv" "server_step sz" "server_ok getenv"
  for getenv :: "string \<Rightarrow> string option" and sz :: size_t
proof unfold_locales
  fix a
  assume "server_init getenv a"
  moreover have "cache_sound me mb ttl (new_PcaModelCache me mb ttl reg)" if "unat mb < 2 ^ 63" for me mb ttl reg
    using that by (intro model_cache.init_inv) (auto simp: cache_init_def)
  ultimately show "server_ok getenv a"
    by (auto simp: server_init_def server_ok_def Initialize_def cache_configured_def work_known_def db_ok_reconcile jm_inv_new split: prod.splits)
qed (rule server_ok_step)

lemma serve_traced:
  assumes "serve env verb path req a = Some (out, b)" "enumerates (cv_order (iv_cache (se_infer env)))"
    "cv_sizeof (iv_cache (se_infer env)) = sz" "out \<noteq> Terminated"
  shows "(server_step sz)\<^sup>*\<^sup>* a b"
  using assms(1)
proof (cases rule: serve_cases)
  case (route rt h cs)
  then have "(rt_handler_name rt, h) \<in> set handlers" by (simp add: map_of_SomeD)
  from handlers_traced [OF this assms(2,3)] have "traced sz a (out, b)" using route(4) by simp
  then show ?thesis using assms(4) by (simp add: traced_def)
qed simp

lemma reachable_along: "step\<^sup>*\<^sup>* s t \<Longrightarrow> reachable init step s \<Longrightarrow> reachable init step t"
  by (induction rule: rtranclp_induct) (auto intro: reachable_step)


section \<open>Reading requests\<close>

text \<open>Nothing of the store changes but the row of one model run, which is still there.\<close>

definition only_run :: "string \<Rightarrow> db \<Rightarrow> db \<Rightarrow> bool" where
  "only_run mid d d' \<longleftrightarrow> (\<exists>ms. d' = d\<lparr>model_runs := ms\<rparr>) \<and> (\<forall>i. i \<noteq> mid \<longrightarrow> model_row i d' = model_row i d)
     \<and> map mr_model_run_id (model_runs d') = map mr_model_run_id (model_runs d)"

definition only_detail :: "string \<Rightarrow> api \<Rightarrow> api \<Rightarrow> bool" where
  "only_detail mid a b \<longleftrightarrow> ap_jobs b = ap_jobs a \<and> ap_work b = ap_work a \<and> ap_cache b = ap_cache a \<and> only_run mid (ap_db a) (ap_db b)"

lemma only_run_refl [simp]: "only_run mid d d"
  unfolding only_run_def by (auto intro: exI [of _ "model_runs d"])

lemma only_run_trans: "only_run mid d e \<Longrightarrow> only_run mid e f \<Longrightarrow> only_run mid d f"
  unfolding only_run_def by auto

lemma only_run_update: "(\<And>r. mr_model_run_id (f r) = mr_model_run_id r) \<Longrightarrow> only_run mid d (update_model mid f d)"
  by (simp add: only_run_def model_row_update) (auto simp: update_model_def update_where_key)

lemma only_run_transact: "only_run mid d d' \<Longrightarrow> only_run mid d (snd (transact fault ok x d' d))"
  by (rule snd_transact_ok) auto

lemma only_run_writes: "only_run mid d (snd (apply_tally env mid ts ty j d))" "only_run mid d (snd (apply_best env mid b j d))"
  by (auto simp: apply_tally_def apply_best_def Let_def UpdateParentErrorAggregates_def UpdateBestTrial_def
      intro!: only_run_transact only_run_update)

lemma add_trials_effect: "only_detail mid a (snd (add_trials env mid j a))"
proof -
  have "only_detail mid a (a\<lparr>ap_db := d\<rparr>)" if "only_run mid (ap_db a) d" for d
    using that by (simp add: only_detail_def)
  then show ?thesis
    unfolding add_trials_def Let_def or_throw_def
    using only_run_writes only_run_trans by (auto simp: case_prod_beta only_detail_def split: sum.split) blast
qed

lemma snd_after: "(\<And>x d. snd (k x d) = d) \<Longrightarrow> snd (after r k) = snd r"
  by (cases r; cases "fst r") auto

lemma detail_effect: "only_detail (hr_match req) a (snd (HandleGetModelDetail env files req a))"
proof -
  have err: "only_detail mid b (snd (send_error m st c rid b))" "only_detail mid b b" for mid b m st c rid
    by (auto simp: send_error_def only_detail_def split: prod.split)
  have trans: "only_detail mid b (snd (send_error m st c rid d))" if "only_detail mid b d" for mid b m st c rid d
    using that by (auto simp: send_error_def only_detail_def split: prod.split)
  have ends: "snd (after r (\<lambda>j2 a2. or_throw (f j2) a2 (\<lambda>path. (Returned (g path j2), a2)))) = snd r"
    for f g and r :: "json outcome \<times> api"
    by (rule snd_after) (simp add: or_throw_def split: sum.split)
  have "only_detail (hr_match req) a (snd (detail_try_block env files req a))"
    unfolding detail_try_block_def Let_def by (simp add: err add_trials_effect ends)
  then show ?thesis
    unfolding HandleGetModelDetail_def by (auto simp: trans split: prod.splits outcome.splits)
qed

definition detail_route :: RouteSpec where
  "detail_route = route ''GET'' ''/models/([a-zA-Z0-9-]+)'' ''HandleGetModelDetail''"

fun is_group :: "pat \<Rightarrow> bool" where
  "is_group (pat.Lit c) = False"
| "is_group (Group rs) = True"

lemma regex_match_length: "regex_match ps s = Some cs \<Longrightarrow> length cs = length (filter is_group ps)"
  by (induction ps s arbitrary: cs rule: regex_match.induct) (auto simp: Let_def split: if_splits list.splits)

lemma detail_captures:
  assumes "route_match detail_route verb path = Some cs"
  shows "\<exists>mid. cs = [mid]"
proof -
  have "case parse_pattern (rt_pattern detail_route) of None \<Rightarrow> False | Some ps \<Rightarrow> length (filter is_group ps) = 1"
    by code_simp
  then have "length cs = 1"
    using assms by (auto simp: route_match_def regex_match_length split: if_splits option.splits)
  then show ?thesis by (simp add: length_Suc_conv)
qed

definition read_names :: "string list" where
  "read_names =
     [''HandleDatasetSummary'', ''HandleDatasetTopK'', ''HandleDatasetTimeSeries'', ''HandleDatasetHistogram'',
      ''HandleGetDatasetMetricsSummary'', ''HandleModelEval'', ''HandleModelErrorDistribution'', ''HandleGetDatasetMetricStats'',
      ''HandleListDatasets'', ''HandleGetDataset'', ''HandleGetDatasetSamples'', ''HandleGetDatasetRecord'',
      ''HandleGetDatasetModels'', ''HandleListModels'', ''HandleGetModelScoredDatasets'', ''HandleListTrials'',
      ''HandleGetScores'', ''HandleListInferenceRuns'', ''HandleGetInferenceRun'', ''HandleListJobs'',
      ''HandleGetJobProgress'', ''HandleGetJobStatus'', ''HandleGetTrainStatus'', ''HandleHealthz'',
      ''HandleReadyz'', ''HandleMetrics'', ''HandleMetricsSchema'']"

lemma read_tables_names: "map fst (analytics_table @ listing_table @ status_table) = read_names"
  by (simp add: analytics_table_def listing_table_def status_table_def read_names_def)

lemma get_routes_checked:
  "list_all (\<lambda>r. rt_method r = ''GET'' \<longrightarrow> r = detail_route \<or> rt_handler_name r \<in> set read_names) registered_routes"
  by code_simp

lemma get_route:
  assumes "r \<in> set registered_routes" "rt_method r = ''GET''" "map_of handlers (rt_handler_name r) = Some h" "r \<noteq> detail_route"
  shows "reads_only a (h env cs req a)"
proof -
  let ?reads = "analytics_table @ listing_table @ status_table"
  have "rt_handler_name r \<in> set read_names"
    using get_routes_checked assms(1,2,4) unfolding list_all_iff by blast
  then have "rt_handler_name r \<in> dom (map_of ?reads)"
    unfolding read_tables_names [symmetric] set_map dom_map_of_conv_image_fst .
  moreover have "map_of handlers = map_of change_table ++ map_of ?reads"
    by (simp only: handlers_def map_of_append [symmetric] append_assoc)
  ultimately have "map_of ?reads (rt_handler_name r) = Some h"
    using assms(3) by (simp only: map_add_dom_app_simps(1))
  then have "(rt_handler_name r, h) \<in> set ?reads" by (rule map_of_SomeD)
  then show ?thesis using read_tables by auto
qed

text \<open>
  C12. \<^verbatim>\<open>GET\<close> requests are safe in the sense of HTTP, with one exception. Whatever path, parameters and failures: a \<^verbatim>\<open>GET\<close> request that
  reaches a handler leaves the tables, the jobs, the work handed over and the model cache as they were; only metrics are
  counted. The exception is \<^verbatim>\<open>GET /models/{id}\<close>: it stores the aggregates of the trials of that run, and then
  changes nothing but the row of the run with that identifier.
\<close>

theorem get_requests_safe:
  assumes "serve env ''GET'' path req a = Some (out, b)"
  shows "reads_only a (out, b) \<or> (\<exists>mid. route_match detail_route ''GET'' path = Some [mid] \<and> only_detail mid a b)"
  using assms
proof (cases rule: serve_cases)
  case (route r h cs)
  show ?thesis
  proof (cases "r = detail_route")
    case True
    with route(2) obtain mid where cs: "cs = [mid]" using detail_captures by blast
    have "map_of handlers (rt_handler_name detail_route) =
        Some (\<lambda>env cs req a. json_answer (HandleGetModelDetail (se_api env) (se_files env) req a))"
      by (simp add: handlers_def analytics_table_def listing_table_def status_table_def change_table_def detail_route_def route_def)
    then have "b = snd (HandleGetModelDetail (se_api env) (se_files env) (req\<lparr>hr_match := mid\<rparr>) a)"
      using route(3,4) True cs by (auto dest: arg_cong [where f = snd])
    then show ?thesis using detail_effect [of "req\<lparr>hr_match := mid\<rparr>" a] route(2) True cs by auto
  next
    case False
    have "rt_method r = ''GET''" using route(2) by (auto simp: route_match_def split: if_splits)
    from get_route [OF route(1) this route(3) False] show ?thesis using route(4) by metis
  qed
qed (simp add: reads_only_refl)

lemma find_route:
  assumes "r \<in> set registered_routes" "route_match r verb path = Some cs"
  shows "find (\<lambda>r. route_match r verb path \<noteq> None) registered_routes = Some r"
proof -
  have "find (\<lambda>r. route_match r verb path \<noteq> None) registered_routes \<noteq> None"
    using assms by (auto simp: find_None_iff)
  then obtain r' where r': "find (\<lambda>r. route_match r verb path \<noteq> None) registered_routes = Some r'" by auto
  then obtain i cs' where i: "i < length registered_routes" "r' = registered_routes ! i" "route_match r' verb path = Some cs'"
    unfolding find_Some_iff by auto
  obtain j where j: "j < length registered_routes" "r = registered_routes ! j"
    using assms(1) by (auto simp: in_set_conv_nth)
  have "i = j"
    using server_routes.unambiguous [OF i(1) j(1)] i j assms route_match_correct [OF server_routes.simple] nth_mem by blast
  then show ?thesis using r' i j by simp
qed

lemma serve_route:
  assumes "r \<in> set registered_routes" "route_match r verb path = Some cs" "verb \<noteq> ''OPTIONS''"
    "map_of handlers (rt_handler_name r) = Some h"
  shows "serve env verb path req a = Some (h env cs (req\<lparr>hr_match := (case cs of [] \<Rightarrow> '''' | c # _ \<Rightarrow> c)\<rparr>) a)"
  using assms(2-4) find_route [OF assms(1,2)] by (simp add: serve_def)

definition ex_server_env :: server_env where
  "ex_server_env = \<lparr>se_api = ex_api_env, se_infer = ex_infer_env, se_files = cv_artifacts ex_cache_env,
     se_analytics = \<lparr>nv_query = \<lambda>k. quiet_queries, nv_stod = \<lambda>s. None, nv_duration_ms = 0, nv_server_time = '''', nv_fault = None, nv_time_text = \<lambda>t. ''''\<rparr>,
     se_listing = id_listing, se_stod = \<lambda>s. None, se_generate = \<lambda>r. (Grpc_OK, ''u1''), se_get_run = \<lambda>i. Inl ''unavailable'',
     se_connection = Inr (), se_print = \<lambda>x. '''', se_registry = empty_registry\<rparr>"

definition ex_server :: api where
  "ex_server = Initialize (\<lambda>v. None) None 0 empty_db"

lemma ex_server_reachable: "reachable (server_init (\<lambda>v. None)) (server_step 128) ex_server"
proof (rule reachable_init)
  have "db_ok empty_db" by (rule run_store.init_inv) simp
  then show "server_init (\<lambda>v. None) ex_server"
    by (auto simp: server_init_def ex_server_def cache_args_def env_stoul_def)
qed

lemma ex_serve_cancel:
  "serve ex_server_env ''DELETE'' ''/jobs/j1'' ex_http_request a = Some (json_answer (HandleDeleteJob (ex_http_request\<lparr>hr_match := ''j1''\<rparr>) a))"
proof -
  let ?r = "route ''DELETE'' ''/jobs/([a-zA-Z0-9-]+)'' ''HandleDeleteJob''"
  have "?r \<in> set registered_routes" by (simp add: registered_routes_def)
  moreover have "route_match ?r ''DELETE'' ''/jobs/j1'' = Some [''j1'']" by code_simp
  moreover have "map_of handlers (rt_handler_name ?r) = Some (\<lambda>env cs req a. json_answer (HandleDeleteJob req a))"
    by (simp add: handlers_def analytics_table_def listing_table_def status_table_def change_table_def route_def)
  ultimately show ?thesis
    using serve_route [of ?r "''DELETE''" "''/jobs/j1''" "[''j1'']"] by simp
qed


theorem get_requests_safe_witness:
  "\<exists>resp. serve ex_server_env ''GET'' ''/healthz'' ex_http_request ex_server = Some (Returned (Json_answer resp), ex_server)
    \<and> rs_status resp = 200 \<and> reads_only ex_server (Returned (Json_answer resp), ex_server)"
proof -
  let ?r = "route ''GET'' ''/healthz'' ''HandleHealthz''"
  have "?r \<in> set registered_routes" by (simp add: registered_routes_def)
  moreover have "route_match ?r ''GET'' ''/healthz'' = Some []" by code_simp
  moreover have "map_of handlers (rt_handler_name ?r) = Some (\<lambda>env cs req a. json_answer (HandleHealthz a))"
    by (simp add: handlers_def analytics_table_def listing_table_def status_table_def change_table_def route_def)
  ultimately obtain resp where s: "serve ex_server_env ''GET'' ''/healthz'' ex_http_request ex_server = Some (Returned (Json_answer resp), ex_server)"
      "rs_status resp = 200"
    using serve_route [of ?r "''GET''" "''/healthz''" "[]"] by (simp add: HandleHealthz_def json_answer_def)
  have "route_match detail_route ''GET'' ''/healthz'' = None" by code_simp
  with get_requests_safe [OF s(1)] s show ?thesis by auto
qed

end
