(* ===== verification/Logging.thy ===== *)
theory Logging
  imports Json Iso_Time
begin

text \<open>
  Structured logging (\<^verbatim>\<open>src/src/obs/context.h\<close>, \<^verbatim>\<open>obs/logging.h\<close>, \<^verbatim>\<open>obs/http_log.h\<close>): the context of a thread, log events, timers
  and the scope object of an HTTP request. The state is that of one thread, with the lines it has
  written. A line is a JSON document; serialising one may fail (text that is not UTF-8), which is a parameter, as are the clocks.
\<close>

section \<open>The context of a thread\<close>

record Context =
  cx_request_id :: string
  cx_trace_id :: string
  cx_user_id :: string
  cx_dataset_id :: string
  cx_model_run_id :: string
  cx_inference_run_id :: string
  cx_score_job_id :: string

definition new_Context :: Context where
  "new_Context = \<lparr>cx_request_id = '''', cx_trace_id = '''', cx_user_id = '''', cx_dataset_id = '''', cx_model_run_id = '''',
     cx_inference_run_id = '''', cx_score_job_id = ''''\<rparr>"

datatype LogLevel = Info | Warn | Error

record obs =
  g_context :: Context
  g_context_set :: bool
  ob_lines :: "(LogLevel \<times> json) list"

definition SetContext :: "Context \<Rightarrow> obs \<Rightarrow> obs" where
  "SetContext ctx s = s\<lparr>g_context := ctx, g_context_set := True\<rparr>"

definition UpdateContext :: "Context \<Rightarrow> obs \<Rightarrow> obs" where
  "UpdateContext ctx s = s\<lparr>g_context := ctx, g_context_set := True\<rparr>"

definition ClearContext :: "obs \<Rightarrow> obs" where
  "ClearContext s = s\<lparr>g_context := new_Context, g_context_set := False\<rparr>"

text \<open>The constructor and the destructor of \<^verbatim>\<open>ScopedContext\<close>; the object holds what was there before.\<close>

definition enter_context :: "Context \<Rightarrow> obs \<Rightarrow> (Context \<times> bool) \<times> obs" where
  "enter_context ctx s = ((g_context s, g_context_set s), SetContext ctx s)"

definition leave_context :: "Context \<times> bool \<Rightarrow> obs \<Rightarrow> obs" where
  "leave_context prev s = (if snd prev then s\<lparr>g_context := fst prev, g_context_set := True\<rparr> else ClearContext s)"

section \<open>Events\<close>

record log_env =
  le_now :: "nat \<Rightarrow> time_point"
  le_elapsed_ms :: "nat \<Rightarrow> real"
  le_refused :: "json \<Rightarrow> cpp_exception option"

fun LevelToString :: "LogLevel \<Rightarrow> string" where
  "LevelToString Info = ''INFO''"
| "LevelToString Warn = ''WARN''"
| "LevelToString Error = ''ERROR''"

definition pad3 :: "int \<Rightarrow> string" where
  "pad3 n = [digit_char (nat (n div 100)), digit_char (nat (n div 10 mod 10)), digit_char (nat (n mod 10))]"

definition NowIso8601 :: "time_point \<Rightarrow> string" where
  "NowIso8601 now =
     put_time (gmtime (to_time_t now)) iso_format @ ''.'' @ pad3 ((now - from_time_t (to_time_t now)) div 1000000) @ ''Z''"

definition jset_nonempty :: "string \<Rightarrow> string \<Rightarrow> json \<Rightarrow> json" where
  "jset_nonempty k v j = (if v \<noteq> '''' then jset k (JStr v) j else j)"

definition context_fields :: "Context \<Rightarrow> json \<Rightarrow> json" where
  "context_fields ctx j =
     jset_nonempty ''score_job_id'' (cx_score_job_id ctx)
       (jset_nonempty ''inference_run_id'' (cx_inference_run_id ctx)
         (jset_nonempty ''model_run_id'' (cx_model_run_id ctx)
           (jset_nonempty ''dataset_id'' (cx_dataset_id ctx)
             (jset_nonempty ''user_id'' (cx_user_id ctx)
               (jset_nonempty ''trace_id'' (cx_trace_id ctx)
                 (jset_nonempty ''request_id'' (cx_request_id ctx) j))))))"

definition event_json :: "log_env \<Rightarrow> LogLevel \<Rightarrow> string \<Rightarrow> string \<Rightarrow> json \<Rightarrow> obs \<Rightarrow> json" where
  "event_json env level event component flds s =
     (let j = jset ''component'' (JStr component) (jset ''event'' (JStr event) (jset ''level'' (JStr (LevelToString level))
                (jset ''ts'' (JStr (NowIso8601 (le_now env (length (ob_lines s))))) flds)))
      in if g_context_set s then context_fields (g_context s) j else j)"

definition LogEvent :: "log_env \<Rightarrow> LogLevel \<Rightarrow> string \<Rightarrow> string \<Rightarrow> json \<Rightarrow> obs \<Rightarrow> cpp_exception option \<times> obs" where
  "LogEvent env level event component flds s =
     (let j = event_json env level event component flds s in
      case le_refused env j of
        Some e \<Rightarrow> (Some e, s)
      | None \<Rightarrow> (None, s\<lparr>ob_lines := ob_lines s @ [(level, j)]\<rparr>))"

text \<open>Assignment of the members of one object to another, in the order of the iterator.\<close>

definition merge_fields :: "(string \<times> json) list \<Rightarrow> json \<Rightarrow> json" where
  "merge_fields extra j = fold (\<lambda>(k, v). jset k v) extra j"

section \<open>Timers\<close>

record ScopedTimer =
  tm_event :: string
  tm_component :: string
  tm_fields :: json
  tm_stopped :: bool

definition Stop_timer :: "log_env \<Rightarrow> LogLevel \<Rightarrow> (string \<times> json) list \<Rightarrow> ScopedTimer \<Rightarrow> obs \<Rightarrow> cpp_exception option \<times> ScopedTimer \<times> obs" where
  "Stop_timer env level extra t s =
     (if tm_stopped t then (None, t, s)
      else
        case LogEvent env level (tm_event t) (tm_component t)
               (jset ''duration_ms'' (JReal (le_elapsed_ms env (length (ob_lines s)))) (merge_fields extra (tm_fields t))) s of
          (e, s1) \<Rightarrow> (e, t\<lparr>tm_stopped := True\<rparr>, s1))"

text \<open>The destructor stops a timer that still runs and swallows every exception.\<close>

definition destroy_timer :: "log_env \<Rightarrow> ScopedTimer \<Rightarrow> obs \<Rightarrow> obs" where
  "destroy_timer env t s = (if tm_stopped t then s else snd (snd (Stop_timer env Info [] t s)))"

section \<open>The scope of a request\<close>

record HttpRequestLogScope =
  hs_component :: string
  hs_fields :: json
  hs_error_logged :: bool

definition request_fields :: "string \<Rightarrow> string \<Rightarrow> string \<Rightarrow> (string \<times> json) list \<Rightarrow> json" where
  "request_fields path verb rid flds =
     merge_fields flds (jset_nonempty ''request_id'' rid (jset ''method'' (JStr verb) (jset ''route'' (JStr path) (JObj []))))"

definition AddFields :: "(string \<times> json) list \<Rightarrow> HttpRequestLogScope \<Rightarrow> HttpRequestLogScope" where
  "AddFields extra h = h\<lparr>hs_fields := merge_fields extra (hs_fields h)\<rparr>"

definition RecordError ::
  "log_env \<Rightarrow> string \<Rightarrow> string \<Rightarrow> int \<Rightarrow> HttpRequestLogScope \<Rightarrow> obs \<Rightarrow> cpp_exception option \<times> HttpRequestLogScope \<times> obs" where
  "RecordError env code message status h s =
     (if hs_error_logged h then (None, h, s)
      else
        case LogEvent env Error ''http_request_error'' (hs_component h)
               (jset ''error'' (JStr message) (jset ''error_code'' (JStr code)
                 (jset ''duration_ms'' (JReal (le_elapsed_ms env (length (ob_lines s)))) (jset ''status_code'' (JInt status) (hs_fields h))))) s of
          (Some e, s1) \<Rightarrow> (Some e, h, s1)
        | (None, s1) \<Rightarrow> (None, h\<lparr>hs_error_logged := True\<rparr>, s1))"

definition destroy_scope :: "log_env \<Rightarrow> int \<Rightarrow> HttpRequestLogScope \<Rightarrow> obs \<Rightarrow> cpp_exception option \<times> obs" where
  "destroy_scope env status h s =
     (if hs_error_logged h then (None, s)
      else LogEvent env Info ''http_request_end'' (hs_component h)
             (jset ''duration_ms'' (JReal (le_elapsed_ms env (length (ob_lines s)))) (jset ''status_code'' (JInt status) (hs_fields h))) s)"

text \<open>What a handler does with the scope, and the events it logs itself; it may also throw.\<close>

datatype log_action =
    Add_fields "(string \<times> json) list"
  | Record_error string string int
  | Log LogLevel string string json
  | Throw cpp_exception

fun run_actions :: "log_env \<Rightarrow> log_action list \<Rightarrow> HttpRequestLogScope \<Rightarrow> obs \<Rightarrow> cpp_exception option \<times> HttpRequestLogScope \<times> obs" where
  "run_actions env [] h s = (None, h, s)"
| "run_actions env (Add_fields extra # acts) h s = run_actions env acts (AddFields extra h) s"
| "run_actions env (Record_error code message status # acts) h s =
     (case RecordError env code message status h s of
        (Some e, h1, s1) \<Rightarrow> (Some e, h1, s1)
      | (None, h1, s1) \<Rightarrow> run_actions env acts h1 s1)"
| "run_actions env (Log level event component flds # acts) h s =
     (case LogEvent env level event component flds s of
        (Some e, s1) \<Rightarrow> (Some e, h, s1)
      | (None, s1) \<Rightarrow> run_actions env acts h s1)"
| "run_actions env (Throw e # acts) h s = (Some e, h, s)"

text \<open>
  A handler from the construction of the scope to its end. An exception of the constructor's log
  call restores the context and leaves no scope; one of the destructor's ends the process.
\<close>

definition http_request ::
  "log_env \<Rightarrow> string \<Rightarrow> string \<Rightarrow> string \<Rightarrow> string \<Rightarrow> log_action list \<Rightarrow> int \<Rightarrow> obs \<Rightarrow> unit outcome \<times> obs" where
  "http_request env component path verb rid acts status s =
     (case enter_context (new_Context\<lparr>cx_request_id := rid\<rparr>) s of (prev, s1) \<Rightarrow>
        let h = \<lparr>hs_component = component, hs_fields = request_fields path verb rid [], hs_error_logged = False\<rparr> in
        case LogEvent env Info ''http_request_start'' component (hs_fields h) s1 of
          (Some e, s2) \<Rightarrow> (Threw e, leave_context prev s2)
        | (None, s2) \<Rightarrow>
            (case run_actions env acts h s2 of (thrown, h3, s3) \<Rightarrow>
               case destroy_scope env status h3 s3 of
                 (Some e, s4) \<Rightarrow> (Terminated, s4)
               | (None, s4) \<Rightarrow> (case thrown of None \<Rightarrow> Returned () | Some e \<Rightarrow> Threw e, leave_context prev s4)))"

section \<open>Lines\<close>

definition event_of :: "json \<Rightarrow> string" where
  "event_of j = (case jat j ''event'' of Inr (JStr e) \<Rightarrow> e | _ \<Rightarrow> '''')"

definition closing :: "LogLevel \<times> json \<Rightarrow> bool" where
  "closing l \<longleftrightarrow> event_of (snd l) \<in> {''http_request_end'', ''http_request_error''}"

definition carries :: "string \<Rightarrow> LogLevel \<times> json \<Rightarrow> bool" where
  "carries rid l \<longleftrightarrow> rid = '''' \<or> jat (snd l) ''request_id'' = Inr (JStr rid)"

lemma jset_nonempty_other: "jis_object j \<Longrightarrow> jis_object (jset_nonempty k v j)" "jis_object j \<Longrightarrow> k' \<noteq> k \<Longrightarrow> jat (jset_nonempty k v j) k' = jat j k'"
  by (simp_all add: jset_nonempty_def del: jat_jset)

lemma event_json_event: "event_of (event_json env level event component flds s) = event"
  by (simp add: event_of_def event_json_def context_fields_def Let_def jset_nonempty_other del: jat_jset)

lemma event_json_carries:
  "g_context_set s \<Longrightarrow> carries (cx_request_id (g_context s)) (level, event_json env level event component flds s)"
  by (simp add: carries_def event_json_def context_fields_def Let_def jset_nonempty_other del: jat_jset)
    (simp add: jset_nonempty_def)

definition adds :: "obs \<Rightarrow> (LogLevel \<times> json) list \<Rightarrow> obs" where
  "adds s new = s\<lparr>ob_lines := ob_lines s @ new\<rparr>"

lemma adds_simps [simp]:
  "adds s [] = s" "adds (adds s xs) ys = adds s (xs @ ys)" "g_context (adds s xs) = g_context s"
  "g_context_set (adds s xs) = g_context_set s" "ob_lines (adds s xs) = ob_lines s @ xs"
  by (simp_all add: adds_def)

lemma LogEvent_cases:
  assumes "LogEvent env level event component flds s = (r, s')"
  obtains (refused) e where "r = Some e" "s' = s" "le_refused env \<noteq> (\<lambda>j. None)"
  | (written) j where "r = None" "s' = adds s [(level, j)]" "event_of j = event"
      "g_context_set s \<Longrightarrow> carries (cx_request_id (g_context s)) (level, j)"
proof (cases "le_refused env (event_json env level event component flds s)")
  case None
  with assms show thesis
    by (intro written [of "event_json env level event component flds s"])
      (simp_all add: LogEvent_def adds_def event_json_event event_json_carries)
next
  case (Some e)
  then have "le_refused env \<noteq> (\<lambda>j. None)" by (metis option.distinct(1))
  with assms Some show thesis by (intro refused [of e]) (simp_all add: LogEvent_def)
qed

text \<open>Lines of one request: all carry its identifier, and \<open>n\<close> of them close it.\<close>

definition request_lines :: "string \<Rightarrow> nat \<Rightarrow> (LogLevel \<times> json) list \<Rightarrow> bool" where
  "request_lines rid n new \<longleftrightarrow> list_all (carries rid) new \<and> length (filter closing new) = n"

lemma request_lines_append: "request_lines rid m xs \<Longrightarrow> request_lines rid n ys \<Longrightarrow> request_lines rid (m + n) (xs @ ys)"
  by (simp add: request_lines_def)

fun own_event :: "log_action \<Rightarrow> bool" where
  "own_event (Log level event component flds) = (event \<notin> {''http_request_end'', ''http_request_error''})"
| "own_event _ = True"

lemma RecordError_effect:
  assumes "RecordError env code message status h s = (r, h', s')" "g_context_set s"
  shows "\<exists>new. s' = adds s new \<and> request_lines (cx_request_id (g_context s)) (if hs_error_logged h' \<and> \<not> hs_error_logged h then 1 else 0) new
    \<and> (hs_error_logged h \<longrightarrow> hs_error_logged h') \<and> (r = None \<longrightarrow> hs_error_logged h')"
proof (cases "hs_error_logged h")
  case True
  with assms(1) show ?thesis
    by (intro exI [of _ "[]"]) (simp add: RecordError_def request_lines_def)
next
  case False
  obtain r1 s1 where l: "LogEvent env Error ''http_request_error'' (hs_component h)
      (jset ''error'' (JStr message) (jset ''error_code'' (JStr code)
        (jset ''duration_ms'' (JReal (le_elapsed_ms env (length (ob_lines s)))) (jset ''status_code'' (JInt status) (hs_fields h))))) s = (r1, s1)"
    by fastforce
  from l show ?thesis
  proof (cases rule: LogEvent_cases)
    case (refused e)
    with assms(1) False l show ?thesis by (intro exI [of _ "[]"]) (auto simp: RecordError_def request_lines_def)
  next
    case (written j)
    with assms False l show ?thesis
      by (intro exI [of _ "[(Error, j)]"]) (auto simp: RecordError_def request_lines_def closing_def)
  qed
qed

lemma run_actions_effect:
  assumes "run_actions env acts h s = (r, h', s')" "g_context_set s" "\<forall>x \<in> set acts. own_event x"
  shows "\<exists>new. s' = adds s new \<and> request_lines (cx_request_id (g_context s)) (if hs_error_logged h' \<and> \<not> hs_error_logged h then 1 else 0) new
    \<and> (hs_error_logged h \<longrightarrow> hs_error_logged h')"
  using assms
proof (induction env acts h s arbitrary: r h' s' rule: run_actions.induct)
  case (1 env h s)
  then show ?case by (intro exI [of _ "[]"]) (simp add: request_lines_def)
next
  case (2 env extra acts h s)
  then show ?case by (simp add: AddFields_def)
next
  case (3 env code message status acts h s)
  obtain r1 h1 s1 where e: "RecordError env code message status h s = (r1, h1, s1)" by (metis prod_cases3)
  from RecordError_effect [OF e "3.prems"(2)] obtain n1 where n1: "s1 = adds s n1"
      "request_lines (cx_request_id (g_context s)) (if hs_error_logged h1 \<and> \<not> hs_error_logged h then 1 else 0) n1"
      "hs_error_logged h \<longrightarrow> hs_error_logged h1" by blast
  show ?case
  proof (cases r1)
    case None
    have "run_actions env acts h1 s1 = (r, h', s')" "g_context_set s1" "\<forall>x \<in> set acts. own_event x" "g_context s1 = g_context s"
      using "3.prems" e None n1(1) by simp_all
    from "3.IH" [OF e [symmetric] None refl this(1-3), unfolded this(4)] obtain n2 where
        n2: "s' = adds s1 n2" "request_lines (cx_request_id (g_context s)) (if hs_error_logged h' \<and> \<not> hs_error_logged h1 then 1 else 0) n2"
        "hs_error_logged h1 \<longrightarrow> hs_error_logged h'" by blast
    then show ?thesis
      using n1 request_lines_append [OF n1(2) n2(2)]
      by (intro exI [of _ "n1 @ n2"]) (cases "hs_error_logged h"; cases "hs_error_logged h1"; simp)
  next
    case (Some x)
    with "3.prems" e n1 show ?thesis by (intro exI [of _ n1]) simp
  qed
next
  case (4 env level event component flds acts h s)
  obtain r1 s1 where e: "LogEvent env level event component flds s = (r1, s1)" by fastforce
  from e show ?case
  proof (cases rule: LogEvent_cases)
    case (refused x)
    with "4.prems" e show ?thesis by (intro exI [of _ "[]"]) (simp add: request_lines_def)
  next
    case (written j)
    have "run_actions env acts h s1 = (r, h', s')" "g_context_set s1" "\<forall>x \<in> set acts. own_event x" "g_context s1 = g_context s"
      using "4.prems" e written(1,2) by simp_all
    from "4.IH" [OF e [symmetric] written(1) this(1-3), unfolded this(4)] obtain n2 where
        n2: "s' = adds s1 n2" "request_lines (cx_request_id (g_context s)) (if hs_error_logged h' \<and> \<not> hs_error_logged h then 1 else 0) n2"
        "hs_error_logged h \<longrightarrow> hs_error_logged h'" by blast
    have "\<not> closing (level, j)" "carries (cx_request_id (g_context s)) (level, j)"
      using written(3,4) "4.prems"(2,3) by (auto simp: closing_def)
    then show ?thesis
      using n2 written(2) by (intro exI [of _ "(level, j) # n2"]) (simp add: request_lines_def)
  qed
next
  case (5 env x acts h s)
  then show ?case by (intro exI [of _ "[]"]) (simp add: request_lines_def)
qed

lemma destroy_scope_effect:
  assumes "destroy_scope env status h s = (r, t)" "le_refused env = (\<lambda>j. None)" "g_context_set s"
  shows "r = None \<and> (\<exists>e. t = adds s e \<and> request_lines (cx_request_id (g_context s)) (if hs_error_logged h then 0 else 1) e)"
proof (cases "hs_error_logged h")
  case True
  with assms show ?thesis by (auto simp: destroy_scope_def request_lines_def intro: exI [of _ "[]"])
next
  case False
  with assms have "LogEvent env Info ''http_request_end'' (hs_component h)
      (jset ''duration_ms'' (JReal (le_elapsed_ms env (length (ob_lines s)))) (jset ''status_code'' (JInt status) (hs_fields h))) s = (r, t)"
    by (simp add: destroy_scope_def)
  then show ?thesis
    by (cases rule: LogEvent_cases)
      (use assms False in \<open>auto simp: request_lines_def closing_def intro!: exI [of _ "[x]" for x]\<close>)
qed

lemma leave_context_adds [simp]: "ob_lines (leave_context p s) = ob_lines s"
  by (simp add: leave_context_def ClearContext_def)

text \<open>A thread that has no context has an empty one; this is how every thread starts.\<close>

definition context_ok :: "obs \<Rightarrow> bool" where
  "context_ok s \<longleftrightarrow> g_context_set s \<or> g_context s = new_Context"

lemma leave_restores:
  assumes "context_ok s" "enter_context ctx s = (prev, s1)"
  shows "g_context (leave_context prev t) = g_context s" "g_context_set (leave_context prev t) = g_context_set s"
    "g_context s1 = ctx" "g_context_set s1" "ob_lines s1 = ob_lines s"
  using assms by (auto simp: context_ok_def enter_context_def leave_context_def ClearContext_def SetContext_def)

text \<open>
  What the log shows of a request. Let a handler add fields, report errors, log events of its own (not the two that
  close a request) and throw, in any order. If every line can be written, the request leaves exactly one
  line that closes it; the first line is the start; all lines carry the request's identifier when it has one; and the process goes on. In any case, unless the line of the end itself
  cannot be written, which ends the process, the thread's context is what it was before the request.
\<close>

theorem request_logged_once:
  assumes "context_ok s" and "\<forall>x \<in> set acts. own_event x"
    and "http_request env component path verb rid acts status s = (out, s')"
  shows "(out \<noteq> Terminated \<longrightarrow> g_context s' = g_context s \<and> g_context_set s' = g_context_set s)
    \<and> (le_refused env = (\<lambda>j. None) \<longrightarrow> out \<noteq> Terminated \<and>
        (\<exists>start new. ob_lines s' = ob_lines s @ start # new \<and> event_of (snd start) = ''http_request_start''
           \<and> request_lines rid 1 (start # new)))"
proof -
  let ?ctx = "new_Context\<lparr>cx_request_id := rid\<rparr>"
  let ?h = "\<lparr>hs_component = component, hs_fields = request_fields path verb rid [], hs_error_logged = False\<rparr>"
  obtain prev s1 where enter: "enter_context ?ctx s = (prev, s1)" by fastforce
  note ctx = leave_restores [OF assms(1) enter]
  obtain r2 s2 where start: "LogEvent env Info ''http_request_start'' component (hs_fields ?h) s1 = (r2, s2)" by fastforce
  obtain thrown h3 s3 where run: "run_actions env acts ?h s2 = (thrown, h3, s3)" by (metis prod_cases3)
  obtain r4 s4 where final: "destroy_scope env status h3 s3 = (r4, s4)" by fastforce
  have eq: "http_request env component path verb rid acts status s =
      (case r2 of Some e \<Rightarrow> (Threw e, leave_context prev s2)
       | None \<Rightarrow> case r4 of Some e \<Rightarrow> (Terminated, s4) | None \<Rightarrow> (case thrown of None \<Rightarrow> Returned () | Some e \<Rightarrow> Threw e, leave_context prev s4))"
    using enter start run final by (simp add: http_request_def Let_def split: option.split)
  have restored: "g_context s' = g_context s \<and> g_context_set s' = g_context_set s" if "out \<noteq> Terminated"
    using that eq assms(3) ctx(1,2) by (auto split: option.splits)
  have "out \<noteq> Terminated \<and> (\<exists>start new. ob_lines s' = ob_lines s @ start # new \<and> event_of (snd start) = ''http_request_start''
           \<and> request_lines rid 1 (start # new))" if ok: "le_refused env = (\<lambda>j. None)"
  proof -
    from start ok obtain j where j: "r2 = None" "s2 = adds s1 [(Info, j)]" "event_of j = ''http_request_start''" "carries rid (Info, j)"
      by (cases rule: LogEvent_cases) (use ctx(3,4) in auto)
    with ctx(3,4) have "g_context_set s2" "cx_request_id (g_context s2) = rid" by simp_all
    with run_actions_effect [OF run _ assms(2)] obtain new where new: "s3 = adds s2 new"
        "request_lines rid (if hs_error_logged h3 then 1 else 0) new" by auto
    from destroy_scope_effect [OF final ok] new(1) \<open>g_context_set s2\<close> \<open>cx_request_id (g_context s2) = rid\<close>
    obtain e where e: "r4 = None" "s4 = adds s3 e" "request_lines rid (if hs_error_logged h3 then 0 else 1) e" by auto
    have "request_lines rid 0 [(Info, j)]"
      using j(3,4) by (simp add: request_lines_def closing_def)
    from request_lines_append [OF this request_lines_append [OF new(2) e(3)]]
    have "request_lines rid 1 ((Info, j) # new @ e)" by (simp split: if_splits)
    moreover have "s' = leave_context prev s4" "out \<noteq> Terminated"
      using eq assms(3) j(1) e(1) by (auto split: option.splits)
    ultimately show ?thesis
      using e(2) new(1) j(2,3) ctx(5) by (auto intro!: exI [of _ "(Info, j)"] exI [of _ "new @ e"])
  qed
  with restored show ?thesis by blast
qed

definition ex_log_env :: log_env where
  "ex_log_env = \<lparr>le_now = \<lambda>k. from_time_t (int k), le_elapsed_ms = \<lambda>k. 1, le_refused = \<lambda>j. None\<rparr>"

definition ex_obs :: obs where
  "ex_obs = \<lparr>g_context = new_Context, g_context_set = False, ob_lines = []\<rparr>"

theorem request_logged_once_witness:
  "\<exists>out s'. http_request ex_log_env ''api_server'' ''/jobs'' ''GET'' ''r1''
      [Log Warn ''slow'' ''db'' (JObj []), Record_error ''E'' ''failed'' 500, Record_error ''E'' ''again'' 500, Throw (Runtime_error ''x'')] 500 ex_obs = (out, s')
    \<and> out \<noteq> Terminated \<and> g_context s' = new_Context \<and> (\<exists>start new. ob_lines s' = start # new \<and> request_lines ''r1'' 1 (start # new))"
proof -
  let ?acts = "[Log Warn ''slow'' ''db'' (JObj []), Record_error ''E'' ''failed'' 500, Record_error ''E'' ''again'' 500, Throw (Runtime_error ''x'')]"
  obtain out s' where r: "http_request ex_log_env ''api_server'' ''/jobs'' ''GET'' ''r1'' ?acts 500 ex_obs = (out, s')" by fastforce
  have "context_ok ex_obs" "\<forall>x \<in> set ?acts. own_event x" "le_refused ex_log_env = (\<lambda>j. None)"
    by (simp_all add: context_ok_def ex_obs_def ex_log_env_def)
  with request_logged_once [OF _ _ r] have "out \<noteq> Terminated" "g_context s' = g_context ex_obs"
      "\<exists>start new. ob_lines s' = ob_lines ex_obs @ start # new \<and> request_lines ''r1'' 1 (start # new)" by blast+
  with r show ?thesis by (auto simp: ex_obs_def)
qed

section \<open>Timers log once\<close>

text \<open>However often a timer is stopped before it is destroyed, it logs once if its line can be written, and never twice.\<close>

lemma timer_once:
  assumes "Stop_timer env level extra t s = (r, t1, s1)"
  shows "Stop_timer env level' extra' t1 s2 = (None, t1, s2)" "destroy_timer env t1 s2 = s2"
    "\<not> tm_stopped t \<Longrightarrow> r = None \<Longrightarrow> \<exists>j. s1 = adds s [(level, j)] \<and> event_of j = tm_event t"
proof -
  have stopped: "tm_stopped t1"
    using assms by (auto simp: Stop_timer_def split: if_splits prod.splits)
  then show "Stop_timer env level' extra' t1 s2 = (None, t1, s2)" "destroy_timer env t1 s2 = s2"
    by (simp_all add: Stop_timer_def destroy_timer_def)
  show "\<exists>j. s1 = adds s [(level, j)] \<and> event_of j = tm_event t" if "\<not> tm_stopped t" "r = None"
    using assms that by (auto simp: Stop_timer_def split: prod.splits elim!: LogEvent_cases)
qed

end
