(* ===== verification/Partitions.thy ===== *)
theory Partitions
  imports Iso_Time
begin

text \<open>
  The monthly partitions of the telemetry table (\<^verbatim>\<open>DbClient::EnsurePartition\<close> in \<^verbatim>\<open>src/src/db_client.cpp\<close>, with the
  table of \<^verbatim>\<open>src/db/init.sql\<close>). The bounds are texts that the server reads as midnight, UTC; the lower
  bound belongs to the partition and the upper bound does not.
\<close>

section \<open>The operation\<close>

record part =
  pt_name :: string
  pt_from :: "int \<times> int"
  pt_to :: "int \<times> int"

text \<open>\<^verbatim>\<open>{:04d}\<close> and \<^verbatim>\<open>{:02d}\<close>; the two dates are kept as year and month, of which \<^verbatim>\<open>date_text\<close> is the text in the statement.\<close>

definition pad4 :: "int \<Rightarrow> string" where
  "pad4 n = replicate (4 - length (to_string n)) CHR ''0'' @ to_string n"

definition date_text :: "int \<times> int \<Rightarrow> string" where
  "date_text ym = pad4 (fst ym) @ ''-'' @ pad2 (snd ym) @ ''-01''"

definition partition_of :: "time_point \<Rightarrow> part" where
  "partition_of tp =
     (let t = gmtime (to_time_t tp);
          end_mon = tm_mon t + 2
      in \<lparr>pt_name = ''host_telemetry_archival_'' @ pad4 (tm_year t) @ ''_'' @ pad2 (tm_mon t + 1),
          pt_from = (tm_year t, tm_mon t + 1),
          pt_to = (if end_mon > 12 then (tm_year t + 1, 1) else (tm_year t, end_mon))\<rparr>)"

text \<open>\<^verbatim>\<open>CREATE TABLE IF NOT EXISTS\<close>; a failure of the server is logged and leaves the partitions as they are.\<close>

definition EnsurePartition :: "cpp_exception option \<Rightarrow> time_point \<Rightarrow> part list \<Rightarrow> part list" where
  "EnsurePartition fault tp ps =
     (case fault of
        Some e \<Rightarrow> ps
      | None \<Rightarrow> if pt_name (partition_of tp) \<in> set (map pt_name ps) then ps else ps @ [partition_of tp])"

section \<open>Months\<close>

definition month_secs :: "int \<times> int \<Rightarrow> int" where
  "month_secs ym = timegm \<lparr>tm_year = fst ym, tm_mon = snd ym - 1, tm_mday = 1, tm_hour = 0, tm_min = 0, tm_sec = 0\<rparr>"

definition in_part :: "int \<Rightarrow> part \<Rightarrow> bool" where
  "in_part secs p \<longleftrightarrow> month_secs (pt_from p) \<le> secs \<and> secs < month_secs (pt_to p)"

text \<open>Months are numbered from the year 0, so that the next month is the next number.\<close>

definition month_of :: "int \<Rightarrow> int \<times> int" where
  "month_of k = (k div 12, k mod 12 + 1)"

definition month_index :: "int \<Rightarrow> int" where
  "month_index secs = 12 * tm_year (gmtime secs) + tm_mon (gmtime secs)"

lemma year_start_mono: "year_start y + 365 \<le> year_start (y + 1)"
proof -
  have div400: "x div 400 = x div 100 div 4" for x :: int
    by (simp add: zdiv_zmult2_eq)
  define b b' where "b = y div 100" and "b' = (y + 1) div 100"
  define a a' where "a = y div 4" and "a' = (y + 1) div 4"
  have "a div 25 = b" "a' div 25 = b'"
    by (simp_all add: a_def a'_def b_def b'_def flip: zdiv_zmult2_eq)
  moreover have "a' = a \<or> a' = a + 1" "b' = b \<or> b' = b + 1"
    using div_bounds [of 4 y] div_bounds [of 4 "y + 1"] div_bounds [of 100 y] div_bounds [of 100 "y + 1"]
    unfolding a_def a'_def b_def b'_def by linarith+
  moreover have "b div 4 \<le> b' div 4" "b' = b \<Longrightarrow> b' div 4 = b div 4"
    unfolding b_def b'_def by (simp_all add: zdiv_mono1)
  ultimately have "a - b + b div 4 \<le> a' - b' + b' div 4"
    by (cases "b' = b") auto
  then show ?thesis
    unfolding year_start_def div400 a_def [symmetric] a'_def [symmetric] b_def [symmetric] b'_def [symmetric] distrib_left by linarith
qed

lemma split12: "0 \<le> r \<Longrightarrow> r < 12 \<Longrightarrow> (12 * y + r) div 12 = y \<and> (12 * y + r) mod 12 = r" for y r :: int
  by simp

lemma month_secs_of:
  "month_secs (month_of k) = (year_start ((k - 2) div 12) + month_start ((k - 2) mod 12) - 719468) * 86400"
proof -
  define y m where "y = k div 12" and "m = k mod 12"
  have k: "k = 12 * y + m" and m: "0 \<le> m" "m \<le> 11"
    by (simp_all add: y_def m_def)
  have "(k - 2) div 12 = (if m \<le> 1 then y - 1 else y) \<and> (k - 2) mod 12 = (m + 10) mod 12"
  proof (cases "m \<le> 1")
    case True
    then have "k - 2 = 12 * (y - 1) + (m + 10)" by (simp add: k)
    then show ?thesis using True m by (simp only: split12) simp
  next
    case False
    then have "k - 2 = 12 * y + (m - 2)" "(m + 10) mod 12 = m - 2" using m by (simp add: k, presburger)
    then show ?thesis using False m by (simp only: split12) simp
  qed
  then show ?thesis
    by (simp add: month_secs_def month_of_def timegm_def days_from_civil_def Let_def y_def [symmetric] m_def [symmetric])
qed

lemma month_secs_step: "month_secs (month_of k) < month_secs (month_of (k + 1))"
proof -
  define y q where "y = (k - 2) div 12" and "q = (k - 2) mod 12"
  have q: "0 \<le> q" "q \<le> 11" by (simp_all add: q_def)
  have k: "k + 1 - 2 = 12 * y + (q + 1)" by (simp add: y_def q_def)
  have "year_start y + month_start q < year_start ((k + 1 - 2) div 12) + month_start ((k + 1 - 2) mod 12)"
  proof (cases "q = 11")
    case True
    then have "(k + 1 - 2) div 12 = y + 1" "(k + 1 - 2) mod 12 = 0" unfolding k by simp_all
    then show ?thesis using year_start_mono [of y] True by (simp add: month_start_def)
  next
    case False
    then have "(k + 1 - 2) div 12 = y" "(k + 1 - 2) mod 12 = q + 1" using q unfolding k by simp_all
    moreover have "month_start q < month_start (q + 1)"
      using div_bounds [of 5 "153 * q + 2"] div_bounds [of 5 "153 * (q + 1) + 2"] unfolding month_start_def distrib_left by linarith
    ultimately show ?thesis by simp
  qed
  then show ?thesis unfolding month_secs_of y_def q_def by simp
qed

lemma month_secs_mono: "k < l \<Longrightarrow> month_secs (month_of k) < month_secs (month_of l)"
  by (induction rule: int_gr_induct) (auto intro: month_secs_step less_trans)

lemma gmtime_month:
  "month_secs (month_of (month_index secs)) \<le> secs \<and> secs < month_secs (month_of (month_index secs + 1))"
proof -
  define n where "n = secs div 86400 + 719468"
  define y where "y = march_year n"
  define doy where "doy = n - year_start y"
  define mp where "mp = (5 * doy + 2) div 153"
  have y: "year_start y \<le> n" "n < year_start (y + 1)" using march_year_bounds [of n] by (simp_all add: y_def)
  then have doy: "0 \<le> doy" "doy \<le> 365" using year_length [of y] by (simp_all add: doy_def)
  note mp = month_bounds [OF doy, folded mp_def]
  have idx: "month_index secs = 12 * y + mp + 2"
  proof -
    have "month_index secs = 12 * (if mp < 10 then y else y + 1) + (mp + 2) mod 12"
      unfolding month_index_def gmtime_def Let_def mp_def doy_def y_def n_def by simp
    moreover have "mp \<in> {0, 1, 2, 3, 4, 5, 6, 7, 8, 9, 10, 11}" using mp(1,2) by simp presburger
    ultimately show ?thesis by auto
  qed
  have here: "month_secs (month_of (month_index secs)) = (year_start y + month_start mp - 719468) * 86400"
    using mp(1,2) by (simp add: month_secs_of idx)
  define nxt where "nxt = (if mp = 11 then year_start (y + 1) else year_start y + month_start (mp + 1))"
  have "n < nxt"
  proof (cases "mp = 11")
    case False
    have "5 * doy + 2 \<le> 153 * mp + 152" using div_bounds [of 153 "5 * doy + 2"] by (simp add: mp_def)
    then have "doy < month_start (mp + 1)"
      using div_bounds [of 5 "153 * (mp + 1) + 2"] unfolding month_start_def distrib_left by linarith
    then show ?thesis using False by (simp add: doy_def nxt_def)
  qed (use y in \<open>simp add: nxt_def\<close>)
  moreover have "month_secs (month_of (month_index secs + 1)) =
      (nxt - 719468) * 86400"
  proof (cases "mp = 11")
    case True
    then have "(month_index secs + 1 - 2) = 12 * (y + 1)" by (simp add: idx)
    then show ?thesis using True unfolding month_secs_of by (simp add: month_start_def add.commute nxt_def)
  next
    case False
    then have "(month_index secs + 1 - 2) = 12 * y + (mp + 1)" "mp + 1 < 12" using mp(2) by (simp_all add: idx)
    then show ?thesis using False mp(1) split12 [of "mp + 1" y] by (simp only: month_secs_of) (simp add: nxt_def)
  qed
  moreover have "year_start y + month_start mp \<le> n" using mp(3) by (simp add: doy_def)
  moreover have "secs = (n - 719468) * 86400 + secs mod 86400" "0 \<le> secs mod 86400" "secs mod 86400 < 86400"
    by (simp_all add: n_def)
  ultimately show ?thesis unfolding here by auto
qed

section \<open>Which partition holds a time\<close>

lemma partition_months:
  "pt_from (partition_of tp) = month_of (month_index (to_time_t tp))" "pt_to (partition_of tp) = month_of (month_index (to_time_t tp) + 1)"
proof -
  let ?t = "gmtime (to_time_t tp)"
  have m: "0 \<le> tm_mon ?t" "tm_mon ?t \<le> 11" using gmtime_correct [of "to_time_t tp"] by (auto simp: valid_tm_def)
  then show "pt_from (partition_of tp) = month_of (month_index (to_time_t tp))"
    by (simp add: partition_of_def month_of_def month_index_def Let_def)
  show "pt_to (partition_of tp) = month_of (month_index (to_time_t tp) + 1)"
  proof (cases "tm_mon ?t = 11")
    case True
    then have "month_index (to_time_t tp) + 1 = 12 * (tm_year ?t + 1)" by (simp add: month_index_def)
    then show ?thesis using True by (simp add: partition_of_def month_of_def Let_def)
  next
    case False
    then have "month_index (to_time_t tp) + 1 = 12 * tm_year ?t + (tm_mon ?t + 1)" "tm_mon ?t + 1 < 12"
      using m by (simp_all add: month_index_def)
    then have "month_of (month_index (to_time_t tp) + 1) = (tm_year ?t, tm_mon ?t + 1 + 1)"
      using m split12 [of "tm_mon ?t + 1" "tm_year ?t"] by (simp only: month_of_def)
    then show ?thesis using m False by (simp add: partition_of_def Let_def)
  qed
qed

lemma in_partition: "in_part secs (partition_of tp) \<longleftrightarrow> month_index secs = month_index (to_time_t tp)"
proof -
  let ?k = "month_index (to_time_t tp)"
  have "month_index secs = ?k" if "month_secs (month_of ?k) \<le> secs" "secs < month_secs (month_of (?k + 1))"
  proof (rule ccontr)
    assume "month_index secs \<noteq> ?k"
    then consider "month_index secs + 1 \<le> ?k" | "?k + 1 \<le> month_index secs" by linarith
    then show False
    proof cases
      case 1
      then show False
        using month_secs_mono [of "month_index secs + 1" ?k] gmtime_month [of secs] that(1) by (cases "month_index secs + 1 = ?k") auto
    next
      case 2
      then show False
        using month_secs_mono [of "?k + 1" "month_index secs"] gmtime_month [of secs] that(2) by (cases "?k + 1 = month_index secs") auto
    qed
  qed
  then show ?thesis
    using gmtime_month [of secs] unfolding in_part_def partition_months by metis
qed

text \<open>
  The partition made for a time holds it; the partitions made for two times are the same or have no time in common; the
  partition of the following month begins where the one before ends. With no failure and no table of that name, a call
  adds this partition and keeps the others.
\<close>

lemma partitions_tile:
  "in_part (to_time_t tp) (partition_of tp)"
  "month_index (to_time_t tp) \<noteq> month_index (to_time_t tp') \<Longrightarrow> \<not> (in_part secs (partition_of tp) \<and> in_part secs (partition_of tp'))"
  "month_index (to_time_t tp') = month_index (to_time_t tp) + 1 \<Longrightarrow> pt_from (partition_of tp') = pt_to (partition_of tp)"
  "pt_name (partition_of tp) \<notin> set (map pt_name ps) \<Longrightarrow> EnsurePartition None tp ps = ps @ [partition_of tp]"
  by (simp_all add: in_partition partition_months EnsurePartition_def)

lemma EnsurePartition_keeps: "set ps \<subseteq> set (EnsurePartition fault tp ps)"
  by (cases fault) (simp_all add: EnsurePartition_def subset_insertI)

end
