(* ===== verification/Benchmark.thy ===== *)
theory Benchmark
  imports Scorer
begin

text \<open>
  The benchmark program \<^verbatim>\<open>src/src/benchmark_main.cpp\<close>: the detection pipeline of one host on generated records, without the
  gate of the scoring process. The clock at which a record is made is a parameter; the measured times are not modelled.
\<close>

definition mock_record :: "(int \<Rightarrow> time_point) \<Rightarrow> int \<Rightarrow> TelemetryRecord" where
  "mock_record now i =
     \<lparr>metric_timestamp = now i, ingestion_time = 0, tr_host_id = ''bench-host-1'', tr_project_id = '''', tr_region = '''',
      tr_cpu_usage = 50 + of_int (i mod 20), tr_memory_usage = 60, tr_disk_utilization = 30, tr_network_rx_rate = 100,
      tr_network_tx_rate = 50, tr_labels_json = '''', tr_run_id = ''bench-run'', tr_is_anomaly = False, tr_anomaly_type = ''''\<rparr>"

text \<open>A negative count is converted to a size that cannot be reserved.\<close>

definition GenerateMockData :: "(int \<Rightarrow> time_point) \<Rightarrow> int \<Rightarrow> TelemetryRecord list cpp" where
  "GenerateMockData now n =
     (if n < 0 then Inl (Runtime_error ''vector::reserve'') else Inr (map (\<lambda>k. mock_record now (int k)) [0..<nat n]))"

record bench =
  be_detector :: DetectorA
  be_alerts :: AlertManager
  be_found :: int

definition bench_config :: DetectorConfig where
  "bench_config = default_DetectorConfig\<lparr>dc_preprocessing := \<lparr>log1p_network = False\<rparr>\<rparr>"

text \<open>The body of the loop.\<close>

definition bench_step :: "(real \<Rightarrow> string) \<Rightarrow> PcaModel \<Rightarrow> TelemetryRecord \<Rightarrow> bench \<Rightarrow> unit outcome \<times> bench" where
  "bench_step print model r s =
     (let vec = Apply (dc_preprocessing bench_config) (FromRecord r) in
      case Update vec (be_detector s) of
        Returned (res_a, d) \<Rightarrow>
          (let s1 = s\<lparr>be_detector := d\<rparr> in
           or_throw (if loaded model then cbind (Score print vec model) (\<lambda>res_b. Inr (ps_is_anomaly res_b, if ps_is_anomaly res_b then reconstruction_error res_b else 0))
                     else Inr (False, 0)) s1 (\<lambda>(flag_b, score_b).
           let flag_a = as_is_anomaly res_a;
               (alerts, am) = Evaluate \<lparr>ev_host = tr_host_id r, ev_run = tr_run_id r, ev_ts = metric_timestamp r, ev_a_flag = flag_a,
                 ev_a_score = (if flag_a then max_z_score res_a else 0), ev_b_flag = flag_b, ev_b_score = score_b, ev_details = ''bench''\<rparr>
                 (be_alerts s1)
           in (Returned (), s1\<lparr>be_alerts := am, be_found := be_found s1 + (if alerts \<noteq> [] then 1 else 0)\<rparr>)))
      | Threw e \<Rightarrow> (Threw e, s)
      | Terminated \<Rightarrow> (Terminated, s)
      | Undefined \<Rightarrow> (Undefined, s))"

primrec bench_loop :: "(real \<Rightarrow> string) \<Rightarrow> PcaModel \<Rightarrow> TelemetryRecord list \<Rightarrow> bench \<Rightarrow> unit outcome \<times> bench" where
  "bench_loop print model [] s = (Returned (), s)"
| "bench_loop print model (r # rs) s =
     (case bench_step print model r s of
        (Returned _, s1) \<Rightarrow> bench_loop print model rs s1
      | (Threw e, s1) \<Rightarrow> (Threw e, s1)
      | (Terminated, s1) \<Rightarrow> (Terminated, s1)
      | (Undefined, s1) \<Rightarrow> (Undefined, s1))"

definition new_bench :: bench where
  "new_bench = \<lparr>be_detector = new_DetectorA (dc_window bench_config) (dc_outliers bench_config), be_alerts = new_AlertManager 2 600, be_found = 0\<rparr>"

text \<open>The process: exit code and the two numbers reported; an exception outside the load of the model ends it.\<close>

definition benchmark_main ::
  "artifact_env \<Rightarrow> (real \<Rightarrow> string) \<Rightarrow> (int \<Rightarrow> time_point) \<Rightarrow> string list \<Rightarrow> (int \<times> int \<times> int) outcome" where
  "benchmark_main files print now args =
     (case (case args of [] \<Rightarrow> Some 100000 | a # _ \<Rightarrow> stoi a) of
        None \<Rightarrow> Terminated
      | Some n \<Rightarrow>
          (case GenerateMockData now n of
             Inl e \<Rightarrow> Terminated
           | Inr records \<Rightarrow>
               (case Load files ''artifacts/pca/default/model.json'' (new_PcaModel, empty_registry) of
                  (Undefined, model, reg) \<Rightarrow> Undefined
                | (Terminated, model, reg) \<Rightarrow> Terminated
                | (_, model, reg) \<Rightarrow>
                    (case bench_loop print model records new_bench of
                       (Returned _, s) \<Rightarrow> Returned (0, n, be_found s)
                     | (Undefined, s) \<Rightarrow> Undefined
                     | _ \<Rightarrow> Terminated))))"

section \<open>Every record is processed\<close>

lemma bench_step_ends:
  assumes "usable model" "detector_ready (be_detector s)"
  shows "\<exists>t. bench_step print model r s = (Returned (), t) \<and> detector_ready (be_detector t) \<and> be_found s \<le> be_found t \<and> be_found t \<le> be_found s + 1"
proof -
  let ?vec = "Apply (dc_preprocessing bench_config) (FromRecord r)"
  obtain sc d where u: "Update ?vec (be_detector s) = Returned (sc, d)" "detector_ready d"
    using Update_ready [OF assms(2)] by blast
  have "length ?vec = kSize" by (simp add: Apply_def bench_config_def FromRecord_def kSize_def)
  then obtain res where "Score print ?vec model = Inr res"
    using usable_Score [OF assms(1)] by blast
  with u show ?thesis
    by (auto simp: bench_step_def Let_def split: prod.split)
qed

lemma bench_loop_ends:
  assumes "usable model" "detector_ready (be_detector s)"
  shows "\<exists>t. bench_loop print model rs s = (Returned (), t) \<and> be_found s \<le> be_found t \<and> be_found t \<le> be_found s + int (length rs)"
  using assms(2)
proof (induction rs arbitrary: s)
  case (Cons r rs)
  obtain s1 where s1: "bench_step print model r s = (Returned (), s1)" "detector_ready (be_detector s1)"
      "be_found s \<le> be_found s1" "be_found s1 \<le> be_found s + 1"
    using bench_step_ends [OF assms(1) Cons.prems] by blast
  with Cons.IH [OF s1(2)] show ?case by fastforce
qed simp

text \<open>Without a model the benchmark processes as many records as it is asked to and counts at most one alert for each.\<close>

theorem benchmark_counts:
  assumes "file_text files ''artifacts/pca/default/model.json'' = None" and "stoi a = Some n" and "0 \<le> n"
  shows "\<exists>found. benchmark_main files print now (a # rest) = Returned (0, n, found) \<and> 0 \<le> found \<and> found \<le> n"
proof -
  obtain e model reg where load: "Load files ''artifacts/pca/default/model.json'' (new_PcaModel, empty_registry) = (Threw e, model, reg)" "usable model"
    using assms(1) Load_loaded [of new_PcaModel] by (fastforce simp: Load_def Let_def usable_def new_PcaModel_def)
  have "detector_ready (be_detector new_bench)"
    by (simp add: detector_ready_def new_bench_def new_DetectorA_def bench_config_def scorer_config_def default_DetectorConfig_def)
  from bench_loop_ends [OF load(2) this, of print "map (\<lambda>k. mock_record now (int k)) [0..<nat n]"] obtain t where
      "bench_loop print model (map (\<lambda>k. mock_record now (int k)) [0..<nat n]) new_bench = (Returned (), t)" "0 \<le> be_found t" "be_found t \<le> n"
    using assms(3) by (auto simp: new_bench_def)
  with load assms(2,3) show ?thesis
    by (simp add: benchmark_main_def GenerateMockData_def)
qed

end
