(* ===== verification/Spec2Isabelle.thy ===== *)
theory Spec2Isabelle
  imports Job_Manager Db_Pool Alert_Manager Detector_A Pca_Trainer Model_Cache Hpo Run_Store Keyset Score_Job Scorer Generator_Writer Tuning Job_Reconciler Server Logging Partitions Programs Benchmark
begin

text \<open>
  Verification of the telemetry anomaly-detection system.

  The program (C++, under \<^verbatim>\<open>src/src\<close>) generates synthetic host telemetry, stores it in PostgreSQL, trains PCA models on it, scores
  datasets with the models and serves all of this over HTTP and gRPC; long operations run as background jobs whose
  state is kept in memory and in job tables. Three more programs run the detectors on simulated records, train from
  the command line, and measure the detectors.

  \<^bold>\<open>Foundations.\<close>
  \<^item> \<open>Prelude\<close>, \<open>Strings\<close>, \<open>Json\<close>: the C++ vocabulary: exceptions and outcomes as values, \<^verbatim>\<open>std::map\<close> as a key-sorted list,
    \<^verbatim>\<open>std::nth_element\<close>, \<^verbatim>\<open>std::stoul\<close>, JSON documents with their typed reads, reachable states and the locale
    \<open>inductive_invariant\<close> of transition systems, which every component with concurrent steps interprets.
  \<^item> \<open>Iso_Time\<close> (\<^verbatim>\<open>time_resolution.h\<close> and the time functions of \<^verbatim>\<open>generator.cpp\<close>): the UTC calendar, reading and printing of
    times, comparison windows; \<open>Partitions\<close> (\<^verbatim>\<open>DbClient::EnsurePartition\<close>): the monthly ranges tile the time line.
  \<^item> \<open>Metrics_Registry\<close> (\<^verbatim>\<open>metrics.h\<close>, \<^verbatim>\<open>obs/metrics.h\<close>): counters, gauges and histograms. \<open>Logging\<close> (\<^verbatim>\<open>obs/context.h\<close>, \<^verbatim>\<open>obs/logging.h\<close>,
    \<^verbatim>\<open>obs/http_log.h\<close>): contexts of a thread, events, timers and the scope of a request, which closes every request with
    one line and restores the context.

  \<^bold>\<open>Jobs, pool, store.\<close>
  \<^item> \<open>Job_State_Machine\<close>, \<open>Job_Manager\<close> (\<^verbatim>\<open>job_state_machine.*\<close>, \<^verbatim>\<open>job_manager.*\<close>): the life cycle of a job and the thread
    pool. Every critical section of the manager and the end of every worker is one step, in any order; the state has the job
    table, stop flags, threads and the ghost list of workers. \<open>Job_Reconciler\<close> (\<^verbatim>\<open>job_reconciler.*\<close>): the sweep at start-up and the sweeper thread.
  \<^item> \<open>Db_Pool\<close> (\<^verbatim>\<open>db_connection_manager.*\<close>): the bounded connection pool.
  \<^item> \<open>Run_Store\<close> (\<^verbatim>\<open>db_client.cpp\<close>): the tables of \<^verbatim>\<open>db/init.sql\<close> and the operations of \<^verbatim>\<open>DbClient\<close> that change them, each one transaction
    that a failure leaves without effect; keys and references stay valid. The locale \<open>cas_table\<close> is the contract of a
    status column changed by compare-and-swap. \<open>Analytics\<close> and \<open>Listings\<close>: the queries, as functions of the rows stored.
  \<^item> \<open>Keyset\<close> (\<^verbatim>\<open>training/telemetry_iterator.*\<close>, \<^verbatim>\<open>TrainPcaFromDb\<close>): batch-wise reading by record number; the locale
    \<open>keyset_source\<close> is met by the training iterator and by the scoring query.

  \<^bold>\<open>Detection and training.\<close>
  \<^item> \<open>Features\<close>, \<open>Alert_Manager\<close>, \<open>Detector_A\<close> (\<^verbatim>\<open>types.h\<close>, \<^verbatim>\<open>contract.h\<close>, \<^verbatim>\<open>preprocessing.*\<close>, \<^verbatim>\<open>alert_manager.*\<close>, \<^verbatim>\<open>detectors/detector_a.*\<close>): the
    streaming detector and the fusion of detector verdicts into alerts.
  \<^item> \<open>Linalg\<close>, \<open>Pca_Model\<close>, \<open>Pca_Trainer\<close>, \<open>Hpo\<close> (\<^verbatim>\<open>linalg/matrix.*\<close>, \<^verbatim>\<open>detectors/pca_model.*\<close>, \<^verbatim>\<open>training/pca_trainer.*\<close>): matrices and
    the Jacobi eigensolver, scoring and loading of models, training, hyper-parameter search. \<open>Model_Cache\<close> (\<^verbatim>\<open>pca_model_cache.*\<close>): the LRU
    cache of loaded models.
  \<^item> \<open>Generator\<close>, \<open>Generator_Run\<close>, \<open>Generator_Writer\<close> (\<^verbatim>\<open>generator.*\<close>): hosts and records, the main loop as the list of calls it makes, and the
    interleaving of these calls with the writer thread.
  \<^item> \<open>Scorer\<close> (\<^verbatim>\<open>scorer_main.cpp\<close>), \<open>Benchmark\<close> (\<^verbatim>\<open>benchmark_main.cpp\<close>), \<open>Programs\<close> (\<^verbatim>\<open>training/train_pca_main.cpp\<close> and the settings of the
    servers): the processes around the detectors and the trainer.

  \<^bold>\<open>Services.\<close>
  \<^item> \<open>Train_Job\<close>, \<open>Score_Job\<close>, \<open>Tuning\<close> (\<^verbatim>\<open>api_server.cpp\<close>): the functions that run as background jobs, from the claim of a row to its final status.
  \<^item> \<open>Api_Common\<close> and \<open>Api_Jobs\<close>, \<open>Api_Cancel\<close>, \<open>Api_Inference\<close>, \<open>Api_Models\<close>, \<open>Api_Analytics\<close>, \<open>Api_Listings\<close> (\<^verbatim>\<open>api_server.cpp\<close>): error classification,
    responses, and the handlers, each a function from the request and the state of the server (store, job manager, cache, metrics) to
    the response, exception or end of the process, and the new state.
  \<^item> \<open>Grpc_Service\<close> (\<^verbatim>\<open>server.*\<close>): the generator service and \<^verbatim>\<open>POST /datasets\<close>, which calls it.
  \<^item> \<open>Routes\<close> (\<^verbatim>\<open>route_registry.*\<close>): the two tables of routes and the meaning of their patterns; the locale
    \<open>route_table\<close> shows that a table without overlaps sends every request to one handler.
  \<^item> \<open>Server\<close> (\<^verbatim>\<open>ApiServer::Initialize\<close>): settings, start, and the whole server as the function \<open>serve\<close>. Every handler is a sequence of
    atomic steps of the components, so the invariants of store, job manager and cache hold together in every state
    the server reaches, with jobs and other processes between the steps.

  \<^bold>\<open>Conventions.\<close> Doubles are reals, so rounding and NaN are outside the model; \<^verbatim>\<open>int\<close> and \<^verbatim>\<open>long\<close> are integers except where the code converts
  between widths; \<^verbatim>\<open>size_t\<close> counters that are added up or decremented are 64-bit words. Time, identifiers made by the
  server, file contents, random draws, the order of a hash table, the order of rows that a query does not determine, and the
  failures of the network, the database server and the file system are parameters. Each component writes to its own
  copy of the process-wide metrics registry; the log lines of the components are left out.

  \<^bold>\<open>Bounds.\<close> Loops over containers are structural. The eviction loop of the cache is bounded by the number of entries. The loops over
  database batches, over the times of a generation run and over the rounds of a search take a number of rounds; for the
  batches one more than the number of rows, for the times one more than their number is proved to be enough, and results of
  the search hold for every number of rounds. The eigensolver has the iteration bound of the code.

  \<^bold>\<open>Not modelled.\<close> Listening and transport of HTTP and gRPC, static files and CORS headers, which the libraries do; the stored procedure of the
  retention cleanup; the text of SQL statements (their meaning is modelled); the wall-clock measurements printed by the
  programs; the web user interface.
\<close>

end
